(* ===== verification/CW_Prelude.thy ===== *)
theory CW_Prelude
  imports Main "HOL-Library.Word"
begin

text \<open>
  Shared vocabulary of the development: the machine integers and byte strings of the Rust
  sources, the \<open>Result\<close> type and its \<open>?\<close> operator, checked arithmetic, slices that fail out of
  range, the big-endian conversions of the standard library, and the generic lemmas the
  component theories rest on.
\<close>

unbundle bit_operations_syntax

named_theorems res_simps \<open>inversion of fallible computations\<close>
named_theorems be_simps \<open>big-endian conversions\<close>

section \<open>Machine integers, byte strings and results\<close>

type_synonym u8 = "8 word"
type_synonym u16 = "16 word"
type_synonym u32 = "32 word"
type_synonym u64 = "64 word"
type_synonym bytes = "u8 list"

text \<open>
  \<open>Result<T, E>\<close> is the sum type with \<open>Inl\<close> for \<open>Err\<close> and \<open>Inr\<close> for \<open>Ok\<close>. The \<open>?\<close> operator
  is \<open>res_bind\<close>: an error stops the computation and is returned unchanged.
\<close>

type_synonym ('e, 'a) result = "'e + 'a"

definition res_bind :: "('e, 'a) result \<Rightarrow> ('a \<Rightarrow> ('e, 'b) result) \<Rightarrow> ('e, 'b) result" where
  "res_bind m f = (case m of Inl e \<Rightarrow> Inl e | Inr x \<Rightarrow> f x)"

definition map_err :: "('e \<Rightarrow> 'f) \<Rightarrow> ('e, 'a) result \<Rightarrow> ('f, 'a) result" where
  "map_err h m = (case m of Inl e \<Rightarrow> Inl (h e) | Inr x \<Rightarrow> Inr x)"

definition map_ok :: "('a \<Rightarrow> 'b) \<Rightarrow> ('e, 'a) result \<Rightarrow> ('e, 'b) result" where
  "map_ok h m = (case m of Inl e \<Rightarrow> Inl e | Inr x \<Rightarrow> Inr (h x))"

definition ok_or :: "'a option \<Rightarrow> 'e \<Rightarrow> ('e, 'a) result" where
  "ok_or x e = (case x of None \<Rightarrow> Inl e | Some v \<Rightarrow> Inr v)"

lemma res_bind_Inl [simp]: "res_bind (Inl e) f = Inl e"
  by (simp add: res_bind_def)

lemma res_bind_Inr [simp]: "res_bind (Inr x) f = f x"
  by (simp add: res_bind_def)

lemma res_bind_eq_Inr [res_simps]:
  "res_bind m f = Inr y \<longleftrightarrow> (\<exists>x. m = Inr x \<and> f x = Inr y)"
  by (cases m) auto

lemma res_bind_eq_Inl [res_simps]:
  "res_bind m f = Inl e \<longleftrightarrow> m = Inl e \<or> (\<exists>x. m = Inr x \<and> f x = Inl e)"
  by (cases m) auto

lemma map_err_simps [simp]: "map_err h (Inl e) = Inl (h e)" "map_err h (Inr x) = Inr x"
  by (simp_all add: map_err_def)

lemma map_ok_simps [simp]: "map_ok h (Inl e) = Inl e" "map_ok h (Inr x) = Inr (h x)"
  by (simp_all add: map_ok_def)

lemma ok_or_simps [simp]: "ok_or None e = Inl e" "ok_or (Some v) e = Inr v"
  by (simp_all add: ok_or_def)

lemma map_err_eq_Inr [res_simps]: "map_err h m = Inr y \<longleftrightarrow> m = Inr y"
  by (cases m) auto

lemma map_ok_eq_Inr [res_simps]: "map_ok h m = Inr y \<longleftrightarrow> (\<exists>x. m = Inr x \<and> y = h x)"
  by (cases m) auto

lemma ok_or_eq_Inr [res_simps]: "ok_or x e = Inr y \<longleftrightarrow> x = Some y"
  by (cases x) auto

lemma ok_or_eq_Inl [res_simps]: "ok_or x e = Inl e' \<longleftrightarrow> x = None \<and> e' = e"
  by (cases x) auto

lemma guard_Inr: "(if b then Inl e else x) = Inr y \<longleftrightarrow> \<not> b \<and> x = Inr y"
  by simp

section \<open>Checked arithmetic\<close>

definition u64_max :: nat where
  "u64_max = 18446744073709551615"

definition checked_add :: "u64 \<Rightarrow> u64 \<Rightarrow> u64 option" where
  "checked_add a b = (if unat a + unat b \<le> u64_max then Some (a + b) else None)"

lemma unat_u8_less [simp]: "unat (b :: u8) < 256"
  using unsigned_less [of b, where ?'a = nat] by simp

lemma unat_u64_le_max: "unat (a :: u64) \<le> u64_max"
  using unsigned_less [of a, where ?'a = nat] by (simp add: u64_max_def)

lemma checked_add_eq_Some:
  "checked_add a b = Some c \<longleftrightarrow> unat c = unat a + unat b"
proof
  assume "checked_add a b = Some c"
  then show "unat c = unat a + unat b"
    by (auto simp: checked_add_def u64_max_def unat_word_ariths split: if_splits)
next
  assume *: "unat c = unat a + unat b"
  then have "unat a + unat b \<le> u64_max"
    using unat_u64_le_max [of c] by simp
  moreover from * have "a + b = c"
    by (metis of_nat_add of_nat_unat ucast_id)
  ultimately show "checked_add a b = Some c"
    by (simp add: checked_add_def)
qed

lemma checked_add_eq_None:
  "checked_add a b = None \<longleftrightarrow> u64_max < unat a + unat b"
  by (auto simp: checked_add_def)

text \<open>\<open>u8::try_from\<close> and \<open>u32::try_from\<close> on a \<open>u64\<close>.\<close>

definition u8_try_from :: "u64 \<Rightarrow> u8 option" where
  "u8_try_from v = (if v \<le> 0xff then Some (ucast v) else None)"

definition u32_try_from :: "u64 \<Rightarrow> u32 option" where
  "u32_try_from v = (if v \<le> 0xffffffff then Some (ucast v) else None)"

lemma u8_try_from_iff: "u8_try_from v = Some b \<longleftrightarrow> v = ucast b"
proof
  assume "u8_try_from v = Some b"
  then have "v \<le> 0xff" "b = ucast v" by (simp_all add: u8_try_from_def split: if_splits)
  then show "v = ucast b"
    by (simp add: word_unat_eq_iff unsigned_ucast_eq unsigned_take_bit_eq
        take_bit_nat_eq_self word_le_nat_alt)
next
  assume v: "v = ucast b"
  have "(ucast (ucast b :: u64) :: u8) = b"
    by (rule bit_word_eqI) (simp add: bit_simps)
  moreover have "unat b < 2 ^ 64"
    by (rule less_trans [OF unat_u8_less]) simp
  then have "(ucast b :: u64) \<le> 0xff"
    using unat_u8_less [of b] unfolding word_le_nat_alt
    by (simp add: unsigned_ucast_eq take_bit_nat_def del: unat_u8_less)
  ultimately show "u8_try_from v = Some b"
    by (simp add: u8_try_from_def v)
qed

lemma u32_try_from_iff: "u32_try_from v = Some b \<longleftrightarrow> v = ucast b"
proof
  assume "u32_try_from v = Some b"
  then have "v \<le> 0xffffffff" "b = ucast v" by (simp_all add: u32_try_from_def split: if_splits)
  then show "v = ucast b"
    by (simp add: word_unat_eq_iff unsigned_ucast_eq unsigned_take_bit_eq
        take_bit_nat_eq_self word_le_nat_alt)
next
  assume v: "v = ucast b"
  have "(ucast (ucast b :: u64) :: u32) = b"
    by (rule bit_word_eqI) (simp add: bit_simps)
  moreover have u: "unat b < 4294967296"
    using unsigned_less [of b, where ?'a = nat] by simp
  then have "(ucast b :: u64) \<le> 0xffffffff"
    unfolding word_le_nat_alt by (simp add: unsigned_ucast_eq take_bit_nat_def)
  ultimately show "u32_try_from v = Some b"
    by (simp add: u32_try_from_def v)
qed

section \<open>Slices\<close>

text \<open>\<open>bytes.get(i)\<close> and \<open>bytes.get(i..j)\<close>: \<open>None\<close> out of range.\<close>

definition get_at :: "'a list \<Rightarrow> nat \<Rightarrow> 'a option" where
  "get_at xs i = (if i < length xs then Some (xs ! i) else None)"

definition get_range :: "'a list \<Rightarrow> nat \<Rightarrow> nat \<Rightarrow> 'a list option" where
  "get_range xs i j = (if i \<le> j \<and> j \<le> length xs then Some (take (j - i) (drop i xs)) else None)"

lemma get_at_eq_Some: "get_at xs i = Some x \<longleftrightarrow> i < length xs \<and> xs ! i = x"
  by (auto simp: get_at_def)

lemma get_range_eq_Some:
  "get_range xs i j = Some ys \<longleftrightarrow> i \<le> j \<and> j \<le> length xs \<and> ys = take (j - i) (drop i xs)"
  by (auto simp: get_range_def)

section \<open>Big-endian conversions\<close>

text \<open>
  \<open>to_be_bytes\<close> and \<open>from_be_bytes\<close> for every width go through the value: \<open>be_bytes n v\<close> is the
  \<open>n\<close>-byte big-endian form of \<open>v\<close> (modulo \<open>256 ^ n\<close>) and \<open>be_val\<close> reads a byte string.
\<close>

primrec be_bytes :: "nat \<Rightarrow> nat \<Rightarrow> bytes" where
  "be_bytes 0 v = []"
| "be_bytes (Suc n) v = be_bytes n (v div 256) @ [of_nat (v mod 256)]"

definition be_val :: "bytes \<Rightarrow> nat" where
  "be_val bs = foldl (\<lambda>acc b. acc * 256 + unat b) 0 bs"

definition u16_to_be_bytes :: "u16 \<Rightarrow> bytes" where
  "u16_to_be_bytes v = be_bytes 2 (unat v)"

definition u32_to_be_bytes :: "u32 \<Rightarrow> bytes" where
  "u32_to_be_bytes v = be_bytes 4 (unat v)"

definition u64_to_be_bytes :: "u64 \<Rightarrow> bytes" where
  "u64_to_be_bytes v = be_bytes 8 (unat v)"

definition u16_from_be_bytes :: "bytes \<Rightarrow> u16" where
  "u16_from_be_bytes bs = of_nat (be_val bs)"

definition u32_from_be_bytes :: "bytes \<Rightarrow> u32" where
  "u32_from_be_bytes bs = of_nat (be_val bs)"

definition u64_from_be_bytes :: "bytes \<Rightarrow> u64" where
  "u64_from_be_bytes bs = of_nat (be_val bs)"

lemma length_be_bytes [simp]: "length (be_bytes n v) = n"
  by (induction n arbitrary: v) auto

lemma be_val_Nil [simp]: "be_val [] = 0"
  by (simp add: be_val_def)

lemma be_val_snoc [simp]: "be_val (bs @ [b]) = be_val bs * 256 + unat b"
  by (simp add: be_val_def)

lemma unat_of_nat_u8 [simp]: "unat (of_nat n :: u8) = n mod 256"
  by (simp add: unat_of_nat)

lemma be_val_less: "be_val bs < 256 ^ length bs"
proof (induction bs rule: rev_induct)
  case Nil
  then show ?case by simp
next
  case (snoc b bs)
  have "be_val bs * 256 + unat b < be_val bs * 256 + 256"
    by simp
  also have "\<dots> = (be_val bs + 1) * 256"
    by simp
  also have "\<dots> \<le> 256 ^ length bs * 256"
    using snoc.IH by (intro mult_le_mono1) simp
  finally show ?case by simp
qed

lemma be_val_be_bytes [be_simps]: "be_val (be_bytes n v) = v mod 256 ^ n"
proof (induction n arbitrary: v)
  case 0
  then show ?case by simp
next
  case (Suc n)
  then have "be_val (be_bytes (Suc n) v) = (v div 256 mod 256 ^ n) * 256 + v mod 256"
    by simp
  also have "\<dots> = v mod (256 * 256 ^ n)"
    by (simp add: mod_mult2_eq)
  finally show ?case by simp
qed

lemma be_bytes_be_val [be_simps]: "be_bytes (length bs) (be_val bs) = bs"
proof (induction bs rule: rev_induct)
  case Nil
  then show ?case by simp
next
  case (snoc b bs)
  have "(be_val bs * 256 + unat b) div 256 = be_val bs"
    by (simp add: div_mult_self3)
  moreover have "(of_nat ((be_val bs * 256 + unat b) mod 256) :: u8) = b"
    by (simp add: mod_mult_self3)
  ultimately show ?case
    using snoc.IH by simp
qed

lemma u16_be_roundtrip [simp]: "u16_from_be_bytes (u16_to_be_bytes v) = v"
  using unsigned_less [of v, where ?'a = nat]
  by (simp add: u16_from_be_bytes_def u16_to_be_bytes_def be_simps)

lemma u32_be_roundtrip [simp]: "u32_from_be_bytes (u32_to_be_bytes v) = v"
  using unsigned_less [of v, where ?'a = nat]
  by (simp add: u32_from_be_bytes_def u32_to_be_bytes_def be_simps)

lemma u64_be_roundtrip [simp]: "u64_from_be_bytes (u64_to_be_bytes v) = v"
  using unsigned_less [of v, where ?'a = nat]
  by (simp add: u64_from_be_bytes_def u64_to_be_bytes_def be_simps)

lemma unat_u16_from_be: "length bs = 2 \<Longrightarrow> unat (u16_from_be_bytes bs) = be_val bs"
  using be_val_less [of bs] by (simp add: u16_from_be_bytes_def unat_of_nat)

lemma unat_u32_from_be: "length bs = 4 \<Longrightarrow> unat (u32_from_be_bytes bs) = be_val bs"
  using be_val_less [of bs] by (simp add: u32_from_be_bytes_def unat_of_nat)

lemma unat_u64_from_be: "length bs = 8 \<Longrightarrow> unat (u64_from_be_bytes bs) = be_val bs"
  using be_val_less [of bs] by (simp add: u64_from_be_bytes_def unat_of_nat)

lemma u16_to_from_be: "length bs = 2 \<Longrightarrow> u16_to_be_bytes (u16_from_be_bytes bs) = bs"
  using be_bytes_be_val [of bs] by (simp add: u16_to_be_bytes_def unat_u16_from_be)

lemma u32_to_from_be: "length bs = 4 \<Longrightarrow> u32_to_be_bytes (u32_from_be_bytes bs) = bs"
  using be_bytes_be_val [of bs] by (simp add: u32_to_be_bytes_def unat_u32_from_be)

lemma u64_to_from_be: "length bs = 8 \<Longrightarrow> u64_to_be_bytes (u64_from_be_bytes bs) = bs"
  using be_bytes_be_val [of bs] by (simp add: u64_to_be_bytes_def unat_u64_from_be)

lemma length_u_to_be [simp]:
  "length (u16_to_be_bytes a) = 2" "length (u32_to_be_bytes b) = 4" "length (u64_to_be_bytes c) = 8"
  by (simp_all add: u16_to_be_bytes_def u32_to_be_bytes_def u64_to_be_bytes_def)

lemma u64_to_be_bytes_inject [simp]: "u64_to_be_bytes a = u64_to_be_bytes b \<longleftrightarrow> a = b"
  by (metis u64_be_roundtrip)

section \<open>Byte-wise comparison\<close>

text \<open>
  SQLite compares \<open>BLOB\<close> values with \<open>memcmp\<close>, a proper prefix being smaller. On 8-byte
  big-endian integers that is the numeric order, which is what the stored expiry times rely on.
\<close>

fun blob_le :: "bytes \<Rightarrow> bytes \<Rightarrow> bool" where
  "blob_le [] ys = True"
| "blob_le (x # xs) [] = False"
| "blob_le (x # xs) (y # ys) = (x < y \<or> (x = y \<and> blob_le xs ys))"

lemma be_val_Cons: "be_val (b # bs) = unat b * 256 ^ length bs + be_val bs"
proof (induction bs rule: rev_induct)
  case Nil
  then show ?case by (simp add: be_val_def)
next
  case (snoc c bs)
  have "be_val (b # bs @ [c]) = be_val (b # bs) * 256 + unat c"
    using be_val_snoc [of "b # bs" c] by simp
  with snoc.IH show ?case
    by (simp add: algebra_simps)
qed

lemma blob_le_be_val:
  "length xs = length ys \<Longrightarrow> blob_le xs ys \<longleftrightarrow> be_val xs \<le> be_val ys"
proof (induction xs ys rule: blob_le.induct)
  case (3 x xs y ys)
  then have len: "length xs = length ys" by simp
  let ?B = "256 ^ length ys :: nat"
  have bx: "be_val xs < ?B" and by': "be_val ys < ?B"
    using be_val_less [of xs] be_val_less [of ys] len by simp_all
  have lt: "a * ?B + be_val xs < c * ?B" if "a < c" for a c :: nat
  proof -
    have "a * ?B + be_val xs < (a + 1) * ?B" using bx by simp
    also have "\<dots> \<le> c * ?B" using that by (intro mult_le_mono1) simp
    finally show ?thesis .
  qed
  have gt: "c * ?B + be_val ys < a * ?B" if "c < a" for a c :: nat
  proof -
    have "c * ?B + be_val ys < (c + 1) * ?B" using by' by simp
    also have "\<dots> \<le> a * ?B" using that by (intro mult_le_mono1) simp
    finally show ?thesis .
  qed
  consider "unat x < unat y" | "x = y" | "unat y < unat x"
    by (metis linorder_neqE_nat word_unat_eq_iff)
  then show ?case
  proof cases
    case 1
    then show ?thesis
      using lt [OF 1] len by (simp add: be_val_Cons word_less_nat_alt)
  next
    case 2
    then show ?thesis
      using "3.IH" len by (simp add: be_val_Cons)
  next
    case 3
    then show ?thesis
      using gt [OF 3] len by (auto simp: be_val_Cons word_less_nat_alt)
  qed
qed auto

lemma be_val_u64 [simp]: "be_val (u64_to_be_bytes a) = unat a"
  using unsigned_less [of a, where ?'a = nat] by (simp add: u64_to_be_bytes_def be_simps)

lemma blob_le_u64 [simp]: "blob_le (u64_to_be_bytes a) (u64_to_be_bytes b) \<longleftrightarrow> a \<le> b"
  by (simp add: blob_le_be_val word_le_nat_alt)

lemma distinct_key_eq: "distinct (map f xs) \<Longrightarrow> x \<in> set xs \<Longrightarrow> y \<in> set xs \<Longrightarrow> f x = f y \<Longrightarrow> x = y"
  by (simp add: distinct_map inj_on_def)

lemma distinct_append_key:
  "distinct (map f (xs @ ys)) \<Longrightarrow> x \<in> set xs \<Longrightarrow> y \<in> set ys \<Longrightarrow> f x \<noteq> f y"
  by (auto simp: disjoint_iff)

text \<open>The bytes of an ASCII literal.\<close>

definition ascii :: "string \<Rightarrow> bytes" where
  "ascii s = map (\<lambda>c. of_nat (of_char c)) s"

lemma length_ascii [simp]: "length (ascii s) = length s"
  by (simp add: ascii_def)

end
