(* ===== verification/CW_Types.thy ===== *)
theory CW_Types
  imports CW_Prelude
begin

text \<open>
  The transport-independent protocol types of \<open>crates/cofferwire-types\<close> (the queue-v1 part):
  identifiers, validated scalars, the command and status registries, the request and response
  bodies, with the invariants their constructors establish as \<open>wf\<close> predicates.
\<close>

section \<open>Protocol bounds\<close>

definition MAX_FRAME_BYTES :: nat where
  "MAX_FRAME_BYTES = 65536"

definition MAX_AUTH_BYTES :: nat where
  "MAX_AUTH_BYTES = 1024"

definition MAX_MESSAGE_BYTES :: nat where
  "MAX_MESSAGE_BYTES = 64374"

lemmas protocol_bounds = MAX_FRAME_BYTES_def MAX_AUTH_BYTES_def MAX_MESSAGE_BYTES_def

section \<open>Construction errors\<close>

datatype TypeError =
    ReservedVersion
  | ZeroValue string
  | TooLarge string u64 u64
  | SuccessStatusForErrorResponse
  | UnknownDiscriminant string u8

section \<open>Identifiers\<close>

text \<open>
  The newtypes of \<open>bounded_id!\<close> wrap a fixed-size array. The model wraps a byte list; the array
  length is the \<open>wf\<close> predicate, which every value built by the code satisfies.
\<close>

datatype RequestId = RequestId (RequestId_bytes: bytes)
datatype QueueId = QueueId (QueueId_bytes: bytes)
datatype MessageId = MessageId (MessageId_bytes: bytes)
datatype Principal = Principal (Principal_bytes: bytes)

definition wf_RequestId :: "RequestId \<Rightarrow> bool" where
  "wf_RequestId i \<longleftrightarrow> length (RequestId_bytes i) = 16"

definition wf_QueueId :: "QueueId \<Rightarrow> bool" where
  "wf_QueueId i \<longleftrightarrow> length (QueueId_bytes i) = 32"

definition wf_MessageId :: "MessageId \<Rightarrow> bool" where
  "wf_MessageId i \<longleftrightarrow> length (MessageId_bytes i) = 32"

definition wf_Principal :: "Principal \<Rightarrow> bool" where
  "wf_Principal i \<longleftrightarrow> length (Principal_bytes i) = 32"

lemmas wf_id_defs = wf_RequestId_def wf_QueueId_def wf_MessageId_def wf_Principal_def

section \<open>Version, time and lifetimes\<close>

datatype Version = Version (Version_as_u8: u8)

definition Version_new :: "u8 \<Rightarrow> (TypeError, Version) result" where
  "Version_new value = (if value = 0 then Inl ReservedVersion else Inr (Version value))"

datatype Timestamp = Timestamp (Timestamp_as_secs: u64)

datatype Ttl = Ttl (Ttl_as_secs: u64)

definition Timestamp_checked_add :: "Timestamp \<Rightarrow> Ttl \<Rightarrow> Timestamp option" where
  "Timestamp_checked_add now ttl =
     (case checked_add (Timestamp_as_secs now) (Ttl_as_secs ttl) of
        Some value \<Rightarrow> Some (Timestamp value)
      | None \<Rightarrow> None)"

instantiation Timestamp :: linorder
begin

definition less_eq_Timestamp :: "Timestamp \<Rightarrow> Timestamp \<Rightarrow> bool" where
  "less_eq_Timestamp a b \<longleftrightarrow> Timestamp_as_secs a \<le> Timestamp_as_secs b"

definition less_Timestamp :: "Timestamp \<Rightarrow> Timestamp \<Rightarrow> bool" where
  "less_Timestamp a b \<longleftrightarrow> Timestamp_as_secs a < Timestamp_as_secs b"

instance
  by standard (auto simp: less_eq_Timestamp_def less_Timestamp_def Timestamp.expand)

end

lemma Timestamp_le [simp]: "Timestamp a \<le> Timestamp b \<longleftrightarrow> a \<le> b"
  by (simp add: less_eq_Timestamp_def)

lemma Timestamp_less [simp]: "Timestamp a < Timestamp b \<longleftrightarrow> a < b"
  by (simp add: less_Timestamp_def)

section \<open>Payload, auth and queue limits\<close>

datatype Payload = Payload (Payload_bytes: bytes)

definition Payload_new :: "bytes \<Rightarrow> (TypeError, Payload) result" where
  "Payload_new bs =
     (if length bs > MAX_MESSAGE_BYTES
      then Inl (TooLarge ''payload'' (of_nat MAX_MESSAGE_BYTES) (of_nat (length bs)))
      else Inr (Payload bs))"

definition wf_Payload :: "Payload \<Rightarrow> bool" where
  "wf_Payload p \<longleftrightarrow> length (Payload_bytes p) \<le> MAX_MESSAGE_BYTES"

datatype Auth = Auth (Auth_bytes: bytes)

definition Auth_new :: "bytes \<Rightarrow> (TypeError, Auth) result" where
  "Auth_new bs =
     (if length bs > MAX_AUTH_BYTES
      then Inl (TooLarge ''auth'' (of_nat MAX_AUTH_BYTES) (of_nat (length bs)))
      else Inr (Auth bs))"

definition Auth_empty :: Auth where
  "Auth_empty = Auth []"

definition wf_Auth :: "Auth \<Rightarrow> bool" where
  "wf_Auth a \<longleftrightarrow> length (Auth_bytes a) \<le> MAX_AUTH_BYTES"

record QueueLimits =
  ql_max_messages :: u64
  ql_max_message_bytes :: u64

definition QueueLimits_new :: "u64 \<Rightarrow> u64 \<Rightarrow> (TypeError, QueueLimits) result" where
  "QueueLimits_new max_messages max_message_bytes =
     (if max_messages = 0 then Inl (ZeroValue ''max_messages'')
      else if max_message_bytes = 0 then Inl (ZeroValue ''max_message_bytes'')
      else if max_message_bytes > of_nat MAX_MESSAGE_BYTES
      then Inl (TooLarge ''max_message_bytes'' (of_nat MAX_MESSAGE_BYTES) max_message_bytes)
      else Inr \<lparr>ql_max_messages = max_messages, ql_max_message_bytes = max_message_bytes\<rparr>)"

definition wf_QueueLimits :: "QueueLimits \<Rightarrow> bool" where
  "wf_QueueLimits l \<longleftrightarrow> ql_max_messages l \<noteq> 0 \<and> ql_max_message_bytes l \<noteq> 0
     \<and> unat (ql_max_message_bytes l) \<le> MAX_MESSAGE_BYTES"

section \<open>Command and status registries\<close>

datatype Command = CmdCreateQueue | CmdSend | CmdFetch | CmdAck | CmdDeleteQueue

fun Command_as_u8 :: "Command \<Rightarrow> u8" where
  "Command_as_u8 CmdCreateQueue = 1"
| "Command_as_u8 CmdSend = 2"
| "Command_as_u8 CmdFetch = 3"
| "Command_as_u8 CmdAck = 4"
| "Command_as_u8 CmdDeleteQueue = 5"

definition Command_try_from :: "u8 \<Rightarrow> (TypeError, Command) result" where
  "Command_try_from value =
     (if value = 1 then Inr CmdCreateQueue
      else if value = 2 then Inr CmdSend
      else if value = 3 then Inr CmdFetch
      else if value = 4 then Inr CmdAck
      else if value = 5 then Inr CmdDeleteQueue
      else Inl (UnknownDiscriminant ''Command'' value))"

datatype Status =
    StOk | StUnsupportedVersion | StMalformedFrame | StFrameTooLarge | StUnknownCommand
  | StQueueNotFound | StUnauthorized | StQueueIdConflict | StMessageIdConflict
  | StMessageTooLarge | StQueueFull | StExpiryOverflow | StAckMismatch | StNotDelivered
  | StAuthInvalid | StLimitOutOfRange | StAuthReplay

fun Status_as_u8 :: "Status \<Rightarrow> u8" where
  "Status_as_u8 StOk = 0"
| "Status_as_u8 StUnsupportedVersion = 1"
| "Status_as_u8 StMalformedFrame = 2"
| "Status_as_u8 StFrameTooLarge = 3"
| "Status_as_u8 StUnknownCommand = 4"
| "Status_as_u8 StQueueNotFound = 5"
| "Status_as_u8 StUnauthorized = 6"
| "Status_as_u8 StQueueIdConflict = 7"
| "Status_as_u8 StMessageIdConflict = 8"
| "Status_as_u8 StMessageTooLarge = 9"
| "Status_as_u8 StQueueFull = 10"
| "Status_as_u8 StExpiryOverflow = 11"
| "Status_as_u8 StAckMismatch = 12"
| "Status_as_u8 StNotDelivered = 13"
| "Status_as_u8 StAuthInvalid = 14"
| "Status_as_u8 StLimitOutOfRange = 15"
| "Status_as_u8 StAuthReplay = 16"

definition Status_is_ok :: "Status \<Rightarrow> bool" where
  "Status_is_ok s = (case s of StOk \<Rightarrow> True | _ \<Rightarrow> False)"

definition Status_try_from :: "u8 \<Rightarrow> (TypeError, Status) result" where
  "Status_try_from value =
     (if value = 0 then Inr StOk
      else if value = 1 then Inr StUnsupportedVersion
      else if value = 2 then Inr StMalformedFrame
      else if value = 3 then Inr StFrameTooLarge
      else if value = 4 then Inr StUnknownCommand
      else if value = 5 then Inr StQueueNotFound
      else if value = 6 then Inr StUnauthorized
      else if value = 7 then Inr StQueueIdConflict
      else if value = 8 then Inr StMessageIdConflict
      else if value = 9 then Inr StMessageTooLarge
      else if value = 10 then Inr StQueueFull
      else if value = 11 then Inr StExpiryOverflow
      else if value = 12 then Inr StAckMismatch
      else if value = 13 then Inr StNotDelivered
      else if value = 14 then Inr StAuthInvalid
      else if value = 15 then Inr StLimitOutOfRange
      else if value = 16 then Inr StAuthReplay
      else Inl (UnknownDiscriminant ''Status'' value))"

section \<open>Request bodies\<close>

record CreateQueueRequest =
  cq_queue_id :: QueueId
  cq_sender :: Principal
  cq_recipient :: Principal
  cq_limits :: QueueLimits

datatype CreateQueueOutcome = Created | AlreadyExists

fun CreateQueueOutcome_as_u8 :: "CreateQueueOutcome \<Rightarrow> u8" where
  "CreateQueueOutcome_as_u8 Created = 0"
| "CreateQueueOutcome_as_u8 AlreadyExists = 1"

definition CreateQueueOutcome_try_from :: "u8 \<Rightarrow> (TypeError, CreateQueueOutcome) result" where
  "CreateQueueOutcome_try_from value =
     (if value = 0 then Inr Created
      else if value = 1 then Inr AlreadyExists
      else Inl (UnknownDiscriminant ''CreateQueueOutcome'' value))"

record SendRequest =
  sr_queue_id :: QueueId
  sr_sender :: Principal
  sr_message_id :: MessageId
  sr_payload :: Payload
  sr_ttl :: Ttl

datatype SendOutcome = Accepted | SendDuplicate

fun SendOutcome_as_u8 :: "SendOutcome \<Rightarrow> u8" where
  "SendOutcome_as_u8 Accepted = 0"
| "SendOutcome_as_u8 SendDuplicate = 1"

definition SendOutcome_try_from :: "u8 \<Rightarrow> (TypeError, SendOutcome) result" where
  "SendOutcome_try_from value =
     (if value = 0 then Inr Accepted
      else if value = 1 then Inr SendDuplicate
      else Inl (UnknownDiscriminant ''SendOutcome'' value))"

record FetchRequest =
  fr_queue_id :: QueueId
  fr_recipient :: Principal

record Delivery =
  dl_message_id :: MessageId
  dl_payload :: Payload
  dl_expires_at :: Timestamp

record AckRequest =
  ar_queue_id :: QueueId
  ar_recipient :: Principal
  ar_message_id :: MessageId

record DeleteQueueRequest =
  dq_queue_id :: QueueId
  dq_recipient :: Principal

datatype Request =
    ReqCreateQueue CreateQueueRequest
  | ReqSend SendRequest
  | ReqFetch FetchRequest
  | ReqAck AckRequest
  | ReqDeleteQueue DeleteQueueRequest

fun Request_command :: "Request \<Rightarrow> Command" where
  "Request_command (ReqCreateQueue _) = CmdCreateQueue"
| "Request_command (ReqSend _) = CmdSend"
| "Request_command (ReqFetch _) = CmdFetch"
| "Request_command (ReqAck _) = CmdAck"
| "Request_command (ReqDeleteQueue _) = CmdDeleteQueue"

text \<open>What the validating constructors guarantee of a request value.\<close>

fun wf_Request :: "Request \<Rightarrow> bool" where
  "wf_Request (ReqCreateQueue c) = (wf_QueueId (cq_queue_id c) \<and> wf_Principal (cq_sender c)
     \<and> wf_Principal (cq_recipient c) \<and> wf_QueueLimits (cq_limits c))"
| "wf_Request (ReqSend s) = (wf_QueueId (sr_queue_id s) \<and> wf_Principal (sr_sender s)
     \<and> wf_MessageId (sr_message_id s) \<and> wf_Payload (sr_payload s))"
| "wf_Request (ReqFetch f) = (wf_QueueId (fr_queue_id f) \<and> wf_Principal (fr_recipient f))"
| "wf_Request (ReqAck a) = (wf_QueueId (ar_queue_id a) \<and> wf_Principal (ar_recipient a)
     \<and> wf_MessageId (ar_message_id a))"
| "wf_Request (ReqDeleteQueue d) = (wf_QueueId (dq_queue_id d) \<and> wf_Principal (dq_recipient d))"

section \<open>Response bodies\<close>

datatype ResponseBody =
    RespCreateQueue CreateQueueOutcome
  | RespSend SendOutcome
  | RespFetch "Delivery option"
  | RespAck
  | RespDeleteQueue

fun ResponseBody_command :: "ResponseBody \<Rightarrow> Command" where
  "ResponseBody_command (RespCreateQueue _) = CmdCreateQueue"
| "ResponseBody_command (RespSend _) = CmdSend"
| "ResponseBody_command (RespFetch _) = CmdFetch"
| "ResponseBody_command RespAck = CmdAck"
| "ResponseBody_command RespDeleteQueue = CmdDeleteQueue"

record ErrorResponse =
  er_command :: "Command option"
  er_status :: Status

definition ErrorResponse_new ::
    "Command option \<Rightarrow> Status \<Rightarrow> (TypeError, ErrorResponse) result" where
  "ErrorResponse_new command status =
     (if Status_is_ok status then Inl SuccessStatusForErrorResponse
      else Inr \<lparr>er_command = command, er_status = status\<rparr>)"

datatype Response = RespSuccess ResponseBody | RespError ErrorResponse

fun Response_command :: "Response \<Rightarrow> Command option" where
  "Response_command (RespSuccess body) = Some (ResponseBody_command body)"
| "Response_command (RespError e) = er_command e"

fun Response_status :: "Response \<Rightarrow> Status" where
  "Response_status (RespSuccess _) = StOk"
| "Response_status (RespError e) = er_status e"

fun wf_Response :: "Response \<Rightarrow> bool" where
  "wf_Response (RespSuccess (RespFetch (Some d))) =
     (wf_MessageId (dl_message_id d) \<and> wf_Payload (dl_payload d))"
| "wf_Response (RespSuccess _) = True"
| "wf_Response (RespError e) = (\<not> Status_is_ok (er_status e))"

section \<open>The constructors establish the invariants\<close>

lemma Payload_new_Inr [res_simps]: "Payload_new bs = Inr p \<longleftrightarrow> p = Payload bs \<and> wf_Payload p"
  by (auto simp: Payload_new_def wf_Payload_def)

lemma Auth_new_Inr [res_simps]: "Auth_new bs = Inr a \<longleftrightarrow> a = Auth bs \<and> wf_Auth a"
  by (auto simp: Auth_new_def wf_Auth_def)

lemma u64_gt_max_message [simp]:
  "(of_nat MAX_MESSAGE_BYTES < (v :: u64)) \<longleftrightarrow> MAX_MESSAGE_BYTES < unat v"
  by (simp add: word_less_nat_alt MAX_MESSAGE_BYTES_def)

lemma QueueLimits_new_Inr [res_simps]:
  "QueueLimits_new m b = Inr l \<longleftrightarrow> ql_max_messages l = m \<and> ql_max_message_bytes l = b \<and> wf_QueueLimits l"
  by (cases l) (auto simp: QueueLimits_new_def wf_QueueLimits_def)

lemma ErrorResponse_new_Inr [res_simps]:
  "ErrorResponse_new c s = Inr e \<longleftrightarrow> er_command e = c \<and> er_status e = s \<and> \<not> Status_is_ok s"
  by (cases e) (auto simp: ErrorResponse_new_def)

lemma Status_is_ok_iff [simp]: "Status_is_ok s \<longleftrightarrow> s = StOk"
  by (cases s) (simp_all add: Status_is_ok_def)

lemma Command_try_from_iff [res_simps]: "Command_try_from v = Inr c \<longleftrightarrow> v = Command_as_u8 c"
  by (cases c) (auto simp: Command_try_from_def)

lemma Status_try_from_iff [res_simps]: "Status_try_from v = Inr s \<longleftrightarrow> v = Status_as_u8 s"
proof
  assume "Status_try_from v = Inr s"
  then show "v = Status_as_u8 s"
    by (simp add: Status_try_from_def split: if_splits)
next
  assume "v = Status_as_u8 s"
  then show "Status_try_from v = Inr s"
    by (cases s) (simp_all add: Status_try_from_def)
qed

lemma CreateQueueOutcome_try_from_iff [res_simps]:
  "CreateQueueOutcome_try_from v = Inr c \<longleftrightarrow> v = CreateQueueOutcome_as_u8 c"
  by (cases c) (auto simp: CreateQueueOutcome_try_from_def)

lemma SendOutcome_try_from_iff [res_simps]:
  "SendOutcome_try_from v = Inr c \<longleftrightarrow> v = SendOutcome_as_u8 c"
  by (cases c) (auto simp: SendOutcome_try_from_def)

end
