(* ===== verification/CW_Cbor.thy ===== *)
theory CW_Cbor
  imports CW_Types
begin

text \<open>
  The canonical CBOR subset of \<open>crates/cofferwire-codec/src/cbor.rs\<close>: a cursor-based strict decoder
  and the deterministic encoder. The interface between an item decoder and its encoder is the
  locale \<open>item_codec\<close>: decoding succeeds exactly on the bytes the encoder writes.
\<close>

section \<open>Decoding errors\<close>

datatype DecodeError =
    DeFrameTooLarge nat
  | DeTruncated nat
  | DeReservedVersion
  | DeUnsupportedVersion u8 RequestId
  | DeNonCanonicalArgument nat
  | DeUnexpectedType nat string
  | DeWrongArrayLength string u64 u64
  | DeWrongByteStringLength string nat u64
  | DeByteStringTooLarge string nat u64
  | DeInvalidValue string u64
  | DeTrailingBytes nat
  | DeInvalidProtocolValue TypeError

section \<open>The decoder\<close>

record Decoder =
  dec_bytes :: bytes
  dec_offset :: nat

type_synonym 'a decoded = "(DecodeError, 'a \<times> Decoder) result"

definition Decoder_new :: "bytes \<Rightarrow> nat \<Rightarrow> Decoder" where
  "Decoder_new bs off = \<lparr>dec_bytes = bs, dec_offset = off\<rparr>"

definition Decoder_byte :: "Decoder \<Rightarrow> u8 decoded" where
  "Decoder_byte d =
     res_bind (ok_or (get_at (dec_bytes d) (dec_offset d)) (DeTruncated (dec_offset d)))
       (\<lambda>value. Inr (value, d\<lparr>dec_offset := dec_offset d + 1\<rparr>))"

text \<open>The array expressions \<open>[self.byte()?, \<dots>]\<close>: \<open>n\<close> bytes, read left to right.\<close>

primrec Decoder_byte_array :: "nat \<Rightarrow> Decoder \<Rightarrow> bytes decoded" where
  "Decoder_byte_array 0 d = Inr ([], d)"
| "Decoder_byte_array (Suc n) d =
     res_bind (Decoder_byte d) (\<lambda>(b, d).
     res_bind (Decoder_byte_array n d) (\<lambda>(bs, d). Inr (b # bs, d)))"

text \<open>The \<open>match additional\<close> of \<open>argument\<close>, with the canonical-width check that follows it.\<close>

definition Decoder_argument_value :: "nat \<Rightarrow> string \<Rightarrow> u8 \<Rightarrow> Decoder \<Rightarrow> u64 decoded" where
  "Decoder_argument_value start expected additional d =
     (if additional \<le> 23 then Inr (ucast additional, d)
      else res_bind
        (if additional = 24 then
           res_bind (Decoder_byte_array 1 d) (\<lambda>(bs, d). Inr (ucast (hd bs), 24, d))
         else if additional = 25 then
           res_bind (Decoder_byte_array 2 d) (\<lambda>(bs, d). Inr (ucast (u16_from_be_bytes bs), 256, d))
         else if additional = 26 then
           res_bind (Decoder_byte_array 4 d) (\<lambda>(bs, d). Inr (ucast (u32_from_be_bytes bs), 65536, d))
         else if additional = 27 then
           res_bind (Decoder_byte_array 8 d) (\<lambda>(bs, d). Inr (u64_from_be_bytes bs, 4294967296, d))
         else Inl (DeUnexpectedType start expected))
        (\<lambda>(value, minimum, d).
           if value < minimum then Inl (DeNonCanonicalArgument start) else Inr (value, d)))"

definition Decoder_argument :: "u8 \<Rightarrow> string \<Rightarrow> Decoder \<Rightarrow> u64 decoded" where
  "Decoder_argument expected_major expected d =
     (let start = dec_offset d in
      res_bind (Decoder_byte d) (\<lambda>(initial, d).
      if drop_bit 5 initial \<noteq> expected_major then Inl (DeUnexpectedType start expected)
      else Decoder_argument_value start expected (initial AND 0x1f) d))"

definition Decoder_unsigned :: "string \<Rightarrow> Decoder \<Rightarrow> u64 decoded" where
  "Decoder_unsigned field d = Decoder_argument 0 field d"

definition Decoder_array_length :: "Decoder \<Rightarrow> u64 decoded" where
  "Decoder_array_length d = Decoder_argument 4 ''definite-length array'' d"

definition Decoder_array :: "string \<Rightarrow> u64 \<Rightarrow> Decoder \<Rightarrow> unit decoded" where
  "Decoder_array field expected d =
     res_bind (Decoder_array_length d) (\<lambda>(actual, d).
     if actual \<noteq> expected then Inl (DeWrongArrayLength field expected actual) else Inr ((), d))"

text \<open>
  \<open>usize\<close> is 64 bits wide, so \<open>usize::try_from(length)\<close> always succeeds; the addition of the
  offset is the checked one.
\<close>

definition Decoder_bytes :: "string \<Rightarrow> nat \<Rightarrow> Decoder \<Rightarrow> bytes decoded" where
  "Decoder_bytes field limit d =
     res_bind (Decoder_argument 2 ''definite-length byte string'' d) (\<lambda>(length, d).
     if unat length > limit then Inl (DeByteStringTooLarge field limit length)
     else if dec_offset d + unat length > u64_max then Inl (DeByteStringTooLarge field limit length)
     else
       let end = dec_offset d + unat length in
       res_bind (ok_or (get_range (dec_bytes d) (dec_offset d) end) (DeTruncated (dec_offset d)))
         (\<lambda>value. Inr (value, d\<lparr>dec_offset := end\<rparr>)))"

section \<open>The encoder\<close>

text \<open>Each \<open>encode\<close> function is given by the bytes it appends to its output buffer.\<close>

definition encode_argument :: "u8 \<Rightarrow> u64 \<Rightarrow> bytes" where
  "encode_argument major value =
     (let prefix = push_bit 5 major in
      if value \<le> 23 then [prefix OR ucast value]
      else if value \<le> 0xff then [prefix OR 24, ucast value]
      else if value \<le> 0xffff then (prefix OR 25) # u16_to_be_bytes (ucast value)
      else if value \<le> 0xffffffff then (prefix OR 26) # u32_to_be_bytes (ucast value)
      else (prefix OR 27) # u64_to_be_bytes value)"

definition encode_unsigned :: "u64 \<Rightarrow> bytes" where
  "encode_unsigned value = encode_argument 0 value"

definition encode_array :: "u64 \<Rightarrow> bytes" where
  "encode_array len = encode_argument 4 len"

definition encode_bytes :: "bytes \<Rightarrow> bytes" where
  "encode_bytes bs = encode_argument 2 (of_nat (length bs)) @ bs"

section \<open>Reading exactly a byte string\<close>

definition standing :: "Decoder \<Rightarrow> bytes \<Rightarrow> bool" where
  "standing d e \<longleftrightarrow> take (length e) (drop (dec_offset d) (dec_bytes d)) = e"

definition advance :: "Decoder \<Rightarrow> bytes \<Rightarrow> Decoder" where
  "advance d e = d\<lparr>dec_offset := dec_offset d + length e\<rparr>"

definition reads :: "Decoder \<Rightarrow> bytes \<Rightarrow> Decoder \<Rightarrow> bool" where
  "reads d e d' \<longleftrightarrow> d' = advance d e \<and> standing d e"

lemmas reads_unfold = reads_def standing_def advance_def

text \<open>Every Rust slice has a length that fits \<open>usize\<close>.\<close>

definition wf_Decoder :: "Decoder \<Rightarrow> bool" where
  "wf_Decoder d \<longleftrightarrow> length (dec_bytes d) \<le> u64_max"

lemma reads_Nil [simp]: "reads d [] d' \<longleftrightarrow> d' = d"
  by (auto simp: reads_unfold)

lemma take_append_iff:
  "take (length e1 + length e2) xs = e1 @ e2 \<longleftrightarrow>
     take (length e1) xs = e1 \<and> take (length e2) (drop (length e1) xs) = e2"
proof
  assume eq: "take (length e1 + length e2) xs = e1 @ e2"
  then have "length (take (length e1 + length e2) xs) = length e1 + length e2"
    by simp
  then have "length (take (length e1) xs) = length e1"
    by simp
  with eq show "take (length e1) xs = e1 \<and> take (length e2) (drop (length e1) xs) = e2"
    by (simp add: take_add)
qed (simp add: take_add)

lemma reads_append:
  "reads d (e1 @ e2) d' \<longleftrightarrow> (\<exists>d1. reads d e1 d1 \<and> reads d1 e2 d')"
  by (auto simp: reads_unfold take_append_iff add.commute add.left_commute)

lemma standing_append: "standing d (e1 @ e2) \<longleftrightarrow> standing d e1 \<and> standing (advance d e1) e2"
  by (simp add: standing_def advance_def take_append_iff add.commute)

lemma advance_append: "advance d (e1 @ e2) = advance (advance d e1) e2"
  by (simp add: advance_def add.assoc)

lemmas reads_parts = reads_def standing_append advance_append

lemma reads_Cons: "reads d (b # e) d' \<longleftrightarrow> (\<exists>d1. reads d [b] d1 \<and> reads d1 e d')"
  using reads_append [of d "[b]" e d'] by simp

lemma reads_wf: "reads d e d' \<Longrightarrow> wf_Decoder d' \<longleftrightarrow> wf_Decoder d"
  by (auto simp: reads_unfold wf_Decoder_def)

lemma wf_Decoder_advance [simp]: "wf_Decoder (advance d e) \<longleftrightarrow> wf_Decoder d"
  by (simp add: advance_def wf_Decoder_def)

lemma dec_bytes_advance [simp]: "dec_bytes (advance d e) = dec_bytes d"
  by (simp add: advance_def)

lemma dec_offset_advance [simp]: "dec_offset (advance d e) = dec_offset d + length e"
  by (simp add: advance_def)

section \<open>Exactness of the primitive decoders\<close>

lemma Decoder_byte_Inr [res_simps]: "Decoder_byte d = Inr (b, d') \<longleftrightarrow> reads d [b] d'"
proof -
  have "take (Suc 0) (drop n xs) = [b] \<longleftrightarrow> n < length xs \<and> xs ! n = b" for n and xs :: bytes
    by (cases "n < length xs") (simp_all add: Cons_nth_drop_Suc [symmetric])
  then show ?thesis
    by (auto simp: Decoder_byte_def reads_unfold get_at_eq_Some res_simps)
qed

lemma Decoder_byte_array_Inr [res_simps]:
  "Decoder_byte_array n d = Inr (bs, d') \<longleftrightarrow> length bs = n \<and> reads d bs d'"
proof (induction n arbitrary: d bs)
  case 0
  then show ?case by auto
next
  case (Suc n)
  show ?case
  proof (cases bs)
    case Nil
    then show ?thesis by (auto simp: res_simps split: prod.splits)
  next
    case (Cons b bs')
    then show ?thesis
      by (auto simp: res_simps Suc.IH reads_Cons [of d b bs' d'])
  qed
qed

text \<open>The initial byte: major type in the high three bits, additional information below.\<close>

lemma and_1f: "x AND 0x1f = take_bit 5 (x :: u8)"
  by (simp add: take_bit_eq_mask mask_eq_exp_minus_1)

lemma initial_byte_parts:
  fixes m a :: u8
  assumes "m < 8" "a < 32"
  shows "drop_bit 5 (push_bit 5 m OR a) = m" and "(push_bit 5 m OR a) AND 0x1f = a"
proof -
  have "take_bit 3 m = m" and "take_bit 5 a = a"
    using assms by (simp_all add: word_unat_eq_iff unsigned_take_bit_eq take_bit_nat_eq_self_iff word_less_nat_alt)
  then have m: "bit m n \<Longrightarrow> n < 3" and a: "bit a n \<Longrightarrow> n < 5" for n
    by (metis bit_take_bit_iff)+
  show "drop_bit 5 (push_bit 5 m OR a) = m"
    by (rule bit_word_eqI) (auto simp: bit_simps dest: m a)
  show "(push_bit 5 m OR a) AND 0x1f = a"
    by (rule bit_word_eqI) (auto simp: and_1f bit_simps dest: m a)
qed

lemma initial_byte_join: "push_bit 5 (drop_bit 5 i) OR (i AND 0x1f) = (i :: u8)"
  by (rule bit_word_eqI) (auto simp: and_1f bit_simps)

text \<open>The additional information and the argument bytes the encoder chooses for a value.\<close>

definition arg_info :: "u64 \<Rightarrow> u8" where
  "arg_info v = (if v \<le> 23 then ucast v else if v \<le> 0xff then 24 else if v \<le> 0xffff then 25
     else if v \<le> 0xffffffff then 26 else 27)"

definition arg_rest :: "u64 \<Rightarrow> bytes" where
  "arg_rest v = (if v \<le> 23 then [] else if v \<le> 0xff then [ucast v]
     else if v \<le> 0xffff then u16_to_be_bytes (ucast v)
     else if v \<le> 0xffffffff then u32_to_be_bytes (ucast v) else u64_to_be_bytes v)"

lemma encode_argument_split:
  "encode_argument m v = (push_bit 5 m OR arg_info v) # arg_rest v"
  by (simp add: encode_argument_def arg_info_def arg_rest_def Let_def)

lemma ucast_small:
  "(ucast (ucast (v :: u64) :: u8) :: u64) = v \<longleftrightarrow> v \<le> 0xff"
  "(ucast (ucast (v :: u64) :: u16) :: u64) = v \<longleftrightarrow> v \<le> 0xffff"
  "(ucast (ucast (v :: u64) :: u32) :: u64) = v \<longleftrightarrow> v \<le> 0xffffffff"
  by (simp_all add: word_unat_eq_iff unsigned_ucast_eq unsigned_take_bit_eq
      take_bit_nat_eq_self_iff word_le_nat_alt less_Suc_eq_le [symmetric])

lemma ucast_narrow:
  "(ucast (ucast (b :: u8) :: u64) :: u8) = b"
  "(ucast (ucast (h :: u16) :: u64) :: u16) = h"
  "(ucast (ucast (w :: u32) :: u64) :: u32) = w"
  by (rule bit_word_eqI; simp add: bit_simps)+

lemma ucast_bounds:
  "(ucast (b :: u8) :: u64) \<le> 0xff"
  "(ucast (h :: u16) :: u64) \<le> 0xffff"
  "(ucast (w :: u32) :: u64) \<le> 0xffffffff"
  by (simp_all add: ucast_small [symmetric] ucast_narrow)

lemma arg_info_less: "arg_info v < 32"
proof -
  have "(ucast v :: u8) < 32" if "v \<le> 23"
    using that by (simp add: word_less_nat_alt word_le_nat_alt unsigned_ucast_eq take_bit_nat_def)
  then show ?thesis
    by (simp add: arg_info_def)
qed

lemma arg_case_0:
  "a \<le> 23 \<and> v = ucast (a :: u8) \<longleftrightarrow> v \<le> 23 \<and> a = (ucast (v :: u64) :: u8)"
proof -
  have "unat a < 2 ^ 64"
    by (rule less_trans [OF unat_u8_less]) simp
  then have up: "(ucast a :: u64) \<le> 23 \<longleftrightarrow> a \<le> 23"
    by (simp add: word_le_nat_alt unsigned_ucast_eq take_bit_nat_def)
  have "v \<le> 0xff" if "v \<le> 23"
    using that by (rule order_trans) simp
  then have "v \<le> 23 \<and> a = ucast v \<longleftrightarrow> v \<le> 23 \<and> v = ucast a"
    by (metis ucast_narrow(1) ucast_small(1))
  then show ?thesis
    using up by auto
qed

lemma arg_case_24:
  "length bs = 1 \<and> v = ucast (hd bs) \<longleftrightarrow> v \<le> 0xff \<and> bs = [ucast (v :: u64) :: u8]"
  by (cases bs) (auto simp: ucast_narrow ucast_small [THEN iffD2] ucast_bounds)

lemma arg_case_25:
  "length bs = 2 \<and> v = ucast (u16_from_be_bytes bs) \<longleftrightarrow>
     v \<le> 0xffff \<and> bs = u16_to_be_bytes (ucast (v :: u64))"
  by (auto simp: ucast_narrow ucast_small [THEN iffD2] ucast_bounds u16_to_from_be)

lemma arg_case_26:
  "length bs = 4 \<and> v = ucast (u32_from_be_bytes bs) \<longleftrightarrow>
     v \<le> 0xffffffff \<and> bs = u32_to_be_bytes (ucast (v :: u64))"
  by (auto simp: ucast_narrow ucast_small [THEN iffD2] ucast_bounds u32_to_from_be)

lemma arg_case_27:
  "length bs = 8 \<and> v = u64_from_be_bytes bs \<longleftrightarrow> bs = u64_to_be_bytes v"
  by (auto simp: u64_to_from_be)

definition arg_follow :: "u8 \<Rightarrow> bytes \<Rightarrow> u64 \<Rightarrow> bool" where
  "arg_follow a bs v \<longleftrightarrow>
      (a \<le> 23 \<and> v = ucast a) \<and> bs = []
    \<or> (length bs = 1 \<and> v = ucast (hd bs)) \<and> a = 24 \<and> \<not> v < 24
    \<or> (length bs = 2 \<and> v = ucast (u16_from_be_bytes bs)) \<and> a = 25 \<and> \<not> v < 256
    \<or> (length bs = 4 \<and> v = ucast (u32_from_be_bytes bs)) \<and> a = 26 \<and> \<not> v < 65536
    \<or> (length bs = 8 \<and> v = u64_from_be_bytes bs) \<and> a = 27 \<and> \<not> v < 4294967296"

lemma arg_ranges:
  fixes v :: u64
  shows "v < 24 \<longleftrightarrow> v \<le> 23" "v < 256 \<longleftrightarrow> v \<le> 0xff" "v < 65536 \<longleftrightarrow> v \<le> 0xffff"
    "v < 4294967296 \<longleftrightarrow> v \<le> 0xffffffff"
    "v \<le> 23 \<Longrightarrow> v \<le> 0xff" "v \<le> 0xff \<Longrightarrow> v \<le> 0xffff" "v \<le> 0xffff \<Longrightarrow> v \<le> 0xffffffff"
  by (auto simp: word_le_nat_alt word_less_nat_alt)

lemma arg_follow_iff: "arg_follow a bs v \<longleftrightarrow> a = arg_info v \<and> bs = arg_rest v"
  unfolding arg_follow_def arg_case_0 arg_case_24 arg_case_25 arg_case_26 arg_case_27 arg_ranges(1-4)
  using arg_ranges(5-7) [of v]
  by (auto simp: arg_info_def arg_rest_def)

lemma Decoder_argument_value_Inr:
  "Decoder_argument_value st f a d = Inr (v, d') \<longleftrightarrow> (\<exists>bs. arg_follow a bs v \<and> reads d bs d')"
proof -
  consider "a \<le> 23" | "a = 24" | "a = 25" | "a = 26" | "a = 27"
    | "\<not> a \<le> 23" "a \<noteq> 24" "a \<noteq> 25" "a \<noteq> 26" "a \<noteq> 27" by blast
  then show ?thesis
  proof cases
    case 1
    then have "a \<noteq> 24" "a \<noteq> 25" "a \<noteq> 26" "a \<noteq> 27" by auto
    with 1 show ?thesis
      by (auto simp: Decoder_argument_value_def arg_follow_def)
  qed (auto simp: Decoder_argument_value_def arg_follow_def res_simps
      simp del: Decoder_byte_array.simps)
qed

lemma Decoder_argument_follow:
  "Decoder_argument m f d = Inr (v, d') \<longleftrightarrow>
     (\<exists>i d1 bs. reads d [i] d1 \<and> drop_bit 5 i = m \<and> arg_follow (i AND 0x1f) bs v \<and> reads d1 bs d')"
  by (auto simp: Decoder_argument_def Let_def res_simps Decoder_argument_value_Inr split: if_splits)

lemma Decoder_argument_Inr:
  assumes "m < 8"
  shows "Decoder_argument m f d = Inr (v, d') \<longleftrightarrow> reads d (encode_argument m v) d'"
proof -
  have "(\<exists>i. reads d [i] d1 \<and> drop_bit 5 i = m \<and> i AND 0x1f = arg_info v)
      \<longleftrightarrow> reads d [push_bit 5 m OR arg_info v] d1" for d1
    using initial_byte_parts [OF assms arg_info_less [of v]] initial_byte_join
    by (metis (no_types, lifting))
  then have "Decoder_argument m f d = Inr (v, d') \<longleftrightarrow>
      (\<exists>d1. reads d [push_bit 5 m OR arg_info v] d1 \<and> reads d1 (arg_rest v) d')"
    unfolding Decoder_argument_follow arg_follow_iff by blast
  then show ?thesis
    by (simp add: encode_argument_split reads_Cons [of d _ "arg_rest v"])
qed

section \<open>The interface of an item codec\<close>

text \<open>
  A decoder of one item against its encoder: on every cursor, decoding succeeds with a value
  exactly when the value is admissible and its encoding stands at the cursor, and it leaves the
  cursor right after it. Both directions of the wire contract follow: what is encoded is decoded
  again, and no other bytes are accepted.
\<close>

locale item_codec =
  fixes dec :: "Decoder \<Rightarrow> 'a decoded"
    and enc :: "'a \<Rightarrow> bytes"
    and ok :: "'a \<Rightarrow> bool"
  assumes exact: "wf_Decoder d \<Longrightarrow> dec d = Inr (v, d') \<longleftrightarrow> ok v \<and> reads d (enc v) d'"
begin

lemma accepts:
  assumes "ok v" and "wf_Decoder d" and "take (length (enc v)) (drop (dec_offset d) (dec_bytes d)) = enc v"
  shows "dec d = Inr (v, d\<lparr>dec_offset := dec_offset d + length (enc v)\<rparr>)"
  using assms by (simp add: exact reads_unfold)

lemma canonical:
  assumes "wf_Decoder d" and "dec d = Inr (v, d')"
  shows "ok v" and "reads d (enc v) d'" and "wf_Decoder d'"
  using assms by (auto simp: exact reads_wf)

text \<open>No admissible encoding is a proper prefix of another one.\<close>

lemma prefix_free:
  assumes "ok v" "ok w" and "length (enc v @ s) \<le> u64_max" and "enc v @ s = enc w @ t"
  shows "v = w"
proof -
  let ?d = "Decoder_new (enc v @ s) 0"
  have wf: "wf_Decoder ?d"
    using assms(3) by (simp add: wf_Decoder_def Decoder_new_def)
  have "take (length (enc w)) (dec_bytes ?d) = enc w"
    using assms(4) by (simp add: Decoder_new_def)
  then have "\<exists>d'. dec ?d = Inr (w, d')"
    using accepts [OF assms(2) wf] by (simp add: Decoder_new_def)
  moreover have "\<exists>d'. dec ?d = Inr (v, d')"
    using accepts [OF assms(1) wf] by (simp add: Decoder_new_def)
  ultimately show ?thesis by auto
qed

end

interpretation unsigned_codec: item_codec "Decoder_unsigned f" encode_unsigned "\<lambda>_. True" for f
  by unfold_locales (simp add: Decoder_unsigned_def encode_unsigned_def Decoder_argument_Inr)

interpretation array_length_codec: item_codec Decoder_array_length encode_array "\<lambda>_. True"
  by unfold_locales (simp add: Decoder_array_length_def encode_array_def Decoder_argument_Inr)

interpretation array_codec: item_codec "Decoder_array f n" "\<lambda>_. encode_array n" "\<lambda>_. True" for f n
  by unfold_locales (auto simp: Decoder_array_def res_simps array_length_codec.exact split: if_splits)

lemma reads_in_range:
  assumes "reads d e d'" and "e \<noteq> []"
  shows "dec_offset d' \<le> length (dec_bytes d')"
proof -
  have "length (take (length e) (drop (dec_offset d) (dec_bytes d))) = length e"
    using assms(1) by (simp add: reads_unfold)
  then have "length e \<le> length (dec_bytes d) - dec_offset d"
    by simp
  moreover have "0 < length e"
    using assms(2) by simp
  ultimately have "dec_offset d + length e \<le> length (dec_bytes d)"
    by linarith
  with assms(1) show ?thesis
    by (simp add: reads_unfold)
qed

lemma unat_of_nat_u64: "n \<le> u64_max \<Longrightarrow> unat (of_nat n :: u64) = n"
  by (simp add: unat_of_nat u64_max_def)

lemma Decoder_bytes_Inr:
  assumes wf: "wf_Decoder d" and limit: "limit \<le> u64_max"
  shows "Decoder_bytes f limit d = Inr (v, d') \<longleftrightarrow> length v \<le> limit \<and> reads d (encode_bytes v) d'"
proof -
  have body: "(if limit < unat l then Inl (DeByteStringTooLarge f limit l)
      else if u64_max < dec_offset d1 + unat l then Inl (DeByteStringTooLarge f limit l)
      else let end = dec_offset d1 + unat l in
        res_bind (ok_or (get_range (dec_bytes d1) (dec_offset d1) end) (DeTruncated (dec_offset d1)))
          (\<lambda>value. Inr (value, d1\<lparr>dec_offset := end\<rparr>))) = Inr (v, d')
      \<longleftrightarrow> length v \<le> limit \<and> l = of_nat (length v) \<and> reads d1 v d'"
    if arg: "reads d (encode_argument 2 l) d1" for l d1
  proof -
    have "dec_offset d1 \<le> length (dec_bytes d1)"
      using reads_in_range [OF arg] by (simp add: encode_argument_split)
    moreover have "length (dec_bytes d1) \<le> u64_max"
      using arg wf by (simp add: reads_unfold wf_Decoder_def)
    moreover have "length v \<le> limit \<Longrightarrow> l = of_nat (length v) \<longleftrightarrow> unat l = length v"
      using limit by (auto simp: unat_of_nat_u64 word_unat_eq_iff)
    ultimately show ?thesis
      by (auto simp: res_simps Let_def get_range_eq_Some reads_unfold min_def split: if_splits)
         (metis length_take length_drop le_diff_conv2 add.commute min.absorb2 min.absorb1 nat_le_linear)+
  qed
  have "Decoder_bytes f limit d = Inr (v, d') \<longleftrightarrow>
      (\<exists>l d1. reads d (encode_argument 2 l) d1 \<and> length v \<le> limit \<and> l = of_nat (length v) \<and> reads d1 v d')"
    unfolding Decoder_bytes_def
    by (simp add: res_simps Decoder_argument_Inr body cong: conj_cong)
  then show ?thesis
    by (auto simp: encode_bytes_def reads_append)
qed

section \<open>Encoded sizes\<close>

lemma length_encode_argument:
  "length (encode_argument m v) = (if v \<le> 23 then 1 else if v \<le> 0xff then 2 else if v \<le> 0xffff then 3
     else if v \<le> 0xffffffff then 5 else 9)"
  by (simp add: encode_argument_split arg_rest_def)

lemma length_encode_argument_le: "length (encode_argument m v) \<le> 9"
  by (simp add: length_encode_argument)

lemma length_encode_unsigned_le: "length (encode_unsigned v) \<le> 9"
  by (simp add: encode_unsigned_def length_encode_argument_le)

lemma length_encode_unsigned_small: "v \<le> 23 \<Longrightarrow> length (encode_unsigned v) = 1"
  by (simp add: encode_unsigned_def length_encode_argument)

lemma length_encode_array_small: "v \<le> 23 \<Longrightarrow> length (encode_array v) = 1"
  by (simp add: encode_array_def length_encode_argument)

lemma length_encode_bytes_32: "length bs = 32 \<Longrightarrow> length (encode_bytes bs) = 34"
  by (simp add: encode_bytes_def length_encode_argument)

lemma length_encode_bytes_le:
  assumes "length bs \<le> 65535"
  shows "length (encode_bytes bs) \<le> length bs + 3"
proof -
  have "unat (of_nat (length bs) :: u64) = length bs"
    using assms by (intro unat_of_nat_u64) (simp add: u64_max_def)
  then have "(of_nat (length bs) :: u64) \<le> 0xffff"
    using assms by (simp add: word_le_nat_alt)
  then show ?thesis
    by (simp add: encode_bytes_def length_encode_argument)
qed

lemmas encoded_sizes = length_encode_unsigned_small length_encode_array_small length_encode_bytes_32

end
