(* ===== verification/CW_Codec.thy ===== *)
theory CW_Codec
  imports CW_Cbor
begin

text \<open>
  The queue-v1 frame codec of \<open>crates/cofferwire-codec/src/lib.rs\<close>: request and response frames,
  their deterministic encoders and strict decoders. The main facts are exactness (a byte string
  decodes to a frame exactly when it is the encoding of a well-formed frame) and the frame bound.
\<close>

section \<open>Frames\<close>

definition PREAMBLE_BYTES :: nat where
  "PREAMBLE_BYTES = 17"

definition VERSION :: u8 where
  "VERSION = 1"

record RequestFrame =
  rf_request_id :: RequestId
  rf_request :: Request
  rf_auth :: Auth

record DecodedRequest =
  dr_frame :: RequestFrame
  dr_authenticated_bytes :: bytes

record ResponseFrame =
  rsf_request_id :: RequestId
  rsf_response :: Response

definition wf_RequestFrame :: "RequestFrame \<Rightarrow> bool" where
  "wf_RequestFrame f \<longleftrightarrow> wf_RequestId (rf_request_id f) \<and> wf_Request (rf_request f) \<and> wf_Auth (rf_auth f)"

definition wf_ResponseFrame :: "ResponseFrame \<Rightarrow> bool" where
  "wf_ResponseFrame f \<longleftrightarrow> wf_RequestId (rsf_request_id f) \<and> wf_Response (rsf_response f)"

section \<open>Encoding\<close>

definition encode_preamble :: "RequestId \<Rightarrow> bytes" where
  "encode_preamble request_id = VERSION # RequestId_bytes request_id"

definition encode_id :: "bytes \<Rightarrow> bytes" where
  "encode_id bs = encode_bytes bs"

fun encode_request_body :: "Request \<Rightarrow> bytes" where
  "encode_request_body (ReqCreateQueue value) =
     encode_array 5
     @ encode_id (QueueId_bytes (cq_queue_id value))
     @ encode_id (Principal_bytes (cq_sender value))
     @ encode_id (Principal_bytes (cq_recipient value))
     @ encode_unsigned (ql_max_messages (cq_limits value))
     @ encode_unsigned (ql_max_message_bytes (cq_limits value))"
| "encode_request_body (ReqSend value) =
     encode_array 5
     @ encode_id (QueueId_bytes (sr_queue_id value))
     @ encode_id (Principal_bytes (sr_sender value))
     @ encode_id (MessageId_bytes (sr_message_id value))
     @ encode_bytes (Payload_bytes (sr_payload value))
     @ encode_unsigned (Ttl_as_secs (sr_ttl value))"
| "encode_request_body (ReqFetch value) =
     encode_array 2
     @ encode_id (QueueId_bytes (fr_queue_id value))
     @ encode_id (Principal_bytes (fr_recipient value))"
| "encode_request_body (ReqAck value) =
     encode_array 3
     @ encode_id (QueueId_bytes (ar_queue_id value))
     @ encode_id (Principal_bytes (ar_recipient value))
     @ encode_id (MessageId_bytes (ar_message_id value))"
| "encode_request_body (ReqDeleteQueue value) =
     encode_array 2
     @ encode_id (QueueId_bytes (dq_queue_id value))
     @ encode_id (Principal_bytes (dq_recipient value))"

definition encode_request_payload :: "Request \<Rightarrow> bytes" where
  "encode_request_payload request =
     encode_array 3 @ encode_unsigned 0
     @ encode_unsigned (ucast (Command_as_u8 (Request_command request)))
     @ encode_request_body request"

definition encode_authenticated_request :: "RequestId \<Rightarrow> Request \<Rightarrow> bytes" where
  "encode_authenticated_request request_id request =
     encode_preamble request_id @ encode_request_payload request"

definition encode_request :: "RequestFrame \<Rightarrow> bytes" where
  "encode_request frame =
     encode_authenticated_request (rf_request_id frame) (rf_request frame)
     @ encode_bytes (Auth_bytes (rf_auth frame))"

fun encode_success_body :: "ResponseBody \<Rightarrow> bytes" where
  "encode_success_body (RespCreateQueue outcome) =
     encode_array 1 @ encode_unsigned (ucast (CreateQueueOutcome_as_u8 outcome))"
| "encode_success_body (RespSend outcome) =
     encode_array 1 @ encode_unsigned (ucast (SendOutcome_as_u8 outcome))"
| "encode_success_body (RespFetch None) = encode_array 1 @ encode_unsigned 0"
| "encode_success_body (RespFetch (Some delivery)) =
     encode_array 4 @ encode_unsigned 1
     @ encode_id (MessageId_bytes (dl_message_id delivery))
     @ encode_bytes (Payload_bytes (dl_payload delivery))
     @ encode_unsigned (Timestamp_as_secs (dl_expires_at delivery))"
| "encode_success_body RespAck = encode_array 0"
| "encode_success_body RespDeleteQueue = encode_array 0"

definition encode_response_payload :: "Response \<Rightarrow> bytes" where
  "encode_response_payload response =
     encode_array 4 @ encode_unsigned 1
     @ encode_unsigned (case Response_command response of None \<Rightarrow> 0 | Some c \<Rightarrow> ucast (Command_as_u8 c))
     @ encode_unsigned (ucast (Status_as_u8 (Response_status response)))
     @ (case response of
          RespError _ \<Rightarrow> encode_array 0
        | RespSuccess body \<Rightarrow> encode_success_body body)"

definition encode_response :: "ResponseFrame \<Rightarrow> bytes" where
  "encode_response frame =
     encode_preamble (rsf_request_id frame) @ encode_response_payload (rsf_response frame)"

section \<open>Decoding\<close>

definition decode_preamble :: "bytes \<Rightarrow> (DecodeError, RequestId) result" where
  "decode_preamble bs =
     (if length bs > MAX_FRAME_BYTES then Inl (DeFrameTooLarge (length bs))
      else res_bind (ok_or (get_range bs 0 PREAMBLE_BYTES) (DeTruncated (length bs))) (\<lambda>preamble.
        let version = preamble ! 0 in
        if version = 0 then Inl DeReservedVersion
        else let request_id = RequestId (drop 1 preamble) in
        if version \<noteq> VERSION then Inl (DeUnsupportedVersion version request_id)
        else Inr request_id))"

definition finish :: "Decoder \<Rightarrow> bytes \<Rightarrow> (DecodeError, unit) result" where
  "finish d bs = (if dec_offset d = length bs then Inr () else Inl (DeTrailingBytes (dec_offset d)))"

definition expect_value :: "Decoder \<Rightarrow> string \<Rightarrow> u64 \<Rightarrow> unit decoded" where
  "expect_value d field expected =
     res_bind (Decoder_unsigned field d) (\<lambda>(value, d).
     if value = expected then Inr ((), d) else Inl (DeInvalidValue field value))"

definition command_from_u64 :: "u64 \<Rightarrow> (DecodeError, Command) result" where
  "command_from_u64 value =
     res_bind (ok_or (u8_try_from value) (DeInvalidValue ''command'' value)) (\<lambda>value.
     map_err DeInvalidProtocolValue (Command_try_from value))"

definition decode_command :: "Decoder \<Rightarrow> Command decoded" where
  "decode_command d =
     res_bind (Decoder_unsigned ''command'' d) (\<lambda>(value, d).
     res_bind (command_from_u64 value) (\<lambda>c. Inr (c, d)))"

definition decode_status :: "Decoder \<Rightarrow> Status decoded" where
  "decode_status d =
     res_bind (Decoder_unsigned ''status'' d) (\<lambda>(value, d).
     res_bind (ok_or (u8_try_from value) (DeInvalidValue ''status'' value)) (\<lambda>byte.
     res_bind (map_err DeInvalidProtocolValue (Status_try_from byte)) (\<lambda>s. Inr (s, d))))"

definition fixed_bytes :: "nat \<Rightarrow> Decoder \<Rightarrow> string \<Rightarrow> bytes decoded" where
  "fixed_bytes n d field =
     res_bind (Decoder_bytes field n d) (\<lambda>(bs, d).
     if length bs \<noteq> n then Inl (DeWrongByteStringLength field n (of_nat (length bs)))
     else Inr (bs, d))"

definition queue_id :: "Decoder \<Rightarrow> QueueId decoded" where
  "queue_id d = res_bind (fixed_bytes 32 d ''queue-id'') (\<lambda>(bs, d). Inr (QueueId bs, d))"

definition principal :: "Decoder \<Rightarrow> Principal decoded" where
  "principal d = res_bind (fixed_bytes 32 d ''principal'') (\<lambda>(bs, d). Inr (Principal bs, d))"

definition message_id :: "Decoder \<Rightarrow> MessageId decoded" where
  "message_id d = res_bind (fixed_bytes 32 d ''message-id'') (\<lambda>(bs, d). Inr (MessageId bs, d))"

fun decode_request_body :: "Decoder \<Rightarrow> Command \<Rightarrow> Request decoded" where
  "decode_request_body d CmdCreateQueue =
     res_bind (Decoder_array ''CREATE_QUEUE request body'' 5 d) (\<lambda>(_, d).
     res_bind (queue_id d) (\<lambda>(queue, d).
     res_bind (principal d) (\<lambda>(sender, d).
     res_bind (principal d) (\<lambda>(recipient, d).
     res_bind (Decoder_unsigned ''max-messages'' d) (\<lambda>(max_messages, d).
     res_bind (Decoder_unsigned ''max-message-bytes'' d) (\<lambda>(max_message_bytes, d).
     res_bind (map_err DeInvalidProtocolValue (QueueLimits_new max_messages max_message_bytes)) (\<lambda>limits.
     Inr (ReqCreateQueue \<lparr>cq_queue_id = queue, cq_sender = sender, cq_recipient = recipient,
       cq_limits = limits\<rparr>, d))))))))"
| "decode_request_body d CmdSend =
     res_bind (Decoder_array ''SEND request body'' 5 d) (\<lambda>(_, d).
     res_bind (queue_id d) (\<lambda>(queue, d).
     res_bind (principal d) (\<lambda>(sender, d).
     res_bind (message_id d) (\<lambda>(message, d).
     res_bind (Decoder_bytes ''payload'' MAX_MESSAGE_BYTES d) (\<lambda>(payload_bytes, d).
     res_bind (map_err DeInvalidProtocolValue (Payload_new payload_bytes)) (\<lambda>payload.
     res_bind (Decoder_unsigned ''ttl'' d) (\<lambda>(ttl, d).
     Inr (ReqSend \<lparr>sr_queue_id = queue, sr_sender = sender, sr_message_id = message,
       sr_payload = payload, sr_ttl = Ttl ttl\<rparr>, d))))))))"
| "decode_request_body d CmdFetch =
     res_bind (Decoder_array ''FETCH request body'' 2 d) (\<lambda>(_, d).
     res_bind (queue_id d) (\<lambda>(queue, d).
     res_bind (principal d) (\<lambda>(recipient, d).
     Inr (ReqFetch \<lparr>fr_queue_id = queue, fr_recipient = recipient\<rparr>, d))))"
| "decode_request_body d CmdAck =
     res_bind (Decoder_array ''ACK request body'' 3 d) (\<lambda>(_, d).
     res_bind (queue_id d) (\<lambda>(queue, d).
     res_bind (principal d) (\<lambda>(recipient, d).
     res_bind (message_id d) (\<lambda>(message, d).
     Inr (ReqAck \<lparr>ar_queue_id = queue, ar_recipient = recipient, ar_message_id = message\<rparr>, d)))))"
| "decode_request_body d CmdDeleteQueue =
     res_bind (Decoder_array ''DELETE_QUEUE request body'' 2 d) (\<lambda>(_, d).
     res_bind (queue_id d) (\<lambda>(queue, d).
     res_bind (principal d) (\<lambda>(recipient, d).
     Inr (ReqDeleteQueue \<lparr>dq_queue_id = queue, dq_recipient = recipient\<rparr>, d))))"

definition decode_request :: "bytes \<Rightarrow> (DecodeError, DecodedRequest) result" where
  "decode_request bs =
     res_bind (decode_preamble bs) (\<lambda>request_id.
     res_bind (Decoder_array ''request payload'' 3 (Decoder_new bs PREAMBLE_BYTES)) (\<lambda>(_, d).
     res_bind (expect_value d ''request direction'' 0) (\<lambda>(_, d).
     res_bind (decode_command d) (\<lambda>(command, d).
     res_bind (decode_request_body d command) (\<lambda>(request, d).
     let authenticated_end = dec_offset d in
     res_bind (Decoder_bytes ''auth'' MAX_AUTH_BYTES d) (\<lambda>(auth_bytes, d).
     res_bind (map_err DeInvalidProtocolValue (Auth_new auth_bytes)) (\<lambda>auth.
     res_bind (finish d bs) (\<lambda>_.
     Inr \<lparr>dr_frame = \<lparr>rf_request_id = request_id, rf_request = request, rf_auth = auth\<rparr>,
       dr_authenticated_bytes = take authenticated_end bs\<rparr>))))))))"

definition small_u8 :: "Decoder \<Rightarrow> string \<Rightarrow> u8 decoded" where
  "small_u8 d field =
     res_bind (Decoder_unsigned field d) (\<lambda>(value, d).
     res_bind (ok_or (u8_try_from value) (DeInvalidValue field value)) (\<lambda>b. Inr (b, d)))"

fun decode_response_body :: "Decoder \<Rightarrow> Command \<Rightarrow> ResponseBody decoded" where
  "decode_response_body d CmdCreateQueue =
     res_bind (Decoder_array ''CREATE_QUEUE response body'' 1 d) (\<lambda>(_, d).
     res_bind (small_u8 d ''CREATE_QUEUE outcome'') (\<lambda>(value, d).
     res_bind (map_err DeInvalidProtocolValue (CreateQueueOutcome_try_from value)) (\<lambda>outcome.
     Inr (RespCreateQueue outcome, d))))"
| "decode_response_body d CmdSend =
     res_bind (Decoder_array ''SEND response body'' 1 d) (\<lambda>(_, d).
     res_bind (small_u8 d ''SEND outcome'') (\<lambda>(value, d).
     res_bind (map_err DeInvalidProtocolValue (SendOutcome_try_from value)) (\<lambda>outcome.
     Inr (RespSend outcome, d))))"
| "decode_response_body d CmdFetch =
     res_bind (Decoder_array_length d) (\<lambda>(actual, d).
     if actual = 1 then
       res_bind (expect_value d ''FETCH availability'' 0) (\<lambda>(_, d). Inr (RespFetch None, d))
     else if actual = 4 then
       res_bind (expect_value d ''FETCH availability'' 1) (\<lambda>(_, d).
       res_bind (message_id d) (\<lambda>(message, d).
       res_bind (Decoder_bytes ''payload'' MAX_MESSAGE_BYTES d) (\<lambda>(payload_bytes, d).
       res_bind (map_err DeInvalidProtocolValue (Payload_new payload_bytes)) (\<lambda>payload.
       res_bind (Decoder_unsigned ''expires-at'' d) (\<lambda>(expires_at, d).
       Inr (RespFetch (Some \<lparr>dl_message_id = message, dl_payload = payload,
         dl_expires_at = Timestamp expires_at\<rparr>), d))))))
     else Inl (DeInvalidValue ''FETCH response body length'' actual))"
| "decode_response_body d CmdAck =
     res_bind (Decoder_array ''ACK response body'' 0 d) (\<lambda>(_, d). Inr (RespAck, d))"
| "decode_response_body d CmdDeleteQueue =
     res_bind (Decoder_array ''DELETE_QUEUE response body'' 0 d) (\<lambda>(_, d). Inr (RespDeleteQueue, d))"

text \<open>The status-dependent part of \<open>decode_response\<close>.\<close>

definition decode_response_value :: "u64 \<Rightarrow> Status \<Rightarrow> Decoder \<Rightarrow> Response decoded" where
  "decode_response_value command_code status d =
     (if Status_is_ok status then
        res_bind (command_from_u64 command_code) (\<lambda>command.
        res_bind (decode_response_body d command) (\<lambda>(body, d). Inr (RespSuccess body, d)))
      else
        res_bind (Decoder_array ''error response body'' 0 d) (\<lambda>(_, d).
        res_bind (if command_code = 0 then Inr None
                  else res_bind (command_from_u64 command_code) (\<lambda>c. Inr (Some c))) (\<lambda>command.
        res_bind (map_err DeInvalidProtocolValue (ErrorResponse_new command status)) (\<lambda>e.
        Inr (RespError e, d)))))"

definition decode_response :: "bytes \<Rightarrow> (DecodeError, ResponseFrame) result" where
  "decode_response bs =
     res_bind (decode_preamble bs) (\<lambda>request_id.
     res_bind (Decoder_array ''response payload'' 4 (Decoder_new bs PREAMBLE_BYTES)) (\<lambda>(_, d).
     res_bind (expect_value d ''response direction'' 1) (\<lambda>(_, d).
     res_bind (Decoder_unsigned ''response command'' d) (\<lambda>(command_code, d).
     res_bind (decode_status d) (\<lambda>(status, d).
     res_bind (decode_response_value command_code status d) (\<lambda>(response, d).
     res_bind (finish d bs) (\<lambda>_.
     Inr \<lparr>rsf_request_id = request_id, rsf_response = response\<rparr>)))))))"

section \<open>Exactness of the body decoders\<close>

lemma limits_fit [simp]: "MAX_MESSAGE_BYTES \<le> u64_max" "MAX_AUTH_BYTES \<le> u64_max" "32 \<le> u64_max"
  by (simp_all add: protocol_bounds u64_max_def)

lemma ucast_u8_inject: "(ucast (a :: u8) :: u64) = ucast b \<longleftrightarrow> a = b"
  by (metis u8_try_from_iff option.inject)

lemma command_from_u64_Inr: "command_from_u64 v = Inr c \<longleftrightarrow> v = ucast (Command_as_u8 c)"
  by (auto simp: command_from_u64_def res_simps u8_try_from_iff)

lemma fixed_bytes_Inr:
  "wf_Decoder d \<Longrightarrow> n \<le> u64_max \<Longrightarrow>
   fixed_bytes n d f = Inr (bs, d') \<longleftrightarrow> length bs = n \<and> reads d (encode_id bs) d'"
  by (auto simp: fixed_bytes_def res_simps Decoder_bytes_Inr encode_id_def split: if_splits)

interpretation queue_id_codec: item_codec queue_id "\<lambda>q. encode_id (QueueId_bytes q)" wf_QueueId
  by unfold_locales (auto simp: queue_id_def res_simps fixed_bytes_Inr wf_id_defs QueueId.exhaust_sel)

interpretation principal_codec: item_codec principal "\<lambda>q. encode_id (Principal_bytes q)" wf_Principal
  by unfold_locales (auto simp: principal_def res_simps fixed_bytes_Inr wf_id_defs Principal.exhaust_sel)

interpretation message_id_codec: item_codec message_id "\<lambda>q. encode_id (MessageId_bytes q)" wf_MessageId
  by unfold_locales (auto simp: message_id_def res_simps fixed_bytes_Inr wf_id_defs MessageId.exhaust_sel)

interpretation command_codec: item_codec decode_command
    "\<lambda>c. encode_unsigned (ucast (Command_as_u8 c))" "\<lambda>_. True"
  by unfold_locales (auto simp: decode_command_def res_simps unsigned_codec.exact command_from_u64_Inr)

interpretation status_codec: item_codec decode_status
    "\<lambda>c. encode_unsigned (ucast (Status_as_u8 c))" "\<lambda>_. True"
  by unfold_locales (auto simp: decode_status_def res_simps unsigned_codec.exact u8_try_from_iff)

interpretation small_u8_codec: item_codec "\<lambda>d. small_u8 d f"
    "\<lambda>v. encode_unsigned (ucast v)" "\<lambda>_. True" for f
  by unfold_locales (auto simp: small_u8_def res_simps unsigned_codec.exact u8_try_from_iff)

interpretation expect_codec: item_codec "\<lambda>d. expect_value d f n" "\<lambda>_. encode_unsigned n" "\<lambda>_. True" for f n
  by unfold_locales (auto simp: expect_value_def res_simps unsigned_codec.exact split: if_splits)

lemmas codec_exact = unsigned_codec.exact array_codec.exact array_length_codec.exact
  queue_id_codec.exact principal_codec.exact message_id_codec.exact command_codec.exact
  status_codec.exact small_u8_codec.exact expect_codec.exact Decoder_bytes_Inr

lemma decode_request_body_Inr:
  assumes "wf_Decoder d"
  shows "decode_request_body d c = Inr (r, d') \<longleftrightarrow>
    wf_Request r \<and> Request_command r = c \<and> reads d (encode_request_body r) d'"
proof (cases r)
  case (ReqCreateQueue x)
  with assms show ?thesis
    by (cases c; cases x) (auto simp: res_simps codec_exact reads_parts)
next
  case (ReqSend x)
  with assms show ?thesis
    by (cases c; cases x; cases "sr_payload x"; cases "sr_ttl x")
      (auto simp: res_simps codec_exact reads_parts wf_Payload_def)
next
  case (ReqFetch x)
  with assms show ?thesis
    by (cases c; cases x) (auto simp: res_simps codec_exact reads_parts)
next
  case (ReqAck x)
  with assms show ?thesis
    by (cases c; cases x) (auto simp: res_simps codec_exact reads_parts)
next
  case (ReqDeleteQueue x)
  with assms show ?thesis
    by (cases c; cases x) (auto simp: res_simps codec_exact reads_parts)
qed

interpretation request_body_codec: item_codec "\<lambda>d. decode_request_body d c" encode_request_body
    "\<lambda>r. wf_Request r \<and> Request_command r = c" for c
  by unfold_locales (auto simp: decode_request_body_Inr)

definition wf_ResponseBody :: "ResponseBody \<Rightarrow> bool" where
  "wf_ResponseBody b \<longleftrightarrow> wf_Response (RespSuccess b)"

lemma decode_response_body_Inr:
  assumes "wf_Decoder d"
  shows "decode_response_body d c = Inr (r, d') \<longleftrightarrow>
    wf_ResponseBody r \<and> ResponseBody_command r = c \<and> reads d (encode_success_body r) d'"
proof (cases r)
  case (RespFetch x)
  show ?thesis
  proof (cases x)
    case None
    have one: "\<exists>a :: u64. a \<noteq> 4 \<and> (a \<noteq> 4 \<longrightarrow> a = 1)"
      by (rule exI [of _ 1]) simp
    from None RespFetch assms show ?thesis
      by (cases c) (auto simp: one wf_ResponseBody_def res_simps codec_exact reads_parts split: if_splits)
  next
    case (Some y)
    with RespFetch assms show ?thesis
      by (cases c; cases y; cases "dl_payload y"; cases "dl_expires_at y")
        (auto simp: wf_ResponseBody_def wf_Payload_def res_simps codec_exact reads_parts split: if_splits)
  qed
qed (cases c; auto simp: assms wf_ResponseBody_def res_simps codec_exact reads_parts split: if_splits)+

interpretation response_body_codec: item_codec "\<lambda>d. decode_response_body d c" encode_success_body
    "\<lambda>r. wf_ResponseBody r \<and> ResponseBody_command r = c" for c
  by unfold_locales (auto simp: decode_response_body_Inr)

section \<open>Exactness of the frame decoders\<close>

lemma standing_new:
  "standing (Decoder_new bs n) e \<and> n + length e = length bs \<longleftrightarrow> n \<le> length bs \<and> drop n bs = e"
  by (auto simp: standing_def Decoder_new_def)

lemma decode_preamble_Inr:
  "decode_preamble bs = Inr rid \<longleftrightarrow>
     wf_RequestId rid \<and> length bs \<le> MAX_FRAME_BYTES \<and> take PREAMBLE_BYTES bs = encode_preamble rid"
proof -
  have "17 \<le> length bs \<and> take 17 bs ! 0 = 1 \<and> rid = RequestId (drop 1 (take 17 bs)) \<longleftrightarrow>
      wf_RequestId rid \<and> take 17 bs = 1 # RequestId_bytes rid"
    by (cases rid; cases bs) (auto simp: wf_RequestId_def dest: arg_cong [where f = length])
  then show ?thesis
    by (auto simp: decode_preamble_def res_simps get_range_eq_Some PREAMBLE_BYTES_def Let_def
        encode_preamble_def VERSION_def split: if_splits)
qed

lemma wf_Decoder_frame: "length bs \<le> MAX_FRAME_BYTES \<Longrightarrow> wf_Decoder (Decoder_new bs n)"
  by (simp add: wf_Decoder_def Decoder_new_def protocol_bounds u64_max_def)

lemma preamble_split:
  "take 17 bs = encode_preamble rid \<and> 17 \<le> length bs \<and> drop 17 bs = e \<and> wf_RequestId rid
   \<longleftrightarrow> wf_RequestId rid \<and> bs = encode_preamble rid @ e"
  (is "?l \<longleftrightarrow> ?r")
proof
  show "?l \<Longrightarrow> ?r" by (metis append_take_drop_id)
  show "?r \<Longrightarrow> ?l" by (simp add: encode_preamble_def wf_RequestId_def)
qed

lemma frame_split:
  assumes "wf_RequestId rid"
  shows "take PREAMBLE_BYTES bs = encode_preamble rid \<and> standing (Decoder_new bs PREAMBLE_BYTES) e
      \<and> PREAMBLE_BYTES + length e = length bs \<longleftrightarrow> bs = encode_preamble rid @ e"
  using preamble_split [of bs rid e] standing_new [of bs 17 e] assms by (auto simp: PREAMBLE_BYTES_def)

lemma finish_Inr: "finish d bs = Inr u \<longleftrightarrow> dec_offset d = length bs"
  by (simp add: finish_def)

lemma decode_request_chain:
  assumes "length bs \<le> MAX_FRAME_BYTES"
  shows "decode_request bs = Inr r \<longleftrightarrow>
     decode_preamble bs = Inr (rf_request_id (dr_frame r)) \<and> wf_Request (rf_request (dr_frame r))
     \<and> wf_Auth (rf_auth (dr_frame r))
     \<and> standing (Decoder_new bs PREAMBLE_BYTES)
         (encode_request_payload (rf_request (dr_frame r)) @ encode_bytes (Auth_bytes (rf_auth (dr_frame r))))
     \<and> PREAMBLE_BYTES + length (encode_request_payload (rf_request (dr_frame r))
         @ encode_bytes (Auth_bytes (rf_auth (dr_frame r)))) = length bs
     \<and> dr_authenticated_bytes r
         = take (PREAMBLE_BYTES + length (encode_request_payload (rf_request (dr_frame r)))) bs"
proof -
  obtain f ab where r: "r = \<lparr>dr_frame = f, dr_authenticated_bytes = ab\<rparr>" by (cases r)
  obtain i q a where f: "f = \<lparr>rf_request_id = i, rf_request = q, rf_auth = Auth a\<rparr>"
    by (metis RequestFrame.surjective Auth.exhaust unit.exhaust)
  have off: "dec_offset (Decoder_new bs PREAMBLE_BYTES) = PREAMBLE_BYTES"
    by (simp add: Decoder_new_def)
  show ?thesis
    using wf_Decoder_frame [OF assms, of PREAMBLE_BYTES] unfolding r f decode_request_def
    by (auto simp: Let_def res_simps codec_exact decode_request_body_Inr reads_parts finish_Inr
        encode_request_payload_def off wf_Auth_def add.assoc)
qed

text \<open>
  A byte string decodes to a request exactly when it is the encoding of a well-formed request
  frame within the frame bound; the proof covers exactly the preamble and payload.
\<close>

lemma decode_request_exact:
  "decode_request bs = Inr r \<longleftrightarrow>
     wf_RequestFrame (dr_frame r) \<and> bs = encode_request (dr_frame r) \<and> length bs \<le> MAX_FRAME_BYTES
     \<and> dr_authenticated_bytes r
         = encode_authenticated_request (rf_request_id (dr_frame r)) (rf_request (dr_frame r))"
proof (cases "length bs \<le> MAX_FRAME_BYTES")
  case True
  let ?f = "dr_frame r"
  let ?p = "encode_request_payload (rf_request ?f)"
  have "decode_request bs = Inr r \<longleftrightarrow> wf_RequestFrame ?f
      \<and> bs = encode_preamble (rf_request_id ?f) @ ?p @ encode_bytes (Auth_bytes (rf_auth ?f))
      \<and> dr_authenticated_bytes r = take (PREAMBLE_BYTES + length ?p) bs"
    unfolding decode_request_chain [OF True] decode_preamble_Inr wf_RequestFrame_def
    using True frame_split by blast
  moreover have "wf_RequestFrame ?f \<Longrightarrow> length (encode_preamble (rf_request_id ?f)) = PREAMBLE_BYTES"
    by (simp add: wf_RequestFrame_def wf_RequestId_def encode_preamble_def PREAMBLE_BYTES_def)
  ultimately show ?thesis
    using True by (auto simp: encode_request_def encode_authenticated_request_def)
next
  case False
  then show ?thesis
    by (simp add: decode_request_def decode_preamble_def)
qed

lemma command_code_nonzero [simp]: "(ucast (Command_as_u8 k) :: u64) \<noteq> 0"
  by (cases k) simp_all

definition encode_response_value :: "Response \<Rightarrow> bytes" where
  "encode_response_value response =
     (case response of RespError _ \<Rightarrow> encode_array 0 | RespSuccess body \<Rightarrow> encode_success_body body)"

lemma decode_response_value_Inr:
  assumes "wf_Decoder d"
  shows "decode_response_value c st d = Inr (q, d') \<longleftrightarrow>
    wf_Response q \<and> Response_status q = st
    \<and> c = (case Response_command q of None \<Rightarrow> 0 | Some k \<Rightarrow> ucast (Command_as_u8 k))
    \<and> reads d (encode_response_value q) d'"
proof (cases q)
  case (RespSuccess b)
  with assms show ?thesis
    by (auto simp: decode_response_value_def encode_response_value_def res_simps codec_exact
        decode_response_body_Inr command_from_u64_Inr wf_ResponseBody_def)
next
  case (RespError e)
  with assms show ?thesis
    by (cases e; cases "er_command e") (auto simp: decode_response_value_def encode_response_value_def
        res_simps codec_exact command_from_u64_Inr split: if_splits)
qed

lemma decode_response_chain:
  assumes "length bs \<le> MAX_FRAME_BYTES"
  shows "decode_response bs = Inr r \<longleftrightarrow>
     decode_preamble bs = Inr (rsf_request_id r) \<and> wf_Response (rsf_response r)
     \<and> standing (Decoder_new bs PREAMBLE_BYTES) (encode_response_payload (rsf_response r))
     \<and> PREAMBLE_BYTES + length (encode_response_payload (rsf_response r)) = length bs"
proof -
  obtain i q where r: "r = \<lparr>rsf_request_id = i, rsf_response = q\<rparr>" by (cases r)
  have off: "dec_offset (Decoder_new bs PREAMBLE_BYTES) = PREAMBLE_BYTES"
    by (simp add: Decoder_new_def)
  show ?thesis
    using wf_Decoder_frame [OF assms, of PREAMBLE_BYTES]
    unfolding r decode_response_def encode_response_payload_def encode_response_value_def [symmetric]
    by (auto simp: res_simps codec_exact decode_response_value_Inr reads_parts finish_Inr off add.assoc)
qed

lemma decode_response_exact:
  "decode_response bs = Inr r \<longleftrightarrow>
     wf_ResponseFrame r \<and> bs = encode_response r \<and> length bs \<le> MAX_FRAME_BYTES"
proof (cases "length bs \<le> MAX_FRAME_BYTES")
  case True
  show ?thesis
    unfolding decode_response_chain [OF True] decode_preamble_Inr wf_ResponseFrame_def encode_response_def
    using True frame_split by blast
next
  case False
  then show ?thesis
    by (simp add: decode_response_def decode_preamble_def)
qed

section \<open>Frame sizes\<close>

lemma small_code [simp]: "ucast (Command_as_u8 c) \<le> (23 :: u64)" "ucast (Status_as_u8 s) \<le> (23 :: u64)"
  by (cases c; simp) (cases s; simp)

lemma length_encode_request_payload_le:
  assumes "wf_Request r"
  shows "length (encode_request_payload r) \<le> 3 + (1 + 3 * 34 + 3 + MAX_MESSAGE_BYTES + 9)"
proof -
  have "length (encode_request_body r) \<le> 1 + 3 * 34 + 3 + MAX_MESSAGE_BYTES + 9"
  proof (cases r)
    case (ReqCreateQueue c)
    with assms length_encode_unsigned_le [of "ql_max_messages (cq_limits c)"]
      length_encode_unsigned_le [of "ql_max_message_bytes (cq_limits c)"] show ?thesis
      by (simp add: encoded_sizes encode_id_def wf_id_defs protocol_bounds)
  next
    case (ReqSend s)
    have "length (Payload_bytes (sr_payload s)) \<le> 64374"
      using assms ReqSend by (simp add: wf_Payload_def protocol_bounds)
    with assms ReqSend length_encode_unsigned_le [of "Ttl_as_secs (sr_ttl s)"]
      length_encode_bytes_le [of "Payload_bytes (sr_payload s)"] show ?thesis
      by (simp add: encoded_sizes encode_id_def wf_id_defs protocol_bounds)
  qed (use assms in \<open>simp_all add: encoded_sizes encode_id_def wf_id_defs\<close>)
  then show ?thesis
    by (simp add: encode_request_payload_def encoded_sizes)
qed

lemma length_encode_request_le:
  assumes "wf_RequestFrame f"
  shows "length (encode_request f) \<le> MAX_FRAME_BYTES"
proof -
  have "length (encode_preamble (rf_request_id f)) = 17"
    using assms by (simp add: wf_RequestFrame_def wf_RequestId_def encode_preamble_def)
  moreover have "length (encode_request_payload (rf_request f)) \<le> 3 + (1 + 3 * 34 + 3 + MAX_MESSAGE_BYTES + 9)"
    using assms by (simp only: wf_RequestFrame_def length_encode_request_payload_le)
  moreover have "length (encode_bytes (Auth_bytes (rf_auth f))) \<le> MAX_AUTH_BYTES + 3"
    using assms length_encode_bytes_le [of "Auth_bytes (rf_auth f)"]
    by (simp add: wf_RequestFrame_def wf_Auth_def protocol_bounds)
  ultimately show ?thesis
    by (simp add: encode_request_def encode_authenticated_request_def protocol_bounds)
qed

lemma length_encode_response_le:
  assumes "wf_ResponseFrame f"
  shows "length (encode_response f) \<le> MAX_FRAME_BYTES"
proof -
  have head: "length (encode_preamble (rsf_request_id f)) = 17"
    using assms by (simp add: wf_ResponseFrame_def wf_RequestId_def encode_preamble_def)
  have code: "(case k of None \<Rightarrow> 0 | Some c \<Rightarrow> ucast (Command_as_u8 c)) \<le> (23 :: u64)" for k
    by (simp split: option.split)
  have body: "length (encode_success_body b) \<le> 1 + 1 + 34 + (MAX_MESSAGE_BYTES + 3) + 9"
    if "wf_ResponseBody b" for b
  proof (cases b rule: encode_success_body.cases)
    case (1 outcome)
    then show ?thesis by (cases outcome) (simp_all add: encoded_sizes)
  next
    case (2 outcome)
    then show ?thesis by (cases outcome) (simp_all add: encoded_sizes)
  next
    case (4 d)
    with that have p: "length (Payload_bytes (dl_payload d)) \<le> 64374"
      and m: "length (MessageId_bytes (dl_message_id d)) = 32"
      by (simp_all add: wf_ResponseBody_def wf_Payload_def wf_MessageId_def protocol_bounds)
    show ?thesis
      using 4 m p length_encode_unsigned_le [of "Timestamp_as_secs (dl_expires_at d)"]
        length_encode_bytes_le [of "Payload_bytes (dl_payload d)"]
      by (simp add: encoded_sizes encode_id_def protocol_bounds)
  qed (simp_all add: encoded_sizes)
  show ?thesis
  proof (cases "rsf_response f")
    case (RespSuccess b)
    then have "wf_ResponseBody b"
      using assms by (simp add: wf_ResponseFrame_def wf_ResponseBody_def)
    from body [OF this] head RespSuccess show ?thesis
      by (simp add: encode_response_def encode_response_payload_def encoded_sizes code protocol_bounds)
  next
    case (RespError e)
    with head show ?thesis
      by (simp add: encode_response_def encode_response_payload_def encoded_sizes code protocol_bounds)
  qed
qed

section \<open>Properties of the codec\<close>

text \<open>
  C13: strict and complete request decoding. A byte string decodes to a request exactly when it is
  the deterministic encoding of a well-formed request frame, and the authenticated bytes handed on
  are then the deterministic encoding of the preamble and payload: there is one accepted byte
  string per frame, every encoded frame is accepted, and the signature never covers anything else.
\<close>

theorem decode_request_iff_encoded:
  "decode_request bs = Inr r \<longleftrightarrow>
     wf_RequestFrame (dr_frame r) \<and> bs = encode_request (dr_frame r)
     \<and> dr_authenticated_bytes r
         = encode_authenticated_request (rf_request_id (dr_frame r)) (rf_request (dr_frame r))"
  using length_encode_request_le [of "dr_frame r"] by (auto simp: decode_request_exact)

text \<open>
  C14: strict and complete response decoding. A byte string decodes to a response exactly when it is
  the deterministic encoding of a well-formed response frame; in particular an error response never
  carries the success status.
\<close>

theorem decode_response_iff_encoded:
  "decode_response bs = Inr r \<longleftrightarrow> wf_ResponseFrame r \<and> bs = encode_response r"
  using length_encode_response_le [of r] by (auto simp: decode_response_exact)

text \<open>The frame with everything at its maximum: 64374 payload bytes, 1024 auth bytes, a 9-byte lifetime.\<close>

definition largest_request :: RequestFrame where
  "largest_request = \<lparr>rf_request_id = RequestId (replicate 16 0),
     rf_request = ReqSend \<lparr>sr_queue_id = QueueId (replicate 32 0), sr_sender = Principal (replicate 32 0),
       sr_message_id = MessageId (replicate 32 0), sr_payload = Payload (replicate MAX_MESSAGE_BYTES 0),
       sr_ttl = Ttl 0xFFFFFFFFFFFFFFFF\<rparr>,
     rf_auth = Auth (replicate MAX_AUTH_BYTES 0)\<rparr>"

lemma wf_largest_request: "wf_RequestFrame largest_request"
  by (simp add: wf_RequestFrame_def largest_request_def wf_id_defs wf_Payload_def wf_Auth_def)

lemma length_largest_request: "length (encode_request largest_request) = MAX_FRAME_BYTES"
proof -
  have "length (encode_unsigned 0xFFFFFFFFFFFFFFFF) = 9"
    by (simp add: encode_unsigned_def length_encode_argument)
  moreover have "length (encode_bytes (replicate MAX_MESSAGE_BYTES 0)) = MAX_MESSAGE_BYTES + 3"
    "length (encode_bytes (replicate MAX_AUTH_BYTES 0)) = MAX_AUTH_BYTES + 3"
    by (simp_all add: encode_bytes_def length_encode_argument protocol_bounds)
  ultimately show ?thesis
    by (simp add: largest_request_def encode_request_def encode_authenticated_request_def encode_preamble_def
        encode_request_payload_def encode_id_def encoded_sizes protocol_bounds)
qed

text \<open>
  The derived message bound is exact. Every well-formed request fits the frame bound of 65536
  bytes, and the SEND request with the largest payload, proof and lifetime is exactly that long, so
  \<open>MAX_MESSAGE_BYTES\<close> could not be larger.
\<close>

theorem request_frame_bound_tight:
  "(wf_RequestFrame f \<longrightarrow> length (encode_request f) \<le> MAX_FRAME_BYTES)
   \<and> wf_RequestFrame largest_request \<and> length (encode_request largest_request) = MAX_FRAME_BYTES"
  using length_encode_request_le wf_largest_request length_largest_request by simp

theorem request_frame_bound_tight_witness:
  "length (encode_request \<lparr>rf_request_id = RequestId (replicate 16 7),
     rf_request = ReqFetch \<lparr>fr_queue_id = QueueId (replicate 32 1), fr_recipient = Principal (replicate 32 2)\<rparr>,
     rf_auth = Auth_empty\<rparr>) \<le> MAX_FRAME_BYTES"
  by (rule request_frame_bound_tight [THEN conjunct1, THEN mp])
    (simp add: wf_RequestFrame_def wf_id_defs wf_Auth_def Auth_empty_def)

lemma authenticated_request_decodes:
  assumes "wf_RequestId i" and "wf_Request q"
  shows "decode_request (encode_authenticated_request i q @ encode_bytes []) =
    Inr \<lparr>dr_frame = \<lparr>rf_request_id = i, rf_request = q, rf_auth = Auth []\<rparr>,
      dr_authenticated_bytes = encode_authenticated_request i q\<rparr>"
  using assms length_encode_request_le [of "\<lparr>rf_request_id = i, rf_request = q, rf_auth = Auth []\<rparr>"]
  by (simp add: decode_request_exact wf_RequestFrame_def wf_Auth_def encode_request_def)

text \<open>
  The bytes a request proof signs determine the request: two well-formed requests with the same
  authenticated bytes have the same request identifier and the same command with the same arguments,
  so a signature cannot be moved to another request.
\<close>

theorem authenticated_bytes_injective:
  assumes "wf_RequestId i" and "wf_Request q" and "wf_RequestId i'" and "wf_Request q'"
    and "encode_authenticated_request i q = encode_authenticated_request i' q'"
  shows "i = i' \<and> q = q'"
  using authenticated_request_decodes [OF assms(1,2), unfolded assms(5)]
    authenticated_request_decodes [OF assms(3,4)] by simp

theorem authenticated_bytes_injective_witness:
  "encode_authenticated_request (RequestId (replicate 16 7))
      (ReqFetch \<lparr>fr_queue_id = QueueId (replicate 32 1), fr_recipient = Principal (replicate 32 2)\<rparr>)
   \<noteq> encode_authenticated_request (RequestId (replicate 16 7))
      (ReqDeleteQueue \<lparr>dq_queue_id = QueueId (replicate 32 1), dq_recipient = Principal (replicate 32 2)\<rparr>)"
proof
  assume "encode_authenticated_request (RequestId (replicate 16 7))
      (ReqFetch \<lparr>fr_queue_id = QueueId (replicate 32 1), fr_recipient = Principal (replicate 32 2)\<rparr>)
   = encode_authenticated_request (RequestId (replicate 16 7))
      (ReqDeleteQueue \<lparr>dq_queue_id = QueueId (replicate 32 1), dq_recipient = Principal (replicate 32 2)\<rparr>)"
  from authenticated_bytes_injective [OF _ _ _ _ this] show False
    by (simp add: wf_id_defs)
qed

text \<open>
  Requests and responses cannot be confused: no byte string is accepted by both decoders.
\<close>

theorem directions_disjoint:
  assumes "decode_request bs = Inr r"
  shows "decode_response bs \<noteq> Inr s"
proof
  assume "decode_response bs = Inr s"
  then have "wf_ResponseFrame s" "bs = encode_response s"
    by (simp_all add: decode_response_exact)
  then have "bs ! 17 = 0x84"
    by (simp add: encode_response_def encode_preamble_def wf_ResponseFrame_def wf_RequestId_def nth_append
        encode_response_payload_def encode_array_def encode_argument_def)
  moreover have "wf_RequestFrame (dr_frame r)" "bs = encode_request (dr_frame r)"
    using assms by (simp_all add: decode_request_exact)
  then have "bs ! 17 = 0x83"
    by (simp add: encode_request_def encode_authenticated_request_def encode_preamble_def wf_RequestFrame_def
        wf_RequestId_def nth_append encode_request_payload_def encode_array_def encode_argument_def)
  ultimately show False by simp
qed

theorem directions_disjoint_witness:
  "\<forall>s. decode_response (encode_authenticated_request (RequestId (replicate 16 7))
      (ReqFetch \<lparr>fr_queue_id = QueueId (replicate 32 1), fr_recipient = Principal (replicate 32 2)\<rparr>)
      @ encode_bytes []) \<noteq> Inr s"
  by (rule allI, rule directions_disjoint, rule authenticated_request_decodes) (simp_all add: wf_id_defs)

text \<open>
  Version handling. A frame of at least 17 and at most 65536 bytes whose version byte is neither
  zero nor the supported one is reported as unsupported together with the version and the sixteen
  request identifier bytes that follow it, so that the answer can be correlated.
\<close>

theorem unsupported_version_reported:
  assumes "17 \<le> length bs" and "length bs \<le> MAX_FRAME_BYTES" and "hd bs \<noteq> 0" and "hd bs \<noteq> VERSION"
  shows "decode_request bs = Inl (DeUnsupportedVersion (hd bs) (RequestId (take 16 (tl bs))))"
  using assms by (cases bs) (auto simp: decode_request_def decode_preamble_def get_range_def PREAMBLE_BYTES_def)

theorem unsupported_version_reported_witness:
  "decode_request (2 # replicate 16 7) = Inl (DeUnsupportedVersion 2 (RequestId (replicate 16 7)))"
  using unsupported_version_reported [of "2 # replicate 16 7"]
  by (simp add: VERSION_def MAX_FRAME_BYTES_def)

end
