(* ===== verification/CW_Relay_Data.thy ===== *)
theory CW_Relay_Data
  imports CW_Types
begin

text \<open>
  The values the relay operations exchange with their callers (the public types of
  \<open>crates/cofferwire-relay/src/lib.rs\<close>), shared by the in-memory and the durable relay, and the
  relay's commands as events.
\<close>

section \<open>Data\<close>

datatype RelayTtl = RelayTtl (RelayTtl_as_secs: u64)

definition RelayTtl_from_secs :: "u64 \<Rightarrow> RelayTtl option" where
  "RelayTtl_from_secs seconds = (if seconds = 0 then None else Some (RelayTtl seconds))"

text \<open>\<open>usize\<close> is 64 bits wide; \<open>NonZeroUsize\<close> is a non-zero word.\<close>

record RelayQueueLimits =
  rl_max_messages :: u64
  rl_max_message_bytes :: u64

definition RelayQueueLimits_new :: "u64 \<Rightarrow> u64 \<Rightarrow> RelayQueueLimits option" where
  "RelayQueueLimits_new max_messages max_message_bytes =
     (if max_messages = 0 then None
      else if max_message_bytes = 0 then None
      else Some \<lparr>rl_max_messages = max_messages, rl_max_message_bytes = max_message_bytes\<rparr>)"

record QueueConfig =
  qc_sender :: Principal
  qc_recipient :: Principal
  qc_limits :: RelayQueueLimits

record RelayDelivery =
  rd_id :: MessageId
  rd_payload :: bytes
  rd_expires_at :: Timestamp

datatype RelayError =
    ReQueueNotFound | ReUnauthorized | ReQueueIdConflict | ReMessageIdConflict
  | ReMessageTooLarge | ReQueueFull | ReExpiryOverflow | ReLimitOutOfRange
  | ReAckMismatch | ReNotDelivered

section \<open>Commands as events\<close>

text \<open>
  One event per public method. The outcome of a command is the result the caller sees; a run
  threads the state through a list of events with the relay's clock at each.
\<close>

datatype RelayEvent =
    EvCreate QueueId QueueConfig
  | EvSend QueueId Principal MessageId bytes RelayTtl
  | EvFetch QueueId Principal
  | EvAck QueueId Principal MessageId
  | EvDelete QueueId Principal

datatype RelayOutcome =
    OutCreate CreateQueueOutcome
  | OutSend SendOutcome
  | OutFetch "RelayDelivery option"
  | OutAck
  | OutDelete
  | OutErr RelayError

fun event_queue :: "RelayEvent \<Rightarrow> QueueId" where
  "event_queue (EvCreate q _) = q"
| "event_queue (EvSend q _ _ _ _) = q"
| "event_queue (EvFetch q _) = q"
| "event_queue (EvAck q _ _) = q"
| "event_queue (EvDelete q _) = q"

text \<open>A run threads the state of a step function through a list of events.\<close>

fun run_steps :: "('s \<Rightarrow> 'e \<Rightarrow> 'o \<times> 's) \<Rightarrow> 's \<Rightarrow> 'e list \<Rightarrow> 'o list \<times> 's" where
  "run_steps f s [] = ([], s)"
| "run_steps f s (e # es) =
     (let (out, s') = f s e; (outs, s'') = run_steps f s' es in (out # outs, s''))"

lemma run_steps_Cons:
  "run_steps f s (e # es) =
     (fst (f s e) # fst (run_steps f (snd (f s e)) es), snd (run_steps f (snd (f s e)) es))"
  by (simp add: Let_def case_prod_beta)

lemma run_steps_append:
  "run_steps f s (es @ es') =
     (fst (run_steps f s es) @ fst (run_steps f (snd (run_steps f s es)) es'),
      snd (run_steps f (snd (run_steps f s es)) es'))"
  by (induction es arbitrary: s) (simp_all add: run_steps_Cons del: run_steps.simps(2))

lemma length_run_steps [simp]: "length (fst (run_steps f s es)) = length es"
  by (induction es arbitrary: s) (simp_all add: run_steps_Cons del: run_steps.simps(2))

text \<open>The history of a run: every event with the outcome its caller saw.\<close>

definition run_history :: "('s \<Rightarrow> 'e \<Rightarrow> 'o \<times> 's) \<Rightarrow> 's \<Rightarrow> 'e list \<Rightarrow> ('e \<times> 'o) list" where
  "run_history f s es = zip es (fst (run_steps f s es))"

lemma run_history_Nil [simp]: "run_history f s [] = []"
  by (simp add: run_history_def)

lemma run_history_Cons:
  "run_history f s (e # es) = (e, fst (f s e)) # run_history f (snd (f s e)) es"
  by (simp add: run_history_def run_steps_Cons del: run_steps.simps(2))

lemma run_history_append:
  "run_history f s (es @ es') = run_history f s es @ run_history f (snd (run_steps f s es)) es'"
  by (simp add: run_history_def run_steps_append)

lemma run_history_snoc:
  "run_history f s (es @ [e]) = run_history f s es @ [(e, fst (f (snd (run_steps f s es)) e))]"
  by (simp add: run_history_append run_history_Cons)

lemma run_history_split:
  assumes "run_history f s es = h @ (e, out) # h'"
  obtains es1 where "h = run_history f s es1" and "out = fst (f (snd (run_steps f s es1)) e)"
proof -
  have "length es = length (run_history f s es)"
    by (simp add: run_history_def)
  then obtain es1 e1 es2 where es: "es = es1 @ e1 # es2" "length es1 = length h"
    using assms by (metis (no_types, lifting) add_Suc_right append_take_drop_id id_take_nth_drop
        length_append length_take less_add_Suc1 list.size(4) min.absorb4 add.right_neutral)
  then have "run_history f s es1 @ (e1, fst (f (snd (run_steps f s es1)) e1)) #
      run_history f (snd (f (snd (run_steps f s es1)) e1)) es2 = h @ (e, out) # h'"
    using assms by (simp add: run_history_append run_history_Cons)
  moreover have "length (run_history f s es1) = length h"
    using es(2) by (simp add: run_history_def)
  ultimately show ?thesis
    using that [of es1] by auto
qed

text \<open>The clock does not go backwards, starting at \<open>t\<close>.\<close>

definition clock_ordered :: "Timestamp \<Rightarrow> (Timestamp \<times> 'e) list \<Rightarrow> bool" where
  "clock_ordered t es \<longleftrightarrow> sorted (t # map fst es)"

definition last_time :: "Timestamp \<Rightarrow> (Timestamp \<times> 'e) list \<Rightarrow> Timestamp" where
  "last_time t es = last (t # map fst es)"

lemma clock_ordered_simps [simp]:
  "clock_ordered t []" "clock_ordered t (e # es) \<longleftrightarrow> t \<le> fst e \<and> clock_ordered (fst e) es"
  by (auto simp: clock_ordered_def)

lemma last_time_simps [simp]:
  "last_time t [] = t" "last_time t (e # es) = last_time (fst e) es"
  by (simp_all add: last_time_def)

end
