(* ===== verification/CW_Mailbox.thy ===== *)
theory CW_Mailbox
  imports CW_Relay_Data
begin

text \<open>
  The abstract specification of a relay: per queue a mailbox holding the deliveries that are
  still due, in order, and whether the first one was handed out. There is no expiry pass and no
  per-message flag: time passing is the function \<open>age\<close>, and a command acts on the aged state and leaves
  an aged one. The
  locales \<open>mailbox_store\<close> and \<open>mailbox_service\<close> are the contract an implementation has to meet;
  what they derive holds of every relay that meets it.
\<close>

section \<open>Mailboxes\<close>

record Mailbox =
  mb_config :: QueueConfig
  mb_items :: "RelayDelivery list"
  mb_taken :: bool

type_synonym Mailboxes = "QueueId \<rightharpoonup> Mailbox"

definition due :: "Timestamp \<Rightarrow> RelayDelivery \<Rightarrow> bool" where
  "due now d \<longleftrightarrow> now < rd_expires_at d"

definition age_mailbox :: "Timestamp \<Rightarrow> Mailbox \<Rightarrow> Mailbox" where
  "age_mailbox now m = m\<lparr>mb_items := filter (due now) (mb_items m),
     mb_taken := mb_taken m \<and> mb_items m \<noteq> [] \<and> due now (hd (mb_items m))\<rparr>"

definition age :: "Timestamp \<Rightarrow> Mailboxes \<Rightarrow> Mailboxes" where
  "age now M q = map_option (age_mailbox now) (M q)"

section \<open>The specified commands\<close>

text \<open>What a sender is told, in the order the checks are made.\<close>

definition send_verdict ::
    "Mailbox \<Rightarrow> Principal \<Rightarrow> MessageId \<Rightarrow> bytes \<Rightarrow> Timestamp \<Rightarrow> RelayTtl \<Rightarrow> (RelayError, SendOutcome) result" where
  "send_verdict m sender mid payload now ttl =
     (if qc_sender (mb_config m) \<noteq> sender then Inl ReUnauthorized
      else if mid \<in> rd_id ` set (mb_items m)
      then if (\<exists>d \<in> set (mb_items m). rd_id d = mid \<and> rd_payload d = payload)
           then Inr SendDuplicate else Inl ReMessageIdConflict
      else if length payload > unat (rl_max_message_bytes (qc_limits (mb_config m))) then Inl ReMessageTooLarge
      else if length (mb_items m) \<ge> unat (rl_max_messages (qc_limits (mb_config m))) then Inl ReQueueFull
      else if unat (Timestamp_as_secs now) + unat (RelayTtl_as_secs ttl) > u64_max then Inl ReExpiryOverflow
      else Inr Accepted)"

definition accepted_item :: "MessageId \<Rightarrow> bytes \<Rightarrow> Timestamp \<Rightarrow> RelayTtl \<Rightarrow> RelayDelivery" where
  "accepted_item mid payload now ttl = \<lparr>rd_id = mid, rd_payload = payload,
     rd_expires_at = Timestamp (Timestamp_as_secs now + RelayTtl_as_secs ttl)\<rparr>"

fun spec_act :: "Mailboxes \<Rightarrow> Timestamp \<times> RelayEvent \<Rightarrow> RelayOutcome \<times> Mailboxes" where
  "spec_act M (now, EvCreate q c) =
     (case M q of
        None \<Rightarrow> (OutCreate Created, M(q \<mapsto> \<lparr>mb_config = c, mb_items = [], mb_taken = False\<rparr>))
      | Some m \<Rightarrow> (if mb_config m = c then OutCreate AlreadyExists else OutErr ReQueueIdConflict, M))"
| "spec_act M (now, EvSend q s mid payload ttl) =
     (case M q of
        None \<Rightarrow> (OutErr ReQueueNotFound, M)
      | Some m \<Rightarrow>
          (case send_verdict m s mid payload now ttl of
             Inl e \<Rightarrow> (OutErr e, M)
           | Inr SendDuplicate \<Rightarrow> (OutSend SendDuplicate, M)
           | Inr Accepted \<Rightarrow>
               (OutSend Accepted,
                M(q \<mapsto> m\<lparr>mb_items := mb_items m @ [accepted_item mid payload now ttl]\<rparr>))))"
| "spec_act M (now, EvFetch q p) =
     (case M q of
        None \<Rightarrow> (OutErr ReQueueNotFound, M)
      | Some m \<Rightarrow>
          if qc_recipient (mb_config m) \<noteq> p then (OutErr ReUnauthorized, M)
          else (case mb_items m of
                  [] \<Rightarrow> (OutFetch None, M)
                | d # _ \<Rightarrow> (OutFetch (Some d), M(q \<mapsto> m\<lparr>mb_taken := True\<rparr>))))"
| "spec_act M (now, EvAck q p mid) =
     (case M q of
        None \<Rightarrow> (OutErr ReQueueNotFound, M)
      | Some m \<Rightarrow>
          if qc_recipient (mb_config m) \<noteq> p then (OutErr ReUnauthorized, M)
          else (case mb_items m of
                  [] \<Rightarrow> (OutErr ReAckMismatch, M)
                | d # ds \<Rightarrow>
                    if rd_id d \<noteq> mid then (OutErr ReAckMismatch, M)
                    else if \<not> mb_taken m then (OutErr ReNotDelivered, M)
                    else (OutAck, M(q \<mapsto> m\<lparr>mb_items := ds, mb_taken := False\<rparr>))))"
| "spec_act M (now, EvDelete q p) =
     (case M q of
        None \<Rightarrow> (OutErr ReQueueNotFound, M)
      | Some m \<Rightarrow>
          if qc_recipient (mb_config m) \<noteq> p then (OutErr ReUnauthorized, M)
          else (OutDelete, M(q := None)))"

definition spec_step :: "Mailboxes \<Rightarrow> Timestamp \<times> RelayEvent \<Rightarrow> RelayOutcome \<times> Mailboxes" where
  "spec_step M e = (let (out, M') = spec_act (age (fst e) M) e in (out, age (fst e) M'))"

lemma spec_step_eq:
  "spec_step M e = (fst (spec_act (age (fst e) M) e), age (fst e) (snd (spec_act (age (fst e) M) e)))"
  by (simp add: spec_step_def Let_def case_prod_beta)

section \<open>Facts on the specification\<close>

lemma age_None [simp]: "age now M q = None \<longleftrightarrow> M q = None"
  by (simp add: age_def)

lemma age_Some: "age now M q = Some m' \<longleftrightarrow> (\<exists>m. M q = Some m \<and> m' = age_mailbox now m)"
  by (auto simp: age_def)

lemma age_empty [simp]: "age now Map.empty = Map.empty"
  by (auto simp: age_def)

lemma age_mailbox_simps [simp]:
  "mb_config (age_mailbox now m) = mb_config m"
  "mb_items (age_mailbox now m) = filter (due now) (mb_items m)"
  "mb_taken (age_mailbox now m) \<longleftrightarrow> mb_taken m \<and> mb_items m \<noteq> [] \<and> due now (hd (mb_items m))"
  by (simp_all add: age_mailbox_def)

lemma checked_add_verdict:
  "checked_add a b = (if u64_max < unat a + unat b then None else Some (a + b))"
  by (simp add: checked_add_def)

lemma accepted_item_expiry:
  assumes "send_verdict m s mid payload now ttl = Inr Accepted"
  shows "unat (Timestamp_as_secs (rd_expires_at (accepted_item mid payload now ttl)))
    = unat (Timestamp_as_secs now) + unat (RelayTtl_as_secs ttl)"
proof -
  have "checked_add (Timestamp_as_secs now) (RelayTtl_as_secs ttl)
      = Some (Timestamp_as_secs now + RelayTtl_as_secs ttl)"
    using assms by (auto simp: send_verdict_def checked_add_def split: if_splits)
  then show ?thesis
    by (simp add: accepted_item_def checked_add_eq_Some)
qed

text \<open>
  The answered command that lets go of a message: the recipient acknowledged it, or deleted its
  queue. A refused command, or one by any other principal, is not a release.
\<close>

definition releases :: "Principal \<Rightarrow> QueueId \<Rightarrow> MessageId \<Rightarrow> RelayEvent \<times> RelayOutcome \<Rightarrow> bool" where
  "releases p q mid x \<longleftrightarrow> x = (EvAck q p mid, OutAck) \<or> x = (EvDelete q p, OutDelete)"

definition holds_item :: "Mailboxes \<Rightarrow> QueueId \<Rightarrow> RelayDelivery \<Rightarrow> bool" where
  "holds_item M q d \<longleftrightarrow> (\<exists>m. M q = Some m \<and> d \<in> set (mb_items m))"

text \<open>The item is in the mailbox, and the mailbox is that of recipient \<open>p\<close>.\<close>

definition holds_for :: "Principal \<Rightarrow> Mailboxes \<Rightarrow> QueueId \<Rightarrow> RelayDelivery \<Rightarrow> bool" where
  "holds_for p M q d \<longleftrightarrow>
     (\<exists>m. M q = Some m \<and> qc_recipient (mb_config m) = p \<and> d \<in> set (mb_items m))"

lemma holds_for_age: "holds_for p (age now M) q d \<longleftrightarrow> holds_for p M q d \<and> due now d"
  by (auto simp: holds_for_def age_def)

lemma spec_send_holds:
  assumes "fst (spec_step M (now, EvSend q s mid payload ttl)) = OutSend Accepted"
    and "RelayTtl_as_secs ttl \<noteq> 0" and "M q = Some m"
  shows "holds_for (qc_recipient (mb_config m)) (snd (spec_step M (now, EvSend q s mid payload ttl))) q
    (accepted_item mid payload now ttl)"
proof -
  let ?A = "spec_act (age now M) (now, EvSend q s mid payload ttl)"
  from assms(1,3) obtain m' where "send_verdict m' s mid payload now ttl = Inr Accepted"
      and "holds_for (qc_recipient (mb_config m)) (snd ?A) q (accepted_item mid payload now ttl)"
    by (auto simp: spec_step_eq holds_for_def age_Some split: option.splits sum.splits SendOutcome.splits)
  moreover have "0 < unat (RelayTtl_as_secs ttl)"
    using assms(2) by (simp add: unat_gt_0)
  ultimately show ?thesis
    using accepted_item_expiry [of m' s mid payload now ttl]
    by (simp add: spec_step_eq holds_for_age due_def less_Timestamp_def word_less_nat_alt)
qed

lemma spec_act_keeps:
  assumes "holds_for p M q d" and "\<not> releases p q (rd_id d) (e, fst (spec_act M (now, e)))"
  shows "holds_for p (snd (spec_act M (now, e))) q d"
  using assms
  by (cases e) (auto simp: holds_for_def releases_def split: option.splits sum.splits SendOutcome.splits
      list.splits if_splits)

lemma spec_step_keeps:
  assumes "holds_for p M q d" and "due now d" and "\<not> releases p q (rd_id d) (e, fst (spec_step M (now, e)))"
  shows "holds_for p (snd (spec_step M (now, e))) q d"
  using assms spec_act_keeps [of p "age now M" q d e now] by (simp add: spec_step_eq holds_for_age)

lemma spec_act_error: "fst (spec_act M e) = OutErr x \<Longrightarrow> snd (spec_act M e) = M"
  by (cases "(M, e)" rule: spec_act.cases)
    (auto split: option.splits sum.splits SendOutcome.splits list.splits if_splits)

lemma spec_act_retry:
  assumes "holds_item M q d" and "\<forall>m. M q = Some m \<longrightarrow> qc_sender (mb_config m) = s"
  shows "spec_act M (now, EvSend q s (rd_id d) (rd_payload d) ttl) = (OutSend SendDuplicate, M)"
  using assms by (auto simp: holds_item_def send_verdict_def)

lemma spec_redelivers:
  assumes "fst (spec_step M (now, EvFetch q p)) = OutFetch (Some d)" and "due now' d" and "now \<le> now'"
  shows "fst (spec_step (snd (spec_step M (now, EvFetch q p))) (now', EvFetch q p)) = OutFetch (Some d)"
proof -
  have "due now d"
    using assms(2,3) by (simp add: due_def)
  then show ?thesis
    using assms by (auto simp: spec_step_eq age_def split: option.splits if_splits list.splits)
qed

section \<open>Draining a mailbox\<close>

definition drain_events :: "QueueId \<Rightarrow> Principal \<Rightarrow> Timestamp \<Rightarrow> RelayDelivery list \<Rightarrow> (Timestamp \<times> RelayEvent) list" where
  "drain_events q p now ds =
     concat (map (\<lambda>d. [(now, EvFetch q p), (now, EvAck q p (rd_id d))]) ds) @ [(now, EvFetch q p)]"

definition drain_outcomes :: "RelayDelivery list \<Rightarrow> RelayOutcome list" where
  "drain_outcomes ds = concat (map (\<lambda>d. [OutFetch (Some d), OutAck]) ds) @ [OutFetch None]"

lemma spec_drain:
  assumes "M q = Some m" and "qc_recipient (mb_config m) = p"
    and "filter (due now) (mb_items m) = ds"
  shows "fst (run_steps spec_step M (drain_events q p now ds)) = drain_outcomes ds"
  using assms
proof (induction ds arbitrary: M m)
  case Nil
  then show ?case
    by (simp add: drain_events_def drain_outcomes_def spec_step_eq age_def)
next
  case (Cons d ds)
  have due: "\<forall>x \<in> set (d # ds). due now x"
    using Cons.prems(3) by (metis (mono_tags, lifting) mem_Collect_eq set_filter)
  let ?m1 = "age_mailbox now ((age_mailbox now m)\<lparr>mb_taken := True\<rparr>)"
  have m1: "mb_items ?m1 = d # ds" "mb_taken ?m1" "mb_config ?m1 = mb_config m"
    using Cons.prems(3) due by simp_all
  obtain M1 where 1: "spec_step M (now, EvFetch q p) = (OutFetch (Some d), M1)" and M1: "M1 q = Some ?m1"
    using Cons.prems by (simp add: spec_step_eq age_def)
  let ?m2 = "age_mailbox now ((age_mailbox now ?m1)\<lparr>mb_items := ds, mb_taken := False\<rparr>)"
  obtain M2 where 2: "spec_step M1 (now, EvAck q p (rd_id d)) = (OutAck, M2)" and M2: "M2 q = Some ?m2"
    using M1 m1 due Cons.prems(2) by (simp add: spec_step_eq age_def del: age_mailbox_simps(2,3))
       (simp add: m1)
  have "fst (run_steps spec_step M2 (drain_events q p now ds)) = drain_outcomes ds"
    using due Cons.prems(2) by (intro Cons.IH [of M2 ?m2] M2) auto
  then show ?case
    by (simp add: drain_events_def drain_outcomes_def 1 2 run_steps_Cons del: run_steps.simps(2) spec_act.simps)
qed

section \<open>Histories\<close>

text \<open>
  What a run did, read off the commands and the outcomes their callers saw.
\<close>

type_synonym history = "((Timestamp \<times> RelayEvent) \<times> RelayOutcome) list"

definition sent_in :: "history \<Rightarrow> QueueId \<Rightarrow> Principal \<Rightarrow> RelayDelivery \<Rightarrow> bool" where
  "sent_in h q sender d \<longleftrightarrow> (\<exists>t ttl.
     ((t, EvSend q sender (rd_id d) (rd_payload d) ttl), OutSend Accepted) \<in> set h
     \<and> unat (Timestamp_as_secs (rd_expires_at d)) = unat (Timestamp_as_secs t) + unat (RelayTtl_as_secs ttl))"

definition fetched_in :: "history \<Rightarrow> QueueId \<Rightarrow> Principal \<Rightarrow> RelayDelivery \<Rightarrow> bool" where
  "fetched_in h q recipient d \<longleftrightarrow> (\<exists>t. ((t, EvFetch q recipient), OutFetch (Some d)) \<in> set h)"

definition created_in :: "history \<Rightarrow> QueueId \<Rightarrow> QueueConfig \<Rightarrow> bool" where
  "created_in h q c \<longleftrightarrow> (\<exists>t. ((t, EvCreate q c), OutCreate Created) \<in> set h)"

lemma history_mono:
  "sent_in h q s d \<Longrightarrow> sent_in (h @ h') q s d"
  "fetched_in h q p d \<Longrightarrow> fetched_in (h @ h') q p d"
  "created_in h q c \<Longrightarrow> created_in (h @ h') q c"
  unfolding sent_in_def fetched_in_def created_in_def set_append by blast+

lemma history_snoc:
  "created_in (h @ [((t, EvCreate q c), OutCreate Created)]) q c"
  "fetched_in (h @ [((t, EvFetch q p), OutFetch (Some d))]) q p d"
  unfolding fetched_in_def created_in_def set_append by auto

text \<open>
  The messages a queue still owes its recipient: those accepted, in the order of acceptance, less the
  acknowledged ones; none after a deletion.
\<close>

fun pending_step :: "QueueId \<Rightarrow> RelayDelivery list \<Rightarrow> (Timestamp \<times> RelayEvent) \<times> RelayOutcome \<Rightarrow> RelayDelivery list" where
  "pending_step q ds ((t, EvSend q' s mid payload ttl), OutSend Accepted) =
     (if q' = q then ds @ [accepted_item mid payload t ttl] else ds)"
| "pending_step q ds ((t, EvAck q' p mid), OutAck) =
     (if q' = q then filter (\<lambda>d. rd_id d \<noteq> mid) ds else ds)"
| "pending_step q ds ((t, EvDelete q' p), OutDelete) = (if q' = q then [] else ds)"
| "pending_step q ds _ = ds"

definition pending :: "QueueId \<Rightarrow> history \<Rightarrow> RelayDelivery list" where
  "pending q h = foldl (pending_step q) [] h"

definition items_of :: "Mailboxes \<Rightarrow> QueueId \<Rightarrow> RelayDelivery list" where
  "items_of M q = (case M q of None \<Rightarrow> [] | Some m \<Rightarrow> mb_items m)"

lemma items_of_age: "items_of (age now M) q = filter (due now) (items_of M q)"
  by (simp add: items_of_def age_def split: option.split)

lemma items_of_upd [simp]:
  "items_of (M(q \<mapsto> m)) q' = (if q' = q then mb_items m else items_of M q')"
  "items_of (M(q := None)) q' = (if q' = q then [] else items_of M q')"
  by (simp_all add: items_of_def)

lemma filter_acked:
  assumes "filter (due now) (d # ds) = filter (due now) P" and "distinct (map rd_id (d # ds))"
  shows "filter (due now) ds = filter (due now) (filter (\<lambda>x. rd_id x \<noteq> rd_id d) P)"
proof -
  have "filter (\<lambda>x. rd_id x \<noteq> rd_id d) (d # ds) = ds"
    using assms(2) by (auto simp: filter_id_conv image_iff)
  moreover have "filter (due now) (filter (\<lambda>x. rd_id x \<noteq> rd_id d) (d # ds))
      = filter (due now) (filter (\<lambda>x. rd_id x \<noteq> rd_id d) P)"
    using assms(1) by (simp only: filter_filter conj_commute) (simp only: filter_filter [symmetric])
  ultimately show ?thesis by simp
qed

lemma spec_act_pending:
  assumes "filter (due now) (items_of M q) = filter (due now) P" and "distinct (map rd_id (items_of M q))"
  shows "filter (due now) (items_of (snd (spec_act M (t, ev))) q)
    = filter (due now) (pending_step q P ((t, ev), fst (spec_act M (t, ev))))"
proof (cases ev)
  case (EvAck q' p mid)
  show ?thesis
  proof (cases "q' = q \<and> fst (spec_act M (t, ev)) = OutAck")
    case True
    then obtain m d ds where "M q = Some m" "mb_items m = d # ds" "rd_id d = mid"
        "spec_act M (t, ev) = (OutAck, M(q \<mapsto> m\<lparr>mb_items := ds, mb_taken := False\<rparr>))"
      using EvAck by (auto split: option.splits if_splits list.splits)
    then show ?thesis
      using True EvAck assms filter_acked [of now d ds P] by (simp add: items_of_def del: spec_act.simps)
  qed (use EvAck assms(1) in \<open>auto split: option.split list.split\<close>)
next
  case (EvSend q' s mid payload ttl)
  then show ?thesis
    using assms(1) by (auto simp: items_of_def split: option.splits sum.splits SendOutcome.splits)
qed (use assms(1) in \<open>auto simp: items_of_def split: option.splits list.splits\<close>)

lemma spec_step_pending:
  assumes "items_of (age now M) q = filter (due now) P" and "t \<le> now" and "age t M = M"
    and "distinct (map rd_id (items_of M q))"
  shows "items_of (age now (snd (spec_step M (t, ev)))) q
    = filter (due now) (pending_step q P ((t, ev), fst (spec_step M (t, ev))))"
proof -
  have "filter (\<lambda>x. due t x \<and> due now x) ds = filter (due now) ds" for ds
    using assms(2) by (intro filter_cong) (auto simp: due_def)
  then show ?thesis
    using spec_act_pending [of now M q P t ev] assms by (simp add: spec_step_eq items_of_age conj_commute)
qed

section \<open>The contract of a relay store\<close>

text \<open>
  A store keeps some state; \<open>view now s\<close> reads the mailboxes it stands for at time \<open>now\<close>. Time may
  pass without the store doing anything (\<open>ages\<close>), and every admissible command answers what the
  specification answers and leaves a state that stands for the specified one (\<open>refines\<close>). No two
  messages that are due in a queue share an identifier (\<open>unique\<close>).
\<close>

locale mailbox_store =
  fixes step :: "'s \<Rightarrow> Timestamp \<times> RelayEvent \<Rightarrow> RelayOutcome \<times> 's"
    and view :: "Timestamp \<Rightarrow> 's \<Rightarrow> Mailboxes"
    and inv :: "'s \<Rightarrow> bool"
    and ok :: "RelayEvent \<Rightarrow> bool"
  assumes inv_step: "inv s \<Longrightarrow> ok ev \<Longrightarrow> inv (snd (step s (now, ev)))"
    and ages: "inv s \<Longrightarrow> t \<le> now \<Longrightarrow> age now (view t s) = view now s"
    and refines: "inv s \<Longrightarrow> ok ev \<Longrightarrow>
      spec_step (view now s) (now, ev) = (fst (step s (now, ev)), view now (snd (step s (now, ev))))"
    and unique: "inv s \<Longrightarrow> distinct (map rd_id (items_of (view now s) q))"
begin

lemma run_inv:
  assumes "inv s" and "\<forall>e \<in> set es. ok (snd e)"
  shows "inv (snd (run_steps step s es))"
  using assms
proof (induction es arbitrary: s)
  case (Cons e es)
  then show ?case
    by (cases e) (simp add: run_steps_Cons inv_step del: run_steps.simps(2))
qed simp

lemma view_aged: "inv s \<Longrightarrow> age now (view now s) = view now s"
  by (simp add: ages)

lemma step_refines_later:
  assumes "inv s" and "ok ev" and "t \<le> now"
  shows "spec_step (view t s) (now, ev) = (fst (step s (now, ev)), view now (snd (step s (now, ev))))"
proof -
  have "spec_step (view t s) (now, ev) = spec_step (view now s) (now, ev)"
    using assms by (simp add: spec_step_eq ages)
  then show ?thesis
    by (simp add: refines assms)
qed

lemma run_refines:
  assumes "inv s" and "clock_ordered t es" and "\<forall>e \<in> set es. ok (snd e)"
  shows "run_steps spec_step (view t s) es
    = (fst (run_steps step s es), view (last_time t es) (snd (run_steps step s es)))"
  using assms
proof (induction es arbitrary: s t)
  case (Cons e es)
  obtain now ev where e: "e = (now, ev)" by (cases e)
  have "spec_step (view t s) e = (fst (step s e), view now (snd (step s e)))"
    using Cons.prems by (simp add: e step_refines_later)
  moreover have "inv (snd (step s e))"
    using Cons.prems by (simp add: e inv_step)
  ultimately show ?case
    using Cons.prems Cons.IH [of "snd (step s e)" now] e
    by (simp add: run_steps_Cons del: run_steps.simps(2))
qed simp

text \<open>
  A message that is held for its recipient at one time is held at every time before its expiry: the
  views of one state differ only in what is expired.
\<close>

lemma holds_at:
  assumes "inv s" and "holds_for p (view t s) q d" and "due now d"
  shows "holds_for p (view now s) q d"
proof (cases "t \<le> now")
  case True
  then show ?thesis
    using assms by (simp add: ages [symmetric] holds_for_age)
next
  case False
  then have "view t s = age t (view now s)"
    using assms(1) by (simp add: ages)
  then show ?thesis
    using assms(2) by (simp add: holds_for_age)
qed

text \<open>
  It stays held, whatever the clock does, until the recipient acknowledges it or deletes its queue.
\<close>

lemma step_keeps:
  assumes "inv s" and "ok ev" and "holds_for p (view t s) q d" and "due now d"
    and "\<not> releases p q (rd_id d) (ev, fst (step s (now, ev)))"
  shows "holds_for p (view now (snd (step s (now, ev)))) q d"
  using spec_step_keeps [OF holds_at [OF assms(1,3,4)] assms(4), of ev] assms(5)
  by (simp add: refines [OF assms(1,2)])

lemma run_keeps:
  assumes "inv s" and "\<forall>e \<in> set es. ok (snd e)" and "holds_for p (view t s) q d"
    and "\<forall>(e, out) \<in> set (run_history step s es). due (fst e) d \<and> \<not> releases p q (rd_id d) (snd e, out)"
    and "due now d"
  shows "holds_for p (view now (snd (run_steps step s es))) q d"
  using assms
proof (induction es arbitrary: s t)
  case Nil
  then show ?case using holds_at [OF Nil.prems(1,3,5)] by simp
next
  case (Cons e es)
  obtain t' ev where e: "e = (t', ev)" by (cases e)
  have ev: "ok ev" "due t' d" "\<not> releases p q (rd_id d) (ev, fst (step s e))"
    and rest: "\<forall>(e, out) \<in> set (run_history step (snd (step s e)) es).
      due (fst e) d \<and> \<not> releases p q (rd_id d) (snd e, out)"
    using Cons.prems(2,4) e by (simp_all add: run_history_Cons)
  have "holds_for p (view t' (snd (step s e))) q d"
    using step_keeps [OF Cons.prems(1) ev(1) Cons.prems(3) ev(2)] ev(3) e by simp
  moreover have "inv (snd (step s e))"
    using inv_step [OF Cons.prems(1) ev(1)] e by simp
  ultimately have "holds_for p (view now (snd (run_steps step (snd (step s e)) es))) q d"
    using Cons.prems(2,5) rest by (intro Cons.IH) simp_all
  then show ?case
    by (simp add: run_steps_Cons del: run_steps.simps(2))
qed

text \<open>An accepted message is held with its exact payload and the promised expiry.\<close>

lemma send_holds:
  assumes "inv s" and "ok (EvSend q sd mid payload ttl)"
    and "fst (step s (now, EvSend q sd mid payload ttl)) = OutSend Accepted"
    and "RelayTtl_as_secs ttl \<noteq> 0" and "view now s q = Some m"
  shows "holds_for (qc_recipient (mb_config m)) (view now (snd (step s (now, EvSend q sd mid payload ttl)))) q
    (accepted_item mid payload now ttl)"
  using refines [OF assms(1,2), of now] assms(3)
    spec_send_holds [of "view now s" now q sd mid payload ttl m, OF _ assms(4,5)] by simp

text \<open>Fetching and acknowledging in turn hands out what is due, in order, and then nothing.\<close>

lemma drain:
  assumes "inv s" and "view now s q = Some m" and "qc_recipient (mb_config m) = p"
    and "ok (EvFetch q p)" and "\<And>mid. ok (EvAck q p mid)"
  shows "fst (run_steps step s (drain_events q p now (mb_items m))) = drain_outcomes (mb_items m)"
proof -
  have "clock_ordered now (drain_events q p now ds)" for ds
    by (induction ds) (simp_all add: drain_events_def)
  moreover have "\<forall>e \<in> set (drain_events q p now ds). ok (snd e)" for ds
    using assms(4,5) by (auto simp: drain_events_def)
  moreover have "age now (view now s) q = view now s q"
    using assms(1) by (simp add: view_aged)
  then have "filter (due now) (mb_items m) = mb_items m"
    using assms(2) by (auto simp: age_def) (metis age_mailbox_simps(2))
  ultimately show ?thesis
    using assms(2,3) spec_drain [of "view now s" q m p now "mb_items m"] by (simp add: run_refines [OF assms(1)])
qed

lemma error_keeps_view:
  assumes "inv s" and "ok ev" and "fst (step s (now, ev)) = OutErr x"
  shows "view now (snd (step s (now, ev))) = view now s"
  using refines [OF assms(1,2), of now] assms(3) spec_act_error [of "view now s" "(now, ev)" x]
  by (auto simp: spec_step_eq view_aged [OF assms(1)])

text \<open>A retried send is recognised while the message is due, whatever lifetime it asks for.\<close>

lemma retry_recognised:
  assumes "inv s" and "ok (EvSend q sd (rd_id d) (rd_payload d) ttl)" and "holds_item (view now s) q d"
    and "\<forall>m. view now s q = Some m \<longrightarrow> qc_sender (mb_config m) = sd"
  shows "fst (step s (now, EvSend q sd (rd_id d) (rd_payload d) ttl)) = OutSend SendDuplicate
    \<and> view now (snd (step s (now, EvSend q sd (rd_id d) (rd_payload d) ttl))) = view now s"
  using refines [OF assms(1,2), of now] spec_act_retry [OF assms(3,4)]
  by (simp add: spec_step_eq view_aged [OF assms(1)])

lemma redelivers:
  assumes "inv s" and ok: "ok (EvFetch q p)"
    and "fst (step s (now, EvFetch q p)) = OutFetch (Some d)" and "now \<le> now'" and "due now' d"
  shows "fst (step (snd (step s (now, EvFetch q p))) (now', EvFetch q p)) = OutFetch (Some d)"
proof -
  let ?s = "snd (step s (now, EvFetch q p))"
  have "spec_step (view now ?s) (now', EvFetch q p) = (fst (step ?s (now', EvFetch q p)),
      view now' (snd (step ?s (now', EvFetch q p))))"
    using step_refines_later [OF inv_step [OF assms(1,2)] ok assms(4)] .
  moreover have "fst (spec_step (view now ?s) (now', EvFetch q p)) = OutFetch (Some d)"
    using spec_redelivers [of "view now s" now q p d now'] refines [OF assms(1,2), of now] assms(3-5)
    by simp
  ultimately show ?thesis by simp
qed

end

text \<open>A store together with its empty initial state.\<close>

locale mailbox_service = mailbox_store step view inv ok
  for step :: "'s \<Rightarrow> Timestamp \<times> RelayEvent \<Rightarrow> RelayOutcome \<times> 's"
    and view :: "Timestamp \<Rightarrow> 's \<Rightarrow> Mailboxes"
    and inv :: "'s \<Rightarrow> bool"
    and ok :: "RelayEvent \<Rightarrow> bool" +
  fixes init :: 's
  assumes inv_init: "inv init"
    and view_init: "view t init = Map.empty"
begin

lemma service_outcomes:
  assumes "clock_ordered t es" and "\<forall>e \<in> set es. ok (snd e)"
  shows "fst (run_steps step init es) = fst (run_steps spec_step Map.empty es)"
  using run_refines [OF inv_init assms] by (simp add: view_init)

text \<open>What is due is what was accepted and not yet let go of, in the order of acceptance.\<close>

lemma run_pending:
  assumes "\<forall>e \<in> set es. fst e \<le> now \<and> ok (snd e)"
  shows "items_of (view now (snd (run_steps step init es))) q
    = filter (due now) (pending q (run_history step init es))"
  using assms
proof (induction es rule: rev_induct)
  case Nil
  then show ?case
    by (simp add: view_init items_of_def pending_def run_history_def)
next
  case (snoc e es)
  obtain t ev where e: "e = (t, ev)" by (cases e)
  let ?s = "snd (run_steps step init es)"
  have s: "inv ?s" "ok ev" "t \<le> now"
    using snoc.prems e inv_init by (auto intro: run_inv)
  have s': "inv (snd (step ?s e))"
    using s by (simp add: e inv_step)
  have "items_of (age now (view t ?s)) q = filter (due now) (pending q (run_history step init es))"
    using snoc s by (simp add: ages)
  from spec_step_pending [OF this s(3) _ unique, of ev] s s'
  show ?case
    by (simp add: e refines ages view_aged pending_def run_history_snoc run_steps_append run_steps_Cons
        del: run_steps.simps(2))
qed

text \<open>So a recipient that fetches and acknowledges in turn gets exactly those, in that order.\<close>

lemma drain_pending:
  assumes es: "\<forall>e \<in> set es. fst e \<le> now \<and> ok (snd e)"
    and m: "view now (snd (run_steps step init es)) q = Some m" "qc_recipient (mb_config m) = p"
    and ok: "ok (EvFetch q p)" "\<And>mid. ok (EvAck q p mid)"
    and ds: "ds = filter (due now) (pending q (run_history step init es))"
  shows "fst (run_steps step (snd (run_steps step init es)) (drain_events q p now ds)) = drain_outcomes ds"
proof -
  have "mb_items m = ds"
    using run_pending [OF es, of q] m(1) ds by (simp add: items_of_def)
  then show ?thesis
    using drain [OF run_inv [OF inv_init] m ok] es by simp
qed

end

end
