(* ===== verification/CW_Relay.thy ===== *)
theory CW_Relay
  imports CW_Mailbox
begin

text \<open>
  The in-memory reference state machine of \<open>crates/cofferwire-relay/src/lib.rs\<close>: queues of opaque
  messages with expiry, idempotent creation and sending, redelivery until acknowledgement. Every
  operation returns its result and the new state; an operation that fails after discarding
  expired messages keeps the discard, as the code does.
\<close>

section \<open>Data\<close>

record QueuedMessage =
  qm_id :: MessageId
  qm_payload :: bytes
  qm_expires_at :: Timestamp
  qm_delivered :: bool

record Queue =
  q_config :: QueueConfig
  q_messages :: "QueuedMessage list"

record Relay =
  queues :: "QueueId \<rightharpoonup> Queue"

type_synonym 'a relay_result = "(RelayError, 'a) result \<times> Relay"

section \<open>Operations\<close>

definition unexpired :: "Timestamp \<Rightarrow> QueuedMessage \<Rightarrow> bool" where
  "unexpired now message \<longleftrightarrow> qm_expires_at message > now"

definition Queue_discard_expired :: "Timestamp \<Rightarrow> Queue \<Rightarrow> Queue" where
  "Queue_discard_expired now q = q\<lparr>q_messages := filter (unexpired now) (q_messages q)\<rparr>"

definition Relay_new :: Relay where
  "Relay_new = \<lparr>queues = Map.empty\<rparr>"

definition put_queue :: "QueueId \<Rightarrow> Queue \<Rightarrow> Relay \<Rightarrow> Relay" where
  "put_queue qid q r = r\<lparr>queues := (queues r)(qid \<mapsto> q)\<rparr>"

definition Relay_create_queue ::
    "QueueId \<Rightarrow> QueueConfig \<Rightarrow> Relay \<Rightarrow> CreateQueueOutcome relay_result" where
  "Relay_create_queue qid config r =
     (case queues r qid of
        Some existing \<Rightarrow>
          if q_config existing = config then (Inr AlreadyExists, r) else (Inl ReQueueIdConflict, r)
      | None \<Rightarrow> (Inr Created, put_queue qid \<lparr>q_config = config, q_messages = []\<rparr> r))"

definition Relay_send ::
    "QueueId \<Rightarrow> Principal \<Rightarrow> MessageId \<Rightarrow> bytes \<Rightarrow> Timestamp \<Rightarrow> RelayTtl \<Rightarrow> Relay \<Rightarrow> SendOutcome relay_result" where
  "Relay_send qid sender mid payload now ttl r =
     (case queues r qid of
        None \<Rightarrow> (Inl ReQueueNotFound, r)
      | Some queue \<Rightarrow>
          if qc_sender (q_config queue) \<noteq> sender then (Inl ReUnauthorized, r)
          else
            let queue = Queue_discard_expired now queue;
                r = put_queue qid queue r
            in case find (\<lambda>message. qm_id message = mid) (q_messages queue) of
                 Some existing \<Rightarrow>
                   if qm_payload existing = payload then (Inr SendDuplicate, r)
                   else (Inl ReMessageIdConflict, r)
               | None \<Rightarrow>
                   if length payload > unat (rl_max_message_bytes (qc_limits (q_config queue)))
                   then (Inl ReMessageTooLarge, r)
                   else if length (q_messages queue) \<ge> unat (rl_max_messages (qc_limits (q_config queue)))
                   then (Inl ReQueueFull, r)
                   else case checked_add (Timestamp_as_secs now) (RelayTtl_as_secs ttl) of
                          None \<Rightarrow> (Inl ReExpiryOverflow, r)
                        | Some expires_at \<Rightarrow>
                            (Inr Accepted,
                             put_queue qid (queue\<lparr>q_messages := q_messages queue @
                               [\<lparr>qm_id = mid, qm_payload = payload,
                                 qm_expires_at = Timestamp expires_at, qm_delivered = False\<rparr>]\<rparr>) r))"

definition recipient_queue :: "QueueId \<Rightarrow> Principal \<Rightarrow> Relay \<Rightarrow> (RelayError, Queue) result" where
  "recipient_queue qid recipient r =
     (case queues r qid of
        None \<Rightarrow> Inl ReQueueNotFound
      | Some queue \<Rightarrow>
          if qc_recipient (q_config queue) \<noteq> recipient then Inl ReUnauthorized else Inr queue)"

definition Relay_fetch ::
    "QueueId \<Rightarrow> Principal \<Rightarrow> Timestamp \<Rightarrow> Relay \<Rightarrow> RelayDelivery option relay_result" where
  "Relay_fetch qid recipient now r =
     (case recipient_queue qid recipient r of
        Inl e \<Rightarrow> (Inl e, r)
      | Inr queue \<Rightarrow>
          let queue = Queue_discard_expired now queue in
          case q_messages queue of
            [] \<Rightarrow> (Inr None, put_queue qid queue r)
          | message # rest \<Rightarrow>
              (Inr (Some \<lparr>rd_id = qm_id message, rd_payload = qm_payload message,
                          rd_expires_at = qm_expires_at message\<rparr>),
               put_queue qid (queue\<lparr>q_messages := message\<lparr>qm_delivered := True\<rparr> # rest\<rparr>) r))"

definition Relay_acknowledge ::
    "QueueId \<Rightarrow> Principal \<Rightarrow> MessageId \<Rightarrow> Timestamp \<Rightarrow> Relay \<Rightarrow> unit relay_result" where
  "Relay_acknowledge qid recipient mid now r =
     (case recipient_queue qid recipient r of
        Inl e \<Rightarrow> (Inl e, r)
      | Inr queue \<Rightarrow>
          let queue = Queue_discard_expired now queue;
              r = put_queue qid queue r
          in case q_messages queue of
               [] \<Rightarrow> (Inl ReAckMismatch, r)
             | message # rest \<Rightarrow>
                 if qm_id message \<noteq> mid then (Inl ReAckMismatch, r)
                 else if \<not> qm_delivered message then (Inl ReNotDelivered, r)
                 else (Inr (), put_queue qid (queue\<lparr>q_messages := rest\<rparr>) r))"

definition Relay_delete_queue :: "QueueId \<Rightarrow> Principal \<Rightarrow> Relay \<Rightarrow> unit relay_result" where
  "Relay_delete_queue qid recipient r =
     (case queues r qid of
        None \<Rightarrow> (Inl ReQueueNotFound, r)
      | Some queue \<Rightarrow>
          if qc_recipient (q_config queue) \<noteq> recipient then (Inl ReUnauthorized, r)
          else (Inr (), r\<lparr>queues := (queues r)(qid := None)\<rparr>))"

section \<open>Steps and runs\<close>

definition outcome_of :: "('a \<Rightarrow> RelayOutcome) \<Rightarrow> 'a relay_result \<Rightarrow> RelayOutcome \<times> Relay" where
  "outcome_of h p = (case p of (Inl e, r) \<Rightarrow> (OutErr e, r) | (Inr x, r) \<Rightarrow> (h x, r))"

fun relay_step :: "Relay \<Rightarrow> Timestamp \<times> RelayEvent \<Rightarrow> RelayOutcome \<times> Relay" where
  "relay_step r (now, EvCreate q c) = outcome_of OutCreate (Relay_create_queue q c r)"
| "relay_step r (now, EvSend q s m p t) = outcome_of OutSend (Relay_send q s m p now t r)"
| "relay_step r (now, EvFetch q p) = outcome_of OutFetch (Relay_fetch q p now r)"
| "relay_step r (now, EvAck q p m) = outcome_of (\<lambda>_. OutAck) (Relay_acknowledge q p m now r)"
| "relay_step r (now, EvDelete q p) = outcome_of (\<lambda>_. OutDelete) (Relay_delete_queue q p r)"

inductive relay_reachable :: "Relay \<Rightarrow> bool" where
  reach_new: "relay_reachable Relay_new"
| reach_step: "relay_reachable r \<Longrightarrow> relay_reachable (snd (relay_step r e))"

section \<open>The relay invariant\<close>

definition queue_inv :: "Queue \<Rightarrow> bool" where
  "queue_inv q \<longleftrightarrow> distinct (map qm_id (q_messages q))
     \<and> length (q_messages q) \<le> unat (rl_max_messages (qc_limits (q_config q)))
     \<and> (\<forall>m \<in> set (q_messages q). length (qm_payload m) \<le> unat (rl_max_message_bytes (qc_limits (q_config q))))
     \<and> (\<forall>m \<in> set (tl (q_messages q)). \<not> qm_delivered m)"

definition relay_inv :: "Relay \<Rightarrow> bool" where
  "relay_inv r \<longleftrightarrow> (\<forall>qid q. queues r qid = Some q \<longrightarrow> queue_inv q)"

lemma queues_put [simp]: "queues (put_queue qid q r) = (queues r)(qid \<mapsto> q)"
  by (simp add: put_queue_def)

lemma put_queue_put [simp]: "put_queue qid q (put_queue qid q' r) = put_queue qid q r"
  by (simp add: put_queue_def)

lemma discard_simps [simp]:
  "q_config (Queue_discard_expired now q) = q_config q"
  "q_messages (Queue_discard_expired now q) = filter (unexpired now) (q_messages q)"
  by (simp_all add: Queue_discard_expired_def)

lemma set_tl_subset: "set (tl xs) \<subseteq> set xs"
  by (cases xs) auto

lemma set_tl_filter: "set (tl (filter P xs)) \<subseteq> set (tl xs)"
  by (cases xs) (auto dest: set_tl_subset [THEN subsetD])

lemma distinct_map_filter: "distinct (map f xs) \<Longrightarrow> distinct (map f (filter P xs))"
  by (induction xs) auto

lemma queue_inv_discard: "queue_inv q \<Longrightarrow> queue_inv (Queue_discard_expired now q)"
  using set_tl_filter [of "unexpired now" "q_messages q"]
  by (auto simp: queue_inv_def distinct_map_filter intro: order_trans [OF length_filter_le])

lemma relay_inv_put: "relay_inv r \<Longrightarrow> queue_inv q \<Longrightarrow> relay_inv (put_queue qid q r)"
  by (simp add: relay_inv_def)

lemma find_None_id: "find (\<lambda>m. qm_id m = i) xs = None \<longleftrightarrow> i \<notin> qm_id ` set xs"
  by (auto simp: find_None_iff)

lemma queue_inv_push:
  assumes "queue_inv q" and "qm_id m \<notin> qm_id ` set (q_messages q)" and "\<not> qm_delivered m"
    and "length (qm_payload m) \<le> unat (rl_max_message_bytes (qc_limits (q_config q)))"
    and "length (q_messages q) < unat (rl_max_messages (qc_limits (q_config q)))"
  shows "queue_inv (q\<lparr>q_messages := q_messages q @ [m]\<rparr>)"
  using assms by (cases "q_messages q") (auto simp: queue_inv_def)

lemma queue_inv_head:
  assumes "queue_inv q" and "q_messages q = m # rest"
  shows "queue_inv (q\<lparr>q_messages := rest\<rparr>)" "queue_inv (q\<lparr>q_messages := m\<lparr>qm_delivered := True\<rparr> # rest\<rparr>)"
  using assms set_tl_subset [of rest] by (auto simp: queue_inv_def)

lemma recipient_queue_Inr:
  "recipient_queue qid p r = Inr q \<longleftrightarrow> queues r qid = Some q \<and> qc_recipient (q_config q) = p"
  by (auto simp: recipient_queue_def split: option.splits if_splits)

lemma Relay_create_inv: "relay_inv r \<Longrightarrow> relay_inv (snd (Relay_create_queue qid c r))"
  by (auto simp: Relay_create_queue_def relay_inv_put queue_inv_def split: option.split)

lemma Relay_send_inv:
  assumes "relay_inv r"
  shows "relay_inv (snd (Relay_send qid s m p now t r))"
proof (cases "queues r qid")
  case None
  then show ?thesis using assms by (simp add: Relay_send_def)
next
  case (Some q)
  let ?q = "Queue_discard_expired now q"
  have q: "queue_inv ?q"
    using assms Some by (auto simp: relay_inv_def intro: queue_inv_discard)
  show ?thesis
    using assms Some q queue_inv_push [OF q]
    by (auto simp: Relay_send_def Let_def find_None_id intro!: relay_inv_put split: option.split)
qed

lemma Relay_fetch_inv:
  assumes "relay_inv r"
  shows "relay_inv (snd (Relay_fetch qid p now r))"
proof (cases "recipient_queue qid p r")
  case (Inl e)
  then show ?thesis using assms by (simp add: Relay_fetch_def)
next
  case (Inr q)
  then have q: "queue_inv (Queue_discard_expired now q)"
    using assms by (auto simp: relay_inv_def recipient_queue_Inr intro: queue_inv_discard)
  then show ?thesis
    using assms Inr queue_inv_head [OF q]
    by (auto simp: Relay_fetch_def Let_def relay_inv_put split: list.split)
qed

lemma Relay_acknowledge_inv:
  assumes "relay_inv r"
  shows "relay_inv (snd (Relay_acknowledge qid p m now r))"
proof (cases "recipient_queue qid p r")
  case (Inl e)
  then show ?thesis using assms by (simp add: Relay_acknowledge_def)
next
  case (Inr q)
  then have q: "queue_inv (Queue_discard_expired now q)"
    using assms by (auto simp: relay_inv_def recipient_queue_Inr intro: queue_inv_discard)
  then show ?thesis
    using assms Inr queue_inv_head(1) [OF q]
    by (auto simp: Relay_acknowledge_def Let_def relay_inv_put split: list.split)
qed

lemma Relay_delete_inv: "relay_inv r \<Longrightarrow> relay_inv (snd (Relay_delete_queue qid p r))"
  by (auto simp: Relay_delete_queue_def relay_inv_def split: option.split)

lemma snd_outcome_of [simp]: "snd (outcome_of h p) = snd p"
  by (simp add: outcome_of_def split: prod.split sum.split)

lemma relay_step_inv: "relay_inv r \<Longrightarrow> relay_inv (snd (relay_step r e))"
  by (cases "(r, e)" rule: relay_step.cases)
    (simp_all add: Relay_create_inv Relay_send_inv Relay_fetch_inv Relay_acknowledge_inv Relay_delete_inv)

lemma relay_reachable_inv: "relay_reachable r \<Longrightarrow> relay_inv r"
  by (induction rule: relay_reachable.induct) (simp_all add: relay_step_inv, simp add: relay_inv_def Relay_new_def)

section \<open>The relay implements the mailbox specification\<close>

definition delivery_of :: "QueuedMessage \<Rightarrow> RelayDelivery" where
  "delivery_of m = \<lparr>rd_id = qm_id m, rd_payload = qm_payload m, rd_expires_at = qm_expires_at m\<rparr>"

definition queue_view :: "Timestamp \<Rightarrow> Queue \<Rightarrow> Mailbox" where
  "queue_view now q =
     (let due_messages = filter (unexpired now) (q_messages q) in
      \<lparr>mb_config = q_config q, mb_items = map delivery_of due_messages,
       mb_taken = due_messages \<noteq> [] \<and> qm_delivered (hd due_messages)\<rparr>)"

definition relay_view :: "Timestamp \<Rightarrow> Relay \<Rightarrow> Mailboxes" where
  "relay_view now r qid = map_option (queue_view now) (queues r qid)"

lemma delivery_of_simps [simp]:
  "rd_id (delivery_of m) = qm_id m" "rd_payload (delivery_of m) = qm_payload m"
  "due now (delivery_of m) = unexpired now m"
  by (simp_all add: delivery_of_def due_def unexpired_def)

lemma queue_view_simps [simp]:
  "mb_config (queue_view now q) = q_config q"
  "mb_items (queue_view now q) = map delivery_of (filter (unexpired now) (q_messages q))"
  "mb_taken (queue_view now q) \<longleftrightarrow> filter (unexpired now) (q_messages q) \<noteq> []
     \<and> qm_delivered (hd (filter (unexpired now) (q_messages q)))"
  by (simp_all add: queue_view_def Let_def)

lemma queue_view_discard [simp]: "queue_view now (Queue_discard_expired now q) = queue_view now q"
  by (simp add: queue_view_def)

lemma relay_view_put [simp]:
  "relay_view now (put_queue qid q r) = (relay_view now r)(qid \<mapsto> queue_view now q)"
  by (auto simp: relay_view_def)

lemma relay_view_put_discard [simp]:
  "queues r qid = Some q \<Longrightarrow> (relay_view now r)(qid \<mapsto> queue_view now q) = relay_view now r"
  by (auto simp: relay_view_def)

lemma unexpired_later: "t \<le> now \<Longrightarrow> unexpired now m \<Longrightarrow> unexpired t m"
  by (simp add: unexpired_def)

lemma filter_unexpired_later:
  "t \<le> now \<Longrightarrow> filter (\<lambda>m. unexpired now m \<and> unexpired t m) ms = filter (unexpired now) ms"
  by (rule filter_cong) (auto dest: unexpired_later)

lemma queue_view_ages:
  assumes "queue_inv q" and "t \<le> now"
  shows "age_mailbox now (queue_view t q) = queue_view now q"
proof -
  let ?ms = "q_messages q"
  have split: "filter (unexpired now) ?ms = filter (unexpired now) (filter (unexpired t) ?ms)"
    using assms(2) by (simp add: filter_unexpired_later conj_commute)
  have late: "\<not> qm_delivered m" if "m \<in> set (tl (filter (unexpired t) ?ms))" for m
    using that set_tl_filter [of "unexpired t" ?ms] assms(1) by (auto simp: queue_inv_def)
  have "filter (due now) (map delivery_of ms) = map delivery_of (filter (unexpired now) ms)" for ms
    by (simp add: filter_map comp_def)
  then have items: "mb_items (age_mailbox now (queue_view t q)) = mb_items (queue_view now q)"
    by (simp only: age_mailbox_simps queue_view_simps split [symmetric])
  have "mb_taken (age_mailbox now (queue_view t q)) = mb_taken (queue_view now q)"
    unfolding age_mailbox_simps queue_view_simps split using late
    by (cases "filter (unexpired t) ?ms") (auto dest!: hd_in_set)
  with items show ?thesis
    by (intro Mailbox.equality) simp_all
qed

lemma relay_view_ages:
  assumes "relay_inv r" and "t \<le> now"
  shows "age now (relay_view t r) = relay_view now r"
proof
  fix qid
  show "age now (relay_view t r) qid = relay_view now r qid"
    using assms by (cases "queues r qid") (auto simp: age_def relay_view_def relay_inv_def queue_view_ages)
qed


lemma find_Some_id:
  "find (\<lambda>m. qm_id m = i) xs = Some m \<Longrightarrow> m \<in> set xs \<and> qm_id m = i"
  by (auto simp: find_Some_iff)

lemma distinct_idE:
  "distinct (map qm_id ms) \<Longrightarrow> m \<in> set ms \<Longrightarrow> m' \<in> set ms \<Longrightarrow> qm_id m = qm_id m' \<Longrightarrow> m = m'"
  by (auto simp: distinct_map inj_on_def)

text \<open>The sender's checks, on the view of a queue whose expired messages are gone.\<close>

lemma send_verdict_view:
  assumes "queue_inv q" and "ms = filter (unexpired now) (q_messages q)"
  shows "send_verdict (queue_view now q) s mid payload now ttl =
     (if qc_sender (q_config q) \<noteq> s then Inl ReUnauthorized
      else case find (\<lambda>m. qm_id m = mid) ms of
        Some m \<Rightarrow> if qm_payload m = payload then Inr SendDuplicate else Inl ReMessageIdConflict
      | None \<Rightarrow>
          if length payload > unat (rl_max_message_bytes (qc_limits (q_config q))) then Inl ReMessageTooLarge
          else if length ms \<ge> unat (rl_max_messages (qc_limits (q_config q))) then Inl ReQueueFull
          else if checked_add (Timestamp_as_secs now) (RelayTtl_as_secs ttl) = None then Inl ReExpiryOverflow
          else Inr Accepted)"
proof (cases "find (\<lambda>m. qm_id m = mid) ms")
  case None
  then have "mid \<notin> qm_id ` set ms"
    by (simp add: find_None_id)
  with None show ?thesis
    using assms(2) by (simp add: send_verdict_def image_image checked_add_eq_None)
next
  case (Some m)
  from find_Some_id [OF this] have m: "m \<in> set ms" "qm_id m = mid" by simp_all
  have "distinct (map qm_id ms)"
    using assms by (simp add: queue_inv_def distinct_map_filter)
  then have "(\<exists>x \<in> set ms. qm_id x = mid \<and> qm_payload x = payload) \<longleftrightarrow> qm_payload m = payload"
    using m distinct_idE by blast
  moreover have "mid \<in> qm_id ` set ms"
    using m by blast
  ultimately show ?thesis
    using Some assms(2) by (simp add: send_verdict_def image_image)
qed

lemma relay_view_None: "queues r qid = None \<Longrightarrow> relay_view now r qid = None"
  and relay_view_Some: "queues r qid = Some q \<Longrightarrow> relay_view now r qid = Some (queue_view now q)"
  by (simp_all add: relay_view_def)

lemmas view_cases = relay_view_None relay_view_Some

text \<open>A push appends to the items; a message that is expired at once is not seen.\<close>

lemma queue_view_push:
  assumes "\<not> qm_delivered m"
  shows "queue_view now (q\<lparr>q_messages := filter (unexpired now) (q_messages q) @ [m]\<rparr>)
    = age_mailbox now ((queue_view now q)\<lparr>mb_items := mb_items (queue_view now q) @ [delivery_of m]\<rparr>)"
proof -
  have "filter (due now) (map delivery_of ms) = map delivery_of (filter (unexpired now) ms)" for ms
    by (simp add: filter_map comp_def)
  moreover have "unexpired now a" if "filter (unexpired now) (q_messages q) = a # as" for a as
    using that by (metis (mono_tags, lifting) list.set_intros(1) mem_Collect_eq set_filter)
  ultimately show ?thesis
    using assms by (cases "filter (unexpired now) (q_messages q)")
      (auto simp: queue_view_def age_mailbox_def Let_def)
qed

abbreviation acts_as :: "Relay \<Rightarrow> Timestamp \<Rightarrow> RelayEvent \<Rightarrow> bool" where
  "acts_as r now ev \<equiv> spec_act (relay_view now r) (now, ev)
     = (fst (relay_step r (now, ev)), relay_view now (snd (relay_step r (now, ev))))"

lemma create_acts: "acts_as r now (EvCreate qid c)"
  by (cases "queues r qid")
    (auto simp: view_cases Relay_create_queue_def outcome_of_def queue_view_def relay_view_def Let_def)

lemma fetch_acts: "acts_as r now (EvFetch qid p)"
proof (cases "queues r qid")
  case (Some q)
  show ?thesis
  proof (cases "filter (unexpired now) (q_messages q)")
    case (Cons m ms)
    then have "filter (unexpired now) ms = ms" "unexpired now m"
      by (metis (mono_tags, lifting) Cons_eq_filterD filter_True filter_id_conv filter_filter
            filter_set list.set_intros mem_Collect_eq set_filter)+
    with Some Cons show ?thesis
      by (auto simp: view_cases Relay_fetch_def recipient_queue_def outcome_of_def Let_def
          queue_view_def delivery_of_def unexpired_def)
  qed (use Some in \<open>auto simp: view_cases Relay_fetch_def recipient_queue_def outcome_of_def Let_def\<close>)
qed (auto simp: view_cases Relay_fetch_def recipient_queue_def outcome_of_def)

lemma delete_acts: "acts_as r now (EvDelete qid p)"
  by (cases "queues r qid") (auto simp: view_cases Relay_delete_queue_def outcome_of_def relay_view_def)

lemma filter_ConsD:
  assumes "filter P xs = y # ys"
  shows "P y" and "filter P ys = ys"
  using assms by (metis (mono_tags, lifting) filter_True list.set_intros mem_Collect_eq set_filter)+

lemma acknowledge_acts:
  assumes "relay_inv r"
  shows "acts_as r now (EvAck qid p mid)"
proof (cases "queues r qid")
  case (Some q)
  show ?thesis
  proof (cases "filter (unexpired now) (q_messages q)")
    case (Cons m ms)
    have "\<forall>x \<in> set (tl (filter (unexpired now) (q_messages q))). \<not> qm_delivered x"
      using assms Some set_tl_filter [of "unexpired now" "q_messages q"]
      by (auto simp: relay_inv_def queue_inv_def)
    then have "queue_view now (Queue_discard_expired now q\<lparr>q_messages := ms\<rparr>)
        = (queue_view now q)\<lparr>mb_items := map delivery_of ms, mb_taken := False\<rparr>"
      using filter_ConsD [OF Cons] Cons by (cases ms) (auto simp: queue_view_def Let_def)
    with Some Cons show ?thesis
      by (auto simp: view_cases Relay_acknowledge_def recipient_queue_def outcome_of_def Let_def)
  qed (use Some in \<open>auto simp: view_cases Relay_acknowledge_def recipient_queue_def outcome_of_def Let_def\<close>)
qed (auto simp: view_cases Relay_acknowledge_def recipient_queue_def outcome_of_def)

lemma send_acts:
  assumes "relay_inv r"
  shows "spec_step (relay_view now r) (now, EvSend qid s mid payload ttl)
    = (fst (relay_step r (now, EvSend qid s mid payload ttl)),
       relay_view now (snd (relay_step r (now, EvSend qid s mid payload ttl))))"
proof (cases "queues r qid")
  case (Some q)
  then have q: "queue_inv q"
    using assms by (auto simp: relay_inv_def)
  have aged: "age now (relay_view now r) = relay_view now r"
    by (simp add: relay_view_ages assms)
  have put: "age now ((relay_view now r)(qid \<mapsto> m)) = (relay_view now r)(qid \<mapsto> age_mailbox now m)" for m
    using aged by (auto simp: fun_eq_iff age_def)
  have push: "queue_view now (Queue_discard_expired now q\<lparr>q_messages := filter (unexpired now) (q_messages q) @ [m]\<rparr>)
      = age_mailbox now ((queue_view now q)\<lparr>mb_items := mb_items (queue_view now q) @ [delivery_of m]\<rparr>)"
    if "\<not> qm_delivered m" for m
    using queue_view_push [OF that] by (simp add: Queue_discard_expired_def)
  show ?thesis
    using Some unfolding spec_step_eq fst_conv aged spec_act.simps
    by (auto simp: view_cases aged put push send_verdict_view [OF q refl] Relay_send_def outcome_of_def Let_def
        accepted_item_def delivery_of_def checked_add_def split: option.splits)
qed (simp add: view_cases spec_step_eq Relay_send_def outcome_of_def relay_view_ages assms)

lemma relay_step_refines:
  assumes "relay_inv r"
  shows "spec_step (relay_view now r) (now, ev)
    = (fst (relay_step r (now, ev)), relay_view now (snd (relay_step r (now, ev))))"
proof (cases "\<exists>qid s mid payload ttl. ev = EvSend qid s mid payload ttl")
  case False
  then have "acts_as r now ev"
    using create_acts fetch_acts acknowledge_acts [OF assms] delete_acts by (cases ev) metis+
  then show ?thesis
    using relay_step_inv [OF assms, of "(now, ev)"]
    by (simp add: spec_step_eq relay_view_ages assms)
qed (auto simp: send_acts assms simp del: relay_step.simps)

interpretation relay_store: mailbox_service relay_step relay_view relay_inv "\<lambda>_. True" Relay_new
proof unfold_locales
  show "relay_view t Relay_new = Map.empty" for t
    by (auto simp: relay_view_def Relay_new_def)
  show "distinct (map rd_id (items_of (relay_view now r) q))" if "relay_inv r" for r now q
    using that by (cases "queues r q") (auto simp: items_of_def relay_view_def relay_inv_def queue_inv_def
        comp_def distinct_map_filter)
qed (simp_all add: relay_step_inv relay_view_ages relay_step_refines relay_reachable_inv reach_new
    del: relay_step.simps)

section \<open>Where messages come from\<close>

text \<open>
  A queue is traced by a history when the history explains what it holds: its creation, the
  acceptance of each of its messages from its sender, and a fetch by its recipient for each message
  marked as delivered. No clock enters: a step may carry any time.
\<close>

definition traced :: "history \<Rightarrow> QueueId \<Rightarrow> Queue \<Rightarrow> bool" where
  "traced h qid q \<longleftrightarrow> created_in h qid (q_config q)
     \<and> (\<forall>m \<in> set (q_messages q). sent_in h qid (qc_sender (q_config q)) (delivery_of m)
         \<and> (qm_delivered m \<longrightarrow> fetched_in h qid (qc_recipient (q_config q)) (delivery_of m)))"

definition relay_traced :: "history \<Rightarrow> Relay \<Rightarrow> bool" where
  "relay_traced h r \<longleftrightarrow> (\<forall>qid q. queues r qid = Some q \<longrightarrow> traced h qid q)"

lemma traced_mono: "traced h qid q \<Longrightarrow> traced (h @ h') qid q"
  by (auto simp: traced_def history_mono)

lemma traced_subset:
  assumes "traced h qid q" and "set ms \<subseteq> set (q_messages q)"
  shows "traced h qid (q\<lparr>q_messages := ms\<rparr>)"
  using assms by (auto simp: traced_def)

lemma traced_discard: "traced h qid q \<Longrightarrow> traced h qid (Queue_discard_expired now q)"
  unfolding Queue_discard_expired_def by (rule traced_subset) simp_all

lemma relay_traced_put:
  assumes "relay_traced h r" and "traced (h @ h') qid q"
  shows "relay_traced (h @ h') (put_queue qid q r)"
  using assms by (auto simp: relay_traced_def traced_mono)

lemma relay_traced_mono: "relay_traced h r \<Longrightarrow> relay_traced (h @ h') r"
  by (simp add: relay_traced_def traced_mono)

lemma relay_traced_discard:
  assumes "relay_traced h r" and "queues r qid = Some q"
  shows "relay_traced (h @ h') (put_queue qid (Queue_discard_expired now q) r)"
  using assms by (intro relay_traced_put traced_mono traced_discard) (auto simp: relay_traced_def)

lemmas relay_traced_intros = relay_traced_mono relay_traced_discard

lemma traced_push:
  assumes "traced h qid q" and "qc_sender (q_config q) = s"
    and "checked_add (Timestamp_as_secs now) (RelayTtl_as_secs ttl) = Some expires"
  shows "traced (h @ [((now, EvSend qid s mid payload ttl), OutSend Accepted)]) qid
    (q\<lparr>q_messages := q_messages q @ [\<lparr>qm_id = mid, qm_payload = payload,
       qm_expires_at = Timestamp expires, qm_delivered = False\<rparr>]\<rparr>)"
proof -
  let ?h = "h @ [((now, EvSend qid s mid payload ttl), OutSend Accepted)]"
  have "sent_in ?h qid s (delivery_of \<lparr>qm_id = mid, qm_payload = payload,
      qm_expires_at = Timestamp expires, qm_delivered = False\<rparr>)"
    using assms(3) by (auto simp: sent_in_def delivery_of_def checked_add_eq_Some)
  then show ?thesis
    using traced_mono [OF assms(1), of "[((now, EvSend qid s mid payload ttl), OutSend Accepted)]"] assms(2)
    by (simp add: traced_def)
qed

lemma delivery_of_delivered [simp]: "delivery_of (m\<lparr>qm_delivered := b\<rparr>) = delivery_of m"
  by (simp add: delivery_of_def)

lemma traced_head:
  assumes "traced h qid q" and "q_messages q = m # rest" and "qc_recipient (q_config q) = p"
  shows "traced (h @ [((now, EvFetch qid p), OutFetch (Some (delivery_of m)))]) qid
    (q\<lparr>q_messages := m\<lparr>qm_delivered := True\<rparr> # rest\<rparr>)"
  using traced_mono [OF assms(1), of "[((now, EvFetch qid p), OutFetch (Some (delivery_of m)))]"] assms(2,3)
  by (simp add: traced_def history_snoc)

lemma relay_step_traced:
  assumes "relay_traced h r"
  shows "relay_traced (h @ [(e, fst (relay_step r e))]) (snd (relay_step r e))"
proof (cases "(r, e)" rule: relay_step.cases)
  case (1 r' now qid c)
  have "traced (h @ [((now, EvCreate qid c), OutCreate Created)]) qid \<lparr>q_config = c, q_messages = []\<rparr>"
    by (simp add: traced_def history_snoc)
  then show ?thesis
    using assms 1 by (auto simp: Relay_create_queue_def outcome_of_def intro: relay_traced_intros relay_traced_put
        split: option.split)
next
  case (2 r' now qid s mid payload ttl)
  show ?thesis
  proof (cases "queues r qid")
    case (Some q)
    then have q: "traced h qid (Queue_discard_expired now q)"
      using assms by (auto simp: relay_traced_def intro: traced_discard)
    show ?thesis
      using assms 2 Some relay_traced_put [OF assms traced_push [OF q]]
      by (auto simp: Relay_send_def outcome_of_def Let_def intro: relay_traced_intros split: option.split)
  qed (use assms 2 in \<open>auto simp: Relay_send_def outcome_of_def intro: relay_traced_intros\<close>)
next
  case (3 r' now qid p)
  show ?thesis
  proof (cases "recipient_queue qid p r")
    case (Inr q)
    then have qid: "queues r qid = Some q" "qc_recipient (q_config q) = p"
      by (simp_all add: recipient_queue_Inr)
    then have q: "traced h qid (Queue_discard_expired now q)"
      using assms by (auto simp: relay_traced_def intro: traced_discard)
    show ?thesis
      using assms 3 Inr qid relay_traced_put [OF assms traced_head [OF q]]
      by (auto simp: Relay_fetch_def outcome_of_def Let_def delivery_of_def
          intro: relay_traced_intros split: list.split)
  qed (use assms 3 in \<open>auto simp: Relay_fetch_def outcome_of_def intro: relay_traced_intros\<close>)
next
  case (4 r' now qid p mid)
  show ?thesis
  proof (cases "recipient_queue qid p r")
    case (Inr q)
    then have qid: "queues r qid = Some q" "qc_recipient (q_config q) = p"
      by (simp_all add: recipient_queue_Inr)
    then have q: "traced h qid (Queue_discard_expired now q)"
      using assms by (auto simp: relay_traced_def intro: traced_discard)
    have "traced h qid (Queue_discard_expired now q\<lparr>q_messages := ms\<rparr>)"
      if "filter (unexpired now) (q_messages q) = m # ms" for m ms
      using that by (intro traced_subset [OF q]) auto
    then show ?thesis
      using assms 4 Inr qid relay_traced_put [OF assms traced_mono]
      by (auto simp: Relay_acknowledge_def outcome_of_def Let_def
          intro: relay_traced_intros split: list.split)
  qed (use assms 4 in \<open>auto simp: Relay_acknowledge_def outcome_of_def intro: relay_traced_intros\<close>)
next
  case (5 r' now qid p)
  then show ?thesis
    using assms by (auto simp: Relay_delete_queue_def outcome_of_def relay_traced_def traced_mono split: option.split)
qed

lemma relay_run_traced: "relay_traced (run_history relay_step Relay_new es) (snd (run_steps relay_step Relay_new es))"
proof (induction es rule: rev_induct)
  case (snoc e es)
  from relay_step_traced [OF this, of e] show ?case
    by (simp add: run_history_snoc run_steps_append run_steps_Cons del: run_steps.simps(2) relay_step.simps)
qed (simp add: relay_traced_def Relay_new_def)

lemma relay_fetch_traced:
  assumes "relay_traced h r" and "fst (relay_step r (now, EvFetch qid p)) = OutFetch (Some d)"
  shows "due now d \<and> (\<exists>c. created_in h qid c \<and> qc_recipient c = p \<and> sent_in h qid (qc_sender c) d)"
proof -
  from assms(2) obtain q m rest where "queues r qid = Some q" "qc_recipient (q_config q) = p"
      "filter (unexpired now) (q_messages q) = m # rest" "d = delivery_of m"
    by (auto simp: outcome_of_def Relay_fetch_def Let_def recipient_queue_Inr delivery_of_def
        split: sum.splits list.splits)
  moreover from this(3) have "m \<in> set (q_messages q)" "unexpired now m"
    by (metis (mono_tags, lifting) list.set_intros(1) mem_Collect_eq set_filter)+
  ultimately show ?thesis
    using assms(1) by (auto simp: relay_traced_def traced_def)
qed

lemma relay_ack_traced:
  assumes "relay_traced h r" and "fst (relay_step r (now, EvAck qid p mid)) = OutAck"
  shows "\<exists>d. rd_id d = mid \<and> due now d \<and> fetched_in h qid p d"
proof -
  from assms(2) obtain q m rest where "queues r qid = Some q" "qc_recipient (q_config q) = p"
      "filter (unexpired now) (q_messages q) = m # rest" "qm_id m = mid" "qm_delivered m"
    by (auto simp: outcome_of_def Relay_acknowledge_def Let_def recipient_queue_Inr
        split: sum.splits list.splits if_splits)
  moreover from this(3) have "m \<in> set (q_messages q)" "unexpired now m"
    by (metis (mono_tags, lifting) list.set_intros(1) mem_Collect_eq set_filter)+
  ultimately show ?thesis
    using assms(1) by (intro exI [of _ "delivery_of m"]) (auto simp: relay_traced_def traced_def)
qed

section \<open>Properties of the relay\<close>

lemma reachable_run: "relay_reachable r \<Longrightarrow> relay_reachable (snd (run_steps relay_step r es))"
  by (induction es arbitrary: r)
    (simp_all add: run_steps_Cons reach_step del: run_steps.simps(2) relay_step.simps)

lemmas new_run_inv = relay_reachable_inv [OF reachable_run [OF reach_new]]

definition ex_config :: QueueConfig where
  "ex_config = \<lparr>qc_sender = Principal [2], qc_recipient = Principal [3],
     qc_limits = \<lparr>rl_max_messages = 2, rl_max_message_bytes = 4\<rparr>\<rparr>"

definition ex_events :: "(Timestamp \<times> RelayEvent) list" where
  "ex_events =
     [(Timestamp 10, EvCreate (QueueId [1]) ex_config),
      (Timestamp 11, EvSend (QueueId [1]) (Principal [2]) (MessageId [5]) [7, 8] (RelayTtl 60)),
      (Timestamp 12, EvSend (QueueId [1]) (Principal [2]) (MessageId [6]) [9] (RelayTtl 60))]"

definition ex_relay :: Relay where
  "ex_relay = snd (run_steps relay_step Relay_new ex_events)"

lemma ex_relay_eq:
  "ex_relay = \<lparr>queues = [QueueId [1] \<mapsto> \<lparr>q_config = ex_config, q_messages =
     [\<lparr>qm_id = MessageId [5], qm_payload = [7, 8], qm_expires_at = Timestamp 71, qm_delivered = False\<rparr>,
      \<lparr>qm_id = MessageId [6], qm_payload = [9], qm_expires_at = Timestamp 72, qm_delivered = False\<rparr>]\<rparr>]\<rparr>"
  by (simp add: ex_relay_def ex_events_def outcome_of_def Relay_create_queue_def Relay_send_def put_queue_def
      Relay_new_def Queue_discard_expired_def unexpired_def checked_add_def u64_max_def ex_config_def Let_def)

lemma ex_relay_reachable: "relay_reachable ex_relay"
  unfolding ex_relay_def by (rule reachable_run [OF reach_new])

text \<open>
  C9: a queue is a first-in first-out queue of what was accepted. After any run whose commands are not
  later than \<open>now\<close>, a recipient that fetches and acknowledges in turn receives exactly the messages
  that the history of the run shows as accepted and neither acknowledged nor deleted with their queue
  nor expired, in the order in which they were accepted; each acknowledgement succeeds, and a last
  fetch finds the queue empty.
\<close>

theorem relay_drains_in_order:
  assumes "\<forall>e \<in> set es. fst e \<le> now"
    and "queues (snd (run_steps relay_step Relay_new es)) qid = Some q" and "qc_recipient (q_config q) = p"
    and "ds = filter (due now) (pending qid (run_history relay_step Relay_new es))"
  shows "fst (run_steps relay_step (snd (run_steps relay_step Relay_new es)) (drain_events qid p now ds))
    = drain_outcomes ds"
  using assms by (intro relay_store.drain_pending [of es now qid "queue_view now q"]) (simp_all add: view_cases)

theorem relay_drains_in_order_witness:
  "fst (run_steps relay_step ex_relay
      [(Timestamp 20, EvFetch (QueueId [1]) (Principal [3])),
       (Timestamp 20, EvAck (QueueId [1]) (Principal [3]) (MessageId [5])),
       (Timestamp 20, EvFetch (QueueId [1]) (Principal [3])),
       (Timestamp 20, EvAck (QueueId [1]) (Principal [3]) (MessageId [6])),
       (Timestamp 20, EvFetch (QueueId [1]) (Principal [3]))])
   = [OutFetch (Some \<lparr>rd_id = MessageId [5], rd_payload = [7, 8], rd_expires_at = Timestamp 71\<rparr>), OutAck,
      OutFetch (Some \<lparr>rd_id = MessageId [6], rd_payload = [9], rd_expires_at = Timestamp 72\<rparr>), OutAck,
      OutFetch None]"
proof -
  let ?ds = "[\<lparr>rd_id = MessageId [5], rd_payload = [7, 8], rd_expires_at = Timestamp 71\<rparr>,
    \<lparr>rd_id = MessageId [6], rd_payload = [9], rd_expires_at = Timestamp 72\<rparr>]"
  have "run_history relay_step Relay_new ex_events
      = zip ex_events [OutCreate Created, OutSend Accepted, OutSend Accepted]"
    by (simp add: run_history_def ex_events_def outcome_of_def Relay_create_queue_def Relay_send_def
        put_queue_def Relay_new_def Queue_discard_expired_def unexpired_def checked_add_def u64_max_def
        ex_config_def Let_def)
  then have "?ds = filter (due (Timestamp 20)) (pending (QueueId [1]) (run_history relay_step Relay_new ex_events))"
    by (simp add: ex_events_def pending_def accepted_item_def due_def)
  moreover have "\<forall>e \<in> set ex_events. fst e \<le> Timestamp 20"
    by (simp add: ex_events_def)
  moreover obtain q where "queues ex_relay (QueueId [1]) = Some q" "qc_recipient (q_config q) = Principal [3]"
    by (simp add: ex_relay_eq ex_config_def)
  ultimately have "fst (run_steps relay_step ex_relay (drain_events (QueueId [1]) (Principal [3]) (Timestamp 20) ?ds))
      = drain_outcomes ?ds"
    using relay_drains_in_order [of ex_events "Timestamp 20" "QueueId [1]" q "Principal [3]" ?ds]
    unfolding ex_relay_def [symmetric] by blast
  then show ?thesis
    by (simp add: drain_events_def drain_outcomes_def del: run_steps.simps relay_step.simps)
qed

text \<open>
  C8: a message the relay accepted with a positive lifetime is not lost. After any further commands
  by anyone, at any times before its expiry and in any order of the clock, it is still held for the
  queue's recipient with the exact payload that was sent and the promised expiry, unless that
  recipient acknowledged it or deleted the queue and was answered so. Commands that were refused, and
  commands of any other principal, cannot remove it.
\<close>

theorem relay_accepted_not_lost:
  assumes "relay_reachable r" and "queues r qid = Some q"
    and "fst (relay_step r (now, EvSend qid s mid payload ttl)) = OutSend Accepted"
    and "RelayTtl_as_secs ttl \<noteq> 0"
    and "\<forall>(e, out) \<in> set (run_history relay_step (snd (relay_step r (now, EvSend qid s mid payload ttl))) es).
      due (fst e) (accepted_item mid payload now ttl)
      \<and> \<not> releases (qc_recipient (q_config q)) qid mid (snd e, out)"
    and "due later (accepted_item mid payload now ttl)"
  shows "holds_for (qc_recipient (q_config q))
    (relay_view later (snd (run_steps relay_step r ((now, EvSend qid s mid payload ttl) # es))))
    qid (accepted_item mid payload now ttl)"
proof -
  let ?r = "snd (relay_step r (now, EvSend qid s mid payload ttl))"
  let ?d = "accepted_item mid payload now ttl" and ?p = "qc_recipient (q_config q)"
  have inv: "relay_inv r"
    by (rule relay_reachable_inv [OF assms(1)])
  have held: "holds_for ?p (relay_view now ?r) qid ?d"
    using relay_store.send_holds [OF inv TrueI assms(3,4), of "queue_view now q"] assms(2) by (simp add: view_cases)
  have "rd_id ?d = mid"
    by (simp add: accepted_item_def)
  then have "holds_for ?p (relay_view later (snd (run_steps relay_step ?r es))) qid ?d"
    using assms(5) by (intro relay_store.run_keeps [OF relay_step_inv [OF inv] _ held _ assms(6)]) simp_all
  then show ?thesis
    by (simp add: run_steps_Cons del: run_steps.simps(2) relay_step.simps)
qed

text \<open>A stranger's acknowledgement and deletion, and the recipient's own fetch, at a clock that goes back.\<close>

definition ex_intrusion :: "(Timestamp \<times> RelayEvent) list" where
  "ex_intrusion =
     [(Timestamp 20, EvFetch (QueueId [1]) (Principal [3])),
      (Timestamp 30, EvAck (QueueId [1]) (Principal [9]) (MessageId [5])),
      (Timestamp 15, EvDelete (QueueId [1]) (Principal [2]))]"

theorem relay_accepted_not_lost_witness:
  "holds_for (Principal [3]) (relay_view (Timestamp 70)
      (snd (run_steps relay_step (snd (run_steps relay_step Relay_new [hd ex_events]))
        ((Timestamp 11, EvSend (QueueId [1]) (Principal [2]) (MessageId [5]) [7, 8] (RelayTtl 60))
          # ex_intrusion))))
    (QueueId [1]) \<lparr>rd_id = MessageId [5], rd_payload = [7, 8], rd_expires_at = Timestamp 71\<rparr>"
proof -
  let ?r = "snd (run_steps relay_step Relay_new [hd ex_events])"
  let ?e = "(Timestamp 11, EvSend (QueueId [1]) (Principal [2]) (MessageId [5]) [7, 8] (RelayTtl 60))"
  have r: "?r = put_queue (QueueId [1]) \<lparr>q_config = ex_config, q_messages = []\<rparr> Relay_new"
    by (simp add: ex_events_def outcome_of_def Relay_create_queue_def Relay_new_def)
  have sent: "relay_step ?r ?e = (OutSend Accepted, put_queue (QueueId [1]) \<lparr>q_config = ex_config, q_messages =
      [\<lparr>qm_id = MessageId [5], qm_payload = [7, 8], qm_expires_at = Timestamp 71, qm_delivered = False\<rparr>]\<rparr> Relay_new)"
    unfolding r by (simp add: outcome_of_def Relay_send_def Queue_discard_expired_def checked_add_def u64_max_def
        ex_config_def Let_def)
  have "run_history relay_step (snd (relay_step ?r ?e)) ex_intrusion = zip ex_intrusion
      [OutFetch (Some \<lparr>rd_id = MessageId [5], rd_payload = [7, 8], rd_expires_at = Timestamp 71\<rparr>),
       OutErr ReUnauthorized, OutErr ReUnauthorized]"
    unfolding sent by (simp add: run_history_def ex_intrusion_def outcome_of_def Relay_fetch_def Relay_acknowledge_def
        Relay_delete_queue_def recipient_queue_def Queue_discard_expired_def unexpired_def ex_config_def Let_def)
  then have "\<forall>(e, out) \<in> set (run_history relay_step (snd (relay_step ?r ?e)) ex_intrusion).
      due (fst e) (accepted_item (MessageId [5]) [7, 8] (Timestamp 11) (RelayTtl 60))
      \<and> \<not> releases (Principal [3]) (QueueId [1]) (MessageId [5]) (snd e, out)"
    by (simp add: ex_intrusion_def due_def accepted_item_def releases_def del: relay_step.simps)
  then show ?thesis
    using relay_accepted_not_lost [OF reachable_run [OF reach_new, of "[hd ex_events]"], of "QueueId [1]"
        "\<lparr>q_config = ex_config, q_messages = []\<rparr>" "Timestamp 11" "Principal [2]" "MessageId [5]" "[7, 8]" "RelayTtl 60"
        ex_intrusion "Timestamp 70"] sent
    unfolding r by (simp add: ex_config_def accepted_item_def due_def del: run_steps.simps relay_step.simps)
qed

text \<open>
  C10: whatever a recipient is handed was accepted earlier in the same run from the principal the
  queue was created with as sender, with that message identifier and those payload bytes; its
  expiry is the acceptance time plus the lifetime, computed without wrap-around, and has not
  passed; and the fetching principal is the recipient the queue was created with. This holds of every
  run, whatever times its commands carry.
\<close>

theorem relay_delivery_integrity:
  assumes "run_history relay_step Relay_new es = h @ ((now, EvFetch qid p), OutFetch (Some d)) # h'"
  shows "due now d \<and> (\<exists>c. created_in h qid c \<and> qc_recipient c = p \<and> sent_in h qid (qc_sender c) d)"
  using run_history_split [OF assms] relay_fetch_traced [OF relay_run_traced] by metis

text \<open>
  C11: an acknowledgement succeeds only for a message that an earlier fetch of the same run handed
  to the same recipient from the same queue, and that is not expired: no message is dropped by
  acknowledgement before it was delivered. This holds of every run, whatever times its commands carry.
\<close>

theorem relay_ack_only_delivered:
  assumes "run_history relay_step Relay_new es = h @ ((now, EvAck qid p mid), OutAck) # h'"
  shows "\<exists>d. rd_id d = mid \<and> due now d \<and> fetched_in h qid p d"
  using run_history_split [OF assms] relay_ack_traced [OF relay_run_traced] by metis

definition ex_session :: "(Timestamp \<times> RelayEvent) list" where
  "ex_session =
     [(Timestamp 10, EvCreate (QueueId [1]) ex_config),
      (Timestamp 11, EvSend (QueueId [1]) (Principal [2]) (MessageId [5]) [7, 8] (RelayTtl 60)),
      (Timestamp 12, EvFetch (QueueId [1]) (Principal [3])),
      (Timestamp 13, EvAck (QueueId [1]) (Principal [3]) (MessageId [5]))]"

lemma ex_session_history:
  "run_history relay_step Relay_new ex_session = zip ex_session
     [OutCreate Created, OutSend Accepted,
      OutFetch (Some \<lparr>rd_id = MessageId [5], rd_payload = [7, 8], rd_expires_at = Timestamp 71\<rparr>), OutAck]"
  by (simp add: run_history_def ex_session_def outcome_of_def Relay_create_queue_def Relay_send_def
      Relay_fetch_def Relay_acknowledge_def recipient_queue_def put_queue_def Relay_new_def
      Queue_discard_expired_def unexpired_def checked_add_def u64_max_def ex_config_def Let_def)

theorem relay_delivery_integrity_witness:
  "sent_in (take 2 (run_history relay_step Relay_new ex_session)) (QueueId [1]) (Principal [2])
     \<lparr>rd_id = MessageId [5], rd_payload = [7, 8], rd_expires_at = Timestamp 71\<rparr>"
  using relay_delivery_integrity [of ex_session
      "take 2 (run_history relay_step Relay_new ex_session)" "Timestamp 12" "QueueId [1]" "Principal [3]"
      "\<lparr>rd_id = MessageId [5], rd_payload = [7, 8], rd_expires_at = Timestamp 71\<rparr>"
      "drop 3 (run_history relay_step Relay_new ex_session)"]
  unfolding ex_session_history by (auto simp: ex_session_def created_in_def ex_config_def)

theorem relay_ack_only_delivered_witness:
  "\<exists>d. rd_id d = MessageId [5] \<and> due (Timestamp 13) d
     \<and> fetched_in (take 3 (run_history relay_step Relay_new ex_session)) (QueueId [1]) (Principal [3]) d"
  using relay_ack_only_delivered [of ex_session
      "take 3 (run_history relay_step Relay_new ex_session)" "Timestamp 13" "QueueId [1]" "Principal [3]"
      "MessageId [5]" "[]"]
  unfolding ex_session_history by (simp add: ex_session_def)

text \<open>
  C12: under a clock that does not go backwards, every run of the relay answers each command exactly
  as the mailbox specification does.
\<close>

theorem relay_refines_mailboxes:
  assumes "clock_ordered t es"
  shows "fst (run_steps relay_step Relay_new es) = fst (run_steps spec_step Map.empty es)"
  by (rule relay_store.service_outcomes [OF assms]) simp

theorem relay_refines_mailboxes_witness:
  "fst (run_steps relay_step Relay_new ex_session) = fst (run_steps spec_step Map.empty ex_session)"
  using relay_refines_mailboxes [of "Timestamp 0" ex_session] by (simp add: ex_session_def
      del: run_steps.simps relay_step.simps)

text \<open>
  No run brings a queue past the limits it was created with: message identifiers are unique, at
  most \<open>max_messages\<close> messages of at most \<open>max_message_bytes\<close> bytes each are held, and only the first
  one can be marked as delivered.
\<close>

theorem relay_bounded:
  assumes "queues (snd (run_steps relay_step Relay_new es)) qid = Some q"
  shows "distinct (map qm_id (q_messages q))
    \<and> length (q_messages q) \<le> unat (rl_max_messages (qc_limits (q_config q)))
    \<and> (\<forall>m \<in> set (q_messages q). length (qm_payload m) \<le> unat (rl_max_message_bytes (qc_limits (q_config q))))
    \<and> (\<forall>m \<in> set (tl (q_messages q)). \<not> qm_delivered m)"
  using new_run_inv [of es] assms by (auto simp: relay_inv_def queue_inv_def)

theorem relay_bounded_witness:
  "length (q_messages (the (queues (snd (run_steps relay_step Relay_new ex_events)) (QueueId [1])))) \<le> 2"
  using relay_bounded [of ex_events "QueueId [1]"]
  unfolding ex_relay_def [symmetric] ex_relay_eq by (simp add: ex_config_def)

text \<open>
  A fetched message is handed out again, unchanged, by every later fetch of the recipient until
  it expires (as long as nothing happens in between).
\<close>

theorem relay_redelivers:
  assumes "relay_reachable r" and "fst (relay_step r (now, EvFetch qid p)) = OutFetch (Some d)"
    and "now \<le> now'" and "due now' d"
  shows "fst (relay_step (snd (relay_step r (now, EvFetch qid p))) (now', EvFetch qid p)) = OutFetch (Some d)"
  by (rule relay_store.redelivers [OF relay_reachable_inv [OF assms(1)] TrueI assms(2-4)])

lemma ex_relay_fetch:
  "fst (relay_step ex_relay (Timestamp 20, EvFetch (QueueId [1]) (Principal [3])))
    = OutFetch (Some \<lparr>rd_id = MessageId [5], rd_payload = [7, 8], rd_expires_at = Timestamp 71\<rparr>)"
  by (simp add: ex_relay_eq outcome_of_def Relay_fetch_def recipient_queue_def put_queue_def
      Queue_discard_expired_def unexpired_def ex_config_def Let_def)

theorem relay_redelivers_witness:
  "fst (relay_step (snd (relay_step ex_relay (Timestamp 20, EvFetch (QueueId [1]) (Principal [3]))))
      (Timestamp 70, EvFetch (QueueId [1]) (Principal [3])))
    = OutFetch (Some \<lparr>rd_id = MessageId [5], rd_payload = [7, 8], rd_expires_at = Timestamp 71\<rparr>)"
  using relay_redelivers [OF ex_relay_reachable ex_relay_fetch, of "Timestamp 70"]
  by (simp add: due_def del: relay_step.simps)

text \<open>
  While a message is due, sending it again under the same identifier and payload, with any
  lifetime, is answered as a duplicate and changes nothing that is due: the retry neither adds a
  second copy nor extends the expiry.
\<close>

theorem relay_retry_idempotent:
  assumes "relay_reachable r" and "queues r qid = Some q" and "m \<in> set (q_messages q)" and "unexpired now m"
  shows "fst (relay_step r (now, EvSend qid (qc_sender (q_config q)) (qm_id m) (qm_payload m) ttl))
      = OutSend SendDuplicate
    \<and> relay_view now (snd (relay_step r (now, EvSend qid (qc_sender (q_config q)) (qm_id m) (qm_payload m) ttl)))
      = relay_view now r"
proof -
  have "holds_item (relay_view now r) qid (delivery_of m)"
    using assms(2-4) by (simp add: holds_item_def view_cases)
  then show ?thesis
    using relay_store.retry_recognised [OF relay_reachable_inv [OF assms(1)], of now qid "delivery_of m"] assms(2)
    by (simp add: view_cases del: relay_step.simps)
qed

theorem relay_retry_idempotent_witness:
  "fst (relay_step ex_relay (Timestamp 20, EvSend (QueueId [1]) (Principal [2]) (MessageId [5]) [7, 8] (RelayTtl 600)))
    = OutSend SendDuplicate"
  using relay_retry_idempotent [OF ex_relay_reachable, of "QueueId [1]" _
      "\<lparr>qm_id = MessageId [5], qm_payload = [7, 8], qm_expires_at = Timestamp 71, qm_delivered = False\<rparr>"
      "Timestamp 20" "RelayTtl 600"]
  by (simp add: ex_relay_eq ex_config_def unexpired_def del: relay_step.simps)

text \<open>
  A command that is answered with an error leaves every message that is due, and every queue, as
  it was.
\<close>

theorem relay_error_changes_nothing_due:
  assumes "relay_reachable r" and "fst (relay_step r (now, ev)) = OutErr x"
  shows "relay_view now (snd (relay_step r (now, ev))) = relay_view now r"
  by (rule relay_store.error_keeps_view [OF relay_reachable_inv [OF assms(1)] TrueI assms(2)])

theorem relay_error_changes_nothing_due_witness:
  "relay_view (Timestamp 71) (snd (relay_step ex_relay (Timestamp 71, EvAck (QueueId [1]) (Principal [3]) (MessageId [5]))))
    = relay_view (Timestamp 71) ex_relay"
proof -
  have "fst (relay_step ex_relay (Timestamp 71, EvAck (QueueId [1]) (Principal [3]) (MessageId [5])))
      = OutErr ReAckMismatch"
    by (simp add: ex_relay_eq outcome_of_def Relay_acknowledge_def recipient_queue_def put_queue_def
      Queue_discard_expired_def unexpired_def ex_config_def Let_def)
  from relay_error_changes_nothing_due [OF ex_relay_reachable this] show ?thesis .
qed

fun permitted :: "QueueConfig \<Rightarrow> RelayEvent \<Rightarrow> bool" where
  "permitted c (EvCreate _ _) = True"
| "permitted c (EvSend _ s _ _ _) = (s = qc_sender c)"
| "permitted c (EvFetch _ p) = (p = qc_recipient c)"
| "permitted c (EvAck _ p _) = (p = qc_recipient c)"
| "permitted c (EvDelete _ p) = (p = qc_recipient c)"

text \<open>
  A principal that is not the queue's sender cannot send, and one that is not its recipient can
  neither fetch, acknowledge nor delete: the command is answered \<open>Unauthorized\<close> and the state,
  expired messages included, is untouched.
\<close>

theorem relay_unauthorized_no_effect:
  assumes "queues r (event_queue ev) = Some q" and "\<not> permitted (q_config q) ev"
  shows "relay_step r (now, ev) = (OutErr ReUnauthorized, r)"
  using assms by (cases ev) (auto simp: outcome_of_def Relay_send_def Relay_fetch_def Relay_acknowledge_def
      Relay_delete_queue_def recipient_queue_def)

theorem relay_unauthorized_no_effect_witness:
  "relay_step ex_relay (Timestamp 99, EvDelete (QueueId [1]) (Principal [2])) = (OutErr ReUnauthorized, ex_relay)"
proof -
  obtain q where "queues ex_relay (QueueId [1]) = Some q" "q_config q = ex_config"
    by (simp add: ex_relay_eq)
  then show ?thesis
    using relay_unauthorized_no_effect [of ex_relay "EvDelete (QueueId [1]) (Principal [2])" q "Timestamp 99"]
    by (simp add: ex_config_def del: relay_step.simps)
qed

text \<open>
  A command touches no queue but the one it names: every other queue is exactly as before.
\<close>

theorem relay_queues_isolated:
  assumes "qid \<noteq> event_queue ev"
  shows "queues (snd (relay_step r (now, ev))) qid = queues r qid"
  using assms by (cases ev) (auto simp: Relay_create_queue_def Relay_send_def Relay_fetch_def
      Relay_acknowledge_def Relay_delete_queue_def Let_def split: option.split sum.split list.split)

theorem relay_queues_isolated_witness:
  "queues (snd (relay_step ex_relay (Timestamp 20, EvDelete (QueueId [9]) (Principal [3])))) (QueueId [1])
    = queues ex_relay (QueueId [1])"
  using relay_queues_isolated [of "QueueId [1]" "EvDelete (QueueId [9]) (Principal [3])" ex_relay "Timestamp 20"]
  by (simp del: relay_step.simps)

end
