(* ===== verification/CW_Blob_Types.thy ===== *)
theory CW_Blob_Types
  imports CW_Types
begin

text \<open>
  The types of the \<open>cofferwire-blob/1\<close> profile (\<open>crates/cofferwire-types/src/blob.rs\<close>): identifiers and
  capabilities, the manifest with its parser, the blob command and status registries, requests and
  responses.
\<close>

section \<open>Bounds and identifiers\<close>

definition MAX_BLOB_FRAME_BYTES :: nat where
  "MAX_BLOB_FRAME_BYTES = 1049600"

definition MIN_CHUNK_BYTES :: nat where
  "MIN_CHUNK_BYTES = 32"

definition MAX_CHUNK_BYTES :: nat where
  "MAX_CHUNK_BYTES = 1048576"

definition MAX_CHUNKS :: nat where
  "MAX_CHUNKS = 32768"

definition MIN_PADDED_BYTES :: u64 where
  "MIN_PADDED_BYTES = 64"

definition MAX_PADDED_BYTES :: u64 where
  "MAX_PADDED_BYTES = 1073741824"

lemmas blob_bounds = MAX_BLOB_FRAME_BYTES_def MIN_CHUNK_BYTES_def MAX_CHUNK_BYTES_def MAX_CHUNKS_def
  MIN_PADDED_BYTES_def MAX_PADDED_BYTES_def

datatype UploadId = UploadId (UploadId_bytes: bytes)
datatype BlobId = BlobId (BlobId_bytes: bytes)
datatype CapabilityId = CapabilityId (CapabilityId_bytes: bytes)

definition wf_UploadId :: "UploadId \<Rightarrow> bool" where
  "wf_UploadId i \<longleftrightarrow> length (UploadId_bytes i) = 32"

definition wf_BlobId :: "BlobId \<Rightarrow> bool" where
  "wf_BlobId i \<longleftrightarrow> length (BlobId_bytes i) = 32"

definition wf_CapabilityId :: "CapabilityId \<Rightarrow> bool" where
  "wf_CapabilityId i \<longleftrightarrow> length (CapabilityId_bytes i) = 32"

lemmas wf_blob_id_defs = wf_UploadId_def wf_BlobId_def wf_CapabilityId_def

section \<open>The manifest\<close>

record BlobManifest =
  bm_bytes :: bytes
  bm_object_salt :: bytes
  bm_padded_size :: u64
  bm_chunk_size :: u32
  bm_digests :: "bytes list"

datatype BlobTypeError = BteInvalidManifest | BteLimitOutOfRange

text \<open>\<open>is_power_of_two\<close> and \<open>chunks_exact(32)\<close> of the standard library.\<close>

definition is_power_of_two :: "'w::len word \<Rightarrow> bool" where
  "is_power_of_two w \<longleftrightarrow> w \<noteq> 0 \<and> w AND (w - 1) = 0"

fun chunks_exact :: "nat \<Rightarrow> 'a list \<Rightarrow> 'a list list" where
  "chunks_exact n xs = (if n = 0 \<or> length xs < n then [] else take n xs # chunks_exact n (drop n xs))"

declare chunks_exact.simps [simp del]

definition limits_valid :: "u64 \<Rightarrow> u32 \<Rightarrow> u32 \<Rightarrow> bool" where
  "limits_valid padded_size chunk_size chunk_count \<longleftrightarrow>
     (MIN_CHUNK_BYTES \<le> unat chunk_size \<and> unat chunk_size \<le> MAX_CHUNK_BYTES)
     \<and> is_power_of_two chunk_size
     \<and> (MIN_PADDED_BYTES \<le> padded_size \<and> padded_size \<le> MAX_PADDED_BYTES)
     \<and> is_power_of_two padded_size
     \<and> padded_size mod ucast chunk_size = 0
     \<and> unat chunk_count > 0
     \<and> unat chunk_count \<le> MAX_CHUNKS
     \<and> padded_size div ucast chunk_size = ucast chunk_count"

text \<open>
  The slices up to byte 72 are in range after the first check; \<open>chunk_count\<close> is a \<open>u32\<close>, so
  \<open>40 + 32 * chunk_count\<close> does not overflow 64 bits.
\<close>

definition BlobManifest_parse :: "bytes \<Rightarrow> (BlobTypeError, BlobManifest) result" where
  "BlobManifest_parse bs =
     (if length bs < 72 \<or> take 4 bs \<noteq> [67, 87, 66, 49] then Inl BteInvalidManifest
      else
        let profile = u16_from_be_bytes (take 2 (drop 4 bs));
            suite = u16_from_be_bytes (take 2 (drop 6 bs))
        in if profile \<noteq> 1 \<or> suite \<noteq> 1 then Inl BteInvalidManifest
        else
          let object_salt = take 16 (drop 8 bs);
              padded_size = u64_from_be_bytes (take 8 (drop 24 bs));
              chunk_size = u32_from_be_bytes (take 4 (drop 32 bs));
              chunk_count = u32_from_be_bytes (take 4 (drop 36 bs))
          in if \<not> limits_valid padded_size chunk_size chunk_count then Inl BteLimitOutOfRange
          else
            let expected = 40 + unat chunk_count * 32
            in if length bs \<noteq> expected then Inl BteInvalidManifest
            else Inr \<lparr>bm_bytes = bs, bm_object_salt = object_salt, bm_padded_size = padded_size,
                      bm_chunk_size = chunk_size, bm_digests = chunks_exact 32 (drop 40 bs)\<rparr>)"

definition BlobManifest_chunk_count :: "BlobManifest \<Rightarrow> nat" where
  "BlobManifest_chunk_count m = length (bm_digests m)"

definition BlobManifest_digest :: "BlobManifest \<Rightarrow> nat \<Rightarrow> bytes option" where
  "BlobManifest_digest m index = get_at (bm_digests m) index"

text \<open>A manifest value of the program is always the result of parsing its bytes.\<close>

definition wf_BlobManifest :: "BlobManifest \<Rightarrow> bool" where
  "wf_BlobManifest m \<longleftrightarrow> BlobManifest_parse (bm_bytes m) = Inr m"

section \<open>Registries\<close>

datatype BlobCommand =
    BcBeginUpload | BcPutChunk | BcCommit | BcGetManifest | BcGetChunk | BcRenew | BcDelete

fun BlobCommand_as_u8 :: "BlobCommand \<Rightarrow> u8" where
  "BlobCommand_as_u8 BcBeginUpload = 1"
| "BlobCommand_as_u8 BcPutChunk = 2"
| "BlobCommand_as_u8 BcCommit = 3"
| "BlobCommand_as_u8 BcGetManifest = 4"
| "BlobCommand_as_u8 BcGetChunk = 5"
| "BlobCommand_as_u8 BcRenew = 6"
| "BlobCommand_as_u8 BcDelete = 7"

definition BlobCommand_try_from :: "u8 \<Rightarrow> (BlobTypeError, BlobCommand) result" where
  "BlobCommand_try_from value =
     (if value = 1 then Inr BcBeginUpload
      else if value = 2 then Inr BcPutChunk
      else if value = 3 then Inr BcCommit
      else if value = 4 then Inr BcGetManifest
      else if value = 5 then Inr BcGetChunk
      else if value = 6 then Inr BcRenew
      else if value = 7 then Inr BcDelete
      else Inl BteInvalidManifest)"

datatype BlobStatus =
    BsOk | BsUnsupportedVersion | BsMalformedFrame | BsFrameTooLarge | BsUnknownCommand | BsNotFound
  | BsUnauthorized | BsIdConflict | BsLimitOutOfRange | BsChunkConflict | BsIncomplete
  | BsIdentityMismatch | BsExpired | BsAuthInvalid | BsAuthReplay

fun BlobStatus_as_u8 :: "BlobStatus \<Rightarrow> u8" where
  "BlobStatus_as_u8 BsOk = 0"
| "BlobStatus_as_u8 BsUnsupportedVersion = 1"
| "BlobStatus_as_u8 BsMalformedFrame = 2"
| "BlobStatus_as_u8 BsFrameTooLarge = 3"
| "BlobStatus_as_u8 BsUnknownCommand = 4"
| "BlobStatus_as_u8 BsNotFound = 5"
| "BlobStatus_as_u8 BsUnauthorized = 6"
| "BlobStatus_as_u8 BsIdConflict = 7"
| "BlobStatus_as_u8 BsLimitOutOfRange = 8"
| "BlobStatus_as_u8 BsChunkConflict = 9"
| "BlobStatus_as_u8 BsIncomplete = 10"
| "BlobStatus_as_u8 BsIdentityMismatch = 11"
| "BlobStatus_as_u8 BsExpired = 12"
| "BlobStatus_as_u8 BsAuthInvalid = 13"
| "BlobStatus_as_u8 BsAuthReplay = 14"

definition BlobStatus_is_ok :: "BlobStatus \<Rightarrow> bool" where
  "BlobStatus_is_ok s = (case s of BsOk \<Rightarrow> True | _ \<Rightarrow> False)"

definition BlobStatus_try_from :: "u8 \<Rightarrow> (BlobTypeError, BlobStatus) result" where
  "BlobStatus_try_from value =
     (if value = 0 then Inr BsOk
      else if value = 1 then Inr BsUnsupportedVersion
      else if value = 2 then Inr BsMalformedFrame
      else if value = 3 then Inr BsFrameTooLarge
      else if value = 4 then Inr BsUnknownCommand
      else if value = 5 then Inr BsNotFound
      else if value = 6 then Inr BsUnauthorized
      else if value = 7 then Inr BsIdConflict
      else if value = 8 then Inr BsLimitOutOfRange
      else if value = 9 then Inr BsChunkConflict
      else if value = 10 then Inr BsIncomplete
      else if value = 11 then Inr BsIdentityMismatch
      else if value = 12 then Inr BsExpired
      else if value = 13 then Inr BsAuthInvalid
      else if value = 14 then Inr BsAuthReplay
      else Inl BteInvalidManifest)"

section \<open>Requests and responses\<close>

record BlobCapabilities =
  cap_upload :: CapabilityId
  cap_download :: CapabilityId
  cap_renew :: CapabilityId
  cap_delete :: CapabilityId

datatype BlobRequest =
    BrBeginUpload UploadId BlobCapabilities BlobManifest u64
  | BrPutChunk UploadId CapabilityId u32 bytes
  | BrCommit UploadId CapabilityId BlobId
  | BrGetManifest BlobId CapabilityId
  | BrGetChunk BlobId CapabilityId u32
  | BrRenew BlobId CapabilityId u64
  | BrDelete BlobId CapabilityId

fun BlobRequest_command :: "BlobRequest \<Rightarrow> BlobCommand" where
  "BlobRequest_command (BrBeginUpload _ _ _ _) = BcBeginUpload"
| "BlobRequest_command (BrPutChunk _ _ _ _) = BcPutChunk"
| "BlobRequest_command (BrCommit _ _ _) = BcCommit"
| "BlobRequest_command (BrGetManifest _ _) = BcGetManifest"
| "BlobRequest_command (BrGetChunk _ _ _) = BcGetChunk"
| "BlobRequest_command (BrRenew _ _ _) = BcRenew"
| "BlobRequest_command (BrDelete _ _) = BcDelete"

fun BlobRequest_capability :: "BlobRequest \<Rightarrow> CapabilityId" where
  "BlobRequest_capability (BrBeginUpload _ capabilities _ _) = cap_upload capabilities"
| "BlobRequest_capability (BrPutChunk _ upload_cap _ _) = upload_cap"
| "BlobRequest_capability (BrCommit _ upload_cap _) = upload_cap"
| "BlobRequest_capability (BrGetManifest _ download_cap) = download_cap"
| "BlobRequest_capability (BrGetChunk _ download_cap _) = download_cap"
| "BlobRequest_capability (BrRenew _ renew_cap _) = renew_cap"
| "BlobRequest_capability (BrDelete _ delete_cap) = delete_cap"

record BlobRequestFrame =
  brf_request_id :: RequestId
  brf_request :: BlobRequest
  brf_auth :: Auth

datatype BlobWriteOutcome = BwStored | BwDuplicate

fun BlobWriteOutcome_as_u8 :: "BlobWriteOutcome \<Rightarrow> u8" where
  "BlobWriteOutcome_as_u8 BwStored = 0"
| "BlobWriteOutcome_as_u8 BwDuplicate = 1"

definition BlobWriteOutcome_try_from :: "u8 \<Rightarrow> (BlobTypeError, BlobWriteOutcome) result" where
  "BlobWriteOutcome_try_from value =
     (if value = 0 then Inr BwStored else if value = 1 then Inr BwDuplicate else Inl BteInvalidManifest)"

datatype BlobResponseBody =
    BrbBeginUpload BlobWriteOutcome
  | BrbPutChunk BlobWriteOutcome
  | BrbCommit u64
  | BrbGetManifest BlobManifest u64
  | BrbGetChunk bytes u64
  | BrbRenew u64
  | BrbDelete

record BlobResponse =
  br_command :: "BlobCommand option"
  br_status :: BlobStatus
  br_body :: "BlobResponseBody option"

record BlobResponseFrame =
  brsf_request_id :: RequestId
  brsf_response :: BlobResponse

section \<open>Conversion lemmas\<close>

lemma BlobStatus_is_ok_iff [simp]: "BlobStatus_is_ok s \<longleftrightarrow> s = BsOk"
  by (cases s) (simp_all add: BlobStatus_is_ok_def)

lemma BlobCommand_try_from_iff [res_simps]: "BlobCommand_try_from v = Inr c \<longleftrightarrow> v = BlobCommand_as_u8 c"
  by (cases c) (auto simp: BlobCommand_try_from_def)

lemma BlobStatus_try_from_iff [res_simps]: "BlobStatus_try_from v = Inr s \<longleftrightarrow> v = BlobStatus_as_u8 s"
proof
  assume "BlobStatus_try_from v = Inr s"
  then show "v = BlobStatus_as_u8 s"
    by (simp add: BlobStatus_try_from_def split: if_splits)
next
  assume "v = BlobStatus_as_u8 s"
  then show "BlobStatus_try_from v = Inr s"
    by (cases s) (simp_all add: BlobStatus_try_from_def)
qed

lemma BlobWriteOutcome_try_from_iff [res_simps]:
  "BlobWriteOutcome_try_from v = Inr c \<longleftrightarrow> v = BlobWriteOutcome_as_u8 c"
  by (cases c) (auto simp: BlobWriteOutcome_try_from_def)

section \<open>What a parsed manifest guarantees\<close>

lemma length_chunks_exact: "n > 0 \<Longrightarrow> length (chunks_exact n xs) = length xs div n"
proof (induction n xs rule: chunks_exact.induct)
  case (1 n xs)
  show ?case
  proof (cases "length xs < n")
    case True
    then show ?thesis by (simp add: chunks_exact.simps)
  next
    case False
    then have "length xs div n = Suc ((length xs - n) div n)"
      using "1.prems" by (simp add: le_div_geq)
    with False 1 show ?thesis by (simp add: chunks_exact.simps [of n xs])
  qed
qed

lemma chunks_exact_widths: "x \<in> set (chunks_exact n xs) \<Longrightarrow> length x = n"
proof (induction n xs rule: chunks_exact.induct)
  case (1 n xs)
  from "1.prems" "1.IH" show ?case
    by (subst (asm) chunks_exact.simps) (auto split: if_splits)
qed

lemma concat_chunks_exact: "n > 0 \<Longrightarrow> length xs mod n = 0 \<Longrightarrow> concat (chunks_exact n xs) = xs"
proof (induction n xs rule: chunks_exact.induct)
  case (1 n xs)
  show ?case
  proof (cases "length xs < n")
    case True
    with "1.prems" show ?thesis by (simp add: chunks_exact.simps)
  next
    case False
    then have "length (drop n xs) mod n = 0"
      using "1.prems" by (simp add: le_mod_geq)
    with False 1 show ?thesis
      by (simp add: chunks_exact.simps [of n xs])
  qed
qed

lemma BlobManifest_parse_Inr:
  "BlobManifest_parse bs = Inr m \<longleftrightarrow>
     (72 \<le> length bs \<and> take 4 bs = [67, 87, 66, 49])
     \<and> (u16_from_be_bytes (take 2 (drop 4 bs)) = 1 \<and> u16_from_be_bytes (take 2 (drop 6 bs)) = 1)
     \<and> limits_valid (bm_padded_size m) (bm_chunk_size m) (u32_from_be_bytes (take 4 (drop 36 bs)))
     \<and> length bs = 40 + unat (u32_from_be_bytes (take 4 (drop 36 bs))) * 32
     \<and> m = \<lparr>bm_bytes = bs, bm_object_salt = take 16 (drop 8 bs),
          bm_padded_size = u64_from_be_bytes (take 8 (drop 24 bs)),
          bm_chunk_size = u32_from_be_bytes (take 4 (drop 32 bs)), bm_digests = chunks_exact 32 (drop 40 bs)\<rparr>"
  unfolding BlobManifest_parse_def Let_def guard_Inr sum.inject de_Morgan_disj not_not not_less
  by (rule iffI; elim conjE; hypsubst; simp only: BlobManifest.select_convs; blast)

lemma BlobManifest_parse_bytes: "BlobManifest_parse bs = Inr m \<Longrightarrow> bm_bytes m = bs"
  by (simp only: BlobManifest_parse_Inr BlobManifest.select_convs)

lemma BlobManifest_parse_wf: "BlobManifest_parse bs = Inr m \<longleftrightarrow> wf_BlobManifest m \<and> bm_bytes m = bs"
  using BlobManifest_parse_bytes [of bs m] by (auto simp: wf_BlobManifest_def)

lemma unat_ucast_u32_u64 [simp]: "unat (ucast (w :: u32) :: u64) = unat w"
proof -
  have "unat w < 2 ^ 32"
    using unsigned_less [of w, where ?'a = nat] by simp
  then show ?thesis
    by (simp add: unsigned_ucast_eq take_bit_nat_def)
qed

lemma limits_valid_product:
  assumes "limits_valid padded chunk count"
  shows "unat count * unat chunk = unat padded"
proof -
  have "padded mod ucast chunk = 0" and "padded div ucast chunk = ucast count"
    using assms by (simp_all add: limits_valid_def)
  then have "unat padded mod unat chunk = 0" and "unat padded div unat chunk = unat count"
    by (metis unat_mod_distrib unat_ucast_u32_u64 unat_0) (metis \<open>padded div ucast chunk = ucast count\<close> unat_div_distrib unat_ucast_u32_u64)
  then show ?thesis
    by (metis add.right_neutral div_mult_mod_eq)
qed

lemma manifest_length:
  assumes "wf_BlobManifest m"
  shows "length (bm_bytes m) \<le> 1048616"
proof -
  obtain count where "limits_valid (bm_padded_size m) (bm_chunk_size m) count"
    and "length (bm_bytes m) = 40 + unat count * 32"
    using assms [unfolded wf_BlobManifest_def BlobManifest_parse_Inr] by (elim conjE)
  then show ?thesis
    by (simp add: limits_valid_def MAX_CHUNKS_def)
qed

text \<open>The bit trick of \<open>is_power_of_two\<close> does test for a power of two.\<close>

lemma nat_power_of_two:
  fixes n :: nat
  shows "0 < n \<Longrightarrow> n AND (n - 1) = 0 \<Longrightarrow> \<exists>k. n = 2 ^ k"
proof (induction n rule: less_induct)
  case (less n)
  show ?case
  proof (cases "even n")
    case True
    then obtain m where m: "n = 2 * m" "0 < m"
      using less.prems(1) by (auto elim: evenE)
    then obtain j where j: "m = Suc j"
      by (cases m) auto
    have "n - 1 = 2 * (m - 1) + 1"
      using m j by simp
    then have "n AND (n - 1) = 2 * (m AND (m - 1))"
      using m(1) by (simp add: and_rec [of "2 * m"])
    then have "m AND (m - 1) = 0"
      using less.prems(2) by simp
    then obtain k where "m = 2 ^ k"
      using less.IH [of m] m by auto
    then have "n = 2 ^ Suc k" using m(1) by simp
    then show ?thesis ..
  next
    case False
    then obtain m where m: "n = 2 * m + 1"
      by (auto elim: oddE)
    then have "n AND (n - 1) = 2 * m"
      by (simp add: and_rec [of "Suc (2 * m)"])
    then have "n = 2 ^ 0"
      using less.prems(2) m by simp
    then show ?thesis ..
  qed
qed

lemma is_power_of_two_unat:
  assumes "is_power_of_two w"
  shows "\<exists>k. unat w = 2 ^ k"
proof (rule nat_power_of_two)
  have w: "w \<noteq> 0" "w AND (w - 1) = 0"
    using assms by (simp_all add: is_power_of_two_def)
  then show "0 < unat w"
    by (simp add: unat_gt_0)
  have "unat (w - 1) = unat w - 1"
    using w(1) by (simp add: unat_minus_one)
  moreover have "unat (w AND (w - 1)) = unat w AND unat (w - 1)"
    by (simp add: unsigned_and_eq)
  ultimately show "unat w AND (unat w - 1) = 0"
    using w(2) by simp
qed

text \<open>
  C24: a parsed manifest describes a consistent object: as many 32-byte digests as chunks, 1 to 32768
  of them; chunks of a declared size that is a power of two from 32 bytes to 1 MiB and that make up
  exactly the padded size, a power of two from 64 bytes to 1 GiB; and manifest bytes that are the
  40-byte header followed by the digests, never longer than the 1048616 bytes the wire allows.
\<close>

theorem manifest_geometry:
  assumes "BlobManifest_parse bs = Inr m"
  shows "BlobManifest_chunk_count m * unat (bm_chunk_size m) = unat (bm_padded_size m)
    \<and> (\<forall>d \<in> set (bm_digests m). length d = 32)
    \<and> bm_bytes m = take 40 bs @ concat (bm_digests m)
    \<and> 1 \<le> BlobManifest_chunk_count m \<and> BlobManifest_chunk_count m \<le> 32768
    \<and> 32 \<le> unat (bm_chunk_size m) \<and> unat (bm_chunk_size m) \<le> 1048576
    \<and> (\<exists>k. unat (bm_chunk_size m) = 2 ^ k)
    \<and> 64 \<le> unat (bm_padded_size m) \<and> unat (bm_padded_size m) \<le> 1073741824
    \<and> (\<exists>k. unat (bm_padded_size m) = 2 ^ k)
    \<and> length (bm_bytes m) \<le> 1048616"
proof -
  note p = assms [unfolded BlobManifest_parse_Inr]
  obtain count where lim: "limits_valid (bm_padded_size m) (bm_chunk_size m) count"
    and len: "length bs = 40 + unat count * 32"
    using p by (elim conjE)
  have digests: "bm_digests m = chunks_exact 32 (drop 40 bs)"
    using p by (elim conjE) (simp only: BlobManifest.select_convs)
  have bytes: "bm_bytes m = bs"
    by (rule BlobManifest_parse_bytes [OF assms])
  have n: "BlobManifest_chunk_count m = unat count"
    using len by (simp add: BlobManifest_chunk_count_def digests length_chunks_exact)
  have count: "1 \<le> unat count" "unat count \<le> 32768"
    and chunk: "32 \<le> unat (bm_chunk_size m)" "unat (bm_chunk_size m) \<le> 1048576"
    and padded: "64 \<le> unat (bm_padded_size m)" "unat (bm_padded_size m) \<le> 1073741824"
    using lim by (simp_all add: limits_valid_def blob_bounds word_le_nat_alt)
  have powers: "\<exists>k. unat (bm_chunk_size m) = 2 ^ k" "\<exists>k. unat (bm_padded_size m) = 2 ^ k"
    using lim by (simp_all add: limits_valid_def is_power_of_two_unat)
  have "concat (chunks_exact 32 (drop 40 bs)) = drop 40 bs"
    using len by (intro concat_chunks_exact) simp_all
  then have "bm_bytes m = take 40 bs @ concat (bm_digests m)"
    by (simp add: bytes digests)
  moreover have "\<forall>d \<in> set (bm_digests m). length d = 32"
    by (simp add: digests chunks_exact_widths)
  moreover have "length (bm_bytes m) \<le> 1048616"
    using len count(2) by (simp add: bytes)
  ultimately show ?thesis
    using limits_valid_product [OF lim] count chunk padded powers by (simp only: n simp_thms)
qed

definition ex_manifest_bytes :: bytes where
  "ex_manifest_bytes = [67, 87, 66, 49] @ [0, 1] @ [0, 1] @ replicate 16 9 @ [0, 0, 0, 0, 0, 0, 0, 64]
     @ [0, 0, 0, 32] @ [0, 0, 0, 2] @ replicate 64 5"

lemma ex_manifest_parses: "\<exists>m. BlobManifest_parse ex_manifest_bytes = Inr m \<and> unat (bm_padded_size m) = 64"
proof -
  have "BlobManifest_parse ex_manifest_bytes = Inr \<lparr>bm_bytes = ex_manifest_bytes, bm_object_salt = replicate 16 9,
      bm_padded_size = 64, bm_chunk_size = 32, bm_digests = chunks_exact 32 (replicate 64 5)\<rparr>"
    by (simp add: BlobManifest_parse_def ex_manifest_bytes_def Let_def u16_from_be_bytes_def u32_from_be_bytes_def
        u64_from_be_bytes_def be_val_def limits_valid_def is_power_of_two_def blob_bounds)
  then show ?thesis by simp
qed

theorem manifest_geometry_witness:
  "\<exists>m. BlobManifest_parse ex_manifest_bytes = Inr m \<and> BlobManifest_chunk_count m * unat (bm_chunk_size m) = 64
    \<and> 32 \<le> unat (bm_chunk_size m)"
  using ex_manifest_parses manifest_geometry by metis

end
