(* ===== verification/CW_Blob_Codec.thy ===== *)
theory CW_Blob_Codec
  imports CW_Codec CW_Blob_Types
begin

text \<open>
  The frame codec of the blob profile (\<open>crates/cofferwire-codec/src/blob.rs\<close>) over the same canonical
  CBOR subset, with its exactness: a byte string decodes exactly when it is the encoding of a
  well-formed frame.
\<close>

section \<open>Frames\<close>

record DecodedBlobRequest =
  dbr_frame :: BlobRequestFrame
  dbr_authenticated_bytes :: bytes

section \<open>Encoding\<close>

fun encode_blob_request_body :: "BlobRequest \<Rightarrow> bytes" where
  "encode_blob_request_body (BrBeginUpload upload_id capabilities manifest ttl) =
     encode_array 7
     @ encode_bytes (UploadId_bytes upload_id)
     @ encode_bytes (CapabilityId_bytes (cap_upload capabilities))
     @ encode_bytes (CapabilityId_bytes (cap_download capabilities))
     @ encode_bytes (CapabilityId_bytes (cap_renew capabilities))
     @ encode_bytes (CapabilityId_bytes (cap_delete capabilities))
     @ encode_bytes (bm_bytes manifest)
     @ encode_unsigned ttl"
| "encode_blob_request_body (BrPutChunk upload_id upload_cap index ciphertext) =
     encode_array 4
     @ encode_bytes (UploadId_bytes upload_id)
     @ encode_bytes (CapabilityId_bytes upload_cap)
     @ encode_unsigned (ucast index)
     @ encode_bytes ciphertext"
| "encode_blob_request_body (BrCommit upload_id upload_cap blob_id) =
     encode_array 3
     @ encode_bytes (UploadId_bytes upload_id)
     @ encode_bytes (CapabilityId_bytes upload_cap)
     @ encode_bytes (BlobId_bytes blob_id)"
| "encode_blob_request_body (BrGetManifest blob_id download_cap) =
     encode_array 2
     @ encode_bytes (BlobId_bytes blob_id)
     @ encode_bytes (CapabilityId_bytes download_cap)"
| "encode_blob_request_body (BrGetChunk blob_id download_cap index) =
     encode_array 3
     @ encode_bytes (BlobId_bytes blob_id)
     @ encode_bytes (CapabilityId_bytes download_cap)
     @ encode_unsigned (ucast index)"
| "encode_blob_request_body (BrRenew blob_id renew_cap ttl) =
     encode_array 3
     @ encode_bytes (BlobId_bytes blob_id)
     @ encode_bytes (CapabilityId_bytes renew_cap)
     @ encode_unsigned ttl"
| "encode_blob_request_body (BrDelete blob_id delete_cap) =
     encode_array 2
     @ encode_bytes (BlobId_bytes blob_id)
     @ encode_bytes (CapabilityId_bytes delete_cap)"

definition encode_blob_authenticated_request :: "RequestId \<Rightarrow> BlobRequest \<Rightarrow> bytes" where
  "encode_blob_authenticated_request request_id request =
     [1] @ RequestId_bytes request_id
     @ encode_array 3 @ encode_unsigned 0
     @ encode_unsigned (ucast (BlobCommand_as_u8 (BlobRequest_command request)))
     @ encode_blob_request_body request"

definition encode_blob_request :: "BlobRequestFrame \<Rightarrow> bytes" where
  "encode_blob_request frame =
     encode_blob_authenticated_request (brf_request_id frame) (brf_request frame)
     @ encode_bytes (Auth_bytes (brf_auth frame))"

fun encode_blob_response_body :: "BlobResponseBody \<Rightarrow> bytes" where
  "encode_blob_response_body (BrbBeginUpload value) =
     encode_array 1 @ encode_unsigned (ucast (BlobWriteOutcome_as_u8 value))"
| "encode_blob_response_body (BrbPutChunk value) =
     encode_array 1 @ encode_unsigned (ucast (BlobWriteOutcome_as_u8 value))"
| "encode_blob_response_body (BrbCommit expiry) = encode_array 1 @ encode_unsigned expiry"
| "encode_blob_response_body (BrbRenew expiry) = encode_array 1 @ encode_unsigned expiry"
| "encode_blob_response_body (BrbGetManifest manifest expiry) =
     encode_array 2 @ encode_bytes (bm_bytes manifest) @ encode_unsigned expiry"
| "encode_blob_response_body (BrbGetChunk chunk expiry) =
     encode_array 2 @ encode_bytes chunk @ encode_unsigned expiry"
| "encode_blob_response_body BrbDelete = encode_array 0"

definition encode_blob_response :: "BlobResponseFrame \<Rightarrow> bytes" where
  "encode_blob_response frame =
     [1] @ RequestId_bytes (brsf_request_id frame)
     @ encode_array 4 @ encode_unsigned 1
     @ encode_unsigned (case br_command (brsf_response frame) of None \<Rightarrow> 0 | Some c \<Rightarrow> ucast (BlobCommand_as_u8 c))
     @ encode_unsigned (ucast (BlobStatus_as_u8 (br_status (brsf_response frame))))
     @ (case br_body (brsf_response frame) of
          Some body \<Rightarrow> if BlobStatus_is_ok (br_status (brsf_response frame)) then encode_blob_response_body body
                       else encode_array 0
        | None \<Rightarrow> encode_array 0)"

section \<open>Decoding\<close>

definition blob_preamble :: "bytes \<Rightarrow> (DecodeError, RequestId) result" where
  "blob_preamble bs =
     (if length bs > MAX_BLOB_FRAME_BYTES then Inl (DeFrameTooLarge (length bs))
      else res_bind (ok_or (get_range bs 0 PREAMBLE_BYTES) (DeTruncated (length bs))) (\<lambda>preamble.
        if preamble ! 0 = 0 then Inl DeReservedVersion
        else let request_id = RequestId (drop 1 preamble) in
        if preamble ! 0 \<noteq> 1 then Inl (DeUnsupportedVersion (preamble ! 0) request_id)
        else Inr request_id))"

definition blob_finish :: "Decoder \<Rightarrow> bytes \<Rightarrow> (DecodeError, unit) result" where
  "blob_finish d bs = (if dec_offset d = length bs then Inr () else Inl (DeTrailingBytes (dec_offset d)))"

definition blob_expect :: "Decoder \<Rightarrow> string \<Rightarrow> u64 \<Rightarrow> unit decoded" where
  "blob_expect d field expected =
     res_bind (Decoder_unsigned field d) (\<lambda>(value, d).
     if value = expected then Inr ((), d) else Inl (DeInvalidValue field value))"

definition blob_fixed :: "nat \<Rightarrow> Decoder \<Rightarrow> string \<Rightarrow> bytes decoded" where
  "blob_fixed n d field =
     res_bind (Decoder_bytes field n d) (\<lambda>(value, d).
     if length value = n then Inr (value, d)
     else Inl (DeWrongByteStringLength field n (of_nat (length value))))"

text \<open>\<open>u8::try_from(value).ok().and_then(|value| T::try_from(value).ok()).ok_or(..)\<close>\<close>

definition registered :: "(u8 \<Rightarrow> ('e, 'a) result) \<Rightarrow> string \<Rightarrow> u64 \<Rightarrow> (DecodeError, 'a) result" where
  "registered try_from field value =
     (case u8_try_from value of
        None \<Rightarrow> Inl (DeInvalidValue field value)
      | Some byte \<Rightarrow> map_err (\<lambda>_. DeInvalidValue field value) (try_from byte))"

definition blob_command :: "u64 \<Rightarrow> (DecodeError, BlobCommand) result" where
  "blob_command value = registered BlobCommand_try_from ''blob command'' value"

definition blob_chunk_index :: "Decoder \<Rightarrow> u32 decoded" where
  "blob_chunk_index d =
     res_bind (Decoder_unsigned ''chunk-index'' d) (\<lambda>(value, d).
     res_bind (ok_or (u32_try_from value) (DeInvalidValue ''chunk-index'' 0xFFFFFFFFFFFFFFFF)) (\<lambda>index.
     Inr (index, d)))"

definition blob_manifest :: "Decoder \<Rightarrow> BlobManifest decoded" where
  "blob_manifest d =
     res_bind (Decoder_bytes ''manifest'' 1048616 d) (\<lambda>(bytes, d).
     res_bind (map_err (\<lambda>_. DeInvalidValue ''manifest'' 0) (BlobManifest_parse bytes)) (\<lambda>manifest.
     Inr (manifest, d)))"

definition blob_ttl :: "Decoder \<Rightarrow> u64 decoded" where
  "blob_ttl d =
     res_bind (Decoder_unsigned ''blob ttl'' d) (\<lambda>(ttl, d).
     if ttl = 0 then Inl (DeInvalidValue ''blob ttl'' 0) else Inr (ttl, d))"

fun decode_blob_request_body :: "Decoder \<Rightarrow> BlobCommand \<Rightarrow> BlobRequest decoded" where
  "decode_blob_request_body d BcBeginUpload =
     res_bind (Decoder_array ''BEGIN_UPLOAD body'' 7 d) (\<lambda>(_, d).
     res_bind (blob_fixed 32 d ''upload-id'') (\<lambda>(upload_id, d).
     res_bind (blob_fixed 32 d ''upload-cap'') (\<lambda>(upload, d).
     res_bind (blob_fixed 32 d ''download-cap'') (\<lambda>(download, d).
     res_bind (blob_fixed 32 d ''renew-cap'') (\<lambda>(renew, d).
     res_bind (blob_fixed 32 d ''delete-cap'') (\<lambda>(delete, d).
     res_bind (blob_manifest d) (\<lambda>(manifest, d).
     res_bind (blob_ttl d) (\<lambda>(ttl, d).
     Inr (BrBeginUpload (UploadId upload_id)
       \<lparr>cap_upload = CapabilityId upload, cap_download = CapabilityId download, cap_renew = CapabilityId renew,
        cap_delete = CapabilityId delete\<rparr> manifest ttl, d)))))))))"
| "decode_blob_request_body d BcPutChunk =
     res_bind (Decoder_array ''PUT_CHUNK body'' 4 d) (\<lambda>(_, d).
     res_bind (blob_fixed 32 d ''upload-id'') (\<lambda>(upload_id, d).
     res_bind (blob_fixed 32 d ''upload-cap'') (\<lambda>(upload_cap, d).
     res_bind (blob_chunk_index d) (\<lambda>(index, d).
     res_bind (Decoder_bytes ''ciphertext chunk'' (MAX_CHUNK_BYTES + 16) d) (\<lambda>(ciphertext, d).
     Inr (BrPutChunk (UploadId upload_id) (CapabilityId upload_cap) index ciphertext, d))))))"
| "decode_blob_request_body d BcCommit =
     res_bind (Decoder_array ''COMMIT body'' 3 d) (\<lambda>(_, d).
     res_bind (blob_fixed 32 d ''upload-id'') (\<lambda>(upload_id, d).
     res_bind (blob_fixed 32 d ''upload-cap'') (\<lambda>(upload_cap, d).
     res_bind (blob_fixed 32 d ''blob-id'') (\<lambda>(blob_id, d).
     Inr (BrCommit (UploadId upload_id) (CapabilityId upload_cap) (BlobId blob_id), d)))))"
| "decode_blob_request_body d BcGetManifest =
     res_bind (Decoder_array ''GET_MANIFEST body'' 2 d) (\<lambda>(_, d).
     res_bind (blob_fixed 32 d ''blob-id'') (\<lambda>(blob_id, d).
     res_bind (blob_fixed 32 d ''download-cap'') (\<lambda>(download_cap, d).
     Inr (BrGetManifest (BlobId blob_id) (CapabilityId download_cap), d))))"
| "decode_blob_request_body d BcGetChunk =
     res_bind (Decoder_array ''GET_CHUNK body'' 3 d) (\<lambda>(_, d).
     res_bind (blob_fixed 32 d ''blob-id'') (\<lambda>(blob_id, d).
     res_bind (blob_fixed 32 d ''download-cap'') (\<lambda>(download_cap, d).
     res_bind (blob_chunk_index d) (\<lambda>(index, d).
     Inr (BrGetChunk (BlobId blob_id) (CapabilityId download_cap) index, d)))))"
| "decode_blob_request_body d BcRenew =
     res_bind (Decoder_array ''RENEW body'' 3 d) (\<lambda>(_, d).
     res_bind (blob_fixed 32 d ''blob-id'') (\<lambda>(blob_id, d).
     res_bind (blob_fixed 32 d ''renew-cap'') (\<lambda>(renew_cap, d).
     res_bind (blob_ttl d) (\<lambda>(ttl, d).
     Inr (BrRenew (BlobId blob_id) (CapabilityId renew_cap) ttl, d)))))"
| "decode_blob_request_body d BcDelete =
     res_bind (Decoder_array ''DELETE body'' 2 d) (\<lambda>(_, d).
     res_bind (blob_fixed 32 d ''blob-id'') (\<lambda>(blob_id, d).
     res_bind (blob_fixed 32 d ''delete-cap'') (\<lambda>(delete_cap, d).
     Inr (BrDelete (BlobId blob_id) (CapabilityId delete_cap), d))))"

definition decode_blob_request :: "bytes \<Rightarrow> (DecodeError, DecodedBlobRequest) result" where
  "decode_blob_request bs =
     res_bind (blob_preamble bs) (\<lambda>request_id.
     res_bind (Decoder_array ''blob request payload'' 3 (Decoder_new bs PREAMBLE_BYTES)) (\<lambda>(_, d).
     res_bind (blob_expect d ''blob request direction'' 0) (\<lambda>(_, d).
     res_bind (Decoder_unsigned ''blob command'' d) (\<lambda>(command_value, d).
     res_bind (registered BlobCommand_try_from ''blob command'' command_value) (\<lambda>command.
     res_bind (decode_blob_request_body d command) (\<lambda>(request, d).
     let authenticated_end = dec_offset d in
     res_bind (Decoder_bytes ''blob auth'' 68 d) (\<lambda>(auth_bytes, d).
     if length auth_bytes \<noteq> 68
     then Inl (DeWrongByteStringLength ''blob auth'' 68 (of_nat (length auth_bytes)))
     else
     res_bind (map_err DeInvalidProtocolValue (Auth_new auth_bytes)) (\<lambda>auth.
     res_bind (blob_finish d bs) (\<lambda>_.
     Inr \<lparr>dbr_frame = \<lparr>brf_request_id = request_id, brf_request = request, brf_auth = auth\<rparr>,
       dbr_authenticated_bytes = take authenticated_end bs\<rparr>)))))))))"

definition blob_outcome :: "Decoder \<Rightarrow> BlobWriteOutcome decoded" where
  "blob_outcome d =
     res_bind (Decoder_unsigned ''blob outcome'' d) (\<lambda>(value, d).
     res_bind (registered BlobWriteOutcome_try_from ''blob outcome'' value) (\<lambda>outcome. Inr (outcome, d)))"

fun decode_blob_response_body :: "Decoder \<Rightarrow> BlobCommand \<Rightarrow> BlobResponseBody decoded" where
  "decode_blob_response_body d BcBeginUpload =
     res_bind (Decoder_array ''BEGIN_UPLOAD response'' 1 d) (\<lambda>(_, d).
     res_bind (blob_outcome d) (\<lambda>(value, d). Inr (BrbBeginUpload value, d)))"
| "decode_blob_response_body d BcPutChunk =
     res_bind (Decoder_array ''PUT_CHUNK response'' 1 d) (\<lambda>(_, d).
     res_bind (blob_outcome d) (\<lambda>(value, d). Inr (BrbPutChunk value, d)))"
| "decode_blob_response_body d BcCommit =
     res_bind (Decoder_array ''COMMIT response'' 1 d) (\<lambda>(_, d).
     res_bind (Decoder_unsigned ''expires-at'' d) (\<lambda>(expiry, d). Inr (BrbCommit expiry, d)))"
| "decode_blob_response_body d BcGetManifest =
     res_bind (Decoder_array ''GET_MANIFEST response'' 2 d) (\<lambda>(_, d).
     res_bind (blob_manifest d) (\<lambda>(manifest, d).
     res_bind (Decoder_unsigned ''expires-at'' d) (\<lambda>(expiry, d). Inr (BrbGetManifest manifest expiry, d))))"
| "decode_blob_response_body d BcGetChunk =
     res_bind (Decoder_array ''GET_CHUNK response'' 2 d) (\<lambda>(_, d).
     res_bind (Decoder_bytes ''ciphertext chunk'' (MAX_CHUNK_BYTES + 16) d) (\<lambda>(chunk, d).
     res_bind (Decoder_unsigned ''expires-at'' d) (\<lambda>(expiry, d). Inr (BrbGetChunk chunk expiry, d))))"
| "decode_blob_response_body d BcRenew =
     res_bind (Decoder_array ''RENEW response'' 1 d) (\<lambda>(_, d).
     res_bind (Decoder_unsigned ''expires-at'' d) (\<lambda>(expiry, d). Inr (BrbRenew expiry, d)))"
| "decode_blob_response_body d BcDelete =
     res_bind (Decoder_array ''DELETE response'' 0 d) (\<lambda>(_, d). Inr (BrbDelete, d))"

text \<open>The status-dependent part of \<open>decode_blob_response\<close>.\<close>

definition decode_blob_response_rest ::
    "BlobCommand option \<Rightarrow> BlobStatus \<Rightarrow> Decoder \<Rightarrow> BlobResponseBody option decoded" where
  "decode_blob_response_rest command status d =
     (if BlobStatus_is_ok status then
        res_bind (ok_or command (DeInvalidValue ''blob response command'' 0)) (\<lambda>command.
        res_bind (decode_blob_response_body d command) (\<lambda>(body, d). Inr (Some body, d)))
      else
        res_bind (Decoder_array ''blob error body'' 0 d) (\<lambda>(_, d). Inr (None, d)))"

definition decode_blob_response :: "bytes \<Rightarrow> (DecodeError, BlobResponseFrame) result" where
  "decode_blob_response bs =
     res_bind (blob_preamble bs) (\<lambda>request_id.
     res_bind (Decoder_array ''blob response payload'' 4 (Decoder_new bs PREAMBLE_BYTES)) (\<lambda>(_, d).
     res_bind (blob_expect d ''blob response direction'' 1) (\<lambda>(_, d).
     res_bind (Decoder_unsigned ''blob response command'' d) (\<lambda>(command_value, d).
     res_bind (if command_value = 0 then Inr None
               else res_bind (blob_command command_value) (\<lambda>c. Inr (Some c))) (\<lambda>command.
     res_bind (Decoder_unsigned ''blob status'' d) (\<lambda>(status_value, d).
     res_bind (registered BlobStatus_try_from ''blob status'' status_value) (\<lambda>status.
     res_bind (decode_blob_response_rest command status d) (\<lambda>(body, d).
     res_bind (blob_finish d bs) (\<lambda>_.
     Inr \<lparr>brsf_request_id = request_id,
       brsf_response = \<lparr>br_command = command, br_status = status, br_body = body\<rparr>\<rparr>)))))))))"

section \<open>Well-formed frames\<close>

definition wf_BlobCapabilities :: "BlobCapabilities \<Rightarrow> bool" where
  "wf_BlobCapabilities c \<longleftrightarrow> wf_CapabilityId (cap_upload c) \<and> wf_CapabilityId (cap_download c)
     \<and> wf_CapabilityId (cap_renew c) \<and> wf_CapabilityId (cap_delete c)"

fun wf_BlobRequest :: "BlobRequest \<Rightarrow> bool" where
  "wf_BlobRequest (BrBeginUpload u c m t) \<longleftrightarrow>
     wf_UploadId u \<and> wf_BlobCapabilities c \<and> wf_BlobManifest m \<and> t \<noteq> 0"
| "wf_BlobRequest (BrPutChunk u c i x) \<longleftrightarrow>
     wf_UploadId u \<and> wf_CapabilityId c \<and> length x \<le> MAX_CHUNK_BYTES + 16"
| "wf_BlobRequest (BrCommit u c b) \<longleftrightarrow> wf_UploadId u \<and> wf_CapabilityId c \<and> wf_BlobId b"
| "wf_BlobRequest (BrGetManifest b c) \<longleftrightarrow> wf_BlobId b \<and> wf_CapabilityId c"
| "wf_BlobRequest (BrGetChunk b c i) \<longleftrightarrow> wf_BlobId b \<and> wf_CapabilityId c"
| "wf_BlobRequest (BrRenew b c t) \<longleftrightarrow> wf_BlobId b \<and> wf_CapabilityId c \<and> t \<noteq> 0"
| "wf_BlobRequest (BrDelete b c) \<longleftrightarrow> wf_BlobId b \<and> wf_CapabilityId c"

definition wf_BlobRequestFrame :: "BlobRequestFrame \<Rightarrow> bool" where
  "wf_BlobRequestFrame f \<longleftrightarrow> wf_RequestId (brf_request_id f) \<and> wf_BlobRequest (brf_request f)
     \<and> length (Auth_bytes (brf_auth f)) = 68"

fun wf_BlobResponseBody :: "BlobResponseBody \<Rightarrow> bool" where
  "wf_BlobResponseBody (BrbGetManifest m e) \<longleftrightarrow> wf_BlobManifest m"
| "wf_BlobResponseBody (BrbGetChunk x e) \<longleftrightarrow> length x \<le> MAX_CHUNK_BYTES + 16"
| "wf_BlobResponseBody _ \<longleftrightarrow> True"

fun BlobResponseBody_command :: "BlobResponseBody \<Rightarrow> BlobCommand" where
  "BlobResponseBody_command (BrbBeginUpload _) = BcBeginUpload"
| "BlobResponseBody_command (BrbPutChunk _) = BcPutChunk"
| "BlobResponseBody_command (BrbCommit _) = BcCommit"
| "BlobResponseBody_command (BrbGetManifest _ _) = BcGetManifest"
| "BlobResponseBody_command (BrbGetChunk _ _) = BcGetChunk"
| "BlobResponseBody_command (BrbRenew _) = BcRenew"
| "BlobResponseBody_command BrbDelete = BcDelete"

text \<open>
  A success response carries the body of the command it names; an error response carries no body
  and names a command or none.
\<close>

definition wf_BlobResponse :: "BlobResponse \<Rightarrow> bool" where
  "wf_BlobResponse r \<longleftrightarrow>
     (case br_body r of
        None \<Rightarrow> br_status r \<noteq> BsOk
      | Some b \<Rightarrow> br_status r = BsOk \<and> br_command r = Some (BlobResponseBody_command b) \<and> wf_BlobResponseBody b)"

definition wf_BlobResponseFrame :: "BlobResponseFrame \<Rightarrow> bool" where
  "wf_BlobResponseFrame f \<longleftrightarrow> wf_RequestId (brsf_request_id f) \<and> wf_BlobResponse (brsf_response f)"

section \<open>Exactness of the items\<close>

lemma blob_limits_fit [simp]: "MAX_CHUNK_BYTES + 16 \<le> u64_max" "1048616 \<le> u64_max" "68 \<le> u64_max"
  by (simp_all add: MAX_CHUNK_BYTES_def u64_max_def)

lemma registered_Inr: "registered try_from f v = Inr c \<longleftrightarrow> (\<exists>b. v = ucast b \<and> try_from b = Inr c)"
  by (auto simp: registered_def u8_try_from_iff [symmetric] res_simps split: option.splits)

lemma blob_fixed_Inr:
  "wf_Decoder d \<Longrightarrow> n \<le> u64_max \<Longrightarrow>
   blob_fixed n d f = Inr (v, d') \<longleftrightarrow> length v = n \<and> reads d (encode_bytes v) d'"
  by (auto simp: blob_fixed_def res_simps Decoder_bytes_Inr split: if_splits)

interpretation blob_expect_codec: item_codec "\<lambda>d. blob_expect d f n" "\<lambda>_. encode_unsigned n" "\<lambda>_. True" for f n
  by unfold_locales (auto simp: blob_expect_def res_simps unsigned_codec.exact split: if_splits)

interpretation chunk_index_codec: item_codec blob_chunk_index "\<lambda>i. encode_unsigned (ucast i)" "\<lambda>_. True"
  by unfold_locales (auto simp: blob_chunk_index_def res_simps unsigned_codec.exact u32_try_from_iff)

interpretation manifest_codec: item_codec blob_manifest "\<lambda>m. encode_bytes (bm_bytes m)" wf_BlobManifest
  by unfold_locales
    (auto simp: blob_manifest_def res_simps Decoder_bytes_Inr BlobManifest_parse_wf manifest_length)

interpretation ttl_codec: item_codec blob_ttl encode_unsigned "\<lambda>t. t \<noteq> 0"
  by unfold_locales (auto simp: blob_ttl_def res_simps unsigned_codec.exact split: if_splits)

interpretation outcome_codec: item_codec blob_outcome
    "\<lambda>v. encode_unsigned (ucast (BlobWriteOutcome_as_u8 v))" "\<lambda>_. True"
  by unfold_locales (auto simp: blob_outcome_def res_simps unsigned_codec.exact registered_Inr)

lemmas blob_codec_exact = unsigned_codec.exact array_codec.exact blob_expect_codec.exact
  chunk_index_codec.exact manifest_codec.exact ttl_codec.exact outcome_codec.exact Decoder_bytes_Inr
  blob_fixed_Inr

lemma decode_blob_request_body_Inr:
  assumes "wf_Decoder d"
  shows "decode_blob_request_body d c = Inr (r, d') \<longleftrightarrow>
    wf_BlobRequest r \<and> BlobRequest_command r = c \<and> reads d (encode_blob_request_body r) d'"
proof (cases r)
  case (BrBeginUpload u cs m t)
  obtain a1 a2 a3 a4 where cs: "cs = \<lparr>cap_upload = CapabilityId a1, cap_download = CapabilityId a2,
      cap_renew = CapabilityId a3, cap_delete = CapabilityId a4\<rparr>"
    by (metis BlobCapabilities.surjective CapabilityId.exhaust unit.exhaust)
  from BrBeginUpload cs assms show ?thesis
    by (cases c; cases u) (auto simp: res_simps blob_codec_exact reads_parts wf_blob_id_defs wf_BlobCapabilities_def)
next
  case (BrPutChunk u p i x)
  with assms show ?thesis
    by (cases c; cases u; cases p) (auto simp: res_simps blob_codec_exact reads_parts wf_blob_id_defs)
next
  case (BrCommit u p b)
  with assms show ?thesis
    by (cases c; cases u; cases p; cases b) (auto simp: res_simps blob_codec_exact reads_parts wf_blob_id_defs)
next
  case (BrGetManifest b p)
  with assms show ?thesis
    by (cases c; cases b; cases p) (auto simp: res_simps blob_codec_exact reads_parts wf_blob_id_defs)
next
  case (BrGetChunk b p i)
  with assms show ?thesis
    by (cases c; cases b; cases p) (auto simp: res_simps blob_codec_exact reads_parts wf_blob_id_defs)
next
  case (BrRenew b p t)
  with assms show ?thesis
    by (cases c; cases b; cases p) (auto simp: res_simps blob_codec_exact reads_parts wf_blob_id_defs)
next
  case (BrDelete b p)
  with assms show ?thesis
    by (cases c; cases b; cases p) (auto simp: res_simps blob_codec_exact reads_parts wf_blob_id_defs)
qed

interpretation blob_request_body_codec: item_codec "\<lambda>d. decode_blob_request_body d c" encode_blob_request_body
    "\<lambda>r. wf_BlobRequest r \<and> BlobRequest_command r = c" for c
  by unfold_locales (auto simp: decode_blob_request_body_Inr)

lemma decode_blob_response_body_Inr:
  assumes "wf_Decoder d"
  shows "decode_blob_response_body d c = Inr (r, d') \<longleftrightarrow>
    wf_BlobResponseBody r \<and> BlobResponseBody_command r = c \<and> reads d (encode_blob_response_body r) d'"
  using assms
  by (cases r; cases c) (auto simp: res_simps blob_codec_exact reads_parts)

interpretation blob_response_body_codec: item_codec "\<lambda>d. decode_blob_response_body d c" encode_blob_response_body
    "\<lambda>r. wf_BlobResponseBody r \<and> BlobResponseBody_command r = c" for c
  by unfold_locales (auto simp: decode_blob_response_body_Inr)

section \<open>Exactness of the frame decoders\<close>

definition encode_blob_request_payload :: "BlobRequest \<Rightarrow> bytes" where
  "encode_blob_request_payload request =
     encode_array 3 @ encode_unsigned 0
     @ encode_unsigned (ucast (BlobCommand_as_u8 (BlobRequest_command request)))
     @ encode_blob_request_body request"

definition encode_blob_response_payload :: "BlobResponse \<Rightarrow> bytes" where
  "encode_blob_response_payload r =
     encode_array 4 @ encode_unsigned 1
     @ encode_unsigned (case br_command r of None \<Rightarrow> 0 | Some c \<Rightarrow> ucast (BlobCommand_as_u8 c))
     @ encode_unsigned (ucast (BlobStatus_as_u8 (br_status r)))
     @ (case br_body r of None \<Rightarrow> encode_array 0 | Some b \<Rightarrow> encode_blob_response_body b)"

lemma encode_blob_authenticated_request_split:
  "encode_blob_authenticated_request i q = encode_preamble i @ encode_blob_request_payload q"
  by (simp add: encode_blob_authenticated_request_def encode_blob_request_payload_def encode_preamble_def VERSION_def)

lemma encode_blob_response_split:
  "wf_BlobResponse (brsf_response f) \<Longrightarrow>
   encode_blob_response f = encode_preamble (brsf_request_id f) @ encode_blob_response_payload (brsf_response f)"
  by (auto simp: encode_blob_response_def encode_blob_response_payload_def encode_preamble_def VERSION_def
      wf_BlobResponse_def split: option.splits)

lemma blob_preamble_Inr:
  "blob_preamble bs = Inr rid \<longleftrightarrow>
     wf_RequestId rid \<and> length bs \<le> MAX_BLOB_FRAME_BYTES \<and> take PREAMBLE_BYTES bs = encode_preamble rid"
proof -
  have "17 \<le> length bs \<and> take 17 bs ! 0 = 1 \<and> rid = RequestId (drop 1 (take 17 bs)) \<longleftrightarrow>
      wf_RequestId rid \<and> take 17 bs = 1 # RequestId_bytes rid"
    by (cases rid; cases bs) (auto simp: wf_RequestId_def dest: arg_cong [where f = length])
  then show ?thesis
    by (auto simp: blob_preamble_def res_simps get_range_eq_Some PREAMBLE_BYTES_def Let_def
        encode_preamble_def VERSION_def split: if_splits)
qed

lemma wf_Decoder_blob_frame: "length bs \<le> MAX_BLOB_FRAME_BYTES \<Longrightarrow> wf_Decoder (Decoder_new bs n)"
  by (simp add: wf_Decoder_def Decoder_new_def MAX_BLOB_FRAME_BYTES_def u64_max_def)

lemma blob_finish_Inr: "blob_finish d bs = Inr u \<longleftrightarrow> dec_offset d = length bs"
  by (simp add: blob_finish_def)

lemma auth_68: "length a = 68 \<Longrightarrow> wf_Auth (Auth a)"
  by (simp add: wf_Auth_def protocol_bounds)

lemma decode_blob_request_chain:
  assumes "length bs \<le> MAX_BLOB_FRAME_BYTES"
  shows "decode_blob_request bs = Inr r \<longleftrightarrow>
     blob_preamble bs = Inr (brf_request_id (dbr_frame r)) \<and> wf_BlobRequest (brf_request (dbr_frame r))
     \<and> length (Auth_bytes (brf_auth (dbr_frame r))) = 68
     \<and> standing (Decoder_new bs PREAMBLE_BYTES)
         (encode_blob_request_payload (brf_request (dbr_frame r)) @ encode_bytes (Auth_bytes (brf_auth (dbr_frame r))))
     \<and> PREAMBLE_BYTES + length (encode_blob_request_payload (brf_request (dbr_frame r))
         @ encode_bytes (Auth_bytes (brf_auth (dbr_frame r)))) = length bs
     \<and> dbr_authenticated_bytes r
         = take (PREAMBLE_BYTES + length (encode_blob_request_payload (brf_request (dbr_frame r)))) bs"
proof -
  obtain f ab where r: "r = \<lparr>dbr_frame = f, dbr_authenticated_bytes = ab\<rparr>" by (cases r)
  obtain i q a where f: "f = \<lparr>brf_request_id = i, brf_request = q, brf_auth = Auth a\<rparr>"
    by (metis BlobRequestFrame.surjective Auth.exhaust unit.exhaust)
  have off: "dec_offset (Decoder_new bs PREAMBLE_BYTES) = PREAMBLE_BYTES"
    by (simp add: Decoder_new_def)
  show ?thesis
    using wf_Decoder_blob_frame [OF assms, of PREAMBLE_BYTES] unfolding r f decode_blob_request_def
    by (auto simp: Let_def guard_Inr res_simps blob_codec_exact decode_blob_request_body_Inr registered_Inr
        reads_parts blob_finish_Inr encode_blob_request_payload_def off auth_68 add.assoc)
qed

lemma decode_blob_request_exact:
  "decode_blob_request bs = Inr r \<longleftrightarrow>
     wf_BlobRequestFrame (dbr_frame r) \<and> bs = encode_blob_request (dbr_frame r)
     \<and> length bs \<le> MAX_BLOB_FRAME_BYTES
     \<and> dbr_authenticated_bytes r
         = encode_blob_authenticated_request (brf_request_id (dbr_frame r)) (brf_request (dbr_frame r))"
proof (cases "length bs \<le> MAX_BLOB_FRAME_BYTES")
  case True
  let ?f = "dbr_frame r"
  let ?p = "encode_blob_request_payload (brf_request ?f)"
  have "decode_blob_request bs = Inr r \<longleftrightarrow> wf_BlobRequestFrame ?f
      \<and> bs = encode_preamble (brf_request_id ?f) @ ?p @ encode_bytes (Auth_bytes (brf_auth ?f))
      \<and> dbr_authenticated_bytes r = take (PREAMBLE_BYTES + length ?p) bs"
    unfolding decode_blob_request_chain [OF True] blob_preamble_Inr wf_BlobRequestFrame_def
    using True frame_split by blast
  moreover have "wf_BlobRequestFrame ?f \<Longrightarrow> length (encode_preamble (brf_request_id ?f)) = PREAMBLE_BYTES"
    by (simp add: wf_BlobRequestFrame_def wf_RequestId_def encode_preamble_def PREAMBLE_BYTES_def)
  ultimately show ?thesis
    using True by (auto simp: encode_blob_request_def encode_blob_authenticated_request_split)
next
  case False
  then show ?thesis
    by (simp add: decode_blob_request_def blob_preamble_def)
qed

lemma blob_command_code_nonzero [simp]: "(ucast (BlobCommand_as_u8 k) :: u64) \<noteq> 0"
  by (cases k) simp_all

lemma blob_response_command_Inr:
  "(if v = 0 then Inr None else res_bind (blob_command v) (\<lambda>c. Inr (Some c))) = Inr k
   \<longleftrightarrow> v = (case k of None \<Rightarrow> 0 | Some c \<Rightarrow> ucast (BlobCommand_as_u8 c))"
  by (cases k) (auto simp: blob_command_def registered_Inr res_simps)

lemma decode_blob_response_rest_Inr:
  assumes "wf_Decoder d"
  shows "decode_blob_response_rest k st d = Inr (b, d') \<longleftrightarrow>
    wf_BlobResponse \<lparr>br_command = k, br_status = st, br_body = b\<rparr>
    \<and> reads d (case b of None \<Rightarrow> encode_array 0 | Some b \<Rightarrow> encode_blob_response_body b) d'"
  using assms
  by (cases b; cases k) (auto simp: decode_blob_response_rest_def wf_BlobResponse_def res_simps
      array_codec.exact decode_blob_response_body_Inr)

lemma decode_blob_response_chain:
  assumes "length bs \<le> MAX_BLOB_FRAME_BYTES"
  shows "decode_blob_response bs = Inr r \<longleftrightarrow>
     blob_preamble bs = Inr (brsf_request_id r) \<and> wf_BlobResponse (brsf_response r)
     \<and> standing (Decoder_new bs PREAMBLE_BYTES) (encode_blob_response_payload (brsf_response r))
     \<and> PREAMBLE_BYTES + length (encode_blob_response_payload (brsf_response r)) = length bs"
proof -
  obtain i k st b where r: "r = \<lparr>brsf_request_id = i,
      brsf_response = \<lparr>br_command = k, br_status = st, br_body = b\<rparr>\<rparr>"
    by (metis BlobResponseFrame.surjective BlobResponse.surjective unit.exhaust)
  have off: "dec_offset (Decoder_new bs PREAMBLE_BYTES) = PREAMBLE_BYTES"
    by (simp add: Decoder_new_def)
  show ?thesis
    using wf_Decoder_blob_frame [OF assms, of PREAMBLE_BYTES]
    unfolding r decode_blob_response_def encode_blob_response_payload_def
    by (auto simp: blob_response_command_Inr res_simps blob_codec_exact decode_blob_response_rest_Inr
        registered_Inr reads_parts blob_finish_Inr off add.assoc)
qed

lemma decode_blob_response_exact:
  "decode_blob_response bs = Inr r \<longleftrightarrow>
     wf_BlobResponseFrame r \<and> bs = encode_blob_response r \<and> length bs \<le> MAX_BLOB_FRAME_BYTES"
proof (cases "length bs \<le> MAX_BLOB_FRAME_BYTES")
  case True
  have "decode_blob_response bs = Inr r \<longleftrightarrow> wf_BlobResponseFrame r
      \<and> bs = encode_preamble (brsf_request_id r) @ encode_blob_response_payload (brsf_response r)"
    unfolding decode_blob_response_chain [OF True] blob_preamble_Inr wf_BlobResponseFrame_def
    using True frame_split by blast
  with True show ?thesis
    by (auto simp: wf_BlobResponseFrame_def encode_blob_response_split)
next
  case False
  then show ?thesis
    by (simp add: decode_blob_response_def blob_preamble_def)
qed

section \<open>Frame sizes\<close>

lemma length_encode_bytes_large:
  assumes "length bs \<le> 0xffffffff"
  shows "length (encode_bytes bs) \<le> length bs + 5"
proof -
  have "unat (of_nat (length bs) :: u64) = length bs"
    using assms by (intro unat_of_nat_u64) (simp add: u64_max_def)
  then have "(of_nat (length bs) :: u64) \<le> 0xffffffff"
    using assms by (simp add: word_le_nat_alt)
  then show ?thesis
    by (simp add: encode_bytes_def length_encode_argument)
qed

lemma length_encode_manifest: "wf_BlobManifest m \<Longrightarrow> length (encode_bytes (bm_bytes m)) \<le> 1048621"
  using manifest_length [of m] length_encode_bytes_large [of "bm_bytes m"] by linarith

lemma length_encode_chunk:
  "length x \<le> MAX_CHUNK_BYTES + 16 \<Longrightarrow> length (encode_bytes x) \<le> 1048597"
  using length_encode_bytes_large [of x] by (simp add: MAX_CHUNK_BYTES_def)

lemma blob_small_code [simp]:
  "ucast (BlobCommand_as_u8 c) \<le> (23 :: u64)" "ucast (BlobStatus_as_u8 s) \<le> (23 :: u64)"
  "ucast (BlobWriteOutcome_as_u8 w) \<le> (23 :: u64)"
  by (cases c, simp_all) (cases s, simp_all, cases w, simp_all)

lemma length_encode_blob_request_body_le:
  assumes "wf_BlobRequest r"
  shows "length (encode_blob_request_body r) \<le> 1048801"
proof (cases r)
  case (BrBeginUpload u c m t)
  with assms length_encode_unsigned_le [of t] length_encode_manifest [of m] show ?thesis
    by (simp add: encoded_sizes wf_blob_id_defs wf_BlobCapabilities_def)
next
  case (BrPutChunk u c i x)
  with assms length_encode_unsigned_le [of "ucast i"] length_encode_chunk [of x] show ?thesis
    by (simp add: encoded_sizes wf_blob_id_defs)
next
  case (BrGetChunk b c i)
  with assms length_encode_unsigned_le [of "ucast i"] show ?thesis
    by (simp add: encoded_sizes wf_blob_id_defs)
next
  case (BrRenew b c t)
  with assms length_encode_unsigned_le [of t] show ?thesis
    by (simp add: encoded_sizes wf_blob_id_defs)
qed (use assms in \<open>simp_all add: encoded_sizes wf_blob_id_defs\<close>)

lemma length_encode_blob_request_le:
  assumes "wf_BlobRequestFrame f"
  shows "length (encode_blob_request f) \<le> MAX_BLOB_FRAME_BYTES"
proof -
  have "length (encode_preamble (brf_request_id f)) = 17"
    using assms by (simp add: wf_BlobRequestFrame_def wf_RequestId_def encode_preamble_def)
  moreover have "length (encode_blob_request_body (brf_request f)) \<le> 1048801"
    using assms by (simp only: wf_BlobRequestFrame_def length_encode_blob_request_body_le)
  moreover have "length (encode_bytes (Auth_bytes (brf_auth f))) \<le> 71"
    using assms length_encode_bytes_le [of "Auth_bytes (brf_auth f)"]
    by (simp add: wf_BlobRequestFrame_def)
  ultimately show ?thesis
    by (simp add: encode_blob_request_def encode_blob_authenticated_request_split encode_blob_request_payload_def
        encoded_sizes MAX_BLOB_FRAME_BYTES_def)
qed

lemma length_encode_blob_response_body_le:
  assumes "wf_BlobResponseBody b"
  shows "length (encode_blob_response_body b) \<le> 1048631"
proof (cases b)
  case (BrbGetManifest m e)
  with assms length_encode_unsigned_le [of e] length_encode_manifest [of m] show ?thesis
    by (simp add: encoded_sizes)
next
  case (BrbGetChunk x e)
  with assms length_encode_unsigned_le [of e] length_encode_chunk [of x] show ?thesis
    by (simp add: encoded_sizes)
next
  case (BrbCommit e)
  with length_encode_unsigned_le [of e] show ?thesis by (simp add: encoded_sizes)
next
  case (BrbRenew e)
  with length_encode_unsigned_le [of e] show ?thesis by (simp add: encoded_sizes)
qed (simp_all add: encoded_sizes)

lemma length_encode_blob_response_le:
  assumes "wf_BlobResponseFrame f"
  shows "length (encode_blob_response f) \<le> MAX_BLOB_FRAME_BYTES"
proof -
  let ?r = "brsf_response f"
  have head: "length (encode_preamble (brsf_request_id f)) = 17"
    using assms by (simp add: wf_BlobResponseFrame_def wf_RequestId_def encode_preamble_def)
  have code: "(case k of None \<Rightarrow> 0 | Some c \<Rightarrow> ucast (BlobCommand_as_u8 c)) \<le> (23 :: u64)" for k
    by (simp split: option.split)
  have "length (case br_body ?r of None \<Rightarrow> encode_array 0 | Some b \<Rightarrow> encode_blob_response_body b) \<le> 1048631"
    using assms length_encode_blob_response_body_le
    by (auto simp: wf_BlobResponseFrame_def wf_BlobResponse_def encoded_sizes split: option.split)
  with head assms show ?thesis
    by (simp add: wf_BlobResponseFrame_def encode_blob_response_split encode_blob_response_payload_def
        encoded_sizes code MAX_BLOB_FRAME_BYTES_def)
qed

section \<open>Properties of the blob codec\<close>

text \<open>
  C23: strict and complete decoding of blob requests. A byte string decodes to a blob request exactly
  when it is the deterministic encoding of a well-formed blob request frame (valid manifest, nonzero
  lifetime, a 68-byte proof), and the authenticated bytes are the encoded preamble and payload.
\<close>

theorem decode_blob_request_iff_encoded:
  "decode_blob_request bs = Inr r \<longleftrightarrow>
     wf_BlobRequestFrame (dbr_frame r) \<and> bs = encode_blob_request (dbr_frame r)
     \<and> dbr_authenticated_bytes r
         = encode_blob_authenticated_request (brf_request_id (dbr_frame r)) (brf_request (dbr_frame r))"
  using length_encode_blob_request_le [of "dbr_frame r"] by (auto simp: decode_blob_request_exact)

text \<open>
  Strict and complete decoding of blob responses. A byte string decodes to a blob response exactly
  when it is the deterministic encoding of a well-formed response frame: a success status with the body
  of the named command, or an error status with no body.
\<close>

theorem decode_blob_response_iff_encoded:
  "decode_blob_response bs = Inr r \<longleftrightarrow> wf_BlobResponseFrame r \<and> bs = encode_blob_response r"
  using length_encode_blob_response_le [of r] by (auto simp: decode_blob_response_exact)

end
