(* ===== verification/CW_Sqlite.thy ===== *)
theory CW_Sqlite
  imports CW_Relay_Data "HOL-Library.Multiset"
begin

text \<open>
  The database under the durable relay: the tables of the \<open>SCHEMA\<close> string of
  \<open>crates/cofferwire-relay/src/durable.rs\<close> as lists of rows, the errors of the storage layer, and
  transactions as computations that thread a database and may fail.

  The storage engine itself is not part of the repository. A statement has its SQL meaning on the
  tables; what the engine is free to do is the parameter \<open>Engine\<close>: which calls fail, and with which
  error (\<open>en_fault\<close>, by the number of the call), which rowid a new row of \<open>messages\<close> gets
  (\<open>en_rowid\<close>), and in which order a query over grants without \<open>ORDER BY\<close> returns its rows
  (\<open>en_scan\<close>). Nothing is assumed of the faults. Of the rowids and scans only the documented rules
  are used, as the hypotheses \<open>fresh_rowids\<close>, a new rowid is larger than every rowid in the table,
  and \<open>scans_rows\<close>, a scan returns the matching rows and no others.
\<close>

section \<open>Errors\<close>

text \<open>The error codes the code distinguishes, and all others.\<close>

datatype ErrorCode =
    DatabaseBusy | DatabaseLocked | ReadOnly | PermissionDenied | DiskFull | SystemIoFailure
  | CannotOpen | DatabaseCorrupt | NotADatabase | ConstraintViolation | OtherCode nat

datatype SqlError =
    SqliteFailure ErrorCode
  | InvalidParameterName string
  | QueryReturnedNoRows
  | OtherSqlError nat

datatype StorageErrorKind = SkBusy | SkReadOnly | SkFull | SkIo | SkCorrupt | SkOther

definition classify_storage_error :: "SqlError \<Rightarrow> StorageErrorKind" where
  "classify_storage_error error =
     (case error of
        SqliteFailure code \<Rightarrow>
          (case code of
             DatabaseBusy \<Rightarrow> SkBusy | DatabaseLocked \<Rightarrow> SkBusy
           | ReadOnly \<Rightarrow> SkReadOnly | PermissionDenied \<Rightarrow> SkReadOnly
           | DiskFull \<Rightarrow> SkFull
           | SystemIoFailure \<Rightarrow> SkIo | CannotOpen \<Rightarrow> SkIo
           | DatabaseCorrupt \<Rightarrow> SkCorrupt | NotADatabase \<Rightarrow> SkCorrupt
           | _ \<Rightarrow> SkOther)
      | _ \<Rightarrow> SkOther)"

datatype DurableRelayError =
    DrRelay RelayError
  | DrStorage StorageErrorKind SqlError
  | DrUnsupportedSchemaVersion int int

definition DurableRelayError_from :: "SqlError \<Rightarrow> DurableRelayError" where
  "DurableRelayError_from error = DrStorage (classify_storage_error error) error"

definition storage_kind :: "DurableRelayError \<Rightarrow> StorageErrorKind option" where
  "storage_kind e = (case e of DrStorage kind _ \<Rightarrow> Some kind | _ \<Rightarrow> None)"

section \<open>Tables\<close>

record QueueRow =
  qr_queue_id :: bytes
  qr_sender :: bytes
  qr_recipient :: bytes
  qr_max_messages :: bytes
  qr_max_message_bytes :: bytes

record MessageRow =
  mr_sequence :: int
  mr_queue_id :: bytes
  mr_message_id :: bytes
  mr_payload :: bytes
  mr_expires_at :: bytes
  mr_delivered :: int

record UploadRow =
  ur_upload_id :: bytes
  ur_upload_cap :: bytes
  ur_download_cap :: bytes
  ur_renew_cap :: bytes
  ur_delete_cap :: bytes
  ur_manifest :: bytes
  ur_expires_at :: bytes
  ur_committed_blob :: "bytes option"

record UploadChunkRow =
  uc_upload_id :: bytes
  uc_chunk_index :: u32
  uc_ciphertext :: bytes

record ObjectRow =
  or_blob_id :: bytes
  or_manifest :: bytes

record ChunkRow =
  cr_blob_id :: bytes
  cr_chunk_index :: u32
  cr_ciphertext :: bytes

record GrantRow =
  gr_grant_id :: bytes
  gr_blob_id :: bytes
  gr_download_cap :: bytes
  gr_renew_cap :: bytes
  gr_delete_cap :: bytes
  gr_expires_at :: bytes
  gr_deleted :: int

text \<open>\<open>queue_replays\<close> and \<open>blob_replays\<close> differ only in the name of the subject column.\<close>

record ReplayRow =
  rp_subject :: bytes
  rp_request_id :: bytes
  rp_request :: bytes
  rp_response :: bytes

record Db =
  db_queues :: "QueueRow list"
  db_messages :: "MessageRow list"
  db_uploads :: "UploadRow list"
  db_upload_chunks :: "UploadChunkRow list"
  db_objects :: "ObjectRow list"
  db_chunks :: "ChunkRow list"
  db_grants :: "GrantRow list"
  db_blob_replays :: "ReplayRow list"
  db_queue_replays :: "ReplayRow list"
  db_user_version :: int

definition empty_db :: Db where
  "empty_db = \<lparr>db_queues = [], db_messages = [], db_uploads = [], db_upload_chunks = [], db_objects = [],
     db_chunks = [], db_grants = [], db_blob_replays = [], db_queue_replays = [], db_user_version = 0\<rparr>"

section \<open>The engine and transactions\<close>

record Engine =
  en_fault :: "nat \<Rightarrow> SqlError option"
  en_rowid :: "int list \<Rightarrow> int"
  en_scan :: "GrantRow list \<Rightarrow> GrantRow list"

definition fresh_rowids :: "Engine \<Rightarrow> bool" where
  "fresh_rowids E \<longleftrightarrow> (\<forall>used. \<forall>s \<in> set used. s < en_rowid E used)"

definition scans_rows :: "Engine \<Rightarrow> bool" where
  "scans_rows E \<longleftrightarrow> (\<forall>rows. mset (en_scan E rows) = mset rows)"

text \<open>
  A connection: the state of the database it works on and the number of engine calls made so far.
  Inside a transaction the state is the transaction's own.
\<close>

record Connection =
  cn_db :: Db
  cn_calls :: nat

type_synonym ('e, 'a) tx = "Connection \<Rightarrow> ('e, 'a) result \<times> Connection"

definition tx_return :: "'a \<Rightarrow> ('e, 'a) tx" where
  "tx_return x c = (Inr x, c)"

definition tx_fail :: "'e \<Rightarrow> ('e, 'a) tx" where
  "tx_fail e c = (Inl e, c)"

definition tx_res :: "('e, 'a) result \<Rightarrow> ('e, 'a) tx" where
  "tx_res r c = (r, c)"

definition tx_bind :: "('e, 'a) tx \<Rightarrow> ('a \<Rightarrow> ('e, 'b) tx) \<Rightarrow> ('e, 'b) tx" where
  "tx_bind m f c = (case m c of (Inl e, c') \<Rightarrow> (Inl e, c') | (Inr x, c') \<Rightarrow> f x c')"

definition tx_map_err :: "('e \<Rightarrow> 'f) \<Rightarrow> ('e, 'a) tx \<Rightarrow> ('f, 'a) tx" where
  "tx_map_err h m c = (case m c of (r, c') \<Rightarrow> (map_err h r, c'))"

text \<open>
  One call of the engine: it fails by itself, or the statement runs, which either fails without an
  effect (a violated constraint, an unreadable row) or gives a value and a new database.
\<close>

type_synonym 'a statement = "Db \<Rightarrow> (SqlError, 'a \<times> Db) result"

definition sql_call :: "Engine \<Rightarrow> 'a statement \<Rightarrow> (SqlError, 'a) tx" where
  "sql_call E stmt c =
     (case en_fault E (cn_calls c) of
        Some e \<Rightarrow> (Inl e, c\<lparr>cn_calls := cn_calls c + 1\<rparr>)
      | None \<Rightarrow>
          (case stmt (cn_db c) of
             Inl e \<Rightarrow> (Inl e, c\<lparr>cn_calls := cn_calls c + 1\<rparr>)
           | Inr (x, db) \<Rightarrow> (Inr x, \<lparr>cn_db = db, cn_calls = cn_calls c + 1\<rparr>)))"

definition sql_exec :: "Engine \<Rightarrow> 'a statement \<Rightarrow> (DurableRelayError, 'a) tx" where
  "sql_exec E stmt = tx_map_err DurableRelayError_from (sql_call E stmt)"

text \<open>
  \<open>query_row(...).optional()\<close> on the first row the query returns, read by a closure that can fail.
\<close>

definition query_optional :: "(Db \<Rightarrow> 'r list) \<Rightarrow> ('r \<Rightarrow> (SqlError, 'a) result) \<Rightarrow> 'a option statement" where
  "query_optional q read db =
     (case q db of
        [] \<Rightarrow> Inr (None, db)
      | row # _ \<Rightarrow> res_bind (read row) (\<lambda>x. Inr (Some x, db)))"

text \<open>\<open>query_row\<close> without \<open>optional\<close>: no row is an error.\<close>

definition query_row :: "(Db \<Rightarrow> 'r list) \<Rightarrow> ('r \<Rightarrow> (SqlError, 'a) result) \<Rightarrow> 'a statement" where
  "query_row q read db =
     (case q db of
        [] \<Rightarrow> Inl QueryReturnedNoRows
      | row # _ \<Rightarrow> res_bind (read row) (\<lambda>x. Inr (x, db)))"

definition constrained :: "bool \<Rightarrow> Db \<Rightarrow> unit statement" where
  "constrained ok db' db = (if ok then Inr ((), db') else Inl (SqliteFailure ConstraintViolation))"

text \<open>
  \<open>transaction_with_behavior\<close>, the body, \<open>commit\<close>. A transaction that is dropped, because its body
  failed or its commit did, is rolled back: the database is as before.
\<close>

definition begin_tx :: "Engine \<Rightarrow> (DurableRelayError, unit) tx" where
  "begin_tx E = sql_exec E (\<lambda>db. Inr ((), db))"

definition commit_tx :: "Engine \<Rightarrow> (DurableRelayError, unit) tx" where
  "commit_tx E = sql_exec E (\<lambda>db. Inr ((), db))"

definition rollback_to :: "Connection \<Rightarrow> Connection \<Rightarrow> Connection" where
  "rollback_to before c = c\<lparr>cn_db := cn_db before\<rparr>"

definition or_rollback :: "('e, 'a) tx \<Rightarrow> ('e, 'a) tx" where
  "or_rollback m c = (case m c of (Inl e, c') \<Rightarrow> (Inl e, rollback_to c c') | (Inr x, c') \<Rightarrow> (Inr x, c'))"

definition in_transaction ::
    "Engine \<Rightarrow> (DurableRelayError \<Rightarrow> 'e) \<Rightarrow> ('e, 'a) tx \<Rightarrow> ('e, 'a) tx" where
  "in_transaction E from body =
     or_rollback
       (tx_bind (tx_map_err from (begin_tx E)) (\<lambda>_.
        tx_bind body (\<lambda>outcome.
        tx_bind (tx_map_err from (commit_tx E)) (\<lambda>_.
        tx_return outcome))))"

section \<open>Reading columns\<close>

definition invalid_data :: "string \<Rightarrow> SqlError" where
  "invalid_data message = InvalidParameterName message"

definition blob_32 :: "bytes \<Rightarrow> (SqlError, bytes) result" where
  "blob_32 value = (if length value = 32 then Inr value
     else Inl (invalid_data ''identifier must contain exactly 32 bytes''))"

definition blob_u64 :: "bytes \<Rightarrow> (SqlError, u64) result" where
  "blob_u64 value = (if length value = 8 then Inr (u64_from_be_bytes value)
     else Inl (invalid_data ''integer must contain exactly 8 bytes''))"

text \<open>\<open>usize\<close> and \<open>u64\<close> have the same 64 bits, so neither conversion can fail.\<close>

definition usize_to_u64 :: "u64 \<Rightarrow> u64" where
  "usize_to_u64 value = value"

definition u64_to_usize :: "u64 \<Rightarrow> (SqlError, u64) result" where
  "u64_to_usize value = Inr value"

section \<open>Faults only abort\<close>

text \<open>
  \<open>faultless E\<close> is the same engine without faults and \<open>pure_tx m E db\<close> what a computation does under
  it. A computation is \<open>lawful\<close> when every run under any faults either ends with a storage error or
  gives the faultless result and database, and a faultless run depends on the database alone.
\<close>

named_theorems lawful_intros \<open>computations on which faults only abort\<close>

definition faultless :: "Engine \<Rightarrow> Engine" where
  "faultless E = E\<lparr>en_fault := (\<lambda>_. None)\<rparr>"

definition seen :: "('e, 'a) result \<times> Connection \<Rightarrow> ('e, 'a) result \<times> Db" where
  "seen p = (fst p, cn_db (snd p))"

definition pure_tx :: "(Engine \<Rightarrow> ('e, 'a) tx) \<Rightarrow> Engine \<Rightarrow> Db \<Rightarrow> ('e, 'a) result \<times> Db" where
  "pure_tx m E db = seen (m (faultless E) \<lparr>cn_db = db, cn_calls = 0\<rparr>)"

definition fails_with :: "('e \<Rightarrow> bool) \<Rightarrow> ('e, 'a) result \<Rightarrow> bool" where
  "fails_with S r = (case r of Inl e \<Rightarrow> S e | Inr _ \<Rightarrow> False)"

definition lawful :: "('e \<Rightarrow> bool) \<Rightarrow> (Engine \<Rightarrow> ('e, 'a) tx) \<Rightarrow> bool" where
  "lawful S m \<longleftrightarrow>
     (\<forall>E c. fails_with S (fst (m E c)) \<or> seen (m E c) = pure_tx m E (cn_db c))
     \<and> (\<forall>E c. seen (m (faultless E) c) = pure_tx m E (cn_db c))"

definition is_storage :: "DurableRelayError \<Rightarrow> bool" where
  "is_storage e = (case e of DrStorage _ _ \<Rightarrow> True | _ \<Rightarrow> False)"

lemma fails_with_simps [simp]: "fails_with S (Inl e) = S e" "fails_with S (Inr x) = False"
  by (simp_all add: fails_with_def)

lemma faultless_simps [simp]:
  "faultless (faultless E) = faultless E" "en_fault (faultless E) n = None"
  "en_rowid (faultless E) = en_rowid E" "fresh_rowids (faultless E) = fresh_rowids E"
  "en_scan (faultless E) = en_scan E" "scans_rows (faultless E) = scans_rows E"
  by (simp_all add: faultless_def fresh_rowids_def scans_rows_def)

lemma pure_tx_faultless [simp]: "pure_tx m (faultless E) = pure_tx m E"
  by (simp add: pure_tx_def fun_eq_iff)

lemma is_storage_from [simp]: "is_storage (DurableRelayError_from e)"
  by (simp add: is_storage_def DurableRelayError_from_def)

lemma lawfulD:
  "lawful S m \<Longrightarrow> fails_with S (fst (m E c)) \<or> seen (m E c) = pure_tx m E (cn_db c)"
  "lawful S m \<Longrightarrow> seen (m (faultless E) c) = pure_tx m E (cn_db c)"
  by (simp_all add: lawful_def)

lemma lawful_return [lawful_intros]: "lawful S (\<lambda>E. tx_return x)"
  by (simp add: lawful_def pure_tx_def seen_def tx_return_def)

lemma lawful_fail [lawful_intros]: "lawful S (\<lambda>E. tx_fail e)"
  by (simp add: lawful_def pure_tx_def seen_def tx_fail_def)

lemma lawful_res [lawful_intros]: "lawful S (\<lambda>E. tx_res r)"
  by (simp add: lawful_def pure_tx_def seen_def tx_res_def)

lemma lawful_sql_call:
  assumes "\<And>E. stmt (faultless E) = stmt E"
  shows "lawful (\<lambda>_. True) (\<lambda>E. sql_call E (stmt E))"
  using assms by (auto simp: lawful_def pure_tx_def seen_def sql_call_def split: option.split sum.split)

lemma lawful_map_err:
  assumes "lawful S m" and "\<And>e. S e \<Longrightarrow> S' (h e)"
  shows "lawful S' (\<lambda>E. tx_map_err h (m E))"
proof -
  have seen: "seen (tx_map_err h m c) = (map_err h (fst (seen (m c))), snd (seen (m c)))" for m :: "('a, 'b) tx" and c
    by (simp add: seen_def tx_map_err_def split: prod.split)
  then have "pure_tx (\<lambda>E. tx_map_err h (m E)) E db = (map_err h (fst (pure_tx m E db)), snd (pure_tx m E db))" for E db
    by (simp add: pure_tx_def)
  moreover have "fails_with S r \<Longrightarrow> fails_with S' (map_err h r)" for r :: "('a, 'b) result"
    using assms(2) by (cases r) simp_all
  moreover have "fst (tx_map_err h m c) = map_err h (fst (m c))" for m :: "('a, 'b) tx" and c
    by (simp add: tx_map_err_def split: prod.split)
  ultimately show ?thesis
    using assms(1) unfolding lawful_def by (simp add: seen) metis
qed

lemma lawful_sql_exec [lawful_intros]:
  assumes "\<And>E. stmt (faultless E) = stmt E"
  shows "lawful is_storage (\<lambda>E. sql_exec E (stmt E))"
  unfolding sql_exec_def by (rule lawful_map_err [OF lawful_sql_call]) (simp_all add: assms)

lemma lawful_bind [lawful_intros]:
  assumes m: "lawful S m" and f: "\<And>x. lawful S (f x)"
  shows "lawful S (\<lambda>E. tx_bind (m E) (\<lambda>x. f x E))"
proof -
  let ?b = "\<lambda>E. tx_bind (m E) (\<lambda>x. f x E)"
  have step: "seen (?b E c) = (case fst (m E c) of Inl e \<Rightarrow> (Inl e, cn_db (snd (m E c)))
      | Inr x \<Rightarrow> seen (f x E (snd (m E c))))" for E c
    by (simp add: seen_def tx_bind_def split: prod.split sum.split)
  have pure: "pure_tx ?b E db = (case fst (pure_tx m E db) of Inl e \<Rightarrow> (Inl e, snd (pure_tx m E db))
      | Inr x \<Rightarrow> pure_tx (f x) E (snd (pure_tx m E db)))" for E db
    using f unfolding pure_tx_def [of ?b] step pure_tx_def [of m]
    by (auto simp: lawful_def seen_def split: sum.split)
  have fm: "pure_tx m E (cn_db c) = (fst (m (faultless E) c), cn_db (snd (m (faultless E) c)))" for E c
    using m by (simp add: lawful_def seen_def)
  have ff: "seen (f x (faultless E) c) = pure_tx (f x) E (cn_db c)" for x E c
    using f by (simp add: lawful_def)
  have "seen (?b (faultless E) c) = pure_tx ?b E (cn_db c)" for E c
    unfolding step pure fm by (simp add: ff split: sum.split)
  moreover have "fails_with S (fst (?b E c)) \<or> seen (?b E c) = pure_tx ?b E (cn_db c)" for E c
  proof (cases "fst (m E c)")
    case (Inl e)
    then have "fst (?b E c) = Inl e"
      by (cases "m E c") (simp add: tx_bind_def)
    moreover have "S e \<or> pure_tx m E (cn_db c) = (Inl e, cn_db (snd (m E c)))"
      using lawfulD(1) [OF m, of E c] Inl by (auto simp: seen_def)
    ultimately show ?thesis
      using Inl unfolding step pure by auto
  next
    case (Inr x)
    then have pm: "pure_tx m E (cn_db c) = (Inr x, cn_db (snd (m E c)))"
      using lawfulD(1) [OF m, of E c] by (simp add: seen_def)
    have "fst (?b E c) = fst (f x E (snd (m E c)))"
      using Inr by (cases "m E c") (simp add: tx_bind_def)
    then show ?thesis
      using lawfulD(1) [OF f, of x E "snd (m E c)"] Inr pm unfolding step pure by simp
  qed
  ultimately show ?thesis
    by (simp add: lawful_def)
qed

lemma lawful_if [lawful_intros]:
  "lawful S m1 \<Longrightarrow> lawful S m2 \<Longrightarrow> lawful S (\<lambda>E. if b then m1 E else m2 E)"
  by (cases b) simp_all

lemma lawful_option [lawful_intros]:
  "lawful S m1 \<Longrightarrow> (\<And>x. lawful S (f x)) \<Longrightarrow> lawful S (\<lambda>E. case a of None \<Rightarrow> m1 E | Some x \<Rightarrow> f x E)"
  by (cases a) simp_all

lemma lawful_prod [lawful_intros]:
  "(\<And>x y. lawful S (g x y)) \<Longrightarrow> lawful S (\<lambda>E. case p of (x, y) \<Rightarrow> g x y E)"
  by (cases p) simp

lemma lawful_or_rollback:
  assumes "lawful S m"
  shows "lawful S (\<lambda>E. or_rollback (m E))"
proof -
  let ?undo = "\<lambda>db p. (fst p, case fst p of Inl e \<Rightarrow> db | Inr x \<Rightarrow> snd p)"
  have seen: "seen (or_rollback m c) = ?undo (cn_db c) (seen (m c))" for m :: "('a, 'b) tx" and c
    by (simp add: seen_def or_rollback_def rollback_to_def split: prod.split sum.split)
  then have pure: "pure_tx (\<lambda>E. or_rollback (m E)) E db = ?undo db (pure_tx m E db)" for E db
    by (simp add: pure_tx_def split: sum.split)
  have fst: "fst (or_rollback m c) = fst (m c)" for m :: "('a, 'b) tx" and c
    by (simp add: or_rollback_def split: prod.split sum.split)
  show ?thesis
    unfolding lawful_def seen pure fst using lawfulD [OF assms] by metis
qed

lemma lawful_in_transaction [lawful_intros]:
  assumes "lawful S body" and "\<And>e. is_storage e \<Longrightarrow> S (from e)"
  shows "lawful S (\<lambda>E. in_transaction E from (body E))"
  unfolding in_transaction_def begin_tx_def commit_tx_def
  by (intro lawful_or_rollback lawful_bind lawful_return lawful_map_err [OF lawful_sql_exec] assms) simp_all

lemma tx_bind_Inr [res_simps]:
  "tx_bind m f c = (Inr y, c') \<longleftrightarrow> (\<exists>x c1. m c = (Inr x, c1) \<and> f x c1 = (Inr y, c'))"
  by (simp add: tx_bind_def split: prod.split sum.split)

lemma tx_map_err_Inr [res_simps]: "tx_map_err h m c = (Inr y, c') \<longleftrightarrow> m c = (Inr y, c')"
  by (simp add: tx_map_err_def res_simps split: prod.split)

lemma or_rollback_Inr [res_simps]: "or_rollback m c = (Inr y, c') \<longleftrightarrow> m c = (Inr y, c')"
  by (simp add: or_rollback_def split: prod.split sum.split)

lemma or_rollback_Inl: "or_rollback m c = (Inl e, c') \<Longrightarrow> cn_db c' = cn_db c"
  by (auto simp: or_rollback_def rollback_to_def split: prod.splits sum.splits)

lemma sql_call_Inr [res_simps]:
  "sql_call E stmt c = (Inr x, c') \<longleftrightarrow> en_fault E (cn_calls c) = None
     \<and> (\<exists>db. stmt (cn_db c) = Inr (x, db) \<and> c' = \<lparr>cn_db = db, cn_calls = cn_calls c + 1\<rparr>)"
  by (auto simp: sql_call_def split: option.split sum.split)

lemma tx_return_Inr [res_simps]: "tx_return x c = (Inr y, c') \<longleftrightarrow> y = x \<and> c' = c"
  by (auto simp: tx_return_def)

text \<open>
  Atomicity of a transaction: whatever the engine does, it returns an error and leaves the database
  as it was, or it returns the outcome of its body and leaves exactly the database the body would
  have left without faults.
\<close>

lemma in_transaction_atomic:
  assumes "lawful S body"
  shows "(\<exists>e. fst (in_transaction E from (body E) c) = Inl e
        \<and> cn_db (snd (in_transaction E from (body E) c)) = cn_db c)
    \<or> (\<exists>x. fst (in_transaction E from (body E) c) = Inr x
        \<and> pure_tx body E (cn_db c) = (Inr x, cn_db (snd (in_transaction E from (body E) c))))"
proof (cases "in_transaction E from (body E) c")
  case (Pair r c')
  show ?thesis
  proof (cases r)
    case (Inl e)
    then show ?thesis
      using Pair by (auto simp: in_transaction_def dest: or_rollback_Inl)
  next
    case (Inr x)
    then obtain c1 c2 where b: "body E c1 = (Inr x, c2)" and c1: "cn_db c1 = cn_db c" and c2: "cn_db c' = cn_db c2"
      using Pair by (auto simp: in_transaction_def begin_tx_def commit_tx_def sql_exec_def res_simps)
    have "pure_tx body E (cn_db c1) = (Inr x, cn_db c2)"
      using lawfulD(1) [OF assms, of E c1] b by (simp add: seen_def)
    with Inr Pair c1 c2 show ?thesis by simp
  qed
qed

section \<open>What a computation leaves alone\<close>

text \<open>\<open>preserves f m\<close>: no run of \<open>m\<close>, failing or not, changes the part \<open>f\<close> of the database.\<close>

named_theorems preserves_intros \<open>computations that leave a part of the database alone\<close>

definition preserves :: "(Db \<Rightarrow> 'p) \<Rightarrow> (Engine \<Rightarrow> ('e, 'a) tx) \<Rightarrow> bool" where
  "preserves f m \<longleftrightarrow> (\<forall>E c. f (cn_db (snd (m E c))) = f (cn_db c))"

lemma preserves_basic [preserves_intros]:
  "preserves f (\<lambda>E. tx_return x)" "preserves f (\<lambda>E. tx_fail e)" "preserves f (\<lambda>E. tx_res r)"
  by (simp_all add: preserves_def tx_return_def tx_fail_def tx_res_def)

lemma preserves_bind [preserves_intros]:
  assumes "preserves f m" and "\<And>x. preserves f (g x)"
  shows "preserves f (\<lambda>E. tx_bind (m E) (\<lambda>x. g x E))"
  unfolding preserves_def
proof (intro allI)
  fix E c
  obtain r c' where m: "m E c = (r, c')" by fastforce
  then have "f (cn_db c') = f (cn_db c)"
    using assms(1) unfolding preserves_def by (metis snd_conv)
  then show "f (cn_db (snd (tx_bind (m E) (\<lambda>x. g x E) c))) = f (cn_db c)"
    using assms(2) m by (cases r) (simp_all add: preserves_def tx_bind_def)
qed

lemma preserves_map_err [preserves_intros]:
  "preserves f m \<Longrightarrow> preserves f (\<lambda>E. tx_map_err h (m E))"
  by (simp add: preserves_def tx_map_err_def case_prod_beta)

lemma preserves_sql_exec [preserves_intros]:
  assumes "\<And>E db x db'. stmt E db = Inr (x, db') \<Longrightarrow> f db' = f db"
  shows "preserves f (\<lambda>E. sql_exec E (stmt E))"
  using assms by (auto simp: preserves_def sql_exec_def sql_call_def tx_map_err_def split: option.split sum.split)

lemma preserves_if [preserves_intros]:
  "preserves f m1 \<Longrightarrow> preserves f m2 \<Longrightarrow> preserves f (\<lambda>E. if b then m1 E else m2 E)"
  by (cases b) simp_all

lemma preserves_option [preserves_intros]:
  "preserves f m1 \<Longrightarrow> (\<And>x. preserves f (g x)) \<Longrightarrow> preserves f (\<lambda>E. case a of None \<Rightarrow> m1 E | Some x \<Rightarrow> g x E)"
  by (cases a) simp_all

lemma preserves_prod [preserves_intros]:
  "(\<And>x y. preserves f (g x y)) \<Longrightarrow> preserves f (\<lambda>E. case p of (x, y) \<Rightarrow> g x y E)"
  by (cases p) simp

lemma query_optional_same: "query_optional q r db = Inr (x, db') \<Longrightarrow> db' = db"
  by (auto simp: query_optional_def res_simps split: list.splits)

lemma query_row_same: "query_row q r db = Inr (x, db') \<Longrightarrow> db' = db"
  by (auto simp: query_row_def res_simps split: list.splits)

lemma constrained_Inr [simp]: "constrained ok db' db = Inr (x, db'') \<longleftrightarrow> ok \<and> db'' = db'"
  by (auto simp: constrained_def)

end
