(* ===== verification/CW_Durable.thy ===== *)
theory CW_Durable
  imports CW_Relay CW_Sqlite
begin

text \<open>
  The SQLite-backed relay of \<open>crates/cofferwire-relay/src/durable.rs\<close>: every statement the code
  executes, in its order, inside the transactions the code opens. Faults of the engine only abort
  a command (atomicity), and every statement is related to the in-memory relay state the tables
  stand for; the refinement built on that is in \<open>CW_Durable_Refines\<close>.
\<close>

section \<open>Statements on the queue tables\<close>

definition queue_rows :: "QueueId \<Rightarrow> Db \<Rightarrow> QueueRow list" where
  "queue_rows qid db = filter (\<lambda>r. qr_queue_id r = QueueId_bytes qid) (db_queues db)"

definition message_rows :: "QueueId \<Rightarrow> Db \<Rightarrow> MessageRow list" where
  "message_rows qid db = filter (\<lambda>m. mr_queue_id m = QueueId_bytes qid) (db_messages db)"

text \<open>\<open>SELECT ... FROM messages WHERE queue_id = ?1 ORDER BY sequence LIMIT 1\<close>\<close>

definition current_rows :: "QueueId \<Rightarrow> Db \<Rightarrow> MessageRow list" where
  "current_rows qid db = take 1 (sort_key mr_sequence (message_rows qid db))"

definition queue_row_checks :: "QueueRow \<Rightarrow> bool" where
  "queue_row_checks r \<longleftrightarrow> length (qr_queue_id r) = 32 \<and> length (qr_sender r) = 32
     \<and> length (qr_recipient r) = 32 \<and> length (qr_max_messages r) = 8 \<and> length (qr_max_message_bytes r) = 8"

definition message_row_checks :: "MessageRow \<Rightarrow> bool" where
  "message_row_checks m \<longleftrightarrow> length (mr_message_id m) = 32 \<and> length (mr_expires_at m) = 8"

text \<open>The primary key and \<open>CHECK\<close> constraints of \<open>queues\<close>.\<close>

definition insert_queue :: "QueueRow \<Rightarrow> unit statement" where
  "insert_queue row db =
     constrained (queue_row_checks row \<and> qr_queue_id row \<notin> qr_queue_id ` set (db_queues db))
       (db\<lparr>db_queues := db_queues db @ [row]\<rparr>) db"

text \<open>
  The rowid is chosen by the engine; \<open>delivered\<close> has its default 0; the foreign key, the primary key,
  the \<open>UNIQUE\<close> and the \<open>CHECK\<close> constraints of \<open>messages\<close> are enforced.
\<close>

definition insert_message :: "Engine \<Rightarrow> bytes \<Rightarrow> bytes \<Rightarrow> bytes \<Rightarrow> bytes \<Rightarrow> unit statement" where
  "insert_message E queue_id message_id payload expires_at db =
     (let used = map mr_sequence (db_messages db);
          row = \<lparr>mr_sequence = en_rowid E used, mr_queue_id = queue_id, mr_message_id = message_id,
                 mr_payload = payload, mr_expires_at = expires_at, mr_delivered = 0\<rparr>
      in constrained
           (message_row_checks row \<and> queue_id \<in> qr_queue_id ` set (db_queues db)
            \<and> mr_sequence row \<notin> set used
            \<and> (\<forall>m \<in> set (db_messages db). mr_queue_id m = queue_id \<longrightarrow> mr_message_id m \<noteq> message_id))
           (db\<lparr>db_messages := db_messages db @ [row]\<rparr>) db)"

text \<open>\<open>DELETE FROM queues\<close> with the cascade of the foreign key of \<open>messages\<close>.\<close>

definition delete_queue_rows :: "QueueId \<Rightarrow> unit statement" where
  "delete_queue_rows qid db =
     Inr ((), db\<lparr>db_queues := filter (\<lambda>r. qr_queue_id r \<noteq> QueueId_bytes qid) (db_queues db),
                 db_messages := filter (\<lambda>m. mr_queue_id m \<noteq> QueueId_bytes qid) (db_messages db)\<rparr>)"

definition mark_delivered :: "int \<Rightarrow> unit statement" where
  "mark_delivered sequence db =
     Inr ((), db\<lparr>db_messages := map (\<lambda>m. if mr_sequence m = sequence then m\<lparr>mr_delivered := 1\<rparr> else m)
                   (db_messages db)\<rparr>)"

definition delete_message :: "int \<Rightarrow> unit statement" where
  "delete_message sequence db =
     Inr ((), db\<lparr>db_messages := filter (\<lambda>m. mr_sequence m \<noteq> sequence) (db_messages db)\<rparr>)"

definition delete_expired :: "QueueId \<Rightarrow> bytes \<Rightarrow> unit statement" where
  "delete_expired qid now db =
     Inr ((), db\<lparr>db_messages := filter (\<lambda>m. \<not> (mr_queue_id m = QueueId_bytes qid \<and> blob_le (mr_expires_at m) now))
                   (db_messages db)\<rparr>)"

section \<open>Shared steps\<close>

definition read_queue :: "Engine \<Rightarrow> QueueId \<Rightarrow> (DurableRelayError, QueueConfig option) tx" where
  "read_queue E qid =
     sql_exec E (query_optional (queue_rows qid) (\<lambda>row.
       res_bind (res_bind (blob_u64 (qr_max_messages row)) u64_to_usize) (\<lambda>max_messages.
       res_bind (res_bind (blob_u64 (qr_max_message_bytes row)) u64_to_usize) (\<lambda>max_message_bytes.
       res_bind (ok_or (RelayQueueLimits_new max_messages max_message_bytes)
                  (invalid_data ''queue limits must be non-zero'')) (\<lambda>limits.
       res_bind (blob_32 (qr_sender row)) (\<lambda>sender.
       res_bind (blob_32 (qr_recipient row)) (\<lambda>recipient.
       Inr \<lparr>qc_sender = Principal sender, qc_recipient = Principal recipient, qc_limits = limits\<rparr>)))))))"

definition authorize_recipient :: "Engine \<Rightarrow> QueueId \<Rightarrow> Principal \<Rightarrow> (DurableRelayError, unit) tx" where
  "authorize_recipient E qid recipient =
     tx_bind (read_queue E qid) (\<lambda>config.
     tx_bind (tx_res (ok_or config (DrRelay ReQueueNotFound))) (\<lambda>config.
     if qc_recipient config \<noteq> recipient then tx_fail (DrRelay ReUnauthorized) else tx_return ()))"

definition discard_expired :: "Engine \<Rightarrow> QueueId \<Rightarrow> Timestamp \<Rightarrow> (DurableRelayError, unit) tx" where
  "discard_expired E qid now =
     sql_exec E (delete_expired qid (u64_to_be_bytes (Timestamp_as_secs now)))"

section \<open>Transaction-scoped operations\<close>

definition create_queue_tx ::
    "Engine \<Rightarrow> QueueId \<Rightarrow> QueueConfig \<Rightarrow> (DurableRelayError, CreateQueueOutcome) tx" where
  "create_queue_tx E qid config =
     tx_bind (sql_exec E (query_optional (queue_rows qid) (\<lambda>row.
       res_bind (blob_32 (qr_sender row)) (\<lambda>sender.
       res_bind (blob_32 (qr_recipient row)) (\<lambda>recipient.
       res_bind (blob_u64 (qr_max_messages row)) (\<lambda>max_messages.
       res_bind (blob_u64 (qr_max_message_bytes row)) (\<lambda>max_message_bytes.
       Inr (sender, recipient, max_messages, max_message_bytes)))))))) (\<lambda>existing.
     case existing of
       Some (sender, recipient, max_messages, max_message_bytes) \<Rightarrow>
         if sender = Principal_bytes (qc_sender config)
            \<and> recipient = Principal_bytes (qc_recipient config)
            \<and> max_messages = usize_to_u64 (rl_max_messages (qc_limits config))
            \<and> max_message_bytes = usize_to_u64 (rl_max_message_bytes (qc_limits config))
         then tx_return AlreadyExists
         else tx_fail (DrRelay ReQueueIdConflict)
     | None \<Rightarrow>
         tx_bind (sql_exec E (insert_queue
           \<lparr>qr_queue_id = QueueId_bytes qid,
            qr_sender = Principal_bytes (qc_sender config),
            qr_recipient = Principal_bytes (qc_recipient config),
            qr_max_messages = u64_to_be_bytes (usize_to_u64 (rl_max_messages (qc_limits config))),
            qr_max_message_bytes = u64_to_be_bytes (usize_to_u64 (rl_max_message_bytes (qc_limits config)))\<rparr>)) (\<lambda>_.
         tx_return Created))"

definition send_tx ::
    "Engine \<Rightarrow> QueueId \<Rightarrow> Principal \<Rightarrow> MessageId \<Rightarrow> bytes \<Rightarrow> Timestamp \<Rightarrow> RelayTtl \<Rightarrow>
     (DurableRelayError, SendOutcome) tx" where
  "send_tx E qid sender mid payload now ttl =
     tx_bind (read_queue E qid) (\<lambda>config.
     tx_bind (tx_res (ok_or config (DrRelay ReQueueNotFound))) (\<lambda>config.
     if qc_sender config \<noteq> sender then tx_fail (DrRelay ReUnauthorized)
     else
     tx_bind (discard_expired E qid now) (\<lambda>_.
     tx_bind (sql_exec E (query_optional
         (\<lambda>db. filter (\<lambda>m. mr_message_id m = MessageId_bytes mid) (message_rows qid db))
         (\<lambda>row. Inr (mr_payload row)))) (\<lambda>existing.
     case existing of
       Some existing \<Rightarrow>
         if existing = payload then tx_return SendDuplicate else tx_fail (DrRelay ReMessageIdConflict)
     | None \<Rightarrow>
         if length payload > unat (rl_max_message_bytes (qc_limits config))
         then tx_fail (DrRelay ReMessageTooLarge)
         else
         tx_bind (sql_exec E (\<lambda>db. Inr (of_nat (length (message_rows qid db)) :: u64, db))) (\<lambda>count.
         if count \<ge> usize_to_u64 (rl_max_messages (qc_limits config)) then tx_fail (DrRelay ReQueueFull)
         else
         tx_bind (tx_res (ok_or (checked_add (Timestamp_as_secs now) (RelayTtl_as_secs ttl))
             (DrRelay ReExpiryOverflow))) (\<lambda>expires_at.
         tx_bind (sql_exec E (insert_message E (QueueId_bytes qid) (MessageId_bytes mid) payload
             (u64_to_be_bytes expires_at))) (\<lambda>_.
         tx_return Accepted)))))))"

definition fetch_tx ::
    "Engine \<Rightarrow> QueueId \<Rightarrow> Principal \<Rightarrow> Timestamp \<Rightarrow> (DurableRelayError, RelayDelivery option) tx" where
  "fetch_tx E qid recipient now =
     tx_bind (authorize_recipient E qid recipient) (\<lambda>_.
     tx_bind (discard_expired E qid now) (\<lambda>_.
     tx_bind (sql_exec E (query_optional (current_rows qid) (\<lambda>row.
       res_bind (blob_32 (mr_message_id row)) (\<lambda>message_id.
       res_bind (blob_u64 (mr_expires_at row)) (\<lambda>expires_at.
       Inr (mr_sequence row, message_id, mr_payload row, expires_at)))))) (\<lambda>message.
     case message of
       None \<Rightarrow> tx_return None
     | Some (sequence, message_id, payload, expires_at) \<Rightarrow>
         tx_bind (sql_exec E (mark_delivered sequence)) (\<lambda>_.
         tx_return (Some \<lparr>rd_id = MessageId message_id, rd_payload = payload,
           rd_expires_at = Timestamp expires_at\<rparr>)))))"

definition acknowledge_tx ::
    "Engine \<Rightarrow> QueueId \<Rightarrow> Principal \<Rightarrow> MessageId \<Rightarrow> Timestamp \<Rightarrow> (DurableRelayError, unit) tx" where
  "acknowledge_tx E qid recipient mid now =
     tx_bind (authorize_recipient E qid recipient) (\<lambda>_.
     tx_bind (discard_expired E qid now) (\<lambda>_.
     tx_bind (sql_exec E (query_optional (current_rows qid) (\<lambda>row.
       res_bind (blob_32 (mr_message_id row)) (\<lambda>message_id.
       Inr (mr_sequence row, message_id, mr_delivered row \<noteq> 0))))) (\<lambda>current.
     tx_bind (tx_res (ok_or current (DrRelay ReAckMismatch))) (\<lambda>(sequence, message_id, delivered).
     if message_id \<noteq> MessageId_bytes mid then tx_fail (DrRelay ReAckMismatch)
     else if \<not> delivered then tx_fail (DrRelay ReNotDelivered)
     else sql_exec E (delete_message sequence)))))"

definition delete_queue_tx :: "Engine \<Rightarrow> QueueId \<Rightarrow> Principal \<Rightarrow> (DurableRelayError, unit) tx" where
  "delete_queue_tx E qid recipient =
     tx_bind (authorize_recipient E qid recipient) (\<lambda>_.
     sql_exec E (delete_queue_rows qid))"

section \<open>Opening the database and the public operations\<close>

definition SCHEMA_VERSION :: int where
  "SCHEMA_VERSION = 3"

text \<open>
  A file without the tables is a database with empty tables, so \<open>CREATE TABLE IF NOT EXISTS\<close> keeps
  the rows; the \<open>PRAGMA\<close>s configure the connection and change no row.
\<close>

definition DurableRelay_initialize :: "Engine \<Rightarrow> (DurableRelayError, unit) tx" where
  "DurableRelay_initialize E =
     tx_bind (sql_exec E (\<lambda>db. Inr ((), db))) (\<lambda>_.
     tx_bind (sql_exec E (\<lambda>db. Inr (db_user_version db, db))) (\<lambda>version.
     if version > SCHEMA_VERSION then tx_fail (DrUnsupportedSchemaVersion version SCHEMA_VERSION)
     else
     tx_bind (sql_exec E (\<lambda>db. Inr ((), db))) (\<lambda>_.
     in_transaction E id
       (tx_bind (sql_exec E (\<lambda>db. Inr ((), db))) (\<lambda>_.
        if version \<noteq> SCHEMA_VERSION
        then sql_exec E (\<lambda>db. Inr ((), db\<lparr>db_user_version := SCHEMA_VERSION\<rparr>))
        else tx_return ())))))"

definition DurableRelay_create_queue ::
    "Engine \<Rightarrow> QueueId \<Rightarrow> QueueConfig \<Rightarrow> (DurableRelayError, CreateQueueOutcome) tx" where
  "DurableRelay_create_queue E qid config = in_transaction E id (create_queue_tx E qid config)"

definition DurableRelay_send ::
    "Engine \<Rightarrow> QueueId \<Rightarrow> Principal \<Rightarrow> MessageId \<Rightarrow> bytes \<Rightarrow> Timestamp \<Rightarrow> RelayTtl \<Rightarrow>
     (DurableRelayError, SendOutcome) tx" where
  "DurableRelay_send E qid sender mid payload now ttl =
     in_transaction E id (send_tx E qid sender mid payload now ttl)"

definition DurableRelay_fetch ::
    "Engine \<Rightarrow> QueueId \<Rightarrow> Principal \<Rightarrow> Timestamp \<Rightarrow> (DurableRelayError, RelayDelivery option) tx" where
  "DurableRelay_fetch E qid recipient now = in_transaction E id (fetch_tx E qid recipient now)"

definition DurableRelay_acknowledge ::
    "Engine \<Rightarrow> QueueId \<Rightarrow> Principal \<Rightarrow> MessageId \<Rightarrow> Timestamp \<Rightarrow> (DurableRelayError, unit) tx" where
  "DurableRelay_acknowledge E qid recipient mid now =
     in_transaction E id (acknowledge_tx E qid recipient mid now)"

definition DurableRelay_delete_queue :: "Engine \<Rightarrow> QueueId \<Rightarrow> Principal \<Rightarrow> (DurableRelayError, unit) tx" where
  "DurableRelay_delete_queue E qid recipient = in_transaction E id (delete_queue_tx E qid recipient)"

section \<open>Commands as events\<close>

text \<open>\<open>None\<close> stands for a storage error.\<close>

definition durable_outcome :: "('a \<Rightarrow> RelayOutcome) \<Rightarrow> (DurableRelayError, 'a) result \<Rightarrow> RelayOutcome option" where
  "durable_outcome h r =
     (case r of
        Inl (DrRelay e) \<Rightarrow> Some (OutErr e)
      | Inl _ \<Rightarrow> None
      | Inr x \<Rightarrow> Some (h x))"

definition with_outcome ::
    "('a \<Rightarrow> RelayOutcome) \<Rightarrow> (DurableRelayError, 'a) tx \<Rightarrow> Connection \<Rightarrow> RelayOutcome option \<times> Connection" where
  "with_outcome h m c = (case m c of (r, c') \<Rightarrow> (durable_outcome h r, c'))"

fun durable_step :: "Engine \<Rightarrow> Connection \<Rightarrow> Timestamp \<times> RelayEvent \<Rightarrow> RelayOutcome option \<times> Connection" where
  "durable_step E c (now, EvCreate q cfg) = with_outcome OutCreate (DurableRelay_create_queue E q cfg) c"
| "durable_step E c (now, EvSend q s m p t) = with_outcome OutSend (DurableRelay_send E q s m p now t) c"
| "durable_step E c (now, EvFetch q p) = with_outcome OutFetch (DurableRelay_fetch E q p now) c"
| "durable_step E c (now, EvAck q p m) = with_outcome (\<lambda>_. OutAck) (DurableRelay_acknowledge E q p m now) c"
| "durable_step E c (now, EvDelete q p) = with_outcome (\<lambda>_. OutDelete) (DurableRelay_delete_queue E q p) c"

section \<open>Faults only abort\<close>

lemma insert_message_faultless [simp]: "insert_message (faultless E) = insert_message E"
  by (intro ext) (simp only: insert_message_def faultless_simps)

lemma read_queue_lawful [lawful_intros]: "lawful is_storage (\<lambda>E. read_queue E qid)"
  unfolding read_queue_def by (intro lawful_intros; simp)

lemma authorize_recipient_lawful [lawful_intros]: "lawful is_storage (\<lambda>E. authorize_recipient E qid p)"
  unfolding authorize_recipient_def by (intro lawful_intros; simp)

lemma discard_expired_lawful [lawful_intros]: "lawful is_storage (\<lambda>E. discard_expired E qid now)"
  unfolding discard_expired_def by (intro lawful_intros; simp)

lemma create_queue_tx_lawful [lawful_intros]: "lawful is_storage (\<lambda>E. create_queue_tx E qid cfg)"
  unfolding create_queue_tx_def by (intro lawful_intros; simp)

lemma send_tx_lawful [lawful_intros]: "lawful is_storage (\<lambda>E. send_tx E qid s mid payload now ttl)"
  unfolding send_tx_def by (intro lawful_intros; simp)

lemma fetch_tx_lawful [lawful_intros]: "lawful is_storage (\<lambda>E. fetch_tx E qid p now)"
  unfolding fetch_tx_def by (intro lawful_intros; simp)

lemma acknowledge_tx_lawful [lawful_intros]: "lawful is_storage (\<lambda>E. acknowledge_tx E qid p mid now)"
  unfolding acknowledge_tx_def by (intro lawful_intros; simp)

lemma delete_queue_tx_lawful [lawful_intros]: "lawful is_storage (\<lambda>E. delete_queue_tx E qid p)"
  unfolding delete_queue_tx_def by (intro lawful_intros; simp)

lemmas durable_tx_lawful = create_queue_tx_lawful send_tx_lawful fetch_tx_lawful acknowledge_tx_lawful
  delete_queue_tx_lawful

lemma with_outcome_faults:
  fixes h :: "'a \<Rightarrow> RelayOutcome"
  assumes "lawful is_storage body"
  defines "m \<equiv> \<lambda>E. with_outcome h (in_transaction E id (body E))"
  shows "fst (m E c) = None \<and> cn_db (snd (m E c)) = cn_db c
    \<or> fst (m E c) = fst (m (faultless E) c) \<and> cn_db (snd (m E c)) = cn_db (snd (m (faultless E) c))"
proof -
  let ?t = "\<lambda>E. in_transaction E id (body E)"
  have law: "lawful is_storage ?t"
    by (rule lawful_in_transaction [OF assms(1)]) simp
  have m: "m E c = (durable_outcome h (fst (?t E c)), snd (?t E c))" for E c
    by (simp add: m_def with_outcome_def case_prod_beta)
  show ?thesis
  proof (cases "fails_with is_storage (fst (?t E c))")
    case True
    then obtain e where e: "fst (?t E c) = Inl e" "is_storage e"
      by (auto simp: fails_with_def split: sum.splits)
    then have "cn_db (snd (?t E c)) = cn_db c"
      using in_transaction_atomic [OF assms(1), of E id c] by auto
    then show ?thesis
      using e by (auto simp: m durable_outcome_def is_storage_def split: DurableRelayError.splits)
  next
    case False
    then show ?thesis
      using lawfulD [OF law, of E c] by (simp add: m seen_def prod_eq_iff)
  qed
qed

text \<open>
  Whatever fails, a command has no effect and reports a storage error, or it has exactly the effect
  and the answer it has without faults.
\<close>

lemma durable_step_faults:
  "fst (durable_step E c e) = None \<and> cn_db (snd (durable_step E c e)) = cn_db c
   \<or> fst (durable_step E c e) = fst (durable_step (faultless E) c e)
     \<and> cn_db (snd (durable_step E c e)) = cn_db (snd (durable_step (faultless E) c e))"
  by (cases "(E, c, e)" rule: durable_step.cases)
    (simp_all add: DurableRelay_create_queue_def DurableRelay_send_def DurableRelay_fetch_def
      DurableRelay_acknowledge_def DurableRelay_delete_queue_def durable_tx_lawful [THEN with_outcome_faults])

section \<open>The tables as a relay state\<close>

definition row_config :: "QueueRow \<Rightarrow> QueueConfig" where
  "row_config r = \<lparr>qc_sender = Principal (qr_sender r), qc_recipient = Principal (qr_recipient r),
     qc_limits = \<lparr>rl_max_messages = u64_from_be_bytes (qr_max_messages r),
       rl_max_message_bytes = u64_from_be_bytes (qr_max_message_bytes r)\<rparr>\<rparr>"

definition row_message :: "MessageRow \<Rightarrow> QueuedMessage" where
  "row_message m = \<lparr>qm_id = MessageId (mr_message_id m), qm_payload = mr_payload m,
     qm_expires_at = Timestamp (u64_from_be_bytes (mr_expires_at m)), qm_delivered = (mr_delivered m \<noteq> 0)\<rparr>"

definition db_relay :: "Db \<Rightarrow> Relay" where
  "db_relay db = \<lparr>queues = (\<lambda>qid.
     case queue_rows qid db of
       [] \<Rightarrow> None
     | row # _ \<Rightarrow> Some \<lparr>q_config = row_config row, q_messages = map row_message (message_rows qid db)\<rparr>)\<rparr>"

definition wf_queue_row :: "QueueRow \<Rightarrow> bool" where
  "wf_queue_row r \<longleftrightarrow> queue_row_checks r
     \<and> u64_from_be_bytes (qr_max_messages r) \<noteq> 0 \<and> u64_from_be_bytes (qr_max_message_bytes r) \<noteq> 0"

definition rows_inv :: "Db \<Rightarrow> bool" where
  "rows_inv db \<longleftrightarrow> distinct (map qr_queue_id (db_queues db))
     \<and> (\<forall>r \<in> set (db_queues db). wf_queue_row r)
     \<and> sorted_wrt (<) (map mr_sequence (db_messages db))
     \<and> (\<forall>m \<in> set (db_messages db). message_row_checks m \<and> mr_queue_id m \<in> qr_queue_id ` set (db_queues db))"

definition db_inv :: "Db \<Rightarrow> bool" where
  "db_inv db \<longleftrightarrow> rows_inv db \<and> relay_inv (db_relay db)"

fun wf_event :: "RelayEvent \<Rightarrow> bool" where
  "wf_event (EvCreate q c) = (wf_QueueId q \<and> wf_Principal (qc_sender c) \<and> wf_Principal (qc_recipient c)
     \<and> rl_max_messages (qc_limits c) \<noteq> 0 \<and> rl_max_message_bytes (qc_limits c) \<noteq> 0)"
| "wf_event (EvSend q s mid payload ttl) = wf_MessageId mid"
| "wf_event _ = True"

lemma row_message_simps [simp]:
  "qm_id (row_message m) = MessageId (mr_message_id m)" "qm_payload (row_message m) = mr_payload m"
  "qm_expires_at (row_message m) = Timestamp (u64_from_be_bytes (mr_expires_at m))"
  "qm_delivered (row_message m) \<longleftrightarrow> mr_delivered m \<noteq> 0"
  by (simp_all add: row_message_def)

lemma queue_rows_found:
  assumes "rows_inv db"
  shows "queue_rows qid db = [] \<or> (\<exists>row. queue_rows qid db = [row] \<and> wf_queue_row row
    \<and> qr_queue_id row = QueueId_bytes qid \<and> row \<in> set (db_queues db))"
proof -
  have "distinct (map qr_queue_id rs) \<Longrightarrow> filter (\<lambda>r. qr_queue_id r = i) rs = []
      \<or> (\<exists>r. filter (\<lambda>r. qr_queue_id r = i) rs = [r] \<and> r \<in> set rs \<and> qr_queue_id r = i)" for i rs
    by (induction rs) (auto simp: filter_empty_conv)
  then show ?thesis
    using assms by (fastforce simp: rows_inv_def queue_rows_def)
qed

lemma queues_db_relay:
  "queues (db_relay db) qid = (case queue_rows qid db of
     [] \<Rightarrow> None
   | row # _ \<Rightarrow> Some \<lparr>q_config = row_config row, q_messages = map row_message (message_rows qid db)\<rparr>)"
  by (simp add: db_relay_def)

text \<open>With rowids assigned in increasing order, \<open>ORDER BY sequence\<close> is the order of insertion.\<close>

lemma current_rows_eq:
  assumes "rows_inv db"
  shows "current_rows qid db = take 1 (message_rows qid db)"
proof -
  have "sorted_wrt (<) (map mr_sequence (message_rows qid db))"
    using assms unfolding rows_inv_def message_rows_def sorted_wrt_map by (simp add: sorted_wrt_filter)
  then have "sorted (map mr_sequence (message_rows qid db))"
    by (rule strict_sorted_imp_sorted)
  then show ?thesis
    by (simp add: current_rows_def sorted_sort_id sort_key_id_if_sorted)
qed

section \<open>What the statements do to the relay state\<close>

lemma QueueId_bytes_inject [simp]: "QueueId_bytes a = QueueId_bytes b \<longleftrightarrow> a = b"
  by (cases a; cases b) simp

lemma Relay_eqI: "(\<And>qid. queues r qid = queues r' qid) \<Longrightarrow> r = (r' :: Relay)"
  by (cases r, cases r') (simp add: fun_eq_iff)

lemma db_relay_update:
  assumes q: "queues (db_relay db) qid = Some q"
    and "db_queues db' = db_queues db"
    and others: "\<And>x. x \<noteq> qid \<Longrightarrow> message_rows x db' = message_rows x db"
    and this_queue: "map row_message (message_rows qid db') = ms"
  shows "db_relay db' = put_queue qid (q\<lparr>q_messages := ms\<rparr>) (db_relay db)"
proof (rule Relay_eqI)
  fix x
  have "queue_rows x db' = queue_rows x db"
    by (simp add: queue_rows_def assms(2))
  then show "queues (db_relay db') x = queues (put_queue qid (q\<lparr>q_messages := ms\<rparr>) (db_relay db)) x"
    using q others [of x] this_queue by (cases "x = qid") (auto simp: queues_db_relay split: list.splits)
qed

lemma unexpired_row:
  assumes "message_row_checks m"
  shows "unexpired now (row_message m) \<longleftrightarrow> \<not> blob_le (mr_expires_at m) (u64_to_be_bytes (Timestamp_as_secs now))"
proof -
  have "mr_expires_at m = u64_to_be_bytes (u64_from_be_bytes (mr_expires_at m))"
    using assms by (simp add: message_row_checks_def u64_to_from_be)
  then have "blob_le (mr_expires_at m) (u64_to_be_bytes (Timestamp_as_secs now))
      \<longleftrightarrow> u64_from_be_bytes (mr_expires_at m) \<le> Timestamp_as_secs now"
    by (metis blob_le_u64)
  then show ?thesis
    by (simp add: unexpired_def less_Timestamp_def not_le)
qed

lemma sorted_wrt_map_filter: "sorted_wrt P (map f xs) \<Longrightarrow> sorted_wrt P (map f (filter Q xs))"
  by (simp add: sorted_wrt_map sorted_wrt_filter)

lemma delete_expired_relay:
  assumes "rows_inv db" and "queues (db_relay db) qid = Some q"
    and "delete_expired qid (u64_to_be_bytes (Timestamp_as_secs now)) db = Inr ((), db')"
  shows "rows_inv db'" and "db_relay db' = put_queue qid (Queue_discard_expired now q) (db_relay db)"
proof -
  let ?dead = "\<lambda>m. mr_queue_id m = QueueId_bytes qid \<and> blob_le (mr_expires_at m) (u64_to_be_bytes (Timestamp_as_secs now))"
  have db': "db' = db\<lparr>db_messages := filter (\<lambda>m. \<not> ?dead m) (db_messages db)\<rparr>"
    using assms(3) by (simp add: delete_expired_def)
  show "rows_inv db'"
    using assms(1) by (auto simp: db' rows_inv_def sorted_wrt_map_filter)
  have "q_messages q = map row_message (message_rows qid db)"
    using assms(2) by (auto simp: queues_db_relay split: list.splits)
  moreover have "map row_message (message_rows qid db') = filter (unexpired now) (map row_message (message_rows qid db))"
    using assms(1) unfolding db' message_rows_def filter_map
    by (auto simp: rows_inv_def unexpired_row intro!: arg_cong [where f = "map row_message"] filter_cong)
  moreover have "message_rows x db' = message_rows x db" if "x \<noteq> qid" for x
    using that by (auto simp: db' message_rows_def intro!: filter_cong)
  ultimately show "db_relay db' = put_queue qid (Queue_discard_expired now q) (db_relay db)"
    unfolding Queue_discard_expired_def by (intro db_relay_update [OF assms(2)]) (simp_all add: db')
qed

lemma insert_message_relay:
  assumes inv: "rows_inv db" and q: "queues (db_relay db) qid = Some q" and rowid: "fresh_rowids E"
    and mid: "wf_MessageId mid" and fresh: "mid \<notin> qm_id ` set (q_messages q)"
  obtains db' where "insert_message E (QueueId_bytes qid) (MessageId_bytes mid) payload (u64_to_be_bytes t) db = Inr ((), db')"
    and "rows_inv db'"
    and "db_relay db' = put_queue qid (q\<lparr>q_messages := q_messages q @
       [\<lparr>qm_id = mid, qm_payload = payload, qm_expires_at = Timestamp t, qm_delivered = False\<rparr>]\<rparr>) (db_relay db)"
proof -
  let ?used = "map mr_sequence (db_messages db)"
  let ?row = "\<lparr>mr_sequence = en_rowid E ?used, mr_queue_id = QueueId_bytes qid, mr_message_id = MessageId_bytes mid,
      mr_payload = payload, mr_expires_at = u64_to_be_bytes t, mr_delivered = 0\<rparr>"
  let ?db = "db\<lparr>db_messages := db_messages db @ [?row]\<rparr>"
  obtain row where row: "queue_rows qid db = [row]" "row \<in> set (db_queues db)" "qr_queue_id row = QueueId_bytes qid"
    using queue_rows_found [OF inv, of qid] q by (auto simp: queues_db_relay)
  have msgs: "q_messages q = map row_message (message_rows qid db)"
    using q row by (auto simp: queues_db_relay)
  have exists: "QueueId_bytes qid \<in> qr_queue_id ` set (db_queues db)"
    using row by force
  have above: "\<forall>s \<in> set ?used. s < en_rowid E ?used"
    using rowid unfolding fresh_rowids_def by blast
  have unique: "\<forall>m \<in> set (db_messages db). mr_queue_id m = QueueId_bytes qid \<longrightarrow> mr_message_id m \<noteq> MessageId_bytes mid"
    using fresh by (force simp: msgs message_rows_def)
  have checks: "message_row_checks ?row"
    using mid by (simp add: message_row_checks_def wf_MessageId_def)
  have "insert_message E (QueueId_bytes qid) (MessageId_bytes mid) payload (u64_to_be_bytes t) db = Inr ((), ?db)"
    using exists above unique checks by (auto simp: insert_message_def constrained_def Let_def)
  moreover have "rows_inv ?db"
    using inv exists above checks by (auto simp: rows_inv_def sorted_wrt_append)
  moreover have "db_relay ?db = put_queue qid (q\<lparr>q_messages := q_messages q @
       [\<lparr>qm_id = mid, qm_payload = payload, qm_expires_at = Timestamp t, qm_delivered = False\<rparr>]\<rparr>) (db_relay db)"
  proof (rule db_relay_update [OF q])
    show "map row_message (message_rows qid ?db) = q_messages q @
        [\<lparr>qm_id = mid, qm_payload = payload, qm_expires_at = Timestamp t, qm_delivered = False\<rparr>]"
      by (simp add: message_rows_def msgs row_message_def)
  qed (simp_all add: message_rows_def)
  ultimately show ?thesis
    by (rule that)
qed

text \<open>Rowids are unique, so a statement that names one touches a single row.\<close>

lemma rows_inv_sequences: "rows_inv db \<Longrightarrow> distinct (map mr_sequence (db_messages db))"
  by (simp add: rows_inv_def strict_sorted_iff)

lemma touch_sequence:
  assumes "distinct (map mr_sequence ms)" and "filter P ms = m # rest"
  shows "filter P (map (\<lambda>x. if mr_sequence x = mr_sequence m then f x else x) ms)
      = (if P (f m) then f m # rest else rest)"
    and "filter P (filter (\<lambda>x. mr_sequence x \<noteq> mr_sequence m) ms) = rest"
proof -
  from assms(2) obtain us vs where ms: "ms = us @ m # vs" "\<forall>u \<in> set us. \<not> P u" "P m" "rest = filter P vs"
    by (auto simp: filter_eq_Cons_iff)
  have u: "mr_sequence x \<noteq> mr_sequence m" if "x \<in> set us \<union> set vs" for x
    using assms(1) that by (auto simp: ms(1) image_iff)
  have us: "map (\<lambda>x. if mr_sequence x = mr_sequence m then f x else x) us = us"
    and vs: "map (\<lambda>x. if mr_sequence x = mr_sequence m then f x else x) vs = vs"
    using u by (auto intro!: map_idI)
  show "filter P (map (\<lambda>x. if mr_sequence x = mr_sequence m then f x else x) ms)
      = (if P (f m) then f m # rest else rest)"
    using ms(2,4) by (simp add: ms(1) us vs)
  have "filter (\<lambda>x. mr_sequence x \<noteq> mr_sequence m) us = us" "filter (\<lambda>x. mr_sequence x \<noteq> mr_sequence m) vs = vs"
    using u by (auto intro!: filter_True)
  then show "filter P (filter (\<lambda>x. mr_sequence x \<noteq> mr_sequence m) ms) = rest"
    using ms(2,4) by (simp add: ms(1))
qed

lemma mark_delivered_relay:
  assumes inv: "rows_inv db" and q: "queues (db_relay db) qid = Some q"
    and rows: "message_rows qid db = m # rest" and db': "mark_delivered (mr_sequence m) db = Inr ((), db')"
  shows "rows_inv db'"
    and "db_relay db' = put_queue qid (q\<lparr>q_messages := (hd (q_messages q))\<lparr>qm_delivered := True\<rparr>
      # tl (q_messages q)\<rparr>) (db_relay db)"
proof -
  let ?f = "\<lambda>x. if mr_sequence x = mr_sequence m then x\<lparr>mr_delivered := 1\<rparr> else x"
  have eq: "db' = db\<lparr>db_messages := map ?f (db_messages db)\<rparr>"
    using db' by (simp add: mark_delivered_def)
  have seqs: "map mr_sequence (db_messages db') = map mr_sequence (db_messages db)"
    by (simp add: eq)
  show "rows_inv db'"
    using inv unfolding rows_inv_def seqs by (auto simp: eq message_row_checks_def)
  have m: "m \<in> set (db_messages db)" "mr_queue_id m = QueueId_bytes qid"
    using rows by (metis (mono_tags, lifting) list.set_intros(1) mem_Collect_eq message_rows_def set_filter)+
  have "message_rows qid db' = m\<lparr>mr_delivered := 1\<rparr> # rest"
    using touch_sequence(1) [OF rows_inv_sequences [OF inv], of "\<lambda>m. mr_queue_id m = QueueId_bytes qid" m rest] rows m(2)
    by (simp add: message_rows_def eq)
  moreover have "message_rows x db' = message_rows x db" if "x \<noteq> qid" for x
  proof -
    have "?f y = y" if "y \<in> set (db_messages db)" "mr_queue_id y = QueueId_bytes x" for y
      using that \<open>x \<noteq> qid\<close> m rows_inv_sequences [OF inv] by (auto simp: distinct_map inj_on_def)
    then have "filter (\<lambda>y. mr_queue_id y = QueueId_bytes x) (map ?f ms) = filter (\<lambda>y. mr_queue_id y = QueueId_bytes x) ms"
      if "set ms \<subseteq> set (db_messages db)" for ms
      using that by (induction ms) auto
    then show ?thesis by (simp add: message_rows_def eq)
  qed
  moreover have "row_message (m\<lparr>mr_delivered := 1\<rparr>) = (row_message m)\<lparr>qm_delivered := True\<rparr>"
    by (simp add: row_message_def)
  moreover have "q_messages q = map row_message (m # rest)"
    using q rows by (auto simp: queues_db_relay split: list.splits)
  ultimately show "db_relay db' = put_queue qid (q\<lparr>q_messages := (hd (q_messages q))\<lparr>qm_delivered := True\<rparr>
      # tl (q_messages q)\<rparr>) (db_relay db)"
    by (intro db_relay_update [OF q]) (simp_all add: eq)
qed

lemma delete_message_relay:
  assumes inv: "rows_inv db" and q: "queues (db_relay db) qid = Some q"
    and rows: "message_rows qid db = m # rest" and db': "delete_message (mr_sequence m) db = Inr ((), db')"
  shows "rows_inv db'"
    and "db_relay db' = put_queue qid (q\<lparr>q_messages := tl (q_messages q)\<rparr>) (db_relay db)"
proof -
  have eq: "db' = db\<lparr>db_messages := filter (\<lambda>x. mr_sequence x \<noteq> mr_sequence m) (db_messages db)\<rparr>"
    using db' by (simp add: delete_message_def)
  show "rows_inv db'"
    using inv by (auto simp: eq rows_inv_def sorted_wrt_map_filter)
  have m: "m \<in> set (db_messages db)" "mr_queue_id m = QueueId_bytes qid"
    using rows by (metis (mono_tags, lifting) list.set_intros(1) mem_Collect_eq message_rows_def set_filter)+
  have "message_rows qid db' = rest"
    using touch_sequence(2) [OF rows_inv_sequences [OF inv], of "\<lambda>m. mr_queue_id m = QueueId_bytes qid" m rest] rows
    by (simp add: message_rows_def eq)
  moreover have "message_rows x db' = message_rows x db" if "x \<noteq> qid" for x
  proof -
    have "mr_sequence y \<noteq> mr_sequence m" if "y \<in> set (db_messages db)" "mr_queue_id y = QueueId_bytes x" for y
      using that \<open>x \<noteq> qid\<close> m rows_inv_sequences [OF inv] by (auto simp: distinct_map inj_on_def)
    then show ?thesis
      by (auto simp: message_rows_def eq intro!: filter_cong)
  qed
  moreover have "q_messages q = map row_message (m # rest)"
    using q rows by (auto simp: queues_db_relay split: list.splits)
  ultimately show "db_relay db' = put_queue qid (q\<lparr>q_messages := tl (q_messages q)\<rparr>) (db_relay db)"
    by (intro db_relay_update [OF q]) (simp_all add: eq)
qed

lemma delete_queue_relay:
  assumes inv: "rows_inv db" and db': "delete_queue_rows qid db = Inr ((), db')"
  shows "rows_inv db'" and "db_relay db' = (db_relay db)\<lparr>queues := (queues (db_relay db))(qid := None)\<rparr>"
proof -
  have eq: "db' = db\<lparr>db_queues := filter (\<lambda>r. qr_queue_id r \<noteq> QueueId_bytes qid) (db_queues db),
      db_messages := filter (\<lambda>m. mr_queue_id m \<noteq> QueueId_bytes qid) (db_messages db)\<rparr>"
    using db' by (simp add: delete_queue_rows_def)
  have "distinct (map f xs) \<Longrightarrow> distinct (map f (filter P xs))" for f :: "QueueRow \<Rightarrow> bytes" and P xs
    by (induction xs) auto
  then show "rows_inv db'"
    using inv by (auto simp: eq rows_inv_def sorted_wrt_map_filter)
  have "queue_rows qid db' = []"
    by (simp add: queue_rows_def eq)
  moreover have "queue_rows x db' = queue_rows x db" "message_rows x db' = message_rows x db" if "x \<noteq> qid" for x
    using that by (auto simp: queue_rows_def message_rows_def eq intro!: filter_cong)
  ultimately show "db_relay db' = (db_relay db)\<lparr>queues := (queues (db_relay db))(qid := None)\<rparr>"
    by (intro Relay_eqI) (auto simp: queues_db_relay split: list.splits)
qed

lemma insert_queue_relay:
  assumes inv: "rows_inv db" and q: "queues (db_relay db) qid = None"
    and wf: "wf_event (EvCreate qid config)"
    and row: "row = \<lparr>qr_queue_id = QueueId_bytes qid, qr_sender = Principal_bytes (qc_sender config),
      qr_recipient = Principal_bytes (qc_recipient config),
      qr_max_messages = u64_to_be_bytes (rl_max_messages (qc_limits config)),
      qr_max_message_bytes = u64_to_be_bytes (rl_max_message_bytes (qc_limits config))\<rparr>"
  obtains db' where "insert_queue row db = Inr ((), db')" and "rows_inv db'"
    and "db_relay db' = put_queue qid \<lparr>q_config = config, q_messages = []\<rparr> (db_relay db)"
proof -
  let ?db = "db\<lparr>db_queues := db_queues db @ [row]\<rparr>"
  have absent: "queue_rows qid db = []"
    using q by (auto simp: queues_db_relay split: list.splits)
  then have new: "qr_queue_id row \<notin> qr_queue_id ` set (db_queues db)"
    by (auto simp: queue_rows_def filter_empty_conv row)
  have checks: "wf_queue_row row"
    using wf by (simp add: wf_queue_row_def queue_row_checks_def row wf_QueueId_def wf_Principal_def)
  have "insert_queue row db = Inr ((), ?db)"
    using new checks by (simp add: insert_queue_def constrained_def wf_queue_row_def)
  moreover have "rows_inv ?db"
    using inv new checks by (auto simp: rows_inv_def)
  moreover have "db_relay ?db = put_queue qid \<lparr>q_config = config, q_messages = []\<rparr> (db_relay db)"
  proof (rule Relay_eqI)
    fix x
    have "message_rows qid db = []"
      using inv absent by (fastforce simp: rows_inv_def message_rows_def queue_rows_def filter_empty_conv)
    moreover have "row_config row = config"
      by (simp add: row_config_def row)
    moreover have "queue_rows x ?db = queue_rows x db @ (if x = qid then [row] else [])" "message_rows x ?db = message_rows x db"
      by (simp_all add: queue_rows_def message_rows_def row)
    ultimately show "queues (db_relay ?db) x = queues (put_queue qid \<lparr>q_config = config, q_messages = []\<rparr> (db_relay db)) x"
      using absent by (auto simp: queues_db_relay split: list.splits)
  qed
  ultimately show ?thesis
    by (rule that)
qed

end
