(* ===== verification/CW_Durable_Refines.thy ===== *)
theory CW_Durable_Refines
  imports CW_Durable
begin

text \<open>
  The durable relay against the in-memory relay and the mailbox specification. On an engine without
  faults every operation does what the in-memory one does, so it implements the specification; with
  faults, a run answers the commands that were not aborted exactly as the specification does.
\<close>

section \<open>On a faultless engine the durable operations simulate the in-memory ones\<close>

definition bump :: "Connection \<Rightarrow> Connection" where
  "bump c = c\<lparr>cn_calls := cn_calls c + 1\<rparr>"

definition moved :: "Connection \<Rightarrow> Db \<Rightarrow> Connection" where
  "moved c db = \<lparr>cn_db = db, cn_calls = cn_calls c + 1\<rparr>"

lemma cn_db_after [simp]: "cn_db (bump c) = cn_db c" "cn_db (moved c db) = db"
  by (simp_all add: bump_def moved_def)

lemma sql_exec_faultless:
  "sql_exec (faultless E) stmt c = (case stmt (cn_db c) of
     Inl e \<Rightarrow> (Inl (DurableRelayError_from e), bump c) | Inr (x, db) \<Rightarrow> (Inr x, moved c db))"
  by (simp add: sql_exec_def sql_call_def tx_map_err_def bump_def moved_def split: sum.split)

lemma tx_run_simps [simp]:
  "tx_return x c = (Inr x, c)" "tx_fail e c = (Inl e, c)" "tx_res r c = (r, c)"
  by (simp_all add: tx_return_def tx_fail_def tx_res_def)

lemma moved_same: "moved c (cn_db c) = bump c"
  by (simp add: moved_def bump_def)

lemma read_queue_faultless:
  assumes "rows_inv (cn_db c)"
  shows "read_queue (faultless E) qid c
    = (Inr (map_option q_config (queues (db_relay (cn_db c)) qid)), bump c)"
proof -
  consider (none) "queue_rows qid (cn_db c) = []"
    | (some) row where "queue_rows qid (cn_db c) = [row]" "wf_queue_row row"
    using queue_rows_found [OF assms] by blast
  then show ?thesis
  proof cases
    case none
    then show ?thesis
      by (simp add: read_queue_def sql_exec_faultless query_optional_def queues_db_relay moved_same)
  next
    case some
    then show ?thesis
      by (simp add: read_queue_def sql_exec_faultless query_optional_def queues_db_relay moved_same
          wf_queue_row_def queue_row_checks_def blob_u64_def blob_32_def u64_to_usize_def RelayQueueLimits_new_def
          row_config_def)
  qed
qed

lemma authorize_recipient_faultless:
  assumes "rows_inv (cn_db c)"
  shows "authorize_recipient (faultless E) qid p c
    = (case recipient_queue qid p (db_relay (cn_db c)) of
         Inl e \<Rightarrow> (Inl (DrRelay e), bump c) | Inr _ \<Rightarrow> (Inr (), bump c))"
  by (cases "queues (db_relay (cn_db c)) qid")
    (simp_all add: authorize_recipient_def tx_bind_def read_queue_faultless [OF assms] recipient_queue_def)

lemma discard_expired_faultless:
  assumes "rows_inv (cn_db c)" and "queues (db_relay (cn_db c)) qid = Some q"
  obtains db' where "discard_expired (faultless E) qid now c = (Inr (), moved c db')"
    and "rows_inv db'" and "db_relay db' = put_queue qid (Queue_discard_expired now q) (db_relay (cn_db c))"
proof -
  obtain db' where db': "delete_expired qid (u64_to_be_bytes (Timestamp_as_secs now)) (cn_db c) = Inr ((), db')"
    by (simp add: delete_expired_def)
  then show ?thesis
    using that delete_expired_relay [OF assms db'] by (simp add: discard_expired_def sql_exec_faultless)
qed

text \<open>
  How a durable operation answers the in-memory one: the same refusal, or the same value with tables
  that stand for the new in-memory state.
\<close>

definition simulates :: "'a relay_result \<Rightarrow> (DurableRelayError, 'a) result \<times> Connection \<Rightarrow> bool" where
  "simulates p q = (case fst p of
     Inl e \<Rightarrow> fst q = Inl (DrRelay e)
   | Inr x \<Rightarrow> fst q = Inr x \<and> rows_inv (cn_db (snd q)) \<and> db_relay (cn_db (snd q)) = snd p)"

lemma simulates_simps [simp]:
  "simulates (Inl e, r) (Inl e', c) \<longleftrightarrow> e' = DrRelay e"
  "simulates (Inr x, r) (Inr y, c) \<longleftrightarrow> y = x \<and> rows_inv (cn_db c) \<and> db_relay (cn_db c) = r"
  by (auto simp: simulates_def)

lemma row_config_eq_iff:
  "row_config row = config \<longleftrightarrow> qr_sender row = Principal_bytes (qc_sender config)
     \<and> qr_recipient row = Principal_bytes (qc_recipient config)
     \<and> u64_from_be_bytes (qr_max_messages row) = rl_max_messages (qc_limits config)
     \<and> u64_from_be_bytes (qr_max_message_bytes row) = rl_max_message_bytes (qc_limits config)"
proof -
  have "Principal a = b \<longleftrightarrow> a = Principal_bytes b" for a b
    by (cases b) simp
  then show ?thesis
    by (cases config; cases "qc_limits config") (auto simp: row_config_def)
qed

lemma create_queue_tx_simulates:
  assumes inv: "rows_inv (cn_db c)" and wf: "wf_event (EvCreate qid config)"
  shows "simulates (Relay_create_queue qid config (db_relay (cn_db c))) (create_queue_tx (faultless E) qid config c)"
proof -
  consider (none) "queue_rows qid (cn_db c) = []"
    | (some) row where "queue_rows qid (cn_db c) = [row]" "wf_queue_row row"
    using queue_rows_found [OF inv] by blast
  then show ?thesis
  proof cases
    case none
    then have absent: "queues (db_relay (cn_db c)) qid = None"
      by (simp add: queues_db_relay)
    obtain db' where "insert_queue \<lparr>qr_queue_id = QueueId_bytes qid, qr_sender = Principal_bytes (qc_sender config),
        qr_recipient = Principal_bytes (qc_recipient config),
        qr_max_messages = u64_to_be_bytes (rl_max_messages (qc_limits config)),
        qr_max_message_bytes = u64_to_be_bytes (rl_max_message_bytes (qc_limits config))\<rparr> (cn_db c) = Inr ((), db')"
      and "rows_inv db'" "db_relay db' = put_queue qid \<lparr>q_config = config, q_messages = []\<rparr> (db_relay (cn_db c))"
      by (rule insert_queue_relay [OF inv absent wf refl])
    with none absent show ?thesis
      by (simp add: create_queue_tx_def tx_bind_def sql_exec_faultless query_optional_def moved_same
          usize_to_u64_def Relay_create_queue_def)
  next
    case some
    then have "queues (db_relay (cn_db c)) qid
        = Some \<lparr>q_config = row_config row, q_messages = map row_message (message_rows qid (cn_db c))\<rparr>"
      by (simp add: queues_db_relay)
    with some inv show ?thesis
      by (simp add: create_queue_tx_def tx_bind_def sql_exec_faultless query_optional_def moved_same
          usize_to_u64_def Relay_create_queue_def wf_queue_row_def queue_row_checks_def blob_u64_def blob_32_def
          row_config_eq_iff)
  qed
qed

text \<open>Reading the current message after the expired ones are gone.\<close>

lemma current_row_checks:
  assumes "rows_inv db" and "message_rows qid db = m # rest"
  shows "message_row_checks m"
proof -
  have "m \<in> set (db_messages db)"
    using assms(2) by (metis list.set_intros(1) filter_is_subset message_rows_def subsetD)
  then show ?thesis
    using assms(1) by (simp add: rows_inv_def)
qed

lemma message_rows_of_queue:
  "queues (db_relay db) qid = Some q \<Longrightarrow> q_messages q = map row_message (message_rows qid db)"
  by (auto simp: queues_db_relay split: list.splits)

lemma recipient_prologue:
  assumes inv: "rows_inv (cn_db c)" and rq: "recipient_queue qid p (db_relay (cn_db c)) = Inr q"
  obtains db where "authorize_recipient (faultless E) qid p c = (Inr (), bump c)"
    and "discard_expired (faultless E) qid now (bump c) = (Inr (), moved (bump c) db)"
    and "rows_inv db" and "db_relay db = put_queue qid (Queue_discard_expired now q) (db_relay (cn_db c))"
    and "queues (db_relay db) qid = Some (Queue_discard_expired now q)"
    and "map row_message (message_rows qid db) = q_messages (Queue_discard_expired now q)"
proof -
  have q: "queues (db_relay (cn_db (bump c))) qid = Some q" and inv': "rows_inv (cn_db (bump c))"
    using inv rq by (simp_all add: recipient_queue_Inr)
  obtain db where d: "discard_expired (faultless E) qid now (bump c) = (Inr (), moved (bump c) db)"
    and db: "rows_inv db" "db_relay db = put_queue qid (Queue_discard_expired now q) (db_relay (cn_db c))"
    using discard_expired_faultless [OF inv' q] by (metis cn_db_after(1))
  then have q': "queues (db_relay db) qid = Some (Queue_discard_expired now q)"
    by simp
  show ?thesis
    using that [OF _ d db q'] message_rows_of_queue [OF q'] rq
    by (simp add: authorize_recipient_faultless [OF inv])
qed

lemmas durable_run_simps = tx_bind_def sql_exec_faultless query_optional_def message_row_checks_def
  blob_32_def blob_u64_def

lemma fetch_tx_simulates:
  assumes inv: "rows_inv (cn_db c)"
  shows "simulates (Relay_fetch qid p now (db_relay (cn_db c))) (fetch_tx (faultless E) qid p now c)"
proof (cases "recipient_queue qid p (db_relay (cn_db c))")
  case (Inl e)
  then show ?thesis
    by (simp add: fetch_tx_def tx_bind_def authorize_recipient_faultless [OF inv] Relay_fetch_def)
next
  case (Inr q)
  obtain db where pro: "authorize_recipient (faultless E) qid p c = (Inr (), bump c)"
      "discard_expired (faultless E) qid now (bump c) = (Inr (), moved (bump c) db)"
    and db: "rows_inv db" "db_relay db = put_queue qid (Queue_discard_expired now q) (db_relay (cn_db c))"
      "queues (db_relay db) qid = Some (Queue_discard_expired now q)"
      "map row_message (message_rows qid db) = q_messages (Queue_discard_expired now q)"
    using recipient_prologue [OF inv Inr] by metis
  show ?thesis
  proof (cases "message_rows qid db")
    case Nil
    then show ?thesis
      using Inr pro db by (simp add: fetch_tx_def Relay_fetch_def durable_run_simps current_rows_eq del: discard_simps)
  next
    case (Cons m rest)
    obtain db' where db': "mark_delivered (mr_sequence m) db = Inr ((), db')"
      by (simp add: mark_delivered_def)
    show ?thesis
      using Inr pro db Cons db' mark_delivered_relay [OF db(1,3) Cons db'] current_row_checks [OF db(1) Cons]
      by (auto simp: fetch_tx_def Relay_fetch_def Let_def durable_run_simps current_rows_eq row_message_def
          simp del: discard_simps split: list.split)
  qed
qed

lemma acknowledge_tx_simulates:
  assumes inv: "rows_inv (cn_db c)"
  shows "simulates (Relay_acknowledge qid p mid now (db_relay (cn_db c))) (acknowledge_tx (faultless E) qid p mid now c)"
proof (cases "recipient_queue qid p (db_relay (cn_db c))")
  case (Inl e)
  then show ?thesis
    by (simp add: acknowledge_tx_def tx_bind_def authorize_recipient_faultless [OF inv] Relay_acknowledge_def)
next
  case (Inr q)
  obtain db where pro: "authorize_recipient (faultless E) qid p c = (Inr (), bump c)"
      "discard_expired (faultless E) qid now (bump c) = (Inr (), moved (bump c) db)"
    and db: "rows_inv db" "db_relay db = put_queue qid (Queue_discard_expired now q) (db_relay (cn_db c))"
      "queues (db_relay db) qid = Some (Queue_discard_expired now q)"
      "map row_message (message_rows qid db) = q_messages (Queue_discard_expired now q)"
    using recipient_prologue [OF inv Inr] by metis
  show ?thesis
  proof (cases "message_rows qid db")
    case Nil
    then show ?thesis
      using Inr pro db
      by (simp add: acknowledge_tx_def Relay_acknowledge_def durable_run_simps current_rows_eq Let_def del: discard_simps)
  next
    case (Cons m rest)
    obtain db' where db': "delete_message (mr_sequence m) db = Inr ((), db')"
      by (simp add: delete_message_def)
    have id: "MessageId a = mid \<longleftrightarrow> a = MessageId_bytes mid" for a
      by (cases mid) simp
    have msgs: "q_messages (Queue_discard_expired now q) = row_message m # map row_message rest"
      using db(4) Cons by simp
    note gone = delete_message_relay [OF db(1,3) Cons db', unfolded db(2) msgs]
    have checks: "length (mr_message_id m) = 32"
      using current_row_checks [OF db(1) Cons] by (simp add: message_row_checks_def)
    show ?thesis
      using Inr Cons db' gone checks
      by (simp add: acknowledge_tx_def Relay_acknowledge_def Let_def durable_run_simps current_rows_eq [OF db(1)]
          pro msgs id del: discard_simps)
  qed
qed

lemma delete_queue_tx_simulates:
  assumes inv: "rows_inv (cn_db c)"
  shows "simulates (Relay_delete_queue qid p (db_relay (cn_db c))) (delete_queue_tx (faultless E) qid p c)"
proof -
  obtain db' where db': "delete_queue_rows qid (cn_db c) = Inr ((), db')"
    by (simp add: delete_queue_rows_def)
  show ?thesis
    using delete_queue_relay [OF inv db'] db'
    by (auto simp: delete_queue_tx_def tx_bind_def authorize_recipient_faultless [OF inv] recipient_queue_def
        Relay_delete_queue_def sql_exec_faultless split: option.split)
qed

lemma find_filter: "find P xs = (case filter P xs of [] \<Rightarrow> None | x # _ \<Rightarrow> Some x)"
  by (induction xs) auto

lemma send_tx_simulates:
  assumes inv: "db_inv (cn_db c)" and E: "fresh_rowids E" and mid: "wf_MessageId mid"
  shows "simulates (Relay_send qid s mid payload now ttl (db_relay (cn_db c)))
    (send_tx (faultless E) qid s mid payload now ttl c)"
proof -
  have rows: "rows_inv (cn_db c)"
    using inv by (simp add: db_inv_def)
  show ?thesis
  proof (cases "queues (db_relay (cn_db c)) qid")
    case None
    then show ?thesis
      by (simp add: send_tx_def tx_bind_def read_queue_faultless [OF rows] Relay_send_def)
  next
    case (Some q)
    let ?q = "Queue_discard_expired now q"
    have inv': "rows_inv (cn_db (bump c))" and q': "queues (db_relay (cn_db (bump c))) qid = Some q"
      using rows Some by simp_all
    obtain db where d: "discard_expired (faultless E) qid now (bump c) = (Inr (), moved (bump c) db)"
      and db: "rows_inv db" "db_relay db = put_queue qid ?q (db_relay (cn_db c))"
      using discard_expired_faultless [OF inv' q'] by (metis cn_db_after(1))
    have q: "queues (db_relay db) qid = Some ?q"
      using db(2) by simp
    have msgs: "q_messages ?q = map row_message (message_rows qid db)"
      by (rule message_rows_of_queue [OF q])
    have "length (q_messages q) \<le> unat (rl_max_messages (qc_limits (q_config q)))"
      using inv Some by (auto simp: db_inv_def relay_inv_def queue_inv_def)
    then have "length (q_messages ?q) \<le> u64_max"
      using unat_u64_le_max [of "rl_max_messages (qc_limits (q_config q))"]
        length_filter_le [of "unexpired now" "q_messages q"] unfolding discard_simps by linarith
    then have count: "(rl_max_messages (qc_limits (q_config q)) \<le> of_nat (length (message_rows qid db)))
        \<longleftrightarrow> unat (rl_max_messages (qc_limits (q_config q))) \<le> length (q_messages ?q)"
      by (simp add: msgs word_le_nat_alt unat_of_nat u64_max_def del: discard_simps)
    have id: "MessageId a = mid \<longleftrightarrow> a = MessageId_bytes mid" for a
      by (cases mid) simp
    have found: "find (\<lambda>m. qm_id m = mid) (q_messages ?q)
        = (case filter (\<lambda>m. mr_message_id m = MessageId_bytes mid) (message_rows qid db) of
             [] \<Rightarrow> None | m # _ \<Rightarrow> Some (row_message m))"
      by (simp add: msgs find_filter filter_map comp_def id split: list.split del: discard_simps)
    show ?thesis
    proof (cases "filter (\<lambda>m. mr_message_id m = MessageId_bytes mid) (message_rows qid db)")
      case (Cons m ms)
      then show ?thesis
        using Some d db found by (simp add: send_tx_def Relay_send_def Let_def durable_run_simps
            read_queue_faultless [OF rows] del: discard_simps(2))
    next
      case Nil
      then have fresh: "mid \<notin> qm_id ` set (q_messages ?q)"
        using found by (simp add: find_None_id del: discard_simps)
      obtain db' where "insert_message E (QueueId_bytes qid) (MessageId_bytes mid) payload
          (u64_to_be_bytes (Timestamp_as_secs now + RelayTtl_as_secs ttl)) db = Inr ((), db')"
        and "rows_inv db'" "db_relay db' = put_queue qid (?q\<lparr>q_messages := q_messages ?q @
          [\<lparr>qm_id = mid, qm_payload = payload, qm_expires_at = Timestamp (Timestamp_as_secs now + RelayTtl_as_secs ttl),
            qm_delivered = False\<rparr>]\<rparr>) (db_relay db)"
        by (rule insert_message_relay [OF db(1) q E mid fresh])
      with Nil show ?thesis
        using Some d db found count by (simp add: send_tx_def Relay_send_def Let_def durable_run_simps
            read_queue_faultless [OF rows] usize_to_u64_def checked_add_def del: discard_simps(2))
    qed
  qed
qed

section \<open>The durable relay implements the mailbox specification\<close>

lemma tx_map_err_id [simp]: "tx_map_err id m = m"
  by (auto simp: tx_map_err_def map_err_def fun_eq_iff split: prod.split sum.split)

lemma in_transaction_faultless:
  "in_transaction (faultless E) id body c = (case body (bump c) of
     (Inl e, c') \<Rightarrow> (Inl e, rollback_to c c') | (Inr x, c') \<Rightarrow> (Inr x, bump c'))"
proof -
  have ends: "begin_tx (faultless E) c = (Inr (), bump c)" "commit_tx (faultless E) c = (Inr (), bump c)" for c
    by (simp_all add: begin_tx_def commit_tx_def sql_exec_faultless moved_same)
  show ?thesis
    by (simp add: in_transaction_def or_rollback_def tx_bind_def ends split: prod.split sum.split)
qed

definition step_simulates :: "RelayOutcome \<times> Relay \<Rightarrow> Connection \<Rightarrow> RelayOutcome option \<times> Connection \<Rightarrow> bool" where
  "step_simulates p c q \<longleftrightarrow> fst q = Some (fst p) \<and> db_inv (cn_db (snd q))
     \<and> (db_relay (cn_db (snd q)) = snd p \<or> (\<exists>e. fst p = OutErr e) \<and> cn_db (snd q) = cn_db c)"

lemma committed_simulates:
  assumes "simulates p (body (bump c))" and "db_inv (cn_db c)" and "relay_inv (snd p)"
  shows "step_simulates (outcome_of h p) c (with_outcome h (in_transaction (faultless E) id body) c)"
  using assms
  by (cases "body (bump c)"; cases "fst p"; cases p)
    (auto simp: simulates_def step_simulates_def with_outcome_def in_transaction_faultless durable_outcome_def
      outcome_of_def rollback_to_def db_inv_def)

lemma durable_step_simulates:
  assumes "db_inv (cn_db c)" and "fresh_rowids E" and "wf_event ev"
  shows "step_simulates (relay_step (db_relay (cn_db c)) (now, ev)) c (durable_step (faultless E) c (now, ev))"
proof -
  have rows: "rows_inv (cn_db (bump c))" and inv: "db_inv (cn_db (bump c))"
    and relay: "relay_inv (db_relay (cn_db c))"
    using assms(1) by (simp_all add: db_inv_def)
  show ?thesis
  proof (cases ev)
    case (EvCreate q cfg)
    then show ?thesis
      using committed_simulates [OF _ assms(1) Relay_create_inv [OF relay]]
        create_queue_tx_simulates [OF rows] assms(3) by (simp add: DurableRelay_create_queue_def)
  next
    case (EvSend q s mid payload ttl)
    then show ?thesis
      using committed_simulates [OF _ assms(1) Relay_send_inv [OF relay]]
        send_tx_simulates [OF inv assms(2)] assms(3) by (simp add: DurableRelay_send_def)
  next
    case (EvFetch q p)
    then show ?thesis
      using committed_simulates [OF _ assms(1) Relay_fetch_inv [OF relay]] fetch_tx_simulates [OF rows]
      by (simp add: DurableRelay_fetch_def)
  next
    case (EvAck q p mid)
    then show ?thesis
      using committed_simulates [OF _ assms(1) Relay_acknowledge_inv [OF relay]] acknowledge_tx_simulates [OF rows]
      by (simp add: DurableRelay_acknowledge_def)
  next
    case (EvDelete q p)
    then show ?thesis
      using committed_simulates [OF _ assms(1) Relay_delete_inv [OF relay]] delete_queue_tx_simulates [OF rows]
      by (simp add: DurableRelay_delete_queue_def)
  qed
qed

definition durable_view :: "Timestamp \<Rightarrow> Connection \<Rightarrow> Mailboxes" where
  "durable_view now c = relay_view now (db_relay (cn_db c))"

lemma durable_step_refines:
  assumes "db_inv (cn_db c)" and "fresh_rowids E" and "wf_event ev"
  shows "spec_step (durable_view now c) (now, ev)
    = (the (fst (durable_step (faultless E) c (now, ev))), durable_view now (snd (durable_step (faultless E) c (now, ev))))"
proof -
  let ?r = "db_relay (cn_db c)"
  have relay: "relay_inv ?r"
    using assms(1) by (simp add: db_inv_def)
  have sim: "step_simulates (relay_step ?r (now, ev)) c (durable_step (faultless E) c (now, ev))"
    by (rule durable_step_simulates [OF assms])
  have err: "relay_view now (snd (relay_step ?r (now, ev))) = relay_view now ?r" if "fst (relay_step ?r (now, ev)) = OutErr e" for e
    by (rule relay_store.error_keeps_view [OF relay TrueI that])
  have "spec_step (relay_view now ?r) (now, ev)
      = (fst (relay_step ?r (now, ev)), relay_view now (snd (relay_step ?r (now, ev))))"
    by (rule relay_step_refines [OF relay])
  then show ?thesis
    using sim err by (auto simp: step_simulates_def durable_view_def)
qed

text \<open>The relay service on an engine without faults, with its answers as outcomes.\<close>

definition faultless_step :: "Engine \<Rightarrow> Connection \<Rightarrow> Timestamp \<times> RelayEvent \<Rightarrow> RelayOutcome \<times> Connection" where
  "faultless_step E c e = (the (fst (durable_step (faultless E) c e)), snd (durable_step (faultless E) c e))"

definition fresh_connection :: Connection where
  "fresh_connection = \<lparr>cn_db = empty_db, cn_calls = 0\<rparr>"

definition max_rowid_engine :: Engine where
  "max_rowid_engine = \<lparr>en_fault = (\<lambda>_. None), en_rowid = (\<lambda>used. foldr max used 0 + 1),
     en_scan = id\<rparr>"

lemma max_rowid_engine_fresh: "fresh_rowids max_rowid_engine"
proof -
  have "s < foldr max used 0 + 1" if "s \<in> set used" for used and s :: int
    using that by (induction used) auto
  then show ?thesis
    by (simp add: fresh_rowids_def max_rowid_engine_def)
qed

lemma db_relay_empty: "db_relay empty_db = Relay_new"
  by (simp add: db_relay_def empty_db_def queue_rows_def Relay_new_def)

lemma db_inv_empty: "db_inv empty_db"
  using relay_reachable_inv [OF reach_new]
  by (simp add: db_inv_def rows_inv_def db_relay_empty) (simp add: empty_db_def)

locale fresh_engine =
  fixes E :: Engine
  assumes fresh: "fresh_rowids E"

sublocale fresh_engine \<subseteq> mailbox_service "faultless_step E" durable_view "\<lambda>c. db_inv (cn_db c)" wf_event fresh_connection
proof unfold_locales
  show "db_inv (cn_db (snd (faultless_step E s (now, ev))))" if "db_inv (cn_db s)" "wf_event ev" for s ev now
    using durable_step_simulates [OF that(1) fresh that(2)] by (simp add: faultless_step_def step_simulates_def)
  show "age now (durable_view t s) = durable_view now s" if "db_inv (cn_db s)" "t \<le> now" for s t now
    using that by (simp add: durable_view_def db_inv_def relay_view_ages)
  show "spec_step (durable_view now s) (now, ev) = (fst (faultless_step E s (now, ev)), durable_view now (snd (faultless_step E s (now, ev))))"
    if "db_inv (cn_db s)" "wf_event ev" for s ev now
    using durable_step_refines [OF that(1) fresh that(2)] by (simp add: faultless_step_def)
  show "db_inv (cn_db fresh_connection)"
    by (simp add: fresh_connection_def db_inv_empty)
  show "durable_view t fresh_connection = Map.empty" for t
    by (auto simp: durable_view_def fresh_connection_def db_relay_empty relay_view_def Relay_new_def)
  show "distinct (map rd_id (items_of (durable_view now c) q))" if "db_inv (cn_db c)" for c now q
    using that unfolding durable_view_def db_inv_def by (intro relay_store.unique) simp
qed

context fresh_engine
begin

lemmas durable_outcomes = service_outcomes
lemmas durable_send_holds = send_holds
lemmas durable_drain = drain_pending
lemmas durable_holds_at = holds_at
lemmas durable_faultless_keeps = step_keeps

end

interpretation durable_store: fresh_engine max_rowid_engine
  by unfold_locales (rule max_rowid_engine_fresh)

section \<open>Runs under faults\<close>

text \<open>The commands that got an answer, and the answers.\<close>

definition answered :: "'e list \<Rightarrow> 'o option list \<Rightarrow> 'e list" where
  "answered es outs = map fst (filter (\<lambda>p. snd p \<noteq> None) (zip es outs))"

definition answers :: "'o option list \<Rightarrow> 'o list" where
  "answers outs = map the (filter (\<lambda>x. x \<noteq> None) outs)"

lemma answered_simps [simp]:
  "answered [] outs = []" "answered (e # es) (Some x # outs) = e # answered es outs"
  "answered (e # es) (None # outs) = answered es outs"
  "answers [] = []" "answers (Some x # outs) = x # answers outs" "answers (None # outs) = answers outs"
  by (simp_all add: answered_def answers_def)

lemma durable_step_db:
  assumes "cn_db c = cn_db c'"
  shows "durable_view now c = durable_view now c'"
  using assms by (simp add: durable_view_def)

lemma durable_run_refines:
  assumes "db_inv (cn_db c)" and "fresh_rowids E" and "clock_ordered t es"
    and "\<forall>e \<in> set es. wf_event (snd e)" and "\<And>now. t \<le> now \<Longrightarrow> age now M = durable_view now c"
  defines "outs \<equiv> fst (run_steps (durable_step E) c es)"
    and "c' \<equiv> snd (run_steps (durable_step E) c es)"
  shows "fst (run_steps spec_step M (answered es outs)) = answers outs \<and> db_inv (cn_db c')
    \<and> (\<forall>now \<ge> last_time t es. age now (snd (run_steps spec_step M (answered es outs))) = durable_view now c')"
  using assms(1,3-5) unfolding outs_def c'_def
proof (induction es arbitrary: c t M)
  case Nil
  then show ?case by simp
next
  case (Cons e es)
  obtain now ev where e: "e = (now, ev)" by (cases e)
  let ?o = "fst (durable_step E c e)" and ?c = "snd (durable_step E c e)"
  have ev: "wf_event ev" and le: "t \<le> now" and clk: "clock_ordered now es" and evs: "\<forall>e \<in> set es. wf_event (snd e)"
    using Cons.prems e by auto
  show ?case
  proof (cases ?o)
    case None
    then have db: "cn_db ?c = cn_db c"
      using durable_step_faults [of E c e] durable_step_simulates [OF Cons.prems(1) assms(2) ev, of now]
      by (auto simp: e step_simulates_def)
    have "age x M = durable_view x ?c" if "now \<le> x" for x
      using Cons.prems(4) [of x] le that db by (simp add: durable_view_def)
    with Cons.IH [of ?c now M] Cons.prems(1) clk evs db None e show ?thesis
      by (simp add: run_steps_Cons del: run_steps.simps(2) durable_step.simps)
  next
    case (Some out)
    then have same: "fst (durable_step (faultless E) c e) = Some out"
        "cn_db ?c = cn_db (snd (durable_step (faultless E) c e))"
      using durable_step_faults [of E c e] by auto
    have view: "durable_view x ?c = durable_view x (snd (durable_step (faultless E) c e))" for x
      by (rule durable_step_db [OF same(2)])
    have inv: "db_inv (cn_db ?c)"
      using durable_step_simulates [OF Cons.prems(1) assms(2) ev, of now] same(2) by (simp add: e step_simulates_def)
    have "spec_step M e = spec_step (durable_view now c) e"
      using Cons.prems(4) [of now] le Cons.prems(1)
      by (simp add: spec_step_eq e durable_view_def relay_view_ages db_inv_def)
    also have "\<dots> = (out, durable_view now ?c)"
      using durable_step_refines [OF Cons.prems(1) assms(2) ev, of now] same view by (simp add: e)
    finally have step: "spec_step M e = (out, durable_view now ?c)" .
    have "age x (durable_view now ?c) = durable_view x ?c" if "now \<le> x" for x
      using inv that by (simp add: durable_view_def db_inv_def relay_view_ages)
    with Cons.IH [of ?c now "durable_view now ?c"] inv clk evs Some step e show ?thesis
      by (simp add: run_steps_Cons del: run_steps.simps(2) durable_step.simps)
  qed
qed

lemma fresh_connection_ages: "age now Map.empty = durable_view now fresh_connection"
  by (auto simp: durable_view_def fresh_connection_def db_relay_empty relay_view_def Relay_new_def)

lemma fresh_connection_inv: "db_inv (cn_db fresh_connection)"
  by (simp add: fresh_connection_def db_inv_empty)

text \<open>The invariant, and what is held, through runs with any faults and any clock.\<close>

lemma durable_step_inv:
  assumes "db_inv (cn_db c)" and "fresh_rowids E" and "wf_event ev"
  shows "db_inv (cn_db (snd (durable_step E c (now, ev))))"
  using durable_step_faults [of E c "(now, ev)"] durable_step_simulates [OF assms, of now] assms(1)
  by (auto simp: step_simulates_def)

lemma durable_run_inv:
  assumes "db_inv (cn_db c)" and "fresh_rowids E" and "\<forall>e \<in> set es. wf_event (snd e)"
  shows "db_inv (cn_db (snd (run_steps (durable_step E) c es)))"
  using assms(1,3)
proof (induction es arbitrary: c)
  case (Cons e es)
  then show ?case
    using durable_step_inv [OF Cons.prems(1) assms(2), of "snd e" "fst e"]
    by (simp add: run_steps_Cons del: run_steps.simps(2) durable_step.simps)
qed simp

lemma durable_step_keeps:
  assumes "db_inv (cn_db c)" and "fresh_rowids E" and "wf_event ev" and "holds_for p (durable_view t c) q d"
    and "due now d"
    and rel: "\<And>out. fst (durable_step E c (now, ev)) = Some out \<Longrightarrow> \<not> releases p q (rd_id d) (ev, out)"
  shows "holds_for p (durable_view now (snd (durable_step E c (now, ev)))) q d"
proof (cases "fst (durable_step E c (now, ev))")
  case None
  then have "cn_db (snd (durable_step E c (now, ev))) = cn_db c"
    using durable_step_faults [of E c "(now, ev)"] durable_step_simulates [OF assms(1-3), of now]
    by (auto simp: step_simulates_def)
  moreover have "holds_for p (durable_view now c) q d"
    by (rule fresh_engine.durable_holds_at [OF fresh_engine.intro [OF assms(2)] assms(1,4,5)])
  ultimately show ?thesis
    using durable_step_db by metis
next
  case (Some out)
  then have "fst (durable_step (faultless E) c (now, ev)) = Some out"
      "cn_db (snd (durable_step E c (now, ev))) = cn_db (snd (durable_step (faultless E) c (now, ev)))"
    using durable_step_faults [of E c "(now, ev)"] by auto
  then show ?thesis
    using fresh_engine.durable_faultless_keeps [OF fresh_engine.intro [OF assms(2)] assms(1,3,4,5)] rel [OF Some]
      durable_step_db [of "snd (durable_step E c (now, ev))"]
    by (simp add: faultless_step_def del: durable_step.simps)
qed

lemma durable_keeps:
  assumes "db_inv (cn_db c)" and E: "fresh_rowids E" and "\<forall>e \<in> set es. wf_event (snd e)"
    and "holds_for p (durable_view t c) q d"
    and "\<forall>(e, o') \<in> set (run_history (durable_step E) c es).
      due (fst e) d \<and> (\<forall>out. o' = Some out \<longrightarrow> \<not> releases p q (rd_id d) (snd e, out))"
    and now: "due now d"
  shows "holds_for p (durable_view now (snd (run_steps (durable_step E) c es))) q d"
  using assms(1,3-5)
proof (induction es arbitrary: c t)
  case Nil
  then show ?case
    using fresh_engine.durable_holds_at [OF fresh_engine.intro [OF E] Nil.prems(1,3) now] by simp
next
  case (Cons e es)
  obtain t' ev where e: "e = (t', ev)" by (cases e)
  have ev: "wf_event ev" "due t' d"
      "\<And>out. fst (durable_step E c e) = Some out \<Longrightarrow> \<not> releases p q (rd_id d) (ev, out)"
    and rest: "\<forall>(e, o') \<in> set (run_history (durable_step E) (snd (durable_step E c e)) es).
      due (fst e) d \<and> (\<forall>out. o' = Some out \<longrightarrow> \<not> releases p q (rd_id d) (snd e, out))"
    using Cons.prems(2,4) e by (simp_all add: run_history_Cons del: durable_step.simps)
  have "holds_for p (durable_view t' (snd (durable_step E c e))) q d"
    using durable_step_keeps [OF Cons.prems(1) E ev(1) Cons.prems(3) ev(2)] ev(3) e by simp
  moreover have "db_inv (cn_db (snd (durable_step E c e)))"
    using durable_step_inv [OF Cons.prems(1) E ev(1)] e by simp
  ultimately have "holds_for p (durable_view now (snd (run_steps (durable_step E) (snd (durable_step E c e)) es))) q d"
    using Cons.prems(2) rest by (intro Cons.IH) simp_all
  then show ?case
    by (simp add: run_steps_Cons del: run_steps.simps(2) durable_step.simps)
qed

section \<open>Properties of the durable relay\<close>

text \<open>
  C16: every command of the durable relay is atomic. Whatever calls of the storage engine fail, and
  with whatever error, the command reports a storage error and the database is unchanged, or it
  answers and changes the database exactly as it does when nothing fails; there is no partial effect
  and no lost or invented answer.
\<close>

theorem durable_commands_atomic:
  "fst (durable_step E c e) = None \<and> cn_db (snd (durable_step E c e)) = cn_db c
   \<or> fst (durable_step E c e) = fst (durable_step (faultless E) c e)
     \<and> cn_db (snd (durable_step E c e)) = cn_db (snd (durable_step (faultless E) c e))"
  by (rule durable_step_faults)

text \<open>
  C15: the durable relay implements the mailbox specification under arbitrary storage faults: in every
  run from an empty database, the commands that were not aborted by a storage error are answered
  exactly as the specification answers that sequence of commands, and the tables stand for the
  mailboxes the specification reaches.
\<close>

theorem durable_refines_mailboxes:
  assumes "fresh_rowids E" and "clock_ordered t es" and "\<forall>e \<in> set es. wf_event (snd e)"
  shows "let (outs, c) = run_steps (durable_step E) fresh_connection es;
             (spec_outs, M) = run_steps spec_step Map.empty (answered es outs)
         in answers outs = spec_outs \<and> durable_view (last_time t es) c = age (last_time t es) M"
  using durable_run_refines [OF fresh_connection_inv assms fresh_connection_ages]
  by (simp add: Let_def case_prod_beta)

definition ex_wf_config :: QueueConfig where
  "ex_wf_config = \<lparr>qc_sender = Principal (replicate 32 2), qc_recipient = Principal (replicate 32 3),
     qc_limits = \<lparr>rl_max_messages = 2, rl_max_message_bytes = 4\<rparr>\<rparr>"

definition ex_wf_events :: "(Timestamp \<times> RelayEvent) list" where
  "ex_wf_events =
     [(Timestamp 10, EvCreate (QueueId (replicate 32 1)) ex_wf_config),
      (Timestamp 11, EvSend (QueueId (replicate 32 1)) (Principal (replicate 32 2)) (MessageId (replicate 32 5)) [7, 8] (RelayTtl 60)),
      (Timestamp 12, EvFetch (QueueId (replicate 32 1)) (Principal (replicate 32 3))),
      (Timestamp 13, EvAck (QueueId (replicate 32 1)) (Principal (replicate 32 3)) (MessageId (replicate 32 5)))]"

definition flaky_engine :: Engine where
  "flaky_engine = max_rowid_engine\<lparr>en_fault := (\<lambda>n. if n = 12 then Some (SqliteFailure DiskFull) else None)\<rparr>"

lemma flaky_engine_fresh: "fresh_rowids flaky_engine"
  using max_rowid_engine_fresh by (simp add: fresh_rowids_def flaky_engine_def)

lemma ex_wf_events_ok: "clock_ordered (Timestamp 0) ex_wf_events" "\<forall>e \<in> set ex_wf_events. wf_event (snd e)"
  by (simp_all add: ex_wf_events_def ex_wf_config_def wf_id_defs)

theorem durable_refines_mailboxes_witness:
  "answers (fst (run_steps (durable_step flaky_engine) fresh_connection ex_wf_events))
    = fst (run_steps spec_step Map.empty
        (answered ex_wf_events (fst (run_steps (durable_step flaky_engine) fresh_connection ex_wf_events))))"
  using durable_refines_mailboxes [OF flaky_engine_fresh ex_wf_events_ok]
  by (simp add: Let_def case_prod_beta del: run_steps.simps)

text \<open>
  C21: the durable relay and the in-memory relay agree: without storage faults, and under a clock that
  does not go backwards, every run of the durable relay gives exactly the outcomes of the reference
  state machine.
\<close>

theorem durable_agrees_with_memory:
  assumes "fresh_rowids E" and "clock_ordered t es" and "\<forall>e \<in> set es. wf_event (snd e)"
  shows "fst (run_steps (faultless_step E) fresh_connection es) = fst (run_steps relay_step Relay_new es)"
  using fresh_engine.durable_outcomes [OF fresh_engine.intro [OF assms(1)] assms(2,3)]
    relay_store.service_outcomes [OF assms(2)] by simp

theorem durable_agrees_with_memory_witness:
  "fst (run_steps (faultless_step max_rowid_engine) fresh_connection ex_wf_events)
    = fst (run_steps relay_step Relay_new ex_wf_events)"
  by (rule durable_agrees_with_memory [OF max_rowid_engine_fresh ex_wf_events_ok])

text \<open>
  C20: acceptance is durable. If the durable relay answered a send with \<open>Accepted\<close>, then after any
  further commands by anyone, with any storage faults, at any times before the expiry and in any order
  of the clock, the message is still held for the queue's recipient with its payload and promised
  expiry, unless that recipient acknowledged it or deleted the queue and was answered so. Commands
  that failed, were refused, or came from any other principal cannot remove it.
\<close>

theorem durable_accepted_not_lost:
  assumes E: "fresh_rowids E"
    and wf: "\<forall>e \<in> set (es @ (now, EvSend q s mid payload ttl) # es'). wf_event (snd e)"
    and c: "c = snd (run_steps (durable_step E) fresh_connection es)"
    and queue: "queues (db_relay (cn_db c)) q = Some qu"
    and acc: "fst (durable_step E c (now, EvSend q s mid payload ttl)) = Some (OutSend Accepted)"
    and ttl: "RelayTtl_as_secs ttl \<noteq> 0"
    and rest: "\<forall>(e, o') \<in> set (run_history (durable_step E) (snd (durable_step E c (now, EvSend q s mid payload ttl))) es').
      due (fst e) (accepted_item mid payload now ttl)
      \<and> (\<forall>out. o' = Some out \<longrightarrow> \<not> releases (qc_recipient (q_config qu)) q mid (snd e, out))"
    and later: "due later (accepted_item mid payload now ttl)"
  shows "holds_for (qc_recipient (q_config qu)) (durable_view later
      (snd (run_steps (durable_step E) fresh_connection (es @ (now, EvSend q s mid payload ttl) # es'))))
    q (accepted_item mid payload now ttl)"
proof -
  let ?e = "EvSend q s mid payload ttl" and ?d = "accepted_item mid payload now ttl"
  let ?c' = "snd (durable_step E c (now, ?e))" and ?p = "qc_recipient (q_config qu)"
  have inv: "db_inv (cn_db c)"
    using durable_run_inv [OF fresh_connection_inv E, of es] wf c by simp
  have ev: "wf_event ?e" using wf by simp
  have same: "fst (durable_step (faultless E) c (now, ?e)) = Some (OutSend Accepted)"
      "cn_db ?c' = cn_db (snd (durable_step (faultless E) c (now, ?e)))"
    using durable_step_faults [of E c "(now, ?e)"] acc by auto
  have "durable_view now c q = Some (queue_view now qu)"
    using queue by (simp add: durable_view_def view_cases)
  then have held: "holds_for ?p (durable_view now ?c') q ?d"
    using fresh_engine.durable_send_holds [OF fresh_engine.intro [OF E] inv ev _ ttl, of now "queue_view now qu"] same
    by (simp add: faultless_step_def durable_view_def del: durable_step.simps)
  have "rd_id ?d = mid"
    by (simp add: accepted_item_def)
  then have "holds_for ?p (durable_view later (snd (run_steps (durable_step E) ?c' es'))) q ?d"
    using wf rest by (intro durable_keeps [OF durable_step_inv [OF inv E ev] E _ held _ later]) simp_all
  then show ?thesis
    by (simp add: run_steps_append run_steps_Cons c del: run_steps.simps(2) durable_step.simps)
qed

lemmas durable_eval = with_outcome_def durable_outcome_def in_transaction_def or_rollback_def tx_bind_def
  begin_tx_def commit_tx_def sql_exec_def sql_call_def tx_map_err_def flaky_engine_def max_rowid_engine_def
  query_optional_def queue_rows_def message_rows_def usize_to_u64_def constrained_def

lemma ex_created:
  "run_steps (durable_step flaky_engine) fresh_connection (take 1 ex_wf_events) = ([Some (OutCreate Created)],
     \<lparr>cn_db = empty_db\<lparr>db_queues := [\<lparr>qr_queue_id = replicate 32 1, qr_sender = replicate 32 2,
       qr_recipient = replicate 32 3, qr_max_messages = u64_to_be_bytes 2,
       qr_max_message_bytes = u64_to_be_bytes 4\<rparr>]\<rparr>, cn_calls = 4\<rparr>)"
  by (simp add: durable_eval ex_wf_events_def ex_wf_config_def fresh_connection_def empty_db_def
      DurableRelay_create_queue_def create_queue_tx_def insert_queue_def queue_row_checks_def)

lemma ex_accepted:
  "fst (durable_step flaky_engine (snd (run_steps (durable_step flaky_engine) fresh_connection (take 1 ex_wf_events)))
      (ex_wf_events ! 1)) = Some (OutSend Accepted)"
  unfolding ex_created
  by (simp add: durable_eval ex_wf_events_def empty_db_def DurableRelay_send_def send_tx_def read_queue_def
      discard_expired_def delete_expired_def insert_message_def message_row_checks_def blob_u64_def blob_32_def
      u64_to_usize_def RelayQueueLimits_new_def checked_add_def u64_max_def Let_def)

text \<open>A stranger's deletion and the recipient's fetch, at a clock that goes back.\<close>

definition ex_wf_intrusion :: "(Timestamp \<times> RelayEvent) list" where
  "ex_wf_intrusion =
     [(Timestamp 20, EvDelete (QueueId (replicate 32 1)) (Principal (replicate 32 2))),
      (Timestamp 12, EvFetch (QueueId (replicate 32 1)) (Principal (replicate 32 3)))]"

theorem durable_accepted_not_lost_witness:
  "holds_for (Principal (replicate 32 3)) (durable_view (Timestamp 70)
      (snd (run_steps (durable_step flaky_engine) fresh_connection
        (take 1 ex_wf_events @ ex_wf_events ! 1 # ex_wf_intrusion))))
    (QueueId (replicate 32 1)) \<lparr>rd_id = MessageId (replicate 32 5), rd_payload = [7, 8], rd_expires_at = Timestamp 71\<rparr>"
proof -
  let ?c = "snd (run_steps (durable_step flaky_engine) fresh_connection (take 1 ex_wf_events))"
  let ?d = "accepted_item (MessageId (replicate 32 5)) [7, 8] (Timestamp 11) (RelayTtl 60)"
  have send: "ex_wf_events ! 1 = (Timestamp 11, EvSend (QueueId (replicate 32 1)) (Principal (replicate 32 2))
      (MessageId (replicate 32 5)) [7, 8] (RelayTtl 60))"
    by (simp add: ex_wf_events_def)
  have wf: "\<forall>e \<in> set (take 1 ex_wf_events @ ex_wf_events ! 1 # ex_wf_intrusion). wf_event (snd e)"
    by (simp add: ex_wf_events_def ex_wf_config_def ex_wf_intrusion_def wf_id_defs)
  have queue: "queues (db_relay (cn_db ?c)) (QueueId (replicate 32 1)) = Some \<lparr>q_config = ex_wf_config, q_messages = []\<rparr>"
    unfolding ex_created by (simp add: queues_db_relay queue_rows_def message_rows_def empty_db_def row_config_def
        ex_wf_config_def)
  have "due (fst e) ?d \<and> \<not> releases (Principal (replicate 32 3)) (QueueId (replicate 32 1)) (MessageId (replicate 32 5)) (snd e, out)"
    if "e \<in> set ex_wf_intrusion" for e out
    using that by (auto simp: ex_wf_intrusion_def due_def accepted_item_def releases_def)
  then have "\<forall>(e, o') \<in> set (run_history (durable_step flaky_engine)
      (snd (durable_step flaky_engine ?c (ex_wf_events ! 1))) ex_wf_intrusion).
      due (fst e) ?d \<and> (\<forall>out. o' = Some out \<longrightarrow>
        \<not> releases (Principal (replicate 32 3)) (QueueId (replicate 32 1)) (MessageId (replicate 32 5)) (snd e, out))"
    by (auto simp: run_history_def dest: set_zip_leftD simp del: durable_step.simps run_steps.simps)
  then show ?thesis
    using durable_accepted_not_lost [OF flaky_engine_fresh wf [unfolded send] refl queue _ _ _, of "Timestamp 70"] ex_accepted
    unfolding send by (simp add: ex_wf_config_def accepted_item_def due_def del: run_steps.simps durable_step.simps)
qed

text \<open>
  Opening a database never loses rows. Whatever fails, opening reports an error and leaves the
  database as it was, or it succeeds, which it does only for a schema version up to the supported one,
  and changes nothing but the recorded version.
\<close>

theorem durable_open_keeps_rows:
  "(\<exists>e. fst (DurableRelay_initialize E c) = Inl e \<and> cn_db (snd (DurableRelay_initialize E c)) = cn_db c)
   \<or> fst (DurableRelay_initialize E c) = Inr () \<and> db_user_version (cn_db c) \<le> SCHEMA_VERSION
     \<and> cn_db (snd (DurableRelay_initialize E c)) = (cn_db c)\<lparr>db_user_version := SCHEMA_VERSION\<rparr>"
proof -
  let ?body = "\<lambda>v E. tx_bind (sql_exec E (\<lambda>db. Inr ((), db))) (\<lambda>_.
    if v \<noteq> SCHEMA_VERSION then sql_exec E (\<lambda>db. Inr ((), db\<lparr>db_user_version := SCHEMA_VERSION\<rparr>)) else tx_return ())"
  have law: "lawful is_storage (?body v)" for v
    by (intro lawful_intros; simp)
  have pure: "pure_tx (?body v) E db = (Inr (), if v \<noteq> SCHEMA_VERSION then db\<lparr>db_user_version := SCHEMA_VERSION\<rparr> else db)" for v db
    by (simp add: pure_tx_def seen_def tx_bind_def sql_exec_faultless)
  have run: "sql_exec E (\<lambda>db. Inr (f db, db)) x = (r, x') \<Longrightarrow> cn_db x' = cn_db x \<and> (r = Inr (f (cn_db x)) \<or> (\<exists>e. r = Inl e))"
    for f :: "Db \<Rightarrow> 'x" and x x' r
    by (auto simp: sql_exec_def sql_call_def tx_map_err_def map_err_def split: option.splits)
  obtain r1 c1 where 1: "sql_exec E (\<lambda>db. Inr ((), db)) c = (r1, c1)" by fastforce
  obtain r2 c2 where 2: "sql_exec E (\<lambda>db. Inr (db_user_version db, db)) c1 = (r2, c2)" by fastforce
  obtain r3 c3 where 3: "sql_exec E (\<lambda>db. Inr ((), db)) c2 = (r3, c3)" by fastforce
  have dbs: "cn_db c1 = cn_db c" "cn_db c2 = cn_db c" "cn_db c3 = cn_db c"
    using run [OF 1] run [OF 2] run [OF 3] by simp_all
  let ?v = "db_user_version (cn_db c)"
  have same: "db\<lparr>db_user_version := db_user_version db\<rparr> = db" for db :: Db
    by simp
  show ?thesis
    using in_transaction_atomic [OF law [of ?v], of E id c3] run [OF 1] run [OF 2] run [OF 3] dbs same [of "cn_db c"]
    by (auto simp: DurableRelay_initialize_def tx_bind_def 1 2 3 pure split: if_splits)
qed

end
