(* ===== verification/CW_Replay.thy ===== *)
theory CW_Replay
  imports CW_Durable_Refines
begin

text \<open>
  The replay machinery of \<open>crates/cofferwire-relay/src/replay.rs\<close> and the queue exchange built on it
  (\<open>durable.rs\<close>): a request and its response are recorded in the transaction that performs the
  request's effect, so a retry is answered from the record and the effect happens at most once.
\<close>

section \<open>Records\<close>

type_synonym ReplayRecord = "bytes \<times> bytes"

datatype ReplayExchange = Respond bytes | Conflict

datatype Namespace = NsQueue | NsBlob

datatype 'e EffectError = EffProtocol 'e | EffStorage DurableRelayError

fun replay_table :: "Namespace \<Rightarrow> Db \<Rightarrow> ReplayRow list" where
  "replay_table NsQueue db = db_queue_replays db"
| "replay_table NsBlob db = db_blob_replays db"

fun add_replay :: "Namespace \<Rightarrow> ReplayRow \<Rightarrow> Db \<Rightarrow> Db" where
  "add_replay NsQueue row db = db\<lparr>db_queue_replays := db_queue_replays db @ [row]\<rparr>"
| "add_replay NsBlob row db = db\<lparr>db_blob_replays := db_blob_replays db @ [row]\<rparr>"

text \<open>\<open>Namespace::select\<close> and \<open>Namespace::insert\<close>, with the constraints of the two tables.\<close>

definition Namespace_select :: "Namespace \<Rightarrow> bytes \<Rightarrow> RequestId \<Rightarrow> Db \<Rightarrow> ReplayRow list" where
  "Namespace_select ns subject request_id db =
     filter (\<lambda>r. rp_subject r = subject \<and> rp_request_id r = RequestId_bytes request_id) (replay_table ns db)"

definition Namespace_insert :: "Namespace \<Rightarrow> bytes \<Rightarrow> RequestId \<Rightarrow> bytes \<Rightarrow> bytes \<Rightarrow> unit statement" where
  "Namespace_insert ns subject request_id request response db =
     constrained (length subject = 32 \<and> length (RequestId_bytes request_id) = 16
         \<and> Namespace_select ns subject request_id db = [])
       (add_replay ns \<lparr>rp_subject = subject, rp_request_id = RequestId_bytes request_id,
          rp_request = request, rp_response = response\<rparr> db) db"

section \<open>Lookup, insert, exchange\<close>

definition lookup :: "Engine \<Rightarrow> Namespace \<Rightarrow> bytes \<Rightarrow> RequestId \<Rightarrow> (DurableRelayError, ReplayRecord option) tx" where
  "lookup E ns subject request_id =
     sql_exec E (query_optional (Namespace_select ns subject request_id)
       (\<lambda>row. Inr (rp_request row, rp_response row)))"

definition insert_replay ::
    "Engine \<Rightarrow> Namespace \<Rightarrow> bytes \<Rightarrow> RequestId \<Rightarrow> bytes \<Rightarrow> bytes \<Rightarrow> (DurableRelayError, bool) tx" where
  "insert_replay E ns subject request_id request response c =
     (case sql_call E (Namespace_insert ns subject request_id request response) c of
        (Inr _, c') \<Rightarrow> (Inr True, c')
      | (Inl e, c') \<Rightarrow>
          if e = SqliteFailure ConstraintViolation then (Inr False, c')
          else (Inl (DurableRelayError_from e), c'))"

text \<open>
  The second half of \<open>exchange\<close>, from the insertion on; \<open>before\<close> is the connection outside the
  transaction, to which a dropped transaction rolls back.
\<close>

definition record_response ::
    "Engine \<Rightarrow> Namespace \<Rightarrow> bytes \<Rightarrow> RequestId \<Rightarrow> bytes \<Rightarrow> bytes \<Rightarrow> Connection \<Rightarrow>
     (DurableRelayError, ReplayExchange) tx" where
  "record_response E ns subject request_id request response before c =
     (case insert_replay E ns subject request_id request response c of
        (Inl e, c') \<Rightarrow> (Inl e, rollback_to before c')
      | (Inr True, c') \<Rightarrow>
          (case commit_tx E c' of
             (Inl e, c'') \<Rightarrow> (Inl e, rollback_to before c'')
           | (Inr _, c'') \<Rightarrow> (Inr (Respond response), c''))
      | (Inr False, c') \<Rightarrow>
          tx_bind (lookup E ns subject request_id) (\<lambda>stored.
            case stored of
              Some (stored_request, stored_response) \<Rightarrow>
                if stored_request = request then tx_return (Respond stored_response) else tx_return Conflict
            | None \<Rightarrow> tx_fail (DrStorage SkOther
                (InvalidParameterName ''replay insert conflicted without a stored record'')))
            (rollback_to before c'))"

definition exchange ::
    "Engine \<Rightarrow> Namespace \<Rightarrow> bytes \<Rightarrow> RequestId \<Rightarrow> bytes \<Rightarrow> ('e EffectError, 't) tx \<Rightarrow>
     (('e, 't) result \<Rightarrow> bytes) \<Rightarrow> (DurableRelayError, ReplayExchange) tx" where
  "exchange E ns subject request_id request effect encode before =
     (case begin_tx E before of
        (Inl e, c) \<Rightarrow> (Inl e, c)
      | (Inr _, c) \<Rightarrow>
          (case effect c of
             (Inr value, c) \<Rightarrow>
               record_response E ns subject request_id request (encode (Inr value)) before c
           | (Inl (EffProtocol error), c) \<Rightarrow>
               (case begin_tx E (rollback_to before c) of
                  (Inl e, c) \<Rightarrow> (Inl e, c)
                | (Inr _, c) \<Rightarrow>
                    record_response E ns subject request_id request (encode (Inl error)) before c)
           | (Inl (EffStorage error), c) \<Rightarrow> (Inl error, rollback_to before c)))"

section \<open>The queue exchange\<close>

text \<open>
  \<open>usize::try_from\<close> cannot fail on a 64-bit target, so the two \<open>LimitOutOfRange\<close> branches around it
  are not reached; the third one is.
\<close>

fun execute_queue_request :: "Engine \<Rightarrow> Request \<Rightarrow> Timestamp \<Rightarrow> (DurableRelayError, ResponseBody) tx" where
  "execute_queue_request E (ReqCreateQueue create) now =
     tx_bind (tx_res (ok_or (RelayQueueLimits_new (ql_max_messages (cq_limits create))
         (ql_max_message_bytes (cq_limits create))) (DrRelay ReLimitOutOfRange))) (\<lambda>limits.
     tx_bind (create_queue_tx E (cq_queue_id create)
         \<lparr>qc_sender = cq_sender create, qc_recipient = cq_recipient create, qc_limits = limits\<rparr>) (\<lambda>outcome.
     tx_return (RespCreateQueue outcome)))"
| "execute_queue_request E (ReqSend send) now =
     tx_bind (tx_res (ok_or (RelayTtl_from_secs (Ttl_as_secs (sr_ttl send))) (DrRelay ReLimitOutOfRange))) (\<lambda>ttl.
     tx_bind (send_tx E (sr_queue_id send) (sr_sender send) (sr_message_id send)
         (Payload_bytes (sr_payload send)) now ttl) (\<lambda>outcome.
     tx_return (RespSend outcome)))"
| "execute_queue_request E (ReqFetch fetch) now =
     tx_bind (fetch_tx E (fr_queue_id fetch) (fr_recipient fetch) now) (\<lambda>delivery.
     case delivery of
       Some delivery \<Rightarrow>
         tx_bind (tx_res (map_err (\<lambda>_. DrRelay ReMessageTooLarge) (Payload_new (rd_payload delivery)))) (\<lambda>payload.
         tx_return (RespFetch (Some \<lparr>dl_message_id = rd_id delivery, dl_payload = payload,
           dl_expires_at = Timestamp (Timestamp_as_secs (rd_expires_at delivery))\<rparr>)))
     | None \<Rightarrow> tx_return (RespFetch None))"
| "execute_queue_request E (ReqAck ack) now =
     tx_bind (acknowledge_tx E (ar_queue_id ack) (ar_recipient ack) (ar_message_id ack) now) (\<lambda>_.
     tx_return RespAck)"
| "execute_queue_request E (ReqDeleteQueue delete) now =
     tx_bind (delete_queue_tx E (dq_queue_id delete) (dq_recipient delete)) (\<lambda>_.
     tx_return RespDeleteQueue)"

definition queue_effect_error :: "DurableRelayError \<Rightarrow> RelayError EffectError" where
  "queue_effect_error e = (case e of DrRelay error \<Rightarrow> EffProtocol error | error \<Rightarrow> EffStorage error)"

definition queue_exchange ::
    "Engine \<Rightarrow> Principal \<Rightarrow> RequestId \<Rightarrow> bytes \<Rightarrow> (DurableRelayError, 't) tx \<Rightarrow>
     ((RelayError, 't) result \<Rightarrow> bytes) \<Rightarrow> (DurableRelayError, ReplayExchange) tx" where
  "queue_exchange E actor request_id request effect encode =
     exchange E NsQueue (Principal_bytes actor) request_id request (tx_map_err queue_effect_error effect) encode"

definition queue_request_exchange ::
    "Engine \<Rightarrow> Principal \<Rightarrow> RequestId \<Rightarrow> bytes \<Rightarrow> Request \<Rightarrow> Timestamp \<Rightarrow>
     ((RelayError, ResponseBody) result \<Rightarrow> bytes) \<Rightarrow> (DurableRelayError, ReplayExchange) tx" where
  "queue_request_exchange E actor request_id request_bytes request now encode =
     queue_exchange E actor request_id request_bytes (execute_queue_request E request now) encode"

definition queue_replay :: "Engine \<Rightarrow> Principal \<Rightarrow> RequestId \<Rightarrow> (DurableRelayError, ReplayRecord option) tx" where
  "queue_replay E actor request_id = lookup E NsQueue (Principal_bytes actor) request_id"

section \<open>Faults only abort, and records are left alone\<close>

lemma execute_queue_request_lawful [lawful_intros]:
  "lawful is_storage (\<lambda>E. execute_queue_request E request now)"
  by (cases request; simp only: execute_queue_request.simps; intro lawful_intros)

text \<open>
  The errors a fault of the engine can surface as: storage errors, and those protocol errors in \<open>M\<close>
  that an operation reports in place of a failed read.
\<close>

definition fault_error :: "('e \<Rightarrow> bool) \<Rightarrow> 'e EffectError \<Rightarrow> bool" where
  "fault_error M e = (case e of EffStorage d \<Rightarrow> is_storage d | EffProtocol p \<Rightarrow> M p)"

lemma queue_effect_lawful:
  "lawful is_storage m \<Longrightarrow> lawful (fault_error (\<lambda>_. False)) (\<lambda>E. tx_map_err queue_effect_error (m E))"
  by (erule lawful_map_err) (auto simp: fault_error_def queue_effect_error_def is_storage_def
      split: DurableRelayError.splits)

lemma durable_tx_preserves_replays [preserves_intros]:
  "preserves (replay_table ns) (\<lambda>E. create_queue_tx E qid cfg)"
  "preserves (replay_table ns) (\<lambda>E. send_tx E qid s mid payload now ttl)"
  "preserves (replay_table ns) (\<lambda>E. fetch_tx E qid p now)"
  "preserves (replay_table ns) (\<lambda>E. acknowledge_tx E qid p mid now)"
  "preserves (replay_table ns) (\<lambda>E. delete_queue_tx E qid p)"
  unfolding create_queue_tx_def send_tx_def fetch_tx_def acknowledge_tx_def delete_queue_tx_def
    authorize_recipient_def read_queue_def discard_expired_def
  by (intro preserves_intros; cases ns;
      auto simp: insert_queue_def insert_message_def delete_queue_rows_def mark_delivered_def delete_message_def
        delete_expired_def Let_def dest: query_optional_same)+

lemma execute_preserves_replays: "preserves (replay_table ns) (\<lambda>E. execute_queue_request E request now)"
  by (cases request; simp only: execute_queue_request.simps; intro preserves_intros)

section \<open>The three ways an exchange ends\<close>

definition replay_row :: "bytes \<Rightarrow> RequestId \<Rightarrow> bytes \<Rightarrow> bytes \<Rightarrow> ReplayRow" where
  "replay_row subject request_id request response = \<lparr>rp_subject = subject, rp_request_id = RequestId_bytes request_id,
     rp_request = request, rp_response = response\<rparr>"

definition replayed :: "ReplayRow \<Rightarrow> bytes \<Rightarrow> ReplayExchange" where
  "replayed row request = (if rp_request row = request then Respond (rp_response row) else Conflict)"

text \<open>The effect that a fresh request commits, and the response it records.\<close>

definition committed_effect :: "('e EffectError, 't) result \<times> Db \<Rightarrow> (('e, 't) result \<Rightarrow> bytes) \<Rightarrow> Db \<Rightarrow> (bytes \<times> Db) option" where
  "committed_effect p encode db =
     (case p of
        (Inr v, db') \<Rightarrow> Some (encode (Inr v), db')
      | (Inl (EffProtocol e), _) \<Rightarrow> Some (encode (Inl e), db)
      | (Inl (EffStorage _), _) \<Rightarrow> None)"

definition aborted :: "(DurableRelayError, 'a) result \<times> Connection \<Rightarrow> Connection \<Rightarrow> bool" where
  "aborted x before \<longleftrightarrow> (\<exists>e. fst x = Inl e) \<and> cn_db (snd x) = cn_db before"

definition answered_from_record ::
    "Namespace \<Rightarrow> bytes \<Rightarrow> RequestId \<Rightarrow> bytes \<Rightarrow> (DurableRelayError, ReplayExchange) result \<times> Connection \<Rightarrow> Connection \<Rightarrow> bool" where
  "answered_from_record ns s rid req x before \<longleftrightarrow>
     (\<exists>row rest. Namespace_select ns s rid (cn_db before) = row # rest
        \<and> fst x = Inr (replayed row req) \<and> cn_db (snd x) = cn_db before)"

definition executed_once ::
    "Namespace \<Rightarrow> bytes \<Rightarrow> RequestId \<Rightarrow> bytes \<Rightarrow> (bytes \<times> Db) option \<Rightarrow>
     (DurableRelayError, ReplayExchange) result \<times> Connection \<Rightarrow> Connection \<Rightarrow> bool" where
  "executed_once ns s rid req effect x before \<longleftrightarrow>
     (\<exists>resp db. Namespace_select ns s rid (cn_db before) = [] \<and> length s = 32 \<and> wf_RequestId rid
        \<and> effect = Some (resp, db) \<and> fst x = Inr (Respond resp)
        \<and> cn_db (snd x) = add_replay ns (replay_row s rid req resp) db)"

lemma sql_exec_read:
  assumes "sql_exec E stmt c = (r, c')" and "\<And>db x db'. stmt db = Inr (x, db') \<Longrightarrow> db' = db"
  shows "cn_db c' = cn_db c"
  using assms by (auto simp: sql_exec_def sql_call_def tx_map_err_def split: option.splits sum.splits)

lemma begin_commit_db:
  "begin_tx E c = (r, c') \<Longrightarrow> cn_db c' = cn_db c" "commit_tx E c = (r, c') \<Longrightarrow> cn_db c' = cn_db c"
  "lookup E ns s rid c = (r', c') \<Longrightarrow> cn_db c' = cn_db c"
  unfolding begin_tx_def commit_tx_def lookup_def by (erule sql_exec_read; auto dest: query_optional_same)+

lemma rollback_db [simp]: "cn_db (rollback_to before c) = cn_db before"
  by (simp add: rollback_to_def)

lemma lookup_Inr:
  "fst (lookup E ns s rid c) = Inr stored \<Longrightarrow> stored = (case Namespace_select ns s rid (cn_db c) of
     [] \<Rightarrow> None | row # _ \<Rightarrow> Some (rp_request row, rp_response row))"
  by (auto simp: lookup_def sql_exec_def sql_call_def tx_map_err_def query_optional_def
      split: option.splits sum.splits list.splits)

lemma insert_replay_True:
  "fst (insert_replay E ns s rid req resp c) = Inr True \<Longrightarrow>
   Namespace_select ns s rid (cn_db c) = [] \<and> length s = 32 \<and> wf_RequestId rid
   \<and> cn_db (snd (insert_replay E ns s rid req resp c)) = add_replay ns (replay_row s rid req resp) (cn_db c)"
  by (auto simp: insert_replay_def sql_call_def Namespace_insert_def constrained_def replay_row_def wf_RequestId_def
      split: option.splits sum.splits if_splits)

lemma record_response_cases:
  assumes rr_def: "rr = record_response E ns s rid req resp before c"
  shows "aborted rr before
    \<or> Namespace_select ns s rid (cn_db c) = [] \<and> length s = 32 \<and> wf_RequestId rid \<and> fst rr = Inr (Respond resp)
        \<and> cn_db (snd rr) = add_replay ns (replay_row s rid req resp) (cn_db c)
    \<or> answered_from_record ns s rid req rr before"
proof -
  obtain r1 c1 where 1: "insert_replay E ns s rid req resp c = (r1, c1)" by fastforce
  consider (err) e where "r1 = Inl e" | (new) "r1 = Inr True" | (old) "r1 = Inr False"
    by (cases r1) auto
  then show ?thesis
  proof cases
    case err
    then show ?thesis
      by (simp add: rr_def record_response_def 1 aborted_def)
  next
    case new
    obtain r2 c2 where 2: "commit_tx E c1 = (r2, c2)" by fastforce
    have "cn_db c2 = cn_db c1"
      by (rule begin_commit_db(2) [OF 2])
    then show ?thesis
      using insert_replay_True [of E ns s rid req resp c] 1 new
      by (cases r2) (auto simp: rr_def record_response_def 2 aborted_def)
  next
    case old
    obtain r2 c2 where 2: "lookup E ns s rid (rollback_to before c1) = (r2, c2)" by fastforce
    have c2: "cn_db c2 = cn_db before"
      using begin_commit_db(3) [OF 2] by simp
    have r2: "r2 = Inr stored \<Longrightarrow> stored = (case Namespace_select ns s rid (cn_db before) of
        [] \<Rightarrow> None | row # _ \<Rightarrow> Some (rp_request row, rp_response row))" for stored
      using lookup_Inr [of E ns s rid "rollback_to before c1" stored] 2 by (simp add: rollback_to_def)
    show ?thesis
      using r2 c2 by (cases r2)
        (auto simp: rr_def record_response_def 1 old tx_bind_def 2 tx_return_def tx_fail_def replayed_def
          aborted_def answered_from_record_def split: list.splits)
  qed
qed

text \<open>A fault reported as a refusal: no effect, and the refusal is what is recorded.\<close>

definition fault_recorded ::
    "('e \<Rightarrow> bool) \<Rightarrow> Namespace \<Rightarrow> bytes \<Rightarrow> RequestId \<Rightarrow> bytes \<Rightarrow> (('e, 't) result \<Rightarrow> bytes) \<Rightarrow>
     (DurableRelayError, ReplayExchange) result \<times> Connection \<Rightarrow> Connection \<Rightarrow> bool" where
  "fault_recorded M ns s rid req encode x before \<longleftrightarrow>
     (\<exists>p. M p \<and> executed_once ns s rid req (Some (encode (Inl p), cn_db before)) x before)"

lemma exchange_cases:
  assumes law: "lawful (fault_error M) eff" and keep: "preserves (replay_table ns) eff"
    and x_def: "x = exchange E ns s rid req (eff E) encode before"
  shows "aborted x before
    \<or> executed_once ns s rid req (committed_effect (pure_tx eff E (cn_db before)) encode (cn_db before)) x before
    \<or> fault_recorded M ns s rid req encode x before
    \<or> answered_from_record ns s rid req x before"
proof -
  obtain r1 c1 where 1: "begin_tx E before = (r1, c1)" by fastforce
  have c1: "cn_db c1 = cn_db before"
    by (rule begin_commit_db(1) [OF 1])
  show ?thesis
  proof (cases r1)
    case (Inl e)
    then show ?thesis by (simp add: x_def exchange_def 1 c1 aborted_def)
  next
    case (Inr u)
    obtain r2 c2 where 2: "eff E c1 = (r2, c2)" by fastforce
    have pure: "fails_with (fault_error M) r2 \<or> pure_tx eff E (cn_db before) = (r2, cn_db c2)"
      using lawfulD(1) [OF law, of E c1] 2 c1 by (auto simp: seen_def)
    have sel: "Namespace_select ns s rid (cn_db c2) = Namespace_select ns s rid (cn_db before)"
    proof -
      have "replay_table ns (cn_db (snd (eff E c1))) = replay_table ns (cn_db c1)"
        using keep by (simp add: preserves_def)
      then show ?thesis
        by (simp add: 2 c1 Namespace_select_def)
    qed
    consider (ok) v where "r2 = Inr v" | (prot) e where "r2 = Inl (EffProtocol e)" | (stor) e where "r2 = Inl (EffStorage e)"
      by (metis EffectError.exhaust sumE)
    then show ?thesis
    proof cases
      case ok
      then show ?thesis
        using record_response_cases [OF refl, of E ns s rid req "encode (Inr v)" before c2] pure sel
        by (auto simp: x_def exchange_def 1 Inr 2 committed_effect_def executed_once_def)
    next
      case prot
      obtain r3 c3 where 3: "begin_tx E (rollback_to before c2) = (r3, c3)" by fastforce
      have c3: "cn_db c3 = cn_db before"
        using begin_commit_db(1) [OF 3] by simp
      then show ?thesis
        using prot record_response_cases [OF refl, of E ns s rid req "encode (Inl e)" before c3] pure
        by (cases r3) (auto simp: x_def exchange_def 1 Inr 2 3 committed_effect_def fault_error_def
            fault_recorded_def executed_once_def aborted_def)
    next
      case stor
      then show ?thesis
        by (simp add: x_def exchange_def 1 Inr 2 aborted_def)
    qed
  qed
qed

section \<open>The contract of a recorded effect\<close>

text \<open>
  What \<open>exchange\<close> relies on, for each of the two protocols that use it: under faults the effect only
  aborts, except that it may report some of them as refusals (\<open>masked\<close>), and it does not touch the
  replay tables. Records are then never changed or removed, and a recorded request is answered from
  its record for ever.
\<close>

lemma replay_table_add:
  "replay_table ns (add_replay ns' row db) = replay_table ns db @ (if ns = ns' then [row] else [])"
  by (cases ns; cases ns') simp_all

text \<open>A sequence of exchanges, each with its own subject, identifier, bytes, request and encoder.\<close>

type_synonym ('r, 'e, 't) exchange_call = "bytes \<times> RequestId \<times> bytes \<times> 'r \<times> (('e, 't) result \<Rightarrow> bytes)"

fun exchange_step ::
    "Namespace \<Rightarrow> ('r \<Rightarrow> Engine \<Rightarrow> ('e EffectError, 't) tx) \<Rightarrow> Engine \<Rightarrow> Connection \<Rightarrow> ('r, 'e, 't) exchange_call \<Rightarrow>
     (DurableRelayError, ReplayExchange) result \<times> Connection" where
  "exchange_step ns eff E c (s, rid, req, r, encode) = exchange E ns s rid req (eff r E) encode c"

locale recorded_effect =
  fixes ns :: Namespace and eff :: "'r \<Rightarrow> Engine \<Rightarrow> ('e EffectError, 't) tx" and masked :: "'r \<Rightarrow> 'e \<Rightarrow> bool"
  assumes law: "lawful (fault_error (masked r)) (eff r)"
    and keep: "preserves (replay_table ns') (eff r)"
begin

lemma ends:
  "aborted (exchange E ns s rid req (eff r E) encode c) c
   \<or> executed_once ns s rid req (committed_effect (pure_tx (eff r) E (cn_db c)) encode (cn_db c))
       (exchange E ns s rid req (eff r E) encode c) c
   \<or> fault_recorded (masked r) ns s rid req encode (exchange E ns s rid req (eff r E) encode c) c
   \<or> answered_from_record ns s rid req (exchange E ns s rid req (eff r E) encode c) c"
  by (rule exchange_cases [OF law keep refl])

lemma pure_keeps: "pure_tx (eff r) E db = (v, db') \<Longrightarrow> replay_table ns' db' = replay_table ns' db"
  using keep [of ns' r] unfolding preserves_def pure_tx_def seen_def
  by (metis Connection.select_convs(1) snd_conv)

lemma effect_keeps:
  "committed_effect (pure_tx (eff r) E db) encode db = Some (resp, db') \<Longrightarrow> replay_table ns' db' = replay_table ns' db"
  by (cases "pure_tx (eff r) E db")
    (auto simp: committed_effect_def dest: pure_keeps split: sum.splits EffectError.splits)

lemma records_grow:
  "\<exists>added. replay_table ns' (cn_db (snd (exchange E ns s rid req (eff r E) encode c)))
     = replay_table ns' (cn_db c) @ added"
  using ends [of E s rid req r encode c]
  by (auto simp: aborted_def answered_from_record_def executed_once_def fault_recorded_def replay_table_add effect_keeps)

text \<open>The first record of a key stays the first.\<close>

lemma record_stays:
  assumes "Namespace_select ns' s' rid' (cn_db c) = row # rest"
  shows "\<exists>rest'. Namespace_select ns' s' rid' (cn_db (snd (exchange E ns s rid req (eff r E) encode c))) = row # rest'"
  using records_grow [of ns' E s rid req r encode c] assms by (auto simp: Namespace_select_def)

lemma record_stays_run:
  "Namespace_select ns' s' rid' (cn_db c) = row # rest \<Longrightarrow>
   \<exists>rest'. Namespace_select ns' s' rid' (cn_db (snd (run_steps (exchange_step ns eff E) c calls))) = row # rest'"
proof (induction calls arbitrary: c rest)
  case (Cons call calls)
  obtain s rid req r encode where call: "call = (s, rid, req, r, encode)"
    by (cases call) auto
  obtain rest' where "Namespace_select ns' s' rid' (cn_db (snd (exchange_step ns eff E c call))) = row # rest'"
    using record_stays [OF Cons.prems, of E s rid req r encode] by (auto simp: call)
  from Cons.IH [OF this] show ?case
    by (simp add: run_steps_Cons del: run_steps.simps(2))
qed simp

text \<open>An answered request has a record from which the same answer is given.\<close>

lemma answer_recorded:
  assumes "fst (exchange E ns s rid req (eff r E) encode c) = Inr (Respond resp)"
  shows "\<exists>row rest. Namespace_select ns s rid (cn_db (snd (exchange E ns s rid req (eff r E) encode c))) = row # rest
    \<and> rp_request row = req \<and> rp_response row = resp"
proof -
  let ?x = "exchange E ns s rid req (eff r E) encode c"
  have once: ?thesis if "executed_once ns s rid req (Some (resp', db)) ?x c"
    and "replay_table ns db = replay_table ns (cn_db c)" for resp' db
    using that assms by (auto simp: executed_once_def Namespace_select_def replay_table_add replay_row_def)
  from ends [of E s rid req r encode c] show ?thesis
  proof (elim disjE)
    assume ex: "executed_once ns s rid req (committed_effect (pure_tx (eff r) E (cn_db c)) encode (cn_db c)) ?x c"
    then obtain resp' db where "committed_effect (pure_tx (eff r) E (cn_db c)) encode (cn_db c) = Some (resp', db)"
      by (auto simp: executed_once_def)
    with ex show ?thesis
      using once [of resp' db] effect_keeps by fastforce
  next
    assume "fault_recorded (masked r) ns s rid req encode ?x c"
    then show ?thesis
      using once by (auto simp: fault_recorded_def)
  qed (use assms in \<open>auto simp: aborted_def answered_from_record_def replayed_def split: if_splits\<close>)
qed

text \<open>A recorded request is answered from the record, without any effect, or the exchange aborts.\<close>

lemma recorded_answer:
  assumes "Namespace_select ns s rid (cn_db c) = row # rest"
  shows "aborted (exchange E ns s rid req (eff r E) encode c) c
    \<or> fst (exchange E ns s rid req (eff r E) encode c) = Inr (replayed row req)
      \<and> cn_db (snd (exchange E ns s rid req (eff r E) encode c)) = cn_db c"
  using ends [of E s rid req r encode c] assms
  by (auto simp: executed_once_def fault_recorded_def answered_from_record_def)

lemma later_answer:
  assumes "exchange E ns s rid req (eff r E) encode c = (Inr (Respond resp), c1)"
    and "run_steps (exchange_step ns eff E) c1 calls = (outs, c2)"
    and "x = exchange E ns s rid req' (eff r' E) encode' c2"
  shows "aborted x c2 \<or> fst x = Inr (if req' = req then Respond resp else Conflict) \<and> cn_db (snd x) = cn_db c2"
proof -
  obtain row rest where row: "Namespace_select ns s rid (cn_db c1) = row # rest"
      "rp_request row = req" "rp_response row = resp"
    using answer_recorded [of E s rid req r encode c resp] assms(1) by auto
  obtain rest' where "Namespace_select ns s rid (cn_db c2) = row # rest'"
    using record_stays_run [OF row(1), of E calls] assms(2) by auto
  from recorded_answer [OF this, of E req' r' encode'] row(2,3) assms(3)
  show ?thesis
    by (auto simp: replayed_def)
qed

end

section \<open>The queue protocol\<close>

abbreviation queue_effect :: "Request \<times> Timestamp \<Rightarrow> Engine \<Rightarrow> (RelayError EffectError, ResponseBody) tx" where
  "queue_effect r E \<equiv> tx_map_err queue_effect_error (execute_queue_request E (fst r) (snd r))"

interpretation queue_records: recorded_effect NsQueue queue_effect "\<lambda>_ _. False"
  by unfold_locales
    (auto intro: queue_effect_lawful execute_queue_request_lawful preserves_map_err execute_preserves_replays)

lemma queue_request_exchange_eq:
  "queue_request_exchange E actor rid req request now encode
    = exchange E NsQueue (Principal_bytes actor) rid req (queue_effect (request, now) E) encode"
  by (simp add: queue_request_exchange_def queue_exchange_def)

text \<open>A sequence of calls of \<open>queue_request_exchange\<close>, each with its own encoder.\<close>

type_synonym queue_call = "Principal \<times> RequestId \<times> bytes \<times> Request \<times> Timestamp \<times> ((RelayError, ResponseBody) result \<Rightarrow> bytes)"

fun queue_call_step :: "Engine \<Rightarrow> Connection \<Rightarrow> queue_call \<Rightarrow> (DurableRelayError, ReplayExchange) result \<times> Connection" where
  "queue_call_step E c (actor, rid, req, request, now, encode) =
     queue_request_exchange E actor rid req request now encode c"

fun queue_exchange_call :: "queue_call \<Rightarrow> (Request \<times> Timestamp, RelayError, ResponseBody) exchange_call" where
  "queue_exchange_call (actor, rid, req, request, now, encode) = (Principal_bytes actor, rid, req, (request, now), encode)"

lemma queue_run_eq:
  "run_steps (queue_call_step E) c calls
    = run_steps (exchange_step NsQueue queue_effect E) c (map queue_exchange_call calls)"
proof (induction calls arbitrary: c)
  case (Cons call calls)
  have "queue_call_step E c call = exchange_step NsQueue queue_effect E c (queue_exchange_call call)"
    by (cases call) (simp add: queue_request_exchange_eq)
  with Cons.IH show ?case
    by (simp split: prod.split)
qed simp

section \<open>Properties of replay\<close>

text \<open>
  C22: a queue request and its replay record commit together or not at all. Under any storage faults an
  exchange ends in one of three ways: it aborts with an error and the database is unchanged; the key
  was new, the request's effect (or nothing, when the request is refused) and the record of its
  response are committed together and that response is returned; or the key was recorded before, and
  the answer is read from the record, or is a conflict for other request bytes, without any effect.
\<close>

theorem queue_exchange_atomic:
  "aborted (queue_request_exchange E actor rid req request now encode c) c
   \<or> executed_once NsQueue (Principal_bytes actor) rid req
       (committed_effect (pure_tx (queue_effect (request, now)) E (cn_db c)) encode (cn_db c))
       (queue_request_exchange E actor rid req request now encode c) c
   \<or> answered_from_record NsQueue (Principal_bytes actor) rid req
       (queue_request_exchange E actor rid req request now encode c) c"
  using queue_records.ends [of E "Principal_bytes actor" rid req "(request, now)" encode c]
  by (simp add: queue_request_exchange_eq fault_recorded_def)

text \<open>
  At-most-once execution. Once a queue request was answered, then after any further exchanges of
  any principals, with any storage faults, repeating it under the same identifier and bytes gives the
  same response bytes and changes nothing, or fails with a storage error and changes nothing.
\<close>

theorem queue_retry_same_answer:
  assumes "queue_request_exchange E actor rid req request now encode c = (Inr (Respond resp), c1)"
    and "run_steps (queue_call_step E) c1 calls = (outs, c2)"
    and "x = queue_request_exchange E actor rid req request' now' encode' c2"
  shows "aborted x c2 \<or> fst x = Inr (Respond resp) \<and> cn_db (snd x) = cn_db c2"
  using queue_records.later_answer [OF assms(1,2) [unfolded queue_request_exchange_eq queue_run_eq]
      assms(3) [unfolded queue_request_exchange_eq]] by simp

text \<open>
  Reusing the identifier of an answered request with different request bytes is a conflict: after
  any further exchanges, with any storage faults, it is answered \<open>Conflict\<close> or fails, and changes
  nothing in either case.
\<close>

theorem queue_reuse_conflicts:
  assumes "queue_request_exchange E actor rid req request now encode c = (Inr (Respond resp), c1)"
    and "run_steps (queue_call_step E) c1 calls = (outs, c2)" and "req' \<noteq> req"
    and "x = queue_request_exchange E actor rid req' request' now' encode' c2"
  shows "aborted x c2 \<or> fst x = Inr Conflict \<and> cn_db (snd x) = cn_db c2"
  using queue_records.later_answer [OF assms(1,2) [unfolded queue_request_exchange_eq queue_run_eq]
      assms(4) [unfolded queue_request_exchange_eq]] assms(3) by simp

definition ex_create :: Request where
  "ex_create = ReqCreateQueue \<lparr>cq_queue_id = QueueId (replicate 32 1), cq_sender = Principal (replicate 32 2),
     cq_recipient = Principal (replicate 32 3), cq_limits = \<lparr>ql_max_messages = 2, ql_max_message_bytes = 4\<rparr>\<rparr>"

definition ex_encode :: "(RelayError, ResponseBody) result \<Rightarrow> bytes" where
  "ex_encode r = (case r of Inr _ \<Rightarrow> [1] | Inl _ \<Rightarrow> [2])"

lemma ex_create_exchange:
  "\<exists>c1. queue_request_exchange flaky_engine (Principal (replicate 32 3)) (RequestId (replicate 16 9)) [5, 5] ex_create
    (Timestamp 1) ex_encode fresh_connection = (Inr (Respond [1]), c1)"
  by (simp add: queue_request_exchange_eq exchange_def ex_create_def durable_eval fresh_connection_def empty_db_def
      RelayQueueLimits_new_def create_queue_tx_def insert_queue_def queue_row_checks_def record_response_def
      insert_replay_def Namespace_insert_def Namespace_select_def ex_encode_def)

theorem queue_retry_same_answer_witness:
  "\<exists>c1. queue_request_exchange flaky_engine (Principal (replicate 32 3)) (RequestId (replicate 16 9)) [5, 5] ex_create
      (Timestamp 1) ex_encode fresh_connection = (Inr (Respond [1]), c1)
    \<and> (let x = queue_request_exchange flaky_engine (Principal (replicate 32 3)) (RequestId (replicate 16 9)) [5, 5]
          ex_create (Timestamp 9) ex_encode c1
       in aborted x c1 \<or> fst x = Inr (Respond [1]) \<and> cn_db (snd x) = cn_db c1)"
  using ex_create_exchange queue_retry_same_answer [where calls = "[]", OF _ run_steps.simps(1) refl]
  by (metis (no_types, lifting))

theorem queue_reuse_conflicts_witness:
  "\<exists>c1. queue_request_exchange flaky_engine (Principal (replicate 32 3)) (RequestId (replicate 16 9)) [5, 5] ex_create
      (Timestamp 1) ex_encode fresh_connection = (Inr (Respond [1]), c1)
    \<and> (let x = queue_request_exchange flaky_engine (Principal (replicate 32 3)) (RequestId (replicate 16 9)) [5, 6]
          ex_create (Timestamp 9) ex_encode c1
       in aborted x c1 \<or> fst x = Inr Conflict \<and> cn_db (snd x) = cn_db c1)"
proof -
  obtain c1 where c1: "queue_request_exchange flaky_engine (Principal (replicate 32 3)) (RequestId (replicate 16 9)) [5, 5]
      ex_create (Timestamp 1) ex_encode fresh_connection = (Inr (Respond [1]), c1)"
    using ex_create_exchange by blast
  show ?thesis
    using c1 queue_reuse_conflicts [OF c1 run_steps.simps(1), of "[5, 6]" _ ex_create "Timestamp 9" ex_encode]
    by (auto simp: Let_def)
qed

end
