(* ===== verification/CW_Blob_Store.thy ===== *)
theory CW_Blob_Store
  imports CW_Replay CW_Blob_Types
begin

text \<open>
  The blob store of \<open>crates/cofferwire-relay/src/durable_blob.rs\<close>: uploads, published objects and
  grants as transactions over the tables of \<open>CW_Sqlite\<close>. The hash function comes from a third-party
  package and is the parameter \<open>sha256\<close> of every operation that uses it.
\<close>

section \<open>Errors\<close>

datatype BlobRelayError =
    BeNotFound | BeUnauthorized | BeIdConflict | BeLimitOutOfRange | BeChunkConflict | BeIncomplete
  | BeIdentityMismatch | BeExpired

datatype BlobDurableError = BdProtocol BlobRelayError | BdStorage DurableRelayError

section \<open>Statements on the blob tables\<close>

definition blob_exec :: "Engine \<Rightarrow> 'a statement \<Rightarrow> (BlobDurableError, 'a) tx" where
  "blob_exec E stmt = tx_map_err BdStorage (sql_exec E stmt)"

definition upload_rows :: "UploadId \<Rightarrow> Db \<Rightarrow> UploadRow list" where
  "upload_rows u db = filter (\<lambda>r. ur_upload_id r = UploadId_bytes u) (db_uploads db)"

definition upload_chunk_rows :: "UploadId \<Rightarrow> Db \<Rightarrow> UploadChunkRow list" where
  "upload_chunk_rows u db = filter (\<lambda>r. uc_upload_id r = UploadId_bytes u) (db_upload_chunks db)"

definition upload_chunk_at :: "UploadId \<Rightarrow> u32 \<Rightarrow> Db \<Rightarrow> UploadChunkRow list" where
  "upload_chunk_at u index db = filter (\<lambda>r. uc_chunk_index r = index) (upload_chunk_rows u db)"

definition object_rows :: "BlobId \<Rightarrow> Db \<Rightarrow> ObjectRow list" where
  "object_rows b db = filter (\<lambda>r. or_blob_id r = BlobId_bytes b) (db_objects db)"

definition chunk_at :: "BlobId \<Rightarrow> u32 \<Rightarrow> Db \<Rightarrow> ChunkRow list" where
  "chunk_at b index db = filter (\<lambda>r. cr_blob_id r = BlobId_bytes b \<and> cr_chunk_index r = index) (db_chunks db)"

text \<open>The column a capability is compared with: \<open>download_cap\<close>, \<open>renew_cap\<close> or \<open>delete_cap\<close>.\<close>

definition grant_rows :: "BlobId \<Rightarrow> (GrantRow \<Rightarrow> bytes) \<Rightarrow> CapabilityId \<Rightarrow> Db \<Rightarrow> GrantRow list" where
  "grant_rows b column cap db =
     filter (\<lambda>r. gr_blob_id r = BlobId_bytes b \<and> column r = CapabilityId_bytes cap) (db_grants db)"

definition upload_row_checks :: "UploadRow \<Rightarrow> bool" where
  "upload_row_checks r \<longleftrightarrow> length (ur_upload_id r) = 32 \<and> length (ur_upload_cap r) = 32
     \<and> length (ur_download_cap r) = 32 \<and> length (ur_renew_cap r) = 32 \<and> length (ur_delete_cap r) = 32
     \<and> length (ur_expires_at r) = 8"

definition grant_row_checks :: "GrantRow \<Rightarrow> bool" where
  "grant_row_checks r \<longleftrightarrow> length (gr_grant_id r) = 32 \<and> length (gr_download_cap r) = 32
     \<and> length (gr_renew_cap r) = 32 \<and> length (gr_delete_cap r) = 32 \<and> length (gr_expires_at r) = 8"

definition insert_upload :: "UploadRow \<Rightarrow> unit statement" where
  "insert_upload row db =
     constrained (upload_row_checks row \<and> ur_upload_id row \<notin> ur_upload_id ` set (db_uploads db))
       (db\<lparr>db_uploads := db_uploads db @ [row]\<rparr>) db"

definition insert_upload_chunk :: "UploadId \<Rightarrow> u32 \<Rightarrow> bytes \<Rightarrow> unit statement" where
  "insert_upload_chunk u index ciphertext db =
     constrained (UploadId_bytes u \<in> ur_upload_id ` set (db_uploads db) \<and> upload_chunk_at u index db = [])
       (db\<lparr>db_upload_chunks := db_upload_chunks db
            @ [\<lparr>uc_upload_id = UploadId_bytes u, uc_chunk_index = index, uc_ciphertext = ciphertext\<rparr>]\<rparr>) db"

text \<open>\<open>INSERT OR IGNORE INTO blob_objects\<close>: a row that violates the key or the check is skipped.\<close>

definition insert_object :: "BlobId \<Rightarrow> bytes \<Rightarrow> unit statement" where
  "insert_object b manifest db =
     (if length (BlobId_bytes b) = 32 \<and> object_rows b db = []
      then Inr ((), db\<lparr>db_objects := db_objects db @ [\<lparr>or_blob_id = BlobId_bytes b, or_manifest = manifest\<rparr>]\<rparr>)
      else Inr ((), db))"

text \<open>
  \<open>INSERT OR IGNORE INTO blob_chunks ... SELECT\<close>: row by row, skipping rows whose key is taken; a row
  that is inserted needs its object.
\<close>

definition add_chunk :: "ChunkRow \<Rightarrow> ChunkRow list \<Rightarrow> ChunkRow list" where
  "add_chunk row rows =
     (if \<exists>r \<in> set rows. cr_blob_id r = cr_blob_id row \<and> cr_chunk_index r = cr_chunk_index row
      then rows else rows @ [row])"

definition published_chunk :: "BlobId \<Rightarrow> UploadChunkRow \<Rightarrow> ChunkRow" where
  "published_chunk b r = \<lparr>cr_blob_id = BlobId_bytes b, cr_chunk_index = uc_chunk_index r, cr_ciphertext = uc_ciphertext r\<rparr>"

definition insert_chunks :: "BlobId \<Rightarrow> UploadId \<Rightarrow> unit statement" where
  "insert_chunks b u db =
     (let rows = fold add_chunk (map (published_chunk b) (upload_chunk_rows u db)) (db_chunks db)
      in constrained (BlobId_bytes b \<in> or_blob_id ` set (db_objects db) \<or> rows = db_chunks db)
           (db\<lparr>db_chunks := rows\<rparr>) db)"

definition insert_grant :: "GrantRow \<Rightarrow> unit statement" where
  "insert_grant row db =
     constrained (grant_row_checks row \<and> gr_grant_id row \<notin> gr_grant_id ` set (db_grants db)
         \<and> gr_blob_id row \<in> or_blob_id ` set (db_objects db))
       (db\<lparr>db_grants := db_grants db @ [row]\<rparr>) db"

definition set_committed :: "UploadId \<Rightarrow> BlobId \<Rightarrow> unit statement" where
  "set_committed u b db =
     constrained (upload_rows u db = [] \<or> length (BlobId_bytes b) = 32)
       (db\<lparr>db_uploads := map (\<lambda>r. if ur_upload_id r = UploadId_bytes u
            then r\<lparr>ur_committed_blob := Some (BlobId_bytes b)\<rparr> else r) (db_uploads db)\<rparr>) db"

definition set_expiry :: "BlobId \<Rightarrow> CapabilityId \<Rightarrow> u64 \<Rightarrow> unit statement" where
  "set_expiry b renew_cap expiry db =
     Inr ((), db\<lparr>db_grants := map (\<lambda>r. if gr_blob_id r = BlobId_bytes b \<and> gr_renew_cap r = CapabilityId_bytes renew_cap
            \<and> gr_deleted r = 0 then r\<lparr>gr_expires_at := u64_to_be_bytes expiry\<rparr> else r) (db_grants db)\<rparr>)"

definition set_deleted :: "BlobId \<Rightarrow> CapabilityId \<Rightarrow> unit statement" where
  "set_deleted b delete_cap db =
     Inr ((), db\<lparr>db_grants := map (\<lambda>r. if gr_blob_id r = BlobId_bytes b \<and> gr_delete_cap r = CapabilityId_bytes delete_cap
            then r\<lparr>gr_deleted := 1\<rparr> else r) (db_grants db)\<rparr>)"

section \<open>Shared steps\<close>

definition be_u64 :: "bytes \<Rightarrow> (BlobDurableError, u64) result" where
  "be_u64 bs = (if length bs = 8 then Inr (u64_from_be_bytes bs) else Inl (BdProtocol BeIdConflict))"

text \<open>The bytes of \<open>cofferwire blob identity v1\<close>, terminated by a zero byte.\<close>

definition IDENTITY_DOMAIN :: bytes where
  "IDENTITY_DOMAIN = ascii ''cofferwire blob identity v1'' @ [0]"

definition identify :: "(bytes \<Rightarrow> bytes) \<Rightarrow> BlobManifest \<Rightarrow> BlobId" where
  "identify sha256 manifest = BlobId (sha256 (IDENTITY_DOMAIN @ bm_bytes manifest))"

definition upload :: "Engine \<Rightarrow> UploadId \<Rightarrow> (BlobDurableError, (bytes \<times> bytes \<times> u64) option) tx" where
  "upload E upload_id =
     tx_bind (blob_exec E (query_optional (upload_rows upload_id) (\<lambda>r.
       Inr (ur_upload_cap r, ur_manifest r, ur_expires_at r)))) (\<lambda>row.
     case row of
       None \<Rightarrow> tx_return None
     | Some (cap, manifest, expiry) \<Rightarrow>
         tx_bind (tx_res (be_u64 expiry)) (\<lambda>expiry. tx_return (Some (cap, manifest, expiry))))"

definition authorize_grant ::
    "Engine \<Rightarrow> BlobId \<Rightarrow> (GrantRow \<Rightarrow> bytes) \<Rightarrow> CapabilityId \<Rightarrow> Timestamp \<Rightarrow> (BlobDurableError, u64) tx" where
  "authorize_grant E bid column cap now =
     tx_bind (blob_exec E (query_optional (\<lambda>db. en_scan E (grant_rows bid column cap db)) (\<lambda>r.
       Inr (gr_expires_at r, gr_deleted r \<noteq> 0)))) (\<lambda>exact.
     case exact of
       None \<Rightarrow>
         tx_bind (blob_exec E (\<lambda>db. Inr (\<exists>r \<in> set (db_grants db). gr_blob_id r = BlobId_bytes bid, db))) (\<lambda>exists.
         tx_fail (BdProtocol (if exists then BeUnauthorized else BeNotFound)))
     | Some (expiry, deleted) \<Rightarrow>
         if deleted then tx_fail (BdProtocol BeNotFound)
         else tx_bind (tx_res (be_u64 expiry)) (\<lambda>expiry.
         if Timestamp_as_secs now \<ge> expiry then tx_fail (BdProtocol BeExpired)
         else tx_return expiry))"

text \<open>\<open>now.as_secs().checked_add(ttl).filter(|_| ttl > 0).ok_or(LimitOutOfRange)\<close>\<close>

definition requested_expiry :: "Timestamp \<Rightarrow> u64 \<Rightarrow> (BlobDurableError, u64) result" where
  "requested_expiry now ttl =
     (case checked_add (Timestamp_as_secs now) ttl of
        Some expiry \<Rightarrow> if ttl > 0 then Inr expiry else Inl (BdProtocol BeLimitOutOfRange)
      | None \<Rightarrow> Inl (BdProtocol BeLimitOutOfRange))"

definition parse_stored :: "bytes \<Rightarrow> (BlobDurableError, BlobManifest) result" where
  "parse_stored bs = map_err (\<lambda>_. BdProtocol BeIdConflict) (BlobManifest_parse bs)"

section \<open>Transaction-scoped operations\<close>

definition begin_blob_upload_tx ::
    "Engine \<Rightarrow> UploadId \<Rightarrow> BlobCapabilities \<Rightarrow> BlobManifest \<Rightarrow> Timestamp \<Rightarrow> u64 \<Rightarrow> (BlobDurableError, BlobWriteOutcome) tx" where
  "begin_blob_upload_tx E upload_id caps manifest now ttl =
     tx_bind (tx_res (requested_expiry now ttl)) (\<lambda>expiry.
     tx_bind (blob_exec E (query_optional (upload_rows upload_id) (\<lambda>r. Inr r))) (\<lambda>existing.
     case existing of
       Some r \<Rightarrow>
         if ur_upload_cap r = CapabilityId_bytes (cap_upload caps)
            \<and> ur_download_cap r = CapabilityId_bytes (cap_download caps)
            \<and> ur_renew_cap r = CapabilityId_bytes (cap_renew caps)
            \<and> ur_delete_cap r = CapabilityId_bytes (cap_delete caps)
            \<and> ur_manifest r = bm_bytes manifest
            \<and> ur_expires_at r = u64_to_be_bytes expiry
         then tx_return BwDuplicate
         else tx_fail (BdProtocol BeIdConflict)
     | None \<Rightarrow>
         tx_bind (blob_exec E (insert_upload \<lparr>ur_upload_id = UploadId_bytes upload_id,
             ur_upload_cap = CapabilityId_bytes (cap_upload caps), ur_download_cap = CapabilityId_bytes (cap_download caps),
             ur_renew_cap = CapabilityId_bytes (cap_renew caps), ur_delete_cap = CapabilityId_bytes (cap_delete caps),
             ur_manifest = bm_bytes manifest, ur_expires_at = u64_to_be_bytes expiry, ur_committed_blob = None\<rparr>)) (\<lambda>_.
         tx_return BwStored)))"

definition put_blob_chunk_tx ::
    "(bytes \<Rightarrow> bytes) \<Rightarrow> Engine \<Rightarrow> UploadId \<Rightarrow> CapabilityId \<Rightarrow> u32 \<Rightarrow> bytes \<Rightarrow> Timestamp \<Rightarrow> (BlobDurableError, BlobWriteOutcome) tx" where
  "put_blob_chunk_tx sha256 E upload_id cap index ciphertext now =
     tx_bind (upload E upload_id) (\<lambda>row.
     tx_bind (tx_res (ok_or row (BdProtocol BeNotFound))) (\<lambda>(stored_cap, manifest, expiry).
     if stored_cap \<noteq> CapabilityId_bytes cap then tx_fail (BdProtocol BeUnauthorized)
     else if Timestamp_as_secs now \<ge> expiry then tx_fail (BdProtocol BeExpired)
     else
     tx_bind (tx_res (parse_stored manifest)) (\<lambda>manifest.
     tx_bind (tx_res (ok_or (BlobManifest_digest manifest (unat index)) (BdProtocol BeLimitOutOfRange))) (\<lambda>digest.
     if length ciphertext \<noteq> unat (bm_chunk_size manifest) + 16 \<or> sha256 ciphertext \<noteq> digest
     then tx_fail (BdProtocol BeChunkConflict)
     else
     tx_bind (blob_exec E (query_optional (upload_chunk_at upload_id index) (\<lambda>r. Inr (uc_ciphertext r)))) (\<lambda>existing.
     case existing of
       Some existing \<Rightarrow>
         if existing = ciphertext then tx_return BwDuplicate else tx_fail (BdProtocol BeChunkConflict)
     | None \<Rightarrow>
         tx_bind (blob_exec E (insert_upload_chunk upload_id index ciphertext)) (\<lambda>_.
         tx_return BwStored))))))"

text \<open>
  The loop of \<open>commit_blob_tx\<close> over the chunk indices: every failure of the query, whatever its
  reason, is reported as \<open>Incomplete\<close>.
\<close>

primrec check_chunks ::
    "(bytes \<Rightarrow> bytes) \<Rightarrow> Engine \<Rightarrow> UploadId \<Rightarrow> BlobManifest \<Rightarrow> nat list \<Rightarrow> (BlobDurableError, unit) tx" where
  "check_chunks sha256 E upload_id manifest [] = tx_return ()"
| "check_chunks sha256 E upload_id manifest (index # indices) =
     tx_bind (tx_res (ok_or (u32_try_from (of_nat index)) (BdProtocol BeLimitOutOfRange))) (\<lambda>wire_index.
     tx_bind (tx_map_err (\<lambda>_. BdProtocol BeIncomplete)
         (sql_call E (query_row (upload_chunk_at upload_id wire_index) (\<lambda>r. Inr (uc_ciphertext r))))) (\<lambda>chunk.
     if BlobManifest_digest manifest index \<noteq> Some (sha256 chunk) then tx_fail (BdProtocol BeChunkConflict)
     else check_chunks sha256 E upload_id manifest indices))"

definition commit_blob_tx ::
    "(bytes \<Rightarrow> bytes) \<Rightarrow> Engine \<Rightarrow> UploadId \<Rightarrow> CapabilityId \<Rightarrow> BlobId \<Rightarrow> Timestamp \<Rightarrow> (BlobDurableError, u64) tx" where
  "commit_blob_tx sha256 E upload_id cap requested now =
     tx_bind (blob_exec E (query_optional (upload_rows upload_id) (\<lambda>r. Inr r))) (\<lambda>row.
     tx_bind (tx_res (ok_or row (BdProtocol BeNotFound))) (\<lambda>r.
     if ur_upload_cap r \<noteq> CapabilityId_bytes cap then tx_fail (BdProtocol BeUnauthorized)
     else
     tx_bind (tx_res (be_u64 (ur_expires_at r))) (\<lambda>expiry.
     if Timestamp_as_secs now \<ge> expiry then tx_fail (BdProtocol BeExpired)
     else
     case ur_committed_blob r of
       Some committed \<Rightarrow>
         if committed = BlobId_bytes requested then tx_return expiry else tx_fail (BdProtocol BeIdConflict)
     | None \<Rightarrow>
         tx_bind (tx_res (parse_stored (ur_manifest r))) (\<lambda>manifest.
         if identify sha256 manifest \<noteq> requested then tx_fail (BdProtocol BeIdentityMismatch)
         else
         tx_bind (blob_exec E (\<lambda>db. Inr (length (upload_chunk_rows upload_id db), db))) (\<lambda>count.
         if count \<noteq> BlobManifest_chunk_count manifest then tx_fail (BdProtocol BeIncomplete)
         else
         tx_bind (check_chunks sha256 E upload_id manifest [0..<BlobManifest_chunk_count manifest]) (\<lambda>_.
         tx_bind (blob_exec E (query_optional (object_rows requested) (\<lambda>r. Inr (or_manifest r)))) (\<lambda>existing.
         if existing \<noteq> None \<and> existing \<noteq> Some (bm_bytes manifest) then tx_fail (BdProtocol BeIdConflict)
         else
         tx_bind (blob_exec E (insert_object requested (bm_bytes manifest))) (\<lambda>_.
         tx_bind (blob_exec E (insert_chunks requested upload_id)) (\<lambda>_.
         tx_bind (blob_exec E (insert_grant \<lparr>gr_grant_id = UploadId_bytes upload_id, gr_blob_id = BlobId_bytes requested,
             gr_download_cap = ur_download_cap r, gr_renew_cap = ur_renew_cap r, gr_delete_cap = ur_delete_cap r,
             gr_expires_at = ur_expires_at r, gr_deleted = 0\<rparr>)) (\<lambda>_.
         tx_bind (blob_exec E (set_committed upload_id requested)) (\<lambda>_.
         tx_return expiry)))))))))))"

definition get_blob_manifest_tx ::
    "(bytes \<Rightarrow> bytes) \<Rightarrow> Engine \<Rightarrow> BlobId \<Rightarrow> CapabilityId \<Rightarrow> Timestamp \<Rightarrow> (BlobDurableError, BlobManifest \<times> u64) tx" where
  "get_blob_manifest_tx sha256 E bid cap now =
     tx_bind (authorize_grant E bid gr_download_cap cap now) (\<lambda>expiry.
     tx_bind (blob_exec E (query_row (object_rows bid) (\<lambda>r. Inr (or_manifest r)))) (\<lambda>bytes.
     tx_bind (tx_res (parse_stored bytes)) (\<lambda>manifest.
     if identify sha256 manifest \<noteq> bid then tx_fail (BdProtocol BeIdentityMismatch)
     else tx_return (manifest, expiry))))"

text \<open>As in the commit, every failure of the chunk query is reported as one refusal, here \<open>NotFound\<close>.\<close>

definition get_blob_chunk_tx ::
    "(bytes \<Rightarrow> bytes) \<Rightarrow> Engine \<Rightarrow> BlobId \<Rightarrow> CapabilityId \<Rightarrow> u32 \<Rightarrow> Timestamp \<Rightarrow> (BlobDurableError, bytes \<times> u64) tx" where
  "get_blob_chunk_tx sha256 E bid cap index now =
     tx_bind (authorize_grant E bid gr_download_cap cap now) (\<lambda>expiry.
     tx_bind (blob_exec E (query_row (object_rows bid) (\<lambda>r. Inr (or_manifest r)))) (\<lambda>bytes.
     tx_bind (tx_res (parse_stored bytes)) (\<lambda>manifest.
     tx_bind (tx_res (ok_or (BlobManifest_digest manifest (unat index)) (BdProtocol BeLimitOutOfRange))) (\<lambda>expected.
     tx_bind (tx_map_err (\<lambda>_. BdProtocol BeNotFound)
         (sql_call E (query_row (chunk_at bid index) (\<lambda>r. Inr (cr_ciphertext r))))) (\<lambda>chunk.
     if sha256 chunk \<noteq> expected then tx_fail (BdProtocol BeChunkConflict)
     else tx_return (chunk, expiry))))))"

definition renew_blob_tx ::
    "Engine \<Rightarrow> BlobId \<Rightarrow> CapabilityId \<Rightarrow> Timestamp \<Rightarrow> u64 \<Rightarrow> (BlobDurableError, u64) tx" where
  "renew_blob_tx E bid cap now ttl =
     tx_bind (tx_res (requested_expiry now ttl)) (\<lambda>requested.
     tx_bind (authorize_grant E bid gr_renew_cap cap now) (\<lambda>current.
     let expiry = max current requested in
     tx_bind (blob_exec E (set_expiry bid cap expiry)) (\<lambda>_.
     tx_return expiry)))"

definition delete_blob_tx :: "Engine \<Rightarrow> BlobId \<Rightarrow> CapabilityId \<Rightarrow> Timestamp \<Rightarrow> (BlobDurableError, unit) tx" where
  "delete_blob_tx E bid cap now =
     tx_bind (authorize_grant E bid gr_delete_cap cap now) (\<lambda>_.
     blob_exec E (set_deleted bid cap))"

section \<open>The operations with their own transaction\<close>

definition begin_blob_upload ::
    "Engine \<Rightarrow> UploadId \<Rightarrow> BlobCapabilities \<Rightarrow> BlobManifest \<Rightarrow> Timestamp \<Rightarrow> u64 \<Rightarrow> (BlobDurableError, BlobWriteOutcome) tx" where
  "begin_blob_upload E upload_id caps manifest now ttl =
     in_transaction E BdStorage (begin_blob_upload_tx E upload_id caps manifest now ttl)"

definition put_blob_chunk ::
    "(bytes \<Rightarrow> bytes) \<Rightarrow> Engine \<Rightarrow> UploadId \<Rightarrow> CapabilityId \<Rightarrow> u32 \<Rightarrow> bytes \<Rightarrow> Timestamp \<Rightarrow> (BlobDurableError, BlobWriteOutcome) tx" where
  "put_blob_chunk sha256 E upload_id cap index ciphertext now =
     in_transaction E BdStorage (put_blob_chunk_tx sha256 E upload_id cap index ciphertext now)"

definition commit_blob ::
    "(bytes \<Rightarrow> bytes) \<Rightarrow> Engine \<Rightarrow> UploadId \<Rightarrow> CapabilityId \<Rightarrow> BlobId \<Rightarrow> Timestamp \<Rightarrow> (BlobDurableError, u64) tx" where
  "commit_blob sha256 E upload_id cap requested now =
     in_transaction E BdStorage (commit_blob_tx sha256 E upload_id cap requested now)"

definition get_blob_manifest ::
    "(bytes \<Rightarrow> bytes) \<Rightarrow> Engine \<Rightarrow> BlobId \<Rightarrow> CapabilityId \<Rightarrow> Timestamp \<Rightarrow> (BlobDurableError, BlobManifest \<times> u64) tx" where
  "get_blob_manifest sha256 E bid cap now = in_transaction E BdStorage (get_blob_manifest_tx sha256 E bid cap now)"

definition get_blob_chunk ::
    "(bytes \<Rightarrow> bytes) \<Rightarrow> Engine \<Rightarrow> BlobId \<Rightarrow> CapabilityId \<Rightarrow> u32 \<Rightarrow> Timestamp \<Rightarrow> (BlobDurableError, bytes \<times> u64) tx" where
  "get_blob_chunk sha256 E bid cap index now = in_transaction E BdStorage (get_blob_chunk_tx sha256 E bid cap index now)"

definition renew_blob :: "Engine \<Rightarrow> BlobId \<Rightarrow> CapabilityId \<Rightarrow> Timestamp \<Rightarrow> u64 \<Rightarrow> (BlobDurableError, u64) tx" where
  "renew_blob E bid cap now ttl = in_transaction E BdStorage (renew_blob_tx E bid cap now ttl)"

definition delete_blob :: "Engine \<Rightarrow> BlobId \<Rightarrow> CapabilityId \<Rightarrow> Timestamp \<Rightarrow> (BlobDurableError, unit) tx" where
  "delete_blob E bid cap now = in_transaction E BdStorage (delete_blob_tx E bid cap now)"

section \<open>The exchange\<close>

definition tx_map_ok :: "('a \<Rightarrow> 'b) \<Rightarrow> ('e, 'a) tx \<Rightarrow> ('e, 'b) tx" where
  "tx_map_ok h m = tx_bind m (\<lambda>x. tx_return (h x))"

fun execute_blob_request :: "(bytes \<Rightarrow> bytes) \<Rightarrow> Engine \<Rightarrow> BlobRequest \<Rightarrow> Timestamp \<Rightarrow> (BlobDurableError, BlobResponseBody) tx" where
  "execute_blob_request sha256 E (BrBeginUpload upload_id capabilities manifest ttl) now =
     tx_map_ok BrbBeginUpload (begin_blob_upload_tx E upload_id capabilities manifest now ttl)"
| "execute_blob_request sha256 E (BrPutChunk upload_id upload_cap index ciphertext) now =
     tx_map_ok BrbPutChunk (put_blob_chunk_tx sha256 E upload_id upload_cap index ciphertext now)"
| "execute_blob_request sha256 E (BrCommit upload_id upload_cap blob_id) now =
     tx_map_ok BrbCommit (commit_blob_tx sha256 E upload_id upload_cap blob_id now)"
| "execute_blob_request sha256 E (BrGetManifest blob_id download_cap) now =
     tx_map_ok (\<lambda>(manifest, expiry). BrbGetManifest manifest expiry) (get_blob_manifest_tx sha256 E blob_id download_cap now)"
| "execute_blob_request sha256 E (BrGetChunk blob_id download_cap index) now =
     tx_map_ok (\<lambda>(chunk, expiry). BrbGetChunk chunk expiry) (get_blob_chunk_tx sha256 E blob_id download_cap index now)"
| "execute_blob_request sha256 E (BrRenew blob_id renew_cap ttl) now =
     tx_map_ok BrbRenew (renew_blob_tx E blob_id renew_cap now ttl)"
| "execute_blob_request sha256 E (BrDelete blob_id delete_cap) now =
     tx_map_ok (\<lambda>_. BrbDelete) (delete_blob_tx E blob_id delete_cap now)"

definition blob_effect_error :: "BlobDurableError \<Rightarrow> BlobRelayError EffectError" where
  "blob_effect_error e = (case e of BdProtocol error \<Rightarrow> EffProtocol error | BdStorage error \<Rightarrow> EffStorage error)"

definition blob_exchange ::
    "Engine \<Rightarrow> CapabilityId \<Rightarrow> RequestId \<Rightarrow> bytes \<Rightarrow> (BlobDurableError, 't) tx \<Rightarrow>
     ((BlobRelayError, 't) result \<Rightarrow> bytes) \<Rightarrow> (DurableRelayError, ReplayExchange) tx" where
  "blob_exchange E capability request_id request effect encode =
     exchange E NsBlob (CapabilityId_bytes capability) request_id request (tx_map_err blob_effect_error effect) encode"

definition blob_request_exchange ::
    "(bytes \<Rightarrow> bytes) \<Rightarrow> Engine \<Rightarrow> CapabilityId \<Rightarrow> RequestId \<Rightarrow> bytes \<Rightarrow> BlobRequest \<Rightarrow> Timestamp \<Rightarrow>
     ((BlobRelayError, BlobResponseBody) result \<Rightarrow> bytes) \<Rightarrow> (DurableRelayError, ReplayExchange) tx" where
  "blob_request_exchange sha256 E capability request_id request_bytes request now encode =
     blob_exchange E capability request_id request_bytes (execute_blob_request sha256 E request now) encode"

definition blob_replay :: "Engine \<Rightarrow> CapabilityId \<Rightarrow> RequestId \<Rightarrow> (DurableRelayError, ReplayRecord option) tx" where
  "blob_replay E capability request_id = lookup E NsBlob (CapabilityId_bytes capability) request_id"

section \<open>Faults abort or are masked\<close>

text \<open>
  A failed chunk read is reported as a refusal of the request, \<open>Incomplete\<close> by the commit and
  \<open>NotFound\<close> by a chunk download; every other fault is a storage error.
\<close>

fun blob_masked :: "BlobRequest \<Rightarrow> BlobRelayError \<Rightarrow> bool" where
  "blob_masked (BrCommit _ _ _) e \<longleftrightarrow> e = BeIncomplete"
| "blob_masked (BrGetChunk _ _ _) e \<longleftrightarrow> e = BeNotFound"
| "blob_masked _ e \<longleftrightarrow> False"

definition blob_fault :: "(BlobRelayError \<Rightarrow> bool) \<Rightarrow> BlobDurableError \<Rightarrow> bool" where
  "blob_fault M e = (case e of BdStorage d \<Rightarrow> is_storage d | BdProtocol p \<Rightarrow> M p)"

lemma blob_exec_lawful [lawful_intros]:
  assumes "\<And>E. stmt (faultless E) = stmt E"
  shows "lawful (blob_fault M) (\<lambda>E. blob_exec E (stmt E))"
  unfolding blob_exec_def by (rule lawful_map_err [OF lawful_sql_exec]) (simp_all add: assms blob_fault_def)

lemma masked_call_lawful [lawful_intros]:
  "M p \<Longrightarrow> lawful (blob_fault M) (\<lambda>E. tx_map_err (\<lambda>_. BdProtocol p) (sql_call E stmt))"
  by (rule lawful_map_err [OF lawful_sql_call [of "\<lambda>E. stmt"]]) (simp_all add: blob_fault_def)

lemma upload_lawful [lawful_intros]: "lawful (blob_fault M) (\<lambda>E. upload E u)"
  unfolding upload_def by (intro lawful_intros; simp)

lemma authorize_grant_lawful [lawful_intros]: "lawful (blob_fault M) (\<lambda>E. authorize_grant E b col cap now)"
  unfolding authorize_grant_def by (intro lawful_intros; simp)

lemma check_chunks_lawful [lawful_intros]:
  "M BeIncomplete \<Longrightarrow> lawful (blob_fault M) (\<lambda>E. check_chunks sha E u m is)"
  by (induction "is") (simp_all, (intro lawful_intros; simp)+)

lemma begin_blob_upload_tx_lawful [lawful_intros]:
  "lawful (blob_fault M) (\<lambda>E. begin_blob_upload_tx E u caps m now ttl)"
  unfolding begin_blob_upload_tx_def by (intro lawful_intros; simp)

lemma put_blob_chunk_tx_lawful [lawful_intros]:
  "lawful (blob_fault M) (\<lambda>E. put_blob_chunk_tx sha E u cap i x now)"
  unfolding put_blob_chunk_tx_def by (intro lawful_intros; simp)

lemma commit_blob_tx_lawful [lawful_intros]:
  "M BeIncomplete \<Longrightarrow> lawful (blob_fault M) (\<lambda>E. commit_blob_tx sha E u cap b now)"
  unfolding commit_blob_tx_def by (intro lawful_intros; simp)

lemma get_blob_manifest_tx_lawful [lawful_intros]:
  "lawful (blob_fault M) (\<lambda>E. get_blob_manifest_tx sha E b cap now)"
  unfolding get_blob_manifest_tx_def by (intro lawful_intros; simp)

lemma get_blob_chunk_tx_lawful [lawful_intros]:
  "M BeNotFound \<Longrightarrow> lawful (blob_fault M) (\<lambda>E. get_blob_chunk_tx sha E b cap i now)"
  unfolding get_blob_chunk_tx_def by (intro lawful_intros; simp)

lemma renew_blob_tx_lawful [lawful_intros]: "lawful (blob_fault M) (\<lambda>E. renew_blob_tx E b cap now ttl)"
  unfolding renew_blob_tx_def Let_def by (intro lawful_intros; simp)

lemma delete_blob_tx_lawful [lawful_intros]: "lawful (blob_fault M) (\<lambda>E. delete_blob_tx E b cap now)"
  unfolding delete_blob_tx_def by (intro lawful_intros; simp)

lemma execute_blob_request_lawful:
  "lawful (blob_fault (blob_masked request)) (\<lambda>E. execute_blob_request sha E request now)"
  by (cases request; simp only: execute_blob_request.simps tx_map_ok_def; intro lawful_intros; simp)

section \<open>The exchange records its answer\<close>

lemma preserves_blob_exec [preserves_intros]:
  "(\<And>E db x db'. stmt E db = Inr (x, db') \<Longrightarrow> f db' = f db) \<Longrightarrow> preserves f (\<lambda>E. blob_exec E (stmt E))"
  unfolding blob_exec_def by (intro preserves_intros) simp

lemma preserves_query_row [preserves_intros]: "preserves f (\<lambda>E. sql_call E (query_row q r))"
  by (auto simp: preserves_def sql_call_def dest: query_row_same split: option.split sum.split)

lemma check_chunks_preserves [preserves_intros]: "preserves f (\<lambda>E. check_chunks sha E u m is)"
proof (induction "is")
  case (Cons i "is")
  show ?case
    unfolding check_chunks.simps by (intro preserves_intros Cons)
qed (simp only: check_chunks.simps preserves_basic)

lemmas blob_statement_defs = insert_upload_def insert_upload_chunk_def insert_object_def insert_chunks_def
  insert_grant_def set_committed_def set_expiry_def set_deleted_def

lemmas blob_tx_defs = begin_blob_upload_tx_def put_blob_chunk_tx_def commit_blob_tx_def get_blob_manifest_tx_def
  get_blob_chunk_tx_def renew_blob_tx_def delete_blob_tx_def upload_def authorize_grant_def

lemma execute_blob_preserves_replays:
  "preserves (replay_table ns) (\<lambda>E. execute_blob_request sha E request now)"
  by (cases request; simp only: execute_blob_request.simps tx_map_ok_def blob_tx_defs Let_def;
      intro preserves_intros; cases ns; auto simp: blob_statement_defs Let_def dest: query_optional_same query_row_same
        split: if_splits)

abbreviation blob_effect ::
    "(bytes \<Rightarrow> bytes) \<Rightarrow> BlobRequest \<times> Timestamp \<Rightarrow> Engine \<Rightarrow> (BlobRelayError EffectError, BlobResponseBody) tx" where
  "blob_effect sha256 r E \<equiv> tx_map_err blob_effect_error (execute_blob_request sha256 E (fst r) (snd r))"

lemma blob_effect_lawful:
  "lawful (blob_fault M) m \<Longrightarrow> lawful (fault_error M) (\<lambda>E. tx_map_err blob_effect_error (m E))"
  by (erule lawful_map_err) (auto simp: fault_error_def blob_effect_error_def blob_fault_def split: BlobDurableError.splits)

interpretation blob_records: recorded_effect NsBlob "blob_effect sha256" "\<lambda>r. blob_masked (fst r)" for sha256
  by unfold_locales
    (auto intro: blob_effect_lawful execute_blob_request_lawful preserves_map_err execute_blob_preserves_replays)

lemma blob_request_exchange_eq:
  "blob_request_exchange sha256 E cap rid req request now encode
    = exchange E NsBlob (CapabilityId_bytes cap) rid req (blob_effect sha256 (request, now) E) encode"
  by (simp add: blob_request_exchange_def blob_exchange_def)

text \<open>A sequence of calls of \<open>blob_request_exchange\<close>.\<close>

type_synonym blob_call =
  "CapabilityId \<times> RequestId \<times> bytes \<times> BlobRequest \<times> Timestamp \<times> ((BlobRelayError, BlobResponseBody) result \<Rightarrow> bytes)"

fun blob_call_step ::
    "(bytes \<Rightarrow> bytes) \<Rightarrow> Engine \<Rightarrow> Connection \<Rightarrow> blob_call \<Rightarrow> (DurableRelayError, ReplayExchange) result \<times> Connection" where
  "blob_call_step sha256 E c (cap, rid, req, request, now, encode) =
     blob_request_exchange sha256 E cap rid req request now encode c"

fun blob_exchange_call :: "blob_call \<Rightarrow> (BlobRequest \<times> Timestamp, BlobRelayError, BlobResponseBody) exchange_call" where
  "blob_exchange_call (cap, rid, req, request, now, encode) = (CapabilityId_bytes cap, rid, req, (request, now), encode)"

lemma blob_run_eq:
  "run_steps (blob_call_step sha256 E) c calls
    = run_steps (exchange_step NsBlob (blob_effect sha256) E) c (map blob_exchange_call calls)"
proof (induction calls arbitrary: c)
  case (Cons call calls)
  have "blob_call_step sha256 E c call = exchange_step NsBlob (blob_effect sha256) E c (blob_exchange_call call)"
    by (cases call) (simp add: blob_request_exchange_eq)
  with Cons.IH show ?case
    by (simp split: prod.split)
qed simp

text \<open>
  A blob request and its replay record commit together or not at all. Under any storage faults an
  exchange aborts and changes nothing; or the key was new and the request's effect is committed with
  the record of its response; or the key was new and a failed chunk read was recorded as the refusal
  \<open>Incomplete\<close> of a commit or \<open>NotFound\<close> of a chunk download, without any effect; or the key was
  recorded before and the answer comes from the record.
\<close>

theorem blob_exchange_atomic:
  "aborted (blob_request_exchange sha256 E cap rid req request now encode c) c
   \<or> executed_once NsBlob (CapabilityId_bytes cap) rid req
       (committed_effect (pure_tx (blob_effect sha256 (request, now)) E (cn_db c)) encode (cn_db c))
       (blob_request_exchange sha256 E cap rid req request now encode c) c
   \<or> fault_recorded (blob_masked request) NsBlob (CapabilityId_bytes cap) rid req encode
       (blob_request_exchange sha256 E cap rid req request now encode c) c
   \<or> answered_from_record NsBlob (CapabilityId_bytes cap) rid req
       (blob_request_exchange sha256 E cap rid req request now encode c) c"
  using blob_records.ends [of E "CapabilityId_bytes cap" rid req sha256 "(request, now)" encode c]
  by (simp add: blob_request_exchange_eq)

text \<open>
  At-most-once execution of blob requests. Once a request was answered, then after any further
  exchanges, with any storage faults, the same identifier gives the same response to the same bytes and
  a conflict to other bytes, or a storage error, and changes nothing in any case.
\<close>

theorem blob_retry_same_answer:
  assumes "blob_request_exchange sha256 E cap rid req request now encode c = (Inr (Respond resp), c1)"
    and "run_steps (blob_call_step sha256 E) c1 calls = (outs, c2)"
    and "x = blob_request_exchange sha256 E cap rid req' request' now' encode' c2"
  shows "aborted x c2
    \<or> fst x = Inr (if req' = req then Respond resp else Conflict) \<and> cn_db (snd x) = cn_db c2"
  using blob_records.later_answer [OF assms(1,2) [unfolded blob_request_exchange_eq blob_run_eq]
      assms(3) [unfolded blob_request_exchange_eq]] .

text \<open>A concrete upload: a hash with the digests of the example manifest.\<close>

definition ex_sha :: "bytes \<Rightarrow> bytes" where
  "ex_sha x = replicate 32 5"

definition ex_manifest :: BlobManifest where
  "ex_manifest = \<lparr>bm_bytes = ex_manifest_bytes, bm_object_salt = replicate 16 9, bm_padded_size = 64,
     bm_chunk_size = 32, bm_digests = [replicate 32 5, replicate 32 5]\<rparr>"

definition ex_caps :: BlobCapabilities where
  "ex_caps = \<lparr>cap_upload = CapabilityId (replicate 32 1), cap_download = CapabilityId (replicate 32 2),
     cap_renew = CapabilityId (replicate 32 3), cap_delete = CapabilityId (replicate 32 4)\<rparr>"

definition ex_begin :: BlobRequest where
  "ex_begin = BrBeginUpload (UploadId (replicate 32 8)) ex_caps ex_manifest 60"

definition ex_blob_encode :: "(BlobRelayError, BlobResponseBody) result \<Rightarrow> bytes" where
  "ex_blob_encode r = (case r of Inr _ \<Rightarrow> [1] | Inl _ \<Rightarrow> [2])"

lemmas blob_eval = durable_eval blob_exec_def tx_map_ok_def upload_rows_def upload_chunk_rows_def upload_chunk_at_def
  object_rows_def chunk_at_def grant_rows_def blob_statement_defs upload_row_checks_def grant_row_checks_def be_u64_def
  requested_expiry_def checked_add_def u64_max_def query_row_def

lemma ex_begin_exchange:
  "\<exists>c1. blob_request_exchange ex_sha flaky_engine (cap_upload ex_caps) (RequestId (replicate 16 9)) [5, 5] ex_begin
    (Timestamp 1) ex_blob_encode fresh_connection = (Inr (Respond [1]), c1)"
  by (simp add: blob_request_exchange_eq exchange_def ex_begin_def ex_caps_def blob_eval fresh_connection_def empty_db_def
      begin_blob_upload_tx_def record_response_def insert_replay_def Namespace_insert_def Namespace_select_def
      ex_blob_encode_def)

theorem blob_retry_same_answer_witness:
  "\<exists>c1. blob_request_exchange ex_sha flaky_engine (cap_upload ex_caps) (RequestId (replicate 16 9)) [5, 5] ex_begin
      (Timestamp 1) ex_blob_encode fresh_connection = (Inr (Respond [1]), c1)
    \<and> (let x = blob_request_exchange ex_sha flaky_engine (cap_upload ex_caps) (RequestId (replicate 16 9)) [5, 6]
          ex_begin (Timestamp 9) ex_blob_encode c1
       in aborted x c1 \<or> fst x = Inr Conflict \<and> cn_db (snd x) = cn_db c1)"
proof -
  obtain c1 where c1: "blob_request_exchange ex_sha flaky_engine (cap_upload ex_caps) (RequestId (replicate 16 9)) [5, 5]
      ex_begin (Timestamp 1) ex_blob_encode fresh_connection = (Inr (Respond [1]), c1)"
    using ex_begin_exchange by blast
  show ?thesis
    using c1 blob_retry_same_answer [OF c1 run_steps.simps(1) refl, of "[5, 6]" ex_begin "Timestamp 9" ex_blob_encode]
    by (auto simp: Let_def)
qed

end
