(* ===== verification/CW_Blob_Objects.thy ===== *)
theory CW_Blob_Objects
  imports CW_Blob_Store
begin

text \<open>
  What the blob store guarantees of its tables in every state it can reach, under any requests and any
  faults: published objects are complete, match their identifier and their digests and never change;
  a grant that authorizes a download therefore gives the whole object; deleted grants stay dead.
\<close>

section \<open>The invariant\<close>

definition chunk_ok :: "(bytes \<Rightarrow> bytes) \<Rightarrow> BlobManifest \<Rightarrow> u32 \<Rightarrow> bytes \<Rightarrow> bool" where
  "chunk_ok sha256 m i x \<longleftrightarrow>
     BlobManifest_digest m (unat i) = Some (sha256 x) \<and> length x = unat (bm_chunk_size m) + 16"

text \<open>A row of \<open>blob_objects\<close> with all its chunks: the manifest identifies the object and no chunk is missing.\<close>

definition object_ok :: "(bytes \<Rightarrow> bytes) \<Rightarrow> ChunkRow list \<Rightarrow> ObjectRow \<Rightarrow> bool" where
  "object_ok sha256 chunks obj \<longleftrightarrow>
     (\<exists>m. BlobManifest_parse (or_manifest obj) = Inr m \<and> BlobId_bytes (identify sha256 m) = or_blob_id obj
        \<and> (\<forall>i. unat i < BlobManifest_chunk_count m \<longrightarrow>
             (\<exists>r \<in> set chunks. cr_blob_id r = or_blob_id obj \<and> cr_chunk_index r = i))
        \<and> (\<forall>r \<in> set chunks. cr_blob_id r = or_blob_id obj \<longrightarrow> chunk_ok sha256 m (cr_chunk_index r) (cr_ciphertext r)))"

definition staged_ok :: "(bytes \<Rightarrow> bytes) \<Rightarrow> UploadRow list \<Rightarrow> UploadChunkRow \<Rightarrow> bool" where
  "staged_ok sha256 uploads r \<longleftrightarrow>
     (\<exists>u \<in> set uploads. ur_upload_id u = uc_upload_id r
        \<and> (\<exists>m. BlobManifest_parse (ur_manifest u) = Inr m \<and> chunk_ok sha256 m (uc_chunk_index r) (uc_ciphertext r)))"

definition chunk_key :: "ChunkRow \<Rightarrow> bytes \<times> u32" where
  "chunk_key r = (cr_blob_id r, cr_chunk_index r)"

definition blob_inv :: "(bytes \<Rightarrow> bytes) \<Rightarrow> Db \<Rightarrow> bool" where
  "blob_inv sha256 db \<longleftrightarrow>
     distinct (map ur_upload_id (db_uploads db))
     \<and> (\<forall>r \<in> set (db_upload_chunks db). staged_ok sha256 (db_uploads db) r)
     \<and> distinct (map or_blob_id (db_objects db))
     \<and> distinct (map chunk_key (db_chunks db))
     \<and> (\<forall>r \<in> set (db_chunks db). cr_blob_id r \<in> or_blob_id ` set (db_objects db))
     \<and> (\<forall>obj \<in> set (db_objects db). object_ok sha256 (db_chunks db) obj)
     \<and> distinct (map gr_grant_id (db_grants db))
     \<and> (\<forall>g \<in> set (db_grants db). gr_blob_id g \<in> or_blob_id ` set (db_objects db) \<and> grant_row_checks g)"

section \<open>What a successful operation does to the tables\<close>

lemma blob_exec_Inr [res_simps]:
  "blob_exec E stmt c = (Inr x, c') \<longleftrightarrow> en_fault E (cn_calls c) = None
     \<and> (\<exists>db. stmt (cn_db c) = Inr (x, db) \<and> c' = \<lparr>cn_db = db, cn_calls = cn_calls c + 1\<rparr>)"
  by (simp add: blob_exec_def sql_exec_def res_simps)

lemma tx_res_Inr [res_simps]: "tx_res r c = (Inr x, c') \<longleftrightarrow> r = Inr x \<and> c' = c"
  by (auto simp: tx_res_def)

lemma tx_fail_Inr [res_simps]: "tx_fail e c = (Inr x, c') \<longleftrightarrow> False"
  by (simp add: tx_fail_def)

lemma query_optional_Inr [res_simps]:
  "query_optional q read db = Inr (x, db') \<longleftrightarrow> db' = db
     \<and> (q db = [] \<and> x = None \<or> (\<exists>row rest y. q db = row # rest \<and> read row = Inr y \<and> x = Some y))"
  by (auto simp: query_optional_def res_simps split: list.split)

text \<open>Branches of a computation that returns.\<close>

lemma tx_branch_Inr [res_simps]:
  "(if b then m1 else m2) c = (Inr y, c') \<longleftrightarrow> b \<and> m1 c = (Inr y, c') \<or> \<not> b \<and> m2 c = (Inr y, c')"
  "(case a of None \<Rightarrow> m1 | Some x \<Rightarrow> f x) c = (Inr y, c') \<longleftrightarrow>
     a = None \<and> m1 c = (Inr y, c') \<or> (\<exists>x. a = Some x \<and> f x c = (Inr y, c'))"
  "(case p of (x1, x2) \<Rightarrow> g x1 x2) c = (Inr y, c') \<longleftrightarrow> (\<exists>x1 x2. p = (x1, x2) \<and> g x1 x2 c = (Inr y, c'))"
  by (auto split: option.split prod.split)

lemma query_row_Inr [res_simps]:
  "query_row q read db = Inr (x, db') \<longleftrightarrow> db' = db \<and> (\<exists>row rest. q db = row # rest \<and> read row = Inr x)"
  by (auto simp: query_row_def res_simps split: list.split)

lemma parse_stored_Inr [res_simps]: "parse_stored bs = Inr m \<longleftrightarrow> BlobManifest_parse bs = Inr m"
  by (simp add: parse_stored_def res_simps)

lemma be_u64_Inr [res_simps]: "be_u64 bs = Inr v \<longleftrightarrow> length bs = 8 \<and> v = u64_from_be_bytes bs"
  by (auto simp: be_u64_def)

lemma hd_filter_mem: "filter P xs = x # rest \<Longrightarrow> x \<in> set xs \<and> P x"
  by (metis filter_eq_ConsD in_set_conv_decomp)

lemma authorize_grant_Inr:
  assumes "authorize_grant E b col cap now c = (Inr expiry, c')" and "scans_rows E"
  shows "cn_db c' = cn_db c"
    and "\<exists>g \<in> set (db_grants (cn_db c)). gr_blob_id g = BlobId_bytes b \<and> col g = CapabilityId_bytes cap
      \<and> gr_deleted g = 0 \<and> length (gr_expires_at g) = 8 \<and> u64_from_be_bytes (gr_expires_at g) = expiry
      \<and> Timestamp_as_secs now < expiry"
proof -
  have row: "\<exists>g rest. en_scan E (grant_rows b col cap (cn_db c)) = g # rest \<and> gr_deleted g = 0
      \<and> length (gr_expires_at g) = 8 \<and> u64_from_be_bytes (gr_expires_at g) = expiry \<and> Timestamp_as_secs now < expiry"
    and db: "cn_db c' = cn_db c"
    using assms(1) unfolding authorize_grant_def
    by (auto simp: res_simps)
  from row obtain g rest where g: "en_scan E (grant_rows b col cap (cn_db c)) = g # rest" "gr_deleted g = 0"
      "length (gr_expires_at g) = 8" "u64_from_be_bytes (gr_expires_at g) = expiry" "Timestamp_as_secs now < expiry"
    by blast
  have "mset (g # rest) = mset (grant_rows b col cap (cn_db c))"
    using assms(2) g(1) unfolding scans_rows_def by metis
  then have "g \<in> set (grant_rows b col cap (cn_db c))"
    by (metis list.set_intros(1) mset_eq_setD)
  with g show "\<exists>g \<in> set (db_grants (cn_db c)). gr_blob_id g = BlobId_bytes b \<and> col g = CapabilityId_bytes cap
      \<and> gr_deleted g = 0 \<and> length (gr_expires_at g) = 8 \<and> u64_from_be_bytes (gr_expires_at g) = expiry
      \<and> Timestamp_as_secs now < expiry"
    by (auto simp: grant_rows_def)
  show "cn_db c' = cn_db c" by (rule db)
qed

text \<open>The change of the tables by each kind of request that succeeds.\<close>

definition upload_row :: "UploadId \<Rightarrow> BlobCapabilities \<Rightarrow> BlobManifest \<Rightarrow> u64 \<Rightarrow> UploadRow" where
  "upload_row u caps m expiry = \<lparr>ur_upload_id = UploadId_bytes u,
     ur_upload_cap = CapabilityId_bytes (cap_upload caps), ur_download_cap = CapabilityId_bytes (cap_download caps),
     ur_renew_cap = CapabilityId_bytes (cap_renew caps), ur_delete_cap = CapabilityId_bytes (cap_delete caps),
     ur_manifest = bm_bytes m, ur_expires_at = u64_to_be_bytes expiry, ur_committed_blob = None\<rparr>"

lemma begin_effect:
  assumes "begin_blob_upload_tx E u caps m now ttl c = (Inr out, c')"
  shows "cn_db c' = cn_db c \<or> (\<exists>expiry. insert_upload (upload_row u caps m expiry) (cn_db c) = Inr ((), cn_db c'))"
  using assms unfolding begin_blob_upload_tx_def upload_row_def
  by (auto simp: res_simps)

lemma put_effect:
  assumes "put_blob_chunk_tx sha E u cap i x now c = (Inr out, c')"
  shows "cn_db c' = cn_db c
    \<or> (\<exists>r rest m. upload_rows u (cn_db c) = r # rest \<and> BlobManifest_parse (ur_manifest r) = Inr m \<and> chunk_ok sha m i x
        \<and> insert_upload_chunk u i x (cn_db c) = Inr ((), cn_db c'))"
  using assms unfolding put_blob_chunk_tx_def upload_def chunk_ok_def
  by (fastforce simp: res_simps)

lemma check_chunks_Inr:
  "check_chunks sha E u m is c = (Inr x, c') \<Longrightarrow> cn_db c' = cn_db c
    \<and> (\<forall>i \<in> set is. \<exists>w r rest. u32_try_from (of_nat i) = Some w \<and> upload_chunk_at u w (cn_db c) = r # rest
        \<and> BlobManifest_digest m i = Some (sha (uc_ciphertext r)))"
proof (induction "is" arbitrary: c)
  case (Cons i "is")
  from Cons.prems obtain w r rest c1 where w: "u32_try_from (of_nat i) = Some w"
      and r: "upload_chunk_at u w (cn_db c) = r # rest" "BlobManifest_digest m i = Some (sha (uc_ciphertext r))"
      and c1: "cn_db c1 = cn_db c" "check_chunks sha E u m is c1 = (Inr x, c')"
    unfolding check_chunks.simps by (auto simp: res_simps) (metis Connection.select_convs(1))
  then show ?case
    using Cons.IH [OF c1(2)] by auto
qed (simp add: res_simps)

lemma commit_effect:
  assumes "commit_blob_tx sha E u cap b now c = (Inr expiry, c')"
  shows "cn_db c' = cn_db c
    \<or> (\<exists>r rest m db1 db2 db3. upload_rows u (cn_db c) = r # rest \<and> BlobManifest_parse (ur_manifest r) = Inr m
        \<and> identify sha m = b \<and> length (upload_chunk_rows u (cn_db c)) = BlobManifest_chunk_count m
        \<and> (\<forall>i < BlobManifest_chunk_count m. \<exists>w r rest. u32_try_from (of_nat i) = Some w
            \<and> upload_chunk_at u w (cn_db c) = r # rest \<and> BlobManifest_digest m i = Some (sha (uc_ciphertext r)))
        \<and> (\<forall>obj \<in> set (object_rows b (cn_db c)). \<exists>o1 os. object_rows b (cn_db c) = o1 # os \<and> or_manifest o1 = bm_bytes m)
        \<and> insert_object b (bm_bytes m) (cn_db c) = Inr ((), db1)
        \<and> insert_chunks b u db1 = Inr ((), db2)
        \<and> insert_grant \<lparr>gr_grant_id = UploadId_bytes u, gr_blob_id = BlobId_bytes b, gr_download_cap = ur_download_cap r,
             gr_renew_cap = ur_renew_cap r, gr_delete_cap = ur_delete_cap r, gr_expires_at = ur_expires_at r,
             gr_deleted = 0\<rparr> db2 = Inr ((), db3)
        \<and> set_committed u b db3 = Inr ((), cn_db c'))"
  using assms unfolding commit_blob_tx_def
  by (auto simp: res_simps dest!: check_chunks_Inr)

lemma renew_effect:
  assumes "renew_blob_tx E b cap now ttl c = (Inr expiry, c')" and "scans_rows E"
  shows "set_expiry b cap expiry (cn_db c) = Inr ((), cn_db c')"
    and "\<exists>current requested. expiry = max current requested \<and> requested_expiry now ttl = Inr requested
      \<and> (\<exists>g \<in> set (db_grants (cn_db c)). gr_blob_id g = BlobId_bytes b \<and> gr_renew_cap g = CapabilityId_bytes cap
          \<and> gr_deleted g = 0 \<and> length (gr_expires_at g) = 8 \<and> u64_from_be_bytes (gr_expires_at g) = current
          \<and> Timestamp_as_secs now < current)"
proof -
  from assms(1) obtain current requested c1 where a: "authorize_grant E b gr_renew_cap cap now c = (Inr current, c1)"
      and r: "requested_expiry now ttl = Inr requested" "expiry = max current requested"
      and s: "set_expiry b cap expiry (cn_db c1) = Inr ((), cn_db c')"
    unfolding renew_blob_tx_def by (auto simp: res_simps Let_def)
  show "set_expiry b cap expiry (cn_db c) = Inr ((), cn_db c')"
    using s authorize_grant_Inr(1) [OF a assms(2)] by simp
  show "\<exists>current requested. expiry = max current requested \<and> requested_expiry now ttl = Inr requested
      \<and> (\<exists>g \<in> set (db_grants (cn_db c)). gr_blob_id g = BlobId_bytes b \<and> gr_renew_cap g = CapabilityId_bytes cap
          \<and> gr_deleted g = 0 \<and> length (gr_expires_at g) = 8 \<and> u64_from_be_bytes (gr_expires_at g) = current
          \<and> Timestamp_as_secs now < current)"
    using r authorize_grant_Inr(2) [OF a assms(2)] by blast
qed

lemma delete_effect:
  assumes "delete_blob_tx E b cap now c = (Inr x, c')" and "scans_rows E"
  shows "set_deleted b cap (cn_db c) = Inr ((), cn_db c')"
  using assms authorize_grant_Inr(1) unfolding delete_blob_tx_def
  by (auto simp: res_simps)

lemma get_manifest_effect:
  assumes "get_blob_manifest_tx sha E b cap now c = (Inr x, c')" and "scans_rows E"
  shows "cn_db c' = cn_db c"
  using assms authorize_grant_Inr(1) unfolding get_blob_manifest_tx_def
  by (auto simp: res_simps)

lemma get_chunk_effect:
  assumes "get_blob_chunk_tx sha E b cap i now c = (Inr x, c')" and "scans_rows E"
  shows "cn_db c' = cn_db c"
  using assms authorize_grant_Inr(1) unfolding get_blob_chunk_tx_def
  by (auto simp: res_simps)

section \<open>Every operation keeps the invariant\<close>

lemma add_chunk_properties:
  "\<exists>added. add_chunk row rows = rows @ added \<and> set added \<subseteq> {row}"
  "distinct (map chunk_key rows) \<Longrightarrow> distinct (map chunk_key (add_chunk row rows))"
  "\<exists>r \<in> set (add_chunk row rows). chunk_key r = chunk_key row"
  by (auto simp: add_chunk_def chunk_key_def)

lemma fold_add_chunk:
  "\<exists>added. fold add_chunk new rows = rows @ added \<and> set added \<subseteq> set new"
  "distinct (map chunk_key rows) \<Longrightarrow> distinct (map chunk_key (fold add_chunk new rows))"
  "n \<in> set new \<Longrightarrow> \<exists>r \<in> set (fold add_chunk new rows). chunk_key r = chunk_key n"
proof (induction new arbitrary: rows)
  case (Cons a new)
  { case 1
    show ?case
      using Cons.IH(1) [of "add_chunk a rows"] add_chunk_properties(1) [of a rows] by fastforce
  next
    case 2
    then show ?case
      using Cons.IH(2) add_chunk_properties(2) by simp
  next
    case 3
    show ?case
    proof (cases "n = a")
      case True
      obtain r where "r \<in> set (add_chunk a rows)" "chunk_key r = chunk_key a"
        using add_chunk_properties(3) by blast
      then show ?thesis
        using Cons.IH(1) [of "add_chunk a rows"] True by fastforce
    next
      case False
      with 3 Cons.IH(3) show ?thesis by simp
    qed
  }
qed simp_all

lemma insert_upload_inv:
  assumes "blob_inv sha db" and "insert_upload row db = Inr (x, db')"
  shows "blob_inv sha db'"
  using assms by (fastforce simp: blob_inv_def insert_upload_def staged_ok_def)

lemma insert_upload_chunk_inv:
  assumes "blob_inv sha db" and "insert_upload_chunk u i x db = Inr (y, db')"
    and "upload_rows u db = r # rest" and "BlobManifest_parse (ur_manifest r) = Inr m" and "chunk_ok sha m i x"
  shows "blob_inv sha db'"
proof -
  have "r \<in> set (db_uploads db)" "ur_upload_id r = UploadId_bytes u"
    using hd_filter_mem [OF assms(3) [unfolded upload_rows_def]] by auto
  with assms show ?thesis
    by (auto simp: blob_inv_def insert_upload_chunk_def staged_ok_def)
qed

lemma set_committed_inv:
  assumes "blob_inv sha db" and "set_committed u b db = Inr (x, db')"
  shows "blob_inv sha db'"
proof -
  define f :: "UploadRow \<Rightarrow> UploadRow" where "f = (\<lambda>r. if ur_upload_id r = UploadId_bytes u then r\<lparr>ur_committed_blob := Some (BlobId_bytes b)\<rparr> else r)"
  have f: "ur_upload_id (f r) = ur_upload_id r" "ur_manifest (f r) = ur_manifest r" for r
    by (simp_all add: f_def)
  have "map ur_upload_id (map f us) = map ur_upload_id us" for us
    by (simp add: f)
  moreover have "staged_ok sha us r \<Longrightarrow> staged_ok sha (map f us) r" for us r
    by (auto simp: staged_ok_def f)
  moreover have "db' = db\<lparr>db_uploads := map f (db_uploads db)\<rparr>"
    using assms(2) by (simp add: set_committed_def f_def)
  ultimately show ?thesis
    using assms(1) by (simp add: blob_inv_def del: map_map)
qed

lemma set_grants_inv:
  assumes "blob_inv sha db" and "db' = db\<lparr>db_grants := map f (db_grants db)\<rparr>"
    and "\<And>g. gr_grant_id (f g) = gr_grant_id g \<and> gr_blob_id (f g) = gr_blob_id g \<and> (grant_row_checks g \<longrightarrow> grant_row_checks (f g))"
  shows "blob_inv sha db'"
proof -
  have "map gr_grant_id (map f gs) = map gr_grant_id gs" for gs
    using assms(3) by simp
  with assms show ?thesis
    by (auto simp: blob_inv_def simp del: map_map)
qed

lemma set_expiry_inv: "blob_inv sha db \<Longrightarrow> set_expiry b cap e db = Inr (x, db') \<Longrightarrow> blob_inv sha db'"
  unfolding set_expiry_def by (rule set_grants_inv) (auto simp: grant_row_checks_def)

lemma set_deleted_inv: "blob_inv sha db \<Longrightarrow> set_deleted b cap db = Inr (x, db') \<Longrightarrow> blob_inv sha db'"
  unfolding set_deleted_def by (rule set_grants_inv) (auto simp: grant_row_checks_def)

lemma insert_grant_inv: "blob_inv sha db \<Longrightarrow> insert_grant g db = Inr (x, db') \<Longrightarrow> blob_inv sha db'"
  by (auto simp: blob_inv_def insert_grant_def)

text \<open>The chunks an upload has staged all match the manifest of the upload.\<close>

lemma staged_chunks_ok:
  assumes "blob_inv sha db" and "upload_rows u db = r # rest" and "BlobManifest_parse (ur_manifest r) = Inr m"
    and "x \<in> set (upload_chunk_rows u db)"
  shows "chunk_ok sha m (uc_chunk_index x) (uc_ciphertext x)"
proof -
  have r: "r \<in> set (db_uploads db)" "ur_upload_id r = UploadId_bytes u"
    using hd_filter_mem [OF assms(2) [unfolded upload_rows_def]] by auto
  have "x \<in> set (db_upload_chunks db)" "uc_upload_id x = UploadId_bytes u"
    using assms(4) by (auto simp: upload_chunk_rows_def)
  then obtain u' m' where u': "u' \<in> set (db_uploads db)" "ur_upload_id u' = UploadId_bytes u"
      "BlobManifest_parse (ur_manifest u') = Inr m'" "chunk_ok sha m' (uc_chunk_index x) (uc_ciphertext x)"
    using assms(1) by (auto simp: blob_inv_def staged_ok_def)
  have "u' = r"
    using assms(1) r u' by (intro distinct_key_eq [of ur_upload_id "db_uploads db"]) (simp_all add: blob_inv_def)
  with u' assms(3) show ?thesis by simp
qed

lemma u32_try_from_ucast [simp]: "u32_try_from (ucast (i :: u32)) = Some i"
  by (simp add: u32_try_from_iff)

text \<open>The chunk table after a publication: \<open>new\<close> are the chunks of the upload under their new key.\<close>

lemma published_chunks_ok:
  assumes "blob_inv sha db" and "upload_rows u db = r # rest" and "BlobManifest_parse (ur_manifest r) = Inr m"
    and "c \<in> set (map (published_chunk b) (upload_chunk_rows u db))"
  shows "cr_blob_id c = BlobId_bytes b" and "chunk_ok sha m (cr_chunk_index c) (cr_ciphertext c)"
  using assms(4) staged_chunks_ok [OF assms(1-3)] by (auto simp: published_chunk_def)

lemma published_complete:
  assumes "\<And>i. i < BlobManifest_chunk_count m \<Longrightarrow> \<exists>w r rest. u32_try_from (of_nat i) = Some w
      \<and> upload_chunk_at u w db = r # rest" and "unat i < BlobManifest_chunk_count m"
  shows "\<exists>c \<in> set (fold add_chunk (map (published_chunk b) (upload_chunk_rows u db)) cs).
    cr_blob_id c = BlobId_bytes b \<and> cr_chunk_index c = i"
proof -
  have "upload_chunk_at u i db \<noteq> []"
    using assms(1) [OF assms(2)] by auto
  then obtain y where y: "y \<in> set (upload_chunk_rows u db)" "uc_chunk_index y = i"
    by (auto simp: upload_chunk_at_def filter_empty_conv)
  then have "published_chunk b y \<in> set (map (published_chunk b) (upload_chunk_rows u db))"
    by simp
  from fold_add_chunk(3) [OF this, of cs] y(2) show ?thesis
    by (auto simp: published_chunk_def chunk_key_def)
qed

lemma other_object_ok:
  assumes "object_ok sha cs obj" and "\<And>c. c \<in> set added \<Longrightarrow> cr_blob_id c \<noteq> or_blob_id obj"
  shows "object_ok sha (cs @ added) obj"
  using assms by (fastforce simp: object_ok_def)

lemma insert_object_cases:
  assumes "insert_object b mb db = Inr (x, db1)"
  shows "db1 = db \<or> object_rows b db = []
    \<and> db1 = db\<lparr>db_objects := db_objects db @ [\<lparr>or_blob_id = BlobId_bytes b, or_manifest = mb\<rparr>]\<rparr>"
  using assms by (auto simp: insert_object_def split: if_splits)

lemma publish_objects_ok:
  assumes inv: "blob_inv sha db" and parse: "BlobManifest_parse mb = Inr m" and ident: "identify sha m = b"
    and same: "\<forall>obj \<in> set (object_rows b db). \<exists>o1 os. object_rows b db = o1 # os \<and> or_manifest o1 = mb"
    and object: "insert_object b mb db = Inr (x1, db1)"
    and full: "\<And>i. unat i < BlobManifest_chunk_count m \<Longrightarrow>
      \<exists>c \<in> set (db_chunks db @ added). cr_blob_id c = BlobId_bytes b \<and> cr_chunk_index c = i"
    and new: "\<And>c. c \<in> set added \<Longrightarrow> cr_blob_id c = BlobId_bytes b \<and> chunk_ok sha m (cr_chunk_index c) (cr_ciphertext c)"
    and obj: "obj \<in> set (db_objects db1)"
  shows "object_ok sha (db_chunks db @ added) obj"
proof (cases "or_blob_id obj = BlobId_bytes b")
  case False
  then have "obj \<in> set (db_objects db)"
    using insert_object_cases [OF object] obj by auto
  then have "object_ok sha (db_chunks db) obj"
    using inv by (simp add: blob_inv_def)
  then show ?thesis
    using new False by (intro other_object_ok) auto
next
  case True
  have ids: "distinct (map or_blob_id (db_objects db))"
    using inv by (simp add: blob_inv_def)
  have "or_manifest obj = mb \<and> (\<forall>c \<in> set (db_chunks db). cr_blob_id c = BlobId_bytes b \<longrightarrow>
      chunk_ok sha m (cr_chunk_index c) (cr_ciphertext c))"
  proof (cases "obj \<in> set (db_objects db)")
    case old: True
    then have "obj \<in> set (object_rows b db)"
      using True by (simp add: object_rows_def)
    with same obtain o1 os where o1: "object_rows b db = o1 # os" "or_manifest o1 = mb" by blast
    then have "obj = o1"
      using distinct_key_eq [OF ids old] hd_filter_mem [OF o1(1) [unfolded object_rows_def]] True by simp
    moreover have "object_ok sha (db_chunks db) obj"
      using inv old by (simp add: blob_inv_def)
    ultimately show ?thesis
      using o1(2) parse True by (auto simp: object_ok_def)
  next
    case new: False
    then have "object_rows b db = []" "or_manifest obj = mb"
      using insert_object_cases [OF object] obj by auto
    then show ?thesis
      using inv by (auto simp: blob_inv_def object_rows_def filter_empty_conv)
  qed
  then show ?thesis
    using parse ident full new True unfolding object_ok_def by (intro exI [of _ m]) auto
qed

lemma publish_inv:
  assumes inv: "blob_inv sha db" and rows: "upload_rows u db = r # rest"
    and parse: "BlobManifest_parse (ur_manifest r) = Inr m" and ident: "identify sha m = b"
    and complete: "\<And>i. i < BlobManifest_chunk_count m \<Longrightarrow> \<exists>w r rest. u32_try_from (of_nat i) = Some w
            \<and> upload_chunk_at u w db = r # rest"
    and same: "\<forall>obj \<in> set (object_rows b db). \<exists>o1 os. object_rows b db = o1 # os \<and> or_manifest o1 = bm_bytes m"
    and object: "insert_object b (bm_bytes m) db = Inr (x1, db1)"
    and chunks: "insert_chunks b u db1 = Inr (x2, db2)"
    and present: "BlobId_bytes b \<in> or_blob_id ` set (db_objects db2)"
  shows "blob_inv sha db2"
proof -
  define new where "new = map (published_chunk b) (upload_chunk_rows u db)"
  have db1: "db_chunks db1 = db_chunks db" "upload_chunk_rows u db1 = upload_chunk_rows u db"
      "db_uploads db1 = db_uploads db" "db_upload_chunks db1 = db_upload_chunks db" "db_grants db1 = db_grants db"
      "set (db_objects db) \<subseteq> set (db_objects db1)" "distinct (map or_blob_id (db_objects db1))"
    using inv insert_object_cases [OF object]
    by (auto simp: upload_chunk_rows_def blob_inv_def object_rows_def filter_empty_conv) blast
  obtain added where added: "fold add_chunk new (db_chunks db) = db_chunks db @ added" "set added \<subseteq> set new"
    using fold_add_chunk(1) by blast
  have db2: "db2 = db1\<lparr>db_chunks := db_chunks db @ added\<rparr>"
    using chunks added(1) by (simp add: insert_chunks_def Let_def new_def db1)
  have newc: "cr_blob_id c = BlobId_bytes b" "chunk_ok sha m (cr_chunk_index c) (cr_ciphertext c)" if "c \<in> set added" for c
    using that added(2) published_chunks_ok [OF inv rows parse, of c b] unfolding new_def by blast+
  have full: "\<exists>c \<in> set (db_chunks db @ added). cr_blob_id c = BlobId_bytes b \<and> cr_chunk_index c = i"
    if "unat i < BlobManifest_chunk_count m" for i
    using published_complete [OF complete that, where b = b and cs = "db_chunks db"] added(1) by (simp add: new_def)
  have mb: "BlobManifest_parse (bm_bytes m) = Inr m"
    by (simp only: BlobManifest_parse_bytes [OF parse] parse)
  have "\<forall>obj \<in> set (db_objects db1). object_ok sha (db_chunks db @ added) obj"
    by (intro ballI publish_objects_ok [OF inv mb ident same object full]) (auto simp: newc)
  moreover have "distinct (map chunk_key (db_chunks db @ added))"
    using fold_add_chunk(2) [of "db_chunks db" new] inv by (simp only: added(1) blob_inv_def)
  moreover have owned: "or_blob_id ` set (db_objects db) \<subseteq> or_blob_id ` set (db_objects db1)"
    by (rule image_mono [OF db1(6)])
  moreover have "\<forall>c \<in> set (db_chunks db @ added). cr_blob_id c \<in> or_blob_id ` set (db_objects db1)"
    using inv owned present newc(1) by (simp add: db2 blob_inv_def subset_iff ball_Un)
  ultimately show ?thesis
    using inv db1 by (simp add: blob_inv_def db2 subset_iff)
qed

lemma execute_blob_request_inv:
  assumes "blob_inv sha (cn_db c)" and "scans_rows E" and "execute_blob_request sha E request now c = (Inr x, c')"
  shows "blob_inv sha (cn_db c')"
proof (cases request)
  case (BrBeginUpload u caps m ttl)
  with assms show ?thesis
    by (auto simp: tx_map_ok_def res_simps dest!: begin_effect intro: insert_upload_inv)
next
  case (BrPutChunk u cap i y)
  with assms show ?thesis
    by (auto simp: tx_map_ok_def res_simps dest!: put_effect intro: insert_upload_chunk_inv)
next
  case (BrCommit u cap b)
  then obtain e where "commit_blob_tx sha E u cap b now c = (Inr e, c')"
    using assms(3) by (auto simp: tx_map_ok_def res_simps)
  from commit_effect [OF this] assms(1) show ?thesis
  proof (elim disjE exE conjE)
    fix r rest m db1 db2 db3
    assume commit: "upload_rows u (cn_db c) = r # rest" "BlobManifest_parse (ur_manifest r) = Inr m" "identify sha m = b"
      "\<forall>i < BlobManifest_chunk_count m. \<exists>w r rest. u32_try_from (of_nat i) = Some w
            \<and> upload_chunk_at u w (cn_db c) = r # rest \<and> BlobManifest_digest m i = Some (sha (uc_ciphertext r))"
      "\<forall>obj \<in> set (object_rows b (cn_db c)). \<exists>o1 os. object_rows b (cn_db c) = o1 # os \<and> or_manifest o1 = bm_bytes m"
      "insert_object b (bm_bytes m) (cn_db c) = Inr ((), db1)" "insert_chunks b u db1 = Inr ((), db2)"
      and grant: "insert_grant \<lparr>gr_grant_id = UploadId_bytes u, gr_blob_id = BlobId_bytes b, gr_download_cap = ur_download_cap r,
             gr_renew_cap = ur_renew_cap r, gr_delete_cap = ur_delete_cap r, gr_expires_at = ur_expires_at r,
             gr_deleted = 0\<rparr> db2 = Inr ((), db3)" and com: "set_committed u b db3 = Inr ((), cn_db c')"
    have "BlobId_bytes b \<in> or_blob_id ` set (db_objects db2)"
      using grant by (simp add: insert_grant_def)
    with commit have "blob_inv sha db2"
      by (intro publish_inv [OF assms(1)]) blast+
    then show ?thesis
      by (intro set_committed_inv [OF insert_grant_inv [OF _ grant] com])
  qed simp
next
  case (BrRenew b cap ttl)
  with assms show ?thesis
    by (auto simp: tx_map_ok_def res_simps dest!: renew_effect(1) intro: set_expiry_inv)
next
  case (BrDelete b cap)
  with assms show ?thesis
    by (auto simp: tx_map_ok_def res_simps dest!: delete_effect intro: set_deleted_inv)
qed (use assms in \<open>auto simp: tx_map_ok_def res_simps dest!: get_manifest_effect get_chunk_effect\<close>)

end
