(* ===== verification/CW_Blob_Runs.thy ===== *)
theory CW_Blob_Runs
  imports CW_Blob_Objects
begin

text \<open>
  The store as a transition system: any caller may invoke any operation of the durable relay, directly
  or through an exchange, at any clock reading and under any faults. What \<open>CW_Blob_Objects\<close> shows of
  one operation is lifted to every reachable state, and the guarantees of the blob store follow.
\<close>

section \<open>Steps\<close>

fun blob_direct :: "(bytes \<Rightarrow> bytes) \<Rightarrow> Engine \<Rightarrow> BlobRequest \<Rightarrow> Timestamp \<Rightarrow> (BlobDurableError, BlobResponseBody) tx" where
  "blob_direct sha256 E (BrBeginUpload u caps m ttl) now = tx_map_ok BrbBeginUpload (begin_blob_upload E u caps m now ttl)"
| "blob_direct sha256 E (BrPutChunk u cap i x) now = tx_map_ok BrbPutChunk (put_blob_chunk sha256 E u cap i x now)"
| "blob_direct sha256 E (BrCommit u cap b) now = tx_map_ok BrbCommit (commit_blob sha256 E u cap b now)"
| "blob_direct sha256 E (BrGetManifest b cap) now =
     tx_map_ok (\<lambda>(m, e). BrbGetManifest m e) (get_blob_manifest sha256 E b cap now)"
| "blob_direct sha256 E (BrGetChunk b cap i) now =
     tx_map_ok (\<lambda>(x, e). BrbGetChunk x e) (get_blob_chunk sha256 E b cap i now)"
| "blob_direct sha256 E (BrRenew b cap ttl) now = tx_map_ok BrbRenew (renew_blob E b cap now ttl)"
| "blob_direct sha256 E (BrDelete b cap) now = tx_map_ok (\<lambda>_. BrbDelete) (delete_blob E b cap now)"

inductive store_step :: "(bytes \<Rightarrow> bytes) \<Rightarrow> Engine \<Rightarrow> Connection \<Rightarrow> Connection \<Rightarrow> bool"
  for sha256 :: "bytes \<Rightarrow> bytes" and E :: Engine where
  direct: "store_step sha256 E c (snd (blob_direct sha256 E request now c))"
| exchanged: "store_step sha256 E c (snd (blob_request_exchange sha256 E cap rid req request now encode c))"
| queue_direct: "store_step sha256 E c (snd (durable_step E c (now, event)))"
| queue_exchanged: "store_step sha256 E c (snd (queue_request_exchange E actor rid req qrequest now qencode c))"

abbreviation store_reaches :: "(bytes \<Rightarrow> bytes) \<Rightarrow> Engine \<Rightarrow> Connection \<Rightarrow> Connection \<Rightarrow> bool" where
  "store_reaches sha256 E \<equiv> (store_step sha256 E)\<^sup>*\<^sup>*"

section \<open>A step changes the blob tables by one successful request\<close>

definition blob_tables ::
    "Db \<Rightarrow> UploadRow list \<times> UploadChunkRow list \<times> ObjectRow list \<times> ChunkRow list \<times> GrantRow list" where
  "blob_tables db = (db_uploads db, db_upload_chunks db, db_objects db, db_chunks db, db_grants db)"

definition blob_applied :: "(bytes \<Rightarrow> bytes) \<Rightarrow> Engine \<Rightarrow> Db \<Rightarrow> Db \<Rightarrow> bool" where
  "blob_applied sha256 E db db' \<longleftrightarrow>
     (\<exists>request now x. pure_tx (\<lambda>E. execute_blob_request sha256 E request now) E db = (Inr x, db'))"

lemma preserves_in_transaction [preserves_intros]:
  assumes "preserves f body"
  shows "preserves f (\<lambda>E. in_transaction E from (body E))"
proof -
  have roll: "preserves f m \<Longrightarrow> preserves f (\<lambda>E. or_rollback (m E))" for m :: "Engine \<Rightarrow> ('b, 'c) tx"
    by (auto simp: preserves_def or_rollback_def split: prod.split sum.split) (metis snd_conv)
  show ?thesis
    unfolding in_transaction_def begin_tx_def commit_tx_def
    by (intro roll preserves_intros assms) auto
qed

lemma queue_tx_preserves_blobs [preserves_intros]:
  "preserves blob_tables (\<lambda>E. create_queue_tx E qid cfg)"
  "preserves blob_tables (\<lambda>E. send_tx E qid s mid payload now ttl)"
  "preserves blob_tables (\<lambda>E. fetch_tx E qid p now)"
  "preserves blob_tables (\<lambda>E. acknowledge_tx E qid p mid now)"
  "preserves blob_tables (\<lambda>E. delete_queue_tx E qid p)"
  unfolding create_queue_tx_def send_tx_def fetch_tx_def acknowledge_tx_def delete_queue_tx_def
    authorize_recipient_def read_queue_def discard_expired_def
  by (intro preserves_intros;
      auto simp: insert_queue_def insert_message_def delete_queue_rows_def mark_delivered_def delete_message_def
        delete_expired_def blob_tables_def Let_def dest: query_optional_same)+

lemma with_outcome_db: "cn_db (snd (with_outcome h m c)) = cn_db (snd (m c))"
  by (simp add: with_outcome_def split: prod.split)

lemma preserves_in_transactionD:
  "preserves f body \<Longrightarrow> f (cn_db (snd (in_transaction E from (body E) c))) = f (cn_db c)"
  using preserves_in_transaction [of f body "from"] by (simp add: preserves_def)

lemma queue_step_keeps_blobs: "blob_tables (cn_db (snd (durable_step E c e))) = blob_tables (cn_db c)"
  by (cases "(E, c, e)" rule: durable_step.cases)
    (simp_all add: DurableRelay_create_queue_def DurableRelay_send_def DurableRelay_fetch_def
      DurableRelay_acknowledge_def DurableRelay_delete_queue_def with_outcome_db
      queue_tx_preserves_blobs [THEN preserves_in_transactionD])

lemma blob_tables_add_replay [simp]: "blob_tables (add_replay ns row db) = blob_tables db"
  by (cases ns) (simp_all add: blob_tables_def)

lemma execute_queue_preserves_blobs: "preserves blob_tables (\<lambda>E. execute_queue_request E request now)"
  by (cases request; simp only: execute_queue_request.simps; intro preserves_intros)

lemma pure_tx_preserved: "preserves f m \<Longrightarrow> pure_tx m E db = (r, db') \<Longrightarrow> f db' = f db"
  unfolding preserves_def pure_tx_def seen_def by (metis Connection.select_convs(1) snd_conv)

lemma pure_tx_map_err:
  "pure_tx (\<lambda>E. tx_map_err h (m E)) E db = (map_err h (fst (pure_tx m E db)), snd (pure_tx m E db))"
  by (simp add: pure_tx_def seen_def tx_map_err_def split: prod.split)

lemma queue_exchange_keeps_blobs:
  "blob_tables (cn_db (snd (queue_request_exchange E actor rid req request now encode c))) = blob_tables (cn_db c)"
proof -
  have keep: "blob_tables db = blob_tables (cn_db c)"
    if "committed_effect (pure_tx (queue_effect (request, now)) E (cn_db c)) encode (cn_db c) = Some (resp, db)" for resp db
    using that pure_tx_preserved [OF preserves_map_err [OF execute_queue_preserves_blobs], of queue_effect_error request now E "cn_db c"]
    by (cases "pure_tx (queue_effect (request, now)) E (cn_db c)")
      (auto simp: committed_effect_def split: sum.splits EffectError.splits)
  show ?thesis
    using queue_records.ends [of E "Principal_bytes actor" rid req "(request, now)" encode c]
    by (auto simp: queue_request_exchange_eq aborted_def answered_from_record_def executed_once_def
        fault_recorded_def simp del: add_replay.simps dest: keep [simplified])
qed

lemma blob_exchange_applied:
  assumes "c' = snd (blob_request_exchange sha256 E cap rid req request now encode c)"
  shows "blob_tables (cn_db c') = blob_tables (cn_db c)
    \<or> (\<exists>db. blob_applied sha256 E (cn_db c) db \<and> blob_tables (cn_db c') = blob_tables db)"
proof -
  have "db = cn_db c \<or> blob_applied sha256 E (cn_db c) db"
    if "committed_effect (pure_tx (blob_effect sha256 (request, now)) E (cn_db c)) encode (cn_db c) = Some (resp, db)" for resp db
    using that unfolding blob_applied_def pure_tx_map_err
    by (cases "pure_tx (\<lambda>E. execute_blob_request sha256 E request now) E (cn_db c)")
      (fastforce simp: committed_effect_def blob_effect_error_def res_simps
        split: sum.splits EffectError.splits BlobDurableError.splits)
  then show ?thesis
    using blob_records.ends [of E "CapabilityId_bytes cap" rid req sha256 "(request, now)" encode c]
    by (auto simp: assms blob_request_exchange_eq aborted_def answered_from_record_def executed_once_def fault_recorded_def
        simp del: add_replay.simps)
qed

lemma tx_map_ok_in_transaction: "tx_map_ok h (in_transaction E from m) = in_transaction E from (tx_map_ok h m)"
  by (rule ext) (simp add: tx_map_ok_def in_transaction_def or_rollback_def rollback_to_def tx_bind_def tx_return_def
      split: prod.split sum.split)

text \<open>A direct call is the execution of the request in a transaction of its own.\<close>

lemma blob_direct_eq: "blob_direct sha256 E request now = in_transaction E BdStorage (execute_blob_request sha256 E request now)"
  by (cases request) (simp_all add: begin_blob_upload_def put_blob_chunk_def commit_blob_def get_blob_manifest_def
      get_blob_chunk_def renew_blob_def delete_blob_def tx_map_ok_in_transaction)

lemma blob_direct_applied:
  "cn_db (snd (blob_direct sha256 E request now c)) = cn_db c
    \<or> blob_applied sha256 E (cn_db c) (cn_db (snd (blob_direct sha256 E request now c)))"
  using in_transaction_atomic [OF execute_blob_request_lawful [of request sha256 now], of E BdStorage c]
  unfolding blob_direct_eq blob_applied_def by blast

lemma store_step_applied:
  assumes "store_step sha256 E c c'"
  shows "blob_tables (cn_db c') = blob_tables (cn_db c)
    \<or> (\<exists>db. blob_applied sha256 E (cn_db c) db \<and> blob_tables (cn_db c') = blob_tables db)"
  using assms
proof cases
  case (direct request now)
  then show ?thesis
    using blob_direct_applied [of sha256 E request now c] by auto
next
  case (exchanged cap rid req request now encode)
  then show ?thesis by (rule blob_exchange_applied)
qed (simp_all add: queue_step_keeps_blobs queue_exchange_keeps_blobs)

section \<open>Invariants of every reachable state\<close>

lemma blob_inv_tables: "blob_tables db' = blob_tables db \<Longrightarrow> blob_inv sha db' = blob_inv sha db"
  by (simp add: blob_tables_def blob_inv_def)

lemma blob_applied_inv: "blob_applied sha256 E db db' \<Longrightarrow> scans_rows E \<Longrightarrow> blob_inv sha256 db \<Longrightarrow> blob_inv sha256 db'"
  unfolding blob_applied_def pure_tx_def seen_def
  by (auto dest!: execute_blob_request_inv [rotated 2] simp: prod_eq_iff) (metis (no_types) execute_blob_request_inv
    Connection.select_convs(1) faultless_simps(6) prod.collapse)

lemma reachable_inv:
  assumes "store_reaches sha256 E c c'" and "scans_rows E" and "blob_inv sha256 (cn_db c)"
  shows "blob_inv sha256 (cn_db c')"
  using assms(1)
proof (induction rule: rtranclp_induct)
  case (step c1 c2)
  then show ?case
    using store_step_applied [OF step(2)] blob_applied_inv [OF _ assms(2)] blob_inv_tables by metis
qed (rule assms(3))

lemma fresh_blob_inv: "blob_inv sha256 (cn_db fresh_connection)"
  by (simp add: blob_inv_def fresh_connection_def empty_db_def)

section \<open>Tables only grow\<close>

text \<open>A grant keeps its keys; once deleted it stays deleted.\<close>

definition grant_later :: "GrantRow \<Rightarrow> GrantRow \<Rightarrow> bool" where
  "grant_later g g' \<longleftrightarrow> gr_grant_id g' = gr_grant_id g \<and> gr_blob_id g' = gr_blob_id g
     \<and> gr_download_cap g' = gr_download_cap g \<and> gr_renew_cap g' = gr_renew_cap g \<and> gr_delete_cap g' = gr_delete_cap g
     \<and> (gr_deleted g \<noteq> 0 \<longrightarrow> gr_deleted g' \<noteq> 0)"

definition blob_grows :: "Db \<Rightarrow> Db \<Rightarrow> bool" where
  "blob_grows db db' \<longleftrightarrow> (\<exists>os. db_objects db' = db_objects db @ os) \<and> (\<exists>cs. db_chunks db' = db_chunks db @ cs)
     \<and> (\<forall>g \<in> set (db_grants db). \<exists>g' \<in> set (db_grants db'). grant_later g g')"

lemma grant_later_refl [simp]: "grant_later g g"
  by (simp add: grant_later_def)

lemma blob_grows_refl: "blob_grows db db"
  unfolding blob_grows_def by (metis append_Nil2 grant_later_refl)

lemma blob_grows_trans:
  assumes "blob_grows db db'" and "blob_grows db' db''"
  shows "blob_grows db db''"
proof -
  have "\<exists>g'' \<in> set (db_grants db''). grant_later g g''" if g: "g \<in> set (db_grants db)" for g
  proof -
    obtain g' where g': "g' \<in> set (db_grants db')" "grant_later g g'"
      using assms(1) g unfolding blob_grows_def by metis
    then obtain g'' where "g'' \<in> set (db_grants db'')" "grant_later g' g''"
      using assms(2) unfolding blob_grows_def by metis
    with g'(2) show ?thesis
      by (intro bexI [of _ g'']) (auto simp: grant_later_def)
  qed
  with assms show ?thesis
    by (auto simp: blob_grows_def)
qed

lemma blob_grows_tables:
  "blob_tables db1 = blob_tables db1' \<Longrightarrow> blob_tables db2 = blob_tables db2' \<Longrightarrow> blob_grows db1 db2 = blob_grows db1' db2'"
  by (simp add: blob_tables_def blob_grows_def)

lemma blob_grows_map:
  "(\<And>g. grant_later g (f g)) \<Longrightarrow> blob_grows db (db\<lparr>db_grants := map f (db_grants db)\<rparr>)"
  by (auto simp: blob_grows_def)

lemma set_expiry_grows: "set_expiry b cap e db = Inr (x, db') \<Longrightarrow> blob_grows db db'"
  unfolding set_expiry_def
  by (simp only: sum.inject prod.inject, elim conjE, hypsubst, rule blob_grows_map) (simp add: grant_later_def)

lemma set_deleted_grows: "set_deleted b cap db = Inr (x, db') \<Longrightarrow> blob_grows db db'"
  unfolding set_deleted_def
  by (simp only: sum.inject prod.inject, elim conjE, hypsubst, rule blob_grows_map) (simp add: grant_later_def)

lemma blob_insert_grows:
  "insert_upload row db = Inr (x, db') \<Longrightarrow> blob_grows db db'"
  "insert_upload_chunk u i y db = Inr (x, db') \<Longrightarrow> blob_grows db db'"
  "insert_object b mb db = Inr (x, db') \<Longrightarrow> blob_grows db db'"
  "insert_chunks b u db = Inr (x, db') \<Longrightarrow> blob_grows db db'"
  "insert_grant g db = Inr (x, db') \<Longrightarrow> blob_grows db db'"
  "set_committed u b db = Inr (x, db') \<Longrightarrow> blob_grows db db'"
  using fold_add_chunk(1) [of "map (published_chunk b) (upload_chunk_rows u db)" "db_chunks db"]
  by (auto simp: blob_statement_defs Let_def blob_grows_def grant_later_def split: if_splits)

lemmas blob_statement_grows = blob_insert_grows set_expiry_grows set_deleted_grows

lemma execute_blob_request_grows:
  assumes "scans_rows E" and "execute_blob_request sha E request now c = (Inr x, c')"
  shows "blob_grows (cn_db c) (cn_db c')"
proof (cases request)
  case (BrBeginUpload u caps m ttl)
  with assms show ?thesis
    by (auto simp: tx_map_ok_def res_simps blob_grows_refl dest!: begin_effect intro: blob_statement_grows)
next
  case (BrPutChunk u cap i y)
  with assms show ?thesis
    by (auto simp: tx_map_ok_def res_simps blob_grows_refl dest!: put_effect intro: blob_statement_grows)
next
  case (BrCommit u cap b)
  then obtain e where "commit_blob_tx sha E u cap b now c = (Inr e, c')"
    using assms(2) by (auto simp: tx_map_ok_def res_simps)
  from commit_effect [OF this] show ?thesis
    by (auto simp: blob_grows_refl dest!: blob_statement_grows(3-6) intro: blob_grows_trans)
next
  case (BrRenew b cap ttl)
  with assms show ?thesis
    by (auto simp: tx_map_ok_def res_simps dest!: renew_effect(1) intro: blob_statement_grows)
next
  case (BrDelete b cap)
  with assms show ?thesis
    by (auto simp: tx_map_ok_def res_simps dest!: delete_effect intro: blob_statement_grows)
qed (use assms in \<open>auto simp: tx_map_ok_def res_simps blob_grows_refl dest!: get_manifest_effect get_chunk_effect\<close>)

lemma reachable_grows:
  assumes "store_reaches sha256 E c c'" and "scans_rows E"
  shows "blob_grows (cn_db c) (cn_db c')"
  using assms(1)
proof (induction rule: rtranclp_induct)
  case (step c1 c2)
  have "blob_grows db db'" if "blob_applied sha256 E db db'" for db db'
  proof -
    from that obtain request now x c3 where
        "execute_blob_request sha256 (faultless E) request now \<lparr>cn_db = db, cn_calls = 0\<rparr> = (Inr x, c3)" "db' = cn_db c3"
      by (auto simp: blob_applied_def pure_tx_def seen_def prod_eq_iff)
    then show ?thesis
      using execute_blob_request_grows [of "faultless E"] assms(2) by fastforce
  qed
  then have "blob_grows (cn_db c1) (cn_db c2)"
    using store_step_applied [OF step(2)] blob_grows_tables blob_grows_refl by metis
  with step.IH show ?case
    by (rule blob_grows_trans)
qed (rule blob_grows_refl)

section \<open>Guarantees of the blob store\<close>

lemma in_transaction_answer:
  assumes "lawful S body"
  shows "fst (in_transaction (faultless E) from (body (faultless E)) c) = fst (pure_tx body E (cn_db c))"
  using lawfulD(2) [OF assms, of E "\<lparr>cn_db = cn_db c, cn_calls = cn_calls c + 1\<rparr>"]
  by (auto simp: in_transaction_def or_rollback_def begin_tx_def commit_tx_def sql_exec_def sql_call_def tx_map_err_def
      tx_bind_def tx_return_def seen_def prod_eq_iff split: prod.splits sum.splits)

text \<open>A request in its own transaction, on an engine that raises no faults.\<close>

definition blob_answer ::
    "(bytes \<Rightarrow> bytes) \<Rightarrow> Engine \<Rightarrow> Connection \<Rightarrow> Timestamp \<Rightarrow> BlobRequest \<Rightarrow> (BlobDurableError, BlobResponseBody) result" where
  "blob_answer sha256 E c now request = fst (blob_direct sha256 (faultless E) request now c)"

lemma blob_answer_pure:
  "blob_answer sha256 E c now request = fst (execute_blob_request sha256 (faultless E) request now \<lparr>cn_db = cn_db c, cn_calls = 0\<rparr>)"
  unfolding blob_answer_def blob_direct_eq
  using in_transaction_answer [OF execute_blob_request_lawful [of request sha256 now], of E BdStorage c]
  by (simp add: pure_tx_def seen_def)

lemma tx_map_ok_fst: "fst (tx_map_ok h t d) = Inr y \<longleftrightarrow> (\<exists>x. fst (t d) = Inr x \<and> y = h x)"
  by (auto simp: tx_map_ok_def tx_bind_def tx_return_def split: prod.split sum.split)

lemma authorize_keeps: "cn_db (snd (authorize_grant E b col cap now c)) = cn_db c"
proof -
  have "preserves (\<lambda>db. db) (\<lambda>E. authorize_grant E b col cap now)"
    unfolding authorize_grant_def by (intro preserves_intros) (auto dest: query_optional_same)
  then show ?thesis
    by (simp add: preserves_def)
qed

text \<open>The answers to the two download requests, given what the grants say.\<close>

lemma get_manifest_answer:
  "fst (get_blob_manifest_tx sha (faultless E) b cap now c) =
     res_bind (fst (authorize_grant (faultless E) b gr_download_cap cap now c)) (\<lambda>expiry.
       case object_rows b (cn_db c) of
         [] \<Rightarrow> Inl (BdStorage (DurableRelayError_from QueryReturnedNoRows))
       | obj # _ \<Rightarrow> res_bind (parse_stored (or_manifest obj)) (\<lambda>m.
           if identify sha m \<noteq> b then Inl (BdProtocol BeIdentityMismatch) else Inr (m, expiry)))"
proof -
  obtain r c1 where a: "authorize_grant (faultless E) b gr_download_cap cap now c = (r, c1)" by fastforce
  moreover have "cn_db c1 = cn_db c"
    using authorize_keeps [of "faultless E" b gr_download_cap cap now c] a by simp
  ultimately show ?thesis
    by (cases r) (auto simp: get_blob_manifest_tx_def tx_bind_def a blob_exec_def sql_exec_def sql_call_def tx_map_err_def
        query_row_def tx_res_def tx_fail_def tx_return_def split: list.split sum.split)
qed

lemma get_chunk_answer:
  "fst (get_blob_chunk_tx sha (faultless E) b cap i now c) =
     res_bind (fst (authorize_grant (faultless E) b gr_download_cap cap now c)) (\<lambda>expiry.
       case object_rows b (cn_db c) of
         [] \<Rightarrow> Inl (BdStorage (DurableRelayError_from QueryReturnedNoRows))
       | obj # _ \<Rightarrow> res_bind (parse_stored (or_manifest obj)) (\<lambda>m.
           res_bind (ok_or (BlobManifest_digest m (unat i)) (BdProtocol BeLimitOutOfRange)) (\<lambda>expected.
           case chunk_at b i (cn_db c) of
             [] \<Rightarrow> Inl (BdProtocol BeNotFound)
           | r # _ \<Rightarrow> if sha (cr_ciphertext r) \<noteq> expected then Inl (BdProtocol BeChunkConflict)
               else Inr (cr_ciphertext r, expiry))))"
proof -
  obtain r c1 where a: "authorize_grant (faultless E) b gr_download_cap cap now c = (r, c1)" by fastforce
  moreover have "cn_db c1 = cn_db c"
    using authorize_keeps [of "faultless E" b gr_download_cap cap now c] a by simp
  ultimately show ?thesis
    by (cases r) (auto simp: get_blob_chunk_tx_def tx_bind_def a blob_exec_def sql_exec_def sql_call_def tx_map_err_def
        query_row_def tx_res_def tx_fail_def tx_return_def split: list.split sum.split)
qed

text \<open>An authorized download finds a complete object under the identifier it asked for.\<close>

lemma authorized_object:
  assumes "blob_inv sha (cn_db c)" and "scans_rows E"
    and "fst (authorize_grant E b col cap now c) = Inr expiry"
  shows "\<exists>obj rest m. object_rows b (cn_db c) = obj # rest \<and> parse_stored (or_manifest obj) = Inr m \<and> identify sha m = b
    \<and> (\<forall>i. unat i < BlobManifest_chunk_count m \<longrightarrow> (\<exists>r rest. chunk_at b i (cn_db c) = r # rest
          \<and> chunk_ok sha m i (cr_ciphertext r)))"
proof -
  obtain c1 where a: "authorize_grant E b col cap now c = (Inr expiry, c1)"
    using assms(3) by (metis prod.collapse)
  obtain g where "g \<in> set (db_grants (cn_db c))" "gr_blob_id g = BlobId_bytes b"
    using authorize_grant_Inr(2) [OF a assms(2)] by blast
  then have "BlobId_bytes b \<in> or_blob_id ` set (db_objects (cn_db c))"
    using assms(1) unfolding blob_inv_def by metis
  then obtain obj rest where rows: "object_rows b (cn_db c) = obj # rest"
    by (cases "object_rows b (cn_db c)") (auto simp: object_rows_def filter_empty_conv)
  then have obj: "obj \<in> set (db_objects (cn_db c))" "or_blob_id obj = BlobId_bytes b"
    using hd_filter_mem [OF rows [unfolded object_rows_def]] by auto
  then obtain m where m: "BlobManifest_parse (or_manifest obj) = Inr m" "BlobId_bytes (identify sha m) = or_blob_id obj"
      and full: "\<forall>i. unat i < BlobManifest_chunk_count m \<longrightarrow>
        (\<exists>r \<in> set (db_chunks (cn_db c)). cr_blob_id r = or_blob_id obj \<and> cr_chunk_index r = i)"
      and ok: "\<forall>r \<in> set (db_chunks (cn_db c)). cr_blob_id r = or_blob_id obj \<longrightarrow> chunk_ok sha m (cr_chunk_index r) (cr_ciphertext r)"
    using assms(1) by (auto simp: blob_inv_def object_ok_def)
  have "\<exists>r rest. chunk_at b i (cn_db c) = r # rest \<and> chunk_ok sha m i (cr_ciphertext r)"
    if "unat i < BlobManifest_chunk_count m" for i
  proof -
    have "chunk_at b i (cn_db c) \<noteq> []"
      using full that obj(2) by (auto simp: chunk_at_def filter_empty_conv)
    then obtain r rest where r: "chunk_at b i (cn_db c) = r # rest"
      by (cases "chunk_at b i (cn_db c)") auto
    with ok obj(2) show ?thesis
      using hd_filter_mem [OF r [unfolded chunk_at_def]] by auto
  qed
  moreover have "identify sha m = b"
    using m(2) obj(2) by (simp add: BlobId.expand)
  ultimately show ?thesis
    using rows m(1) by (auto simp: parse_stored_def)
qed

text \<open>So it is served the manifest and every chunk the manifest lists.\<close>

definition serves_object ::
    "(bytes \<Rightarrow> bytes) \<Rightarrow> Engine \<Rightarrow> Connection \<Rightarrow> Timestamp \<Rightarrow> BlobId \<Rightarrow> CapabilityId \<Rightarrow> BlobManifest \<Rightarrow> u64 \<Rightarrow> bool" where
  "serves_object sha256 E c now b cap m expiry \<longleftrightarrow>
     blob_answer sha256 E c now (BrGetManifest b cap) = Inr (BrbGetManifest m expiry)
     \<and> identify sha256 m = b
     \<and> (\<forall>i. unat i < BlobManifest_chunk_count m \<longrightarrow>
          (\<exists>x. blob_answer sha256 E c now (BrGetChunk b cap i) = Inr (BrbGetChunk x expiry)
             \<and> BlobManifest_digest m (unat i) = Some (sha256 x) \<and> length x = unat (bm_chunk_size m) + 16))"

lemma authorized_serves:
  assumes "blob_inv sha256 (cn_db c)" and "scans_rows E"
    and "fst (authorize_grant (faultless E) b gr_download_cap cap now \<lparr>cn_db = cn_db c, cn_calls = 0\<rparr>) = Inr expiry"
  shows "\<exists>m. serves_object sha256 E c now b cap m expiry"
proof -
  let ?c = "\<lparr>cn_db = cn_db c, cn_calls = 0\<rparr>"
  have inv: "blob_inv sha256 (cn_db ?c)"
    using assms(1) by simp
  note auth = assms(3)
  obtain obj rest m where obj: "object_rows b (cn_db ?c) = obj # rest" "parse_stored (or_manifest obj) = Inr m"
      "identify sha256 m = b"
      "\<forall>i. unat i < BlobManifest_chunk_count m \<longrightarrow> (\<exists>r rest. chunk_at b i (cn_db ?c) = r # rest \<and> chunk_ok sha256 m i (cr_ciphertext r))"
    using authorized_object [OF inv _ auth] assms(2) by auto
  have "fst (get_blob_manifest_tx sha256 (faultless E) b cap now ?c) = Inr (m, expiry)"
    using obj(1-3) by (simp add: get_manifest_answer auth)
  moreover have "\<exists>x. fst (get_blob_chunk_tx sha256 (faultless E) b cap i now ?c) = Inr (x, expiry)
      \<and> BlobManifest_digest m (unat i) = Some (sha256 x) \<and> length x = unat (bm_chunk_size m) + 16"
    if "unat i < BlobManifest_chunk_count m" for i
    using obj that by (auto simp: get_chunk_answer auth chunk_ok_def)
  ultimately have "serves_object sha256 E c now b cap m expiry"
    using obj(3) by (auto simp: serves_object_def blob_answer_pure tx_map_ok_fst)
  then show ?thesis ..
qed

text \<open>
  C25: a download is all or nothing. In every state the store can reach, under any requests and faults
  so far, a served manifest is the one its identifier names, and under the same capability and at the
  same time every chunk the manifest lists is served as well, with the digest and length the manifest
  declares.
\<close>

theorem blob_download_complete:
  assumes "scans_rows E" and "store_reaches sha256 E fresh_connection c"
    and "blob_answer sha256 E c now (BrGetManifest b cap) = Inr (BrbGetManifest m expiry)"
  shows "identify sha256 m = b
    \<and> (\<forall>i. unat i < BlobManifest_chunk_count m \<longrightarrow>
         (\<exists>x. blob_answer sha256 E c now (BrGetChunk b cap i) = Inr (BrbGetChunk x expiry)
            \<and> BlobManifest_digest m (unat i) = Some (sha256 x) \<and> length x = unat (bm_chunk_size m) + 16))"
proof -
  let ?c = "\<lparr>cn_db = cn_db c, cn_calls = 0\<rparr>"
  have "fst (get_blob_manifest_tx sha256 (faultless E) b cap now ?c) = Inr (m, expiry)"
    using assms(3) by (auto simp: blob_answer_pure tx_map_ok_fst)
  then have "fst (authorize_grant (faultless E) b gr_download_cap cap now ?c) = Inr expiry"
    by (cases "object_rows b (cn_db ?c)") (auto simp: get_manifest_answer res_simps split: if_splits)
  from authorized_serves [OF reachable_inv [OF assms(2,1) fresh_blob_inv] assms(1) this]
  show ?thesis
    using assms(3) by (auto simp: serves_object_def)
qed

text \<open>
  C26: availability. In every reachable state, on an engine that does not fail, a capability all of
  whose grants for an object are live at the given time is served the object's manifest and, under the
  manifest it is served, every one of its chunks with the digest and length the manifest declares: no
  refusal and no internal error is possible.
\<close>

theorem blob_live_grant_served:
  assumes "scans_rows E" and "store_reaches sha256 E fresh_connection c"
    and "grant_rows b gr_download_cap cap (cn_db c) \<noteq> []"
    and "\<forall>g \<in> set (grant_rows b gr_download_cap cap (cn_db c)).
      gr_deleted g = 0 \<and> Timestamp_as_secs now < u64_from_be_bytes (gr_expires_at g)"
  shows "\<exists>m expiry. blob_answer sha256 E c now (BrGetManifest b cap) = Inr (BrbGetManifest m expiry)
    \<and> identify sha256 m = b
    \<and> (\<forall>i. unat i < BlobManifest_chunk_count m \<longrightarrow>
         (\<exists>x. blob_answer sha256 E c now (BrGetChunk b cap i) = Inr (BrbGetChunk x expiry)
            \<and> BlobManifest_digest m (unat i) = Some (sha256 x) \<and> length x = unat (bm_chunk_size m) + 16))"
proof -
  let ?c = "\<lparr>cn_db = cn_db c, cn_calls = 0\<rparr>"
  have inv: "blob_inv sha256 (cn_db c)"
    using reachable_inv [OF assms(2,1) fresh_blob_inv] by simp
  have perm: "mset (en_scan E (grant_rows b gr_download_cap cap (cn_db c))) = mset (grant_rows b gr_download_cap cap (cn_db c))"
    using assms(1) by (simp add: scans_rows_def)
  then obtain g rest where scan: "en_scan E (grant_rows b gr_download_cap cap (cn_db c)) = g # rest"
    using assms(3) by (cases "en_scan E (grant_rows b gr_download_cap cap (cn_db c))") auto
  have g: "g \<in> set (grant_rows b gr_download_cap cap (cn_db c))"
    using mset_eq_setD [OF perm] scan by auto
  then have "g \<in> set (db_grants (cn_db c))"
    by (simp add: grant_rows_def)
  then have "length (gr_expires_at g) = 8"
    using inv by (auto simp: blob_inv_def grant_row_checks_def)
  then have "fst (authorize_grant (faultless E) b gr_download_cap cap now ?c) = Inr (u64_from_be_bytes (gr_expires_at g))"
    using g assms(4) scan by (auto simp: authorize_grant_def blob_exec_def sql_exec_def sql_call_def tx_map_err_def
        query_optional_def tx_bind_def tx_res_def tx_return_def be_u64_def)
  from authorized_serves [OF inv assms(1) this] show ?thesis
    unfolding serves_object_def by blast
qed

lemma blob_inv_objectD:
  assumes "blob_inv sha db" and "obj \<in> set (db_objects db)"
  shows "\<exists>m. BlobManifest_parse (or_manifest obj) = Inr m"
    and "BlobManifest_parse (or_manifest obj) = Inr m \<Longrightarrow> r \<in> set (db_chunks db) \<Longrightarrow> cr_blob_id r = or_blob_id obj \<Longrightarrow>
      chunk_ok sha m (cr_chunk_index r) (cr_ciphertext r)"
    and "BlobManifest_parse (or_manifest obj) = Inr m \<Longrightarrow> unat i < BlobManifest_chunk_count m \<Longrightarrow>
      \<exists>r \<in> set (db_chunks db). cr_blob_id r = or_blob_id obj \<and> cr_chunk_index r = i"
proof -
  have "object_ok sha (db_chunks db) obj"
    using assms by (simp add: blob_inv_def)
  then show "\<exists>m. BlobManifest_parse (or_manifest obj) = Inr m"
    and "BlobManifest_parse (or_manifest obj) = Inr m \<Longrightarrow> r \<in> set (db_chunks db) \<Longrightarrow> cr_blob_id r = or_blob_id obj \<Longrightarrow>
      chunk_ok sha m (cr_chunk_index r) (cr_ciphertext r)"
    and "BlobManifest_parse (or_manifest obj) = Inr m \<Longrightarrow> unat i < BlobManifest_chunk_count m \<Longrightarrow>
      \<exists>r \<in> set (db_chunks db). cr_blob_id r = or_blob_id obj \<and> cr_chunk_index r = i"
    by (auto simp: object_ok_def)
qed

text \<open>
  C27: published objects are immutable. Whatever happens afterwards, the manifest and every chunk stored
  for a published object stay exactly what they were.
\<close>

theorem blob_objects_immutable:
  assumes "scans_rows E" and "store_reaches sha256 E fresh_connection c" and "store_reaches sha256 E c c'"
    and "object_rows b (cn_db c) \<noteq> []"
  shows "object_rows b (cn_db c') = object_rows b (cn_db c) \<and> chunk_at b i (cn_db c') = chunk_at b i (cn_db c)"
proof -
  have inv: "blob_inv sha256 (cn_db c)" "blob_inv sha256 (cn_db c')"
    using reachable_inv [OF assms(2,1) fresh_blob_inv] reachable_inv [OF assms(3,1)] by auto
  obtain os cs where os: "db_objects (cn_db c') = db_objects (cn_db c) @ os" and cs: "db_chunks (cn_db c') = db_chunks (cn_db c) @ cs"
    using reachable_grows [OF assms(3,1)] by (auto simp: blob_grows_def)
  obtain obj rest where rows: "object_rows b (cn_db c) = obj # rest"
    using assms(4) by (cases "object_rows b (cn_db c)") auto
  have obj: "obj \<in> set (db_objects (cn_db c))" "or_blob_id obj = BlobId_bytes b"
    using hd_filter_mem [OF rows [unfolded object_rows_def]] by auto
  have ids: "distinct (map or_blob_id (db_objects (cn_db c) @ os))" and keys: "distinct (map chunk_key (db_chunks (cn_db c) @ cs))"
    using inv(2) by (simp_all add: blob_inv_def os cs)
  have "or_blob_id o2 \<noteq> BlobId_bytes b" if "o2 \<in> set os" for o2
    using distinct_append_key [OF ids obj(1) that] obj(2) by simp
  then have "object_rows b (cn_db c') = object_rows b (cn_db c)"
    by (auto simp: object_rows_def os filter_empty_conv)
  moreover have "chunk_at b i (cn_db c') = chunk_at b i (cn_db c)"
  proof -
    have "\<not> (cr_blob_id r = BlobId_bytes b \<and> cr_chunk_index r = i)" if r: "r \<in> set cs" for r
    proof
      assume k: "cr_blob_id r = BlobId_bytes b \<and> cr_chunk_index r = i"
      obtain m where m: "BlobManifest_parse (or_manifest obj) = Inr m"
        using blob_inv_objectD(1) [OF inv(1) obj(1)] by blast
      have "r \<in> set (db_chunks (cn_db c'))" "obj \<in> set (db_objects (cn_db c'))"
        using r obj(1) by (simp_all add: cs os)
      then have ok: "chunk_ok sha256 m i (cr_ciphertext r)"
        using blob_inv_objectD(2) [OF inv(2) _ m, of r] k obj(2) by simp
      then have "unat i < BlobManifest_chunk_count m"
        by (auto simp: chunk_ok_def BlobManifest_digest_def BlobManifest_chunk_count_def get_at_eq_Some)
      then obtain r' where "r' \<in> set (db_chunks (cn_db c))" "cr_blob_id r' = BlobId_bytes b" "cr_chunk_index r' = i"
        using blob_inv_objectD(3) [OF inv(1) obj(1) m] obj(2) by auto
      then show False
        using distinct_append_key [OF keys _ r] k by (auto simp: chunk_key_def)
    qed
    then show ?thesis
      by (auto simp: chunk_at_def cs filter_empty_conv)
  qed
  ultimately show ?thesis ..
qed

lemma delete_direct_effect:
  assumes "blob_direct sha256 E (BrDelete b dcap) now c = (Inr x, c1)" and "scans_rows E"
  shows "set_deleted b dcap (cn_db c) = Inr ((), cn_db c1)"
proof -
  from assms(1) obtain c0 c0' where "delete_blob_tx E b dcap now c0 = (Inr (), c0')" and "cn_db c0 = cn_db c" "cn_db c1 = cn_db c0'"
    by (auto simp: tx_map_ok_def delete_blob_def in_transaction_def begin_tx_def commit_tx_def sql_exec_def res_simps)
  then show ?thesis
    using delete_effect [OF _ assms(2)] by metis
qed

text \<open>What the update does to a table in which one row matches.\<close>

lemma set_deleted_single:
  assumes "set_deleted b cap db = Inr (x, db')" and "grant_rows b gr_delete_cap cap db = [g]"
    and "distinct (map gr_grant_id (db_grants db))"
  shows "db' = db\<lparr>db_grants := map (\<lambda>h. if gr_grant_id h = gr_grant_id g then h\<lparr>gr_deleted := 1\<rparr> else h) (db_grants db)\<rparr>"
proof -
  have "gr_blob_id h = BlobId_bytes b \<and> gr_delete_cap h = CapabilityId_bytes cap \<longleftrightarrow> gr_grant_id h = gr_grant_id g"
    if h: "h \<in> set (db_grants db)" for h
  proof -
    have row: "k \<in> set (grant_rows b gr_delete_cap cap db) \<longleftrightarrow> k = g" for k
      using assms(2) by simp
    then have g: "g \<in> set (db_grants db)" "gr_blob_id g = BlobId_bytes b" "gr_delete_cap g = CapabilityId_bytes cap"
      using row [of g] by (auto simp: grant_rows_def)
    then show ?thesis
      using distinct_key_eq [OF assms(3) h g(1)] row [of h] h by (auto simp: grant_rows_def)
  qed
  then show ?thesis
    using assms(1) by (auto simp: set_deleted_def)
qed

lemma served_by_live_grant:
  assumes "scans_rows E" and "blob_answer sha256 E c now (BrGetManifest b cap) = Inr (BrbGetManifest m expiry)"
  shows "\<exists>g \<in> set (grant_rows b gr_download_cap cap (cn_db c)). gr_deleted g = 0 \<and> Timestamp_as_secs now < expiry"
proof -
  let ?c = "\<lparr>cn_db = cn_db c, cn_calls = 0\<rparr>"
  obtain c3 where auth: "authorize_grant (faultless E) b gr_download_cap cap now ?c = (Inr expiry, c3)"
    using assms(2) by (cases "object_rows b (cn_db c)")
      (auto simp: blob_answer_pure tx_map_ok_fst get_manifest_answer res_simps prod_eq_iff split: if_splits)
  show ?thesis
    using authorize_grant_Inr(2) [OF auth] assms(1) by (auto simp: grant_rows_def)
qed

text \<open>
  C28: deletion takes exactly its grant, for good. Take a delete request that succeeds with a capability
  that one grant of the object carries. It marks that grant, and changes nothing else in the database:
  every other grant, the object and its chunks stay as they were. Whatever requests and faults follow,
  that grant stays deleted in every later state, and a download that is served then rests on another
  grant that is live.
\<close>

theorem blob_delete_takes_one_grant:
  assumes "scans_rows E" and "store_reaches sha256 E fresh_connection c"
    and "grant_rows b gr_delete_cap dcap (cn_db c) = [g]"
    and "blob_direct sha256 E (BrDelete b dcap) now c = (Inr x, c1)" and "store_reaches sha256 E c1 c2"
  shows "cn_db c1 = (cn_db c)\<lparr>db_grants :=
      map (\<lambda>h. if gr_grant_id h = gr_grant_id g then h\<lparr>gr_deleted := 1\<rparr> else h) (db_grants (cn_db c))\<rparr>
    \<and> (\<exists>h \<in> set (db_grants (cn_db c2)). gr_grant_id h = gr_grant_id g)
    \<and> (\<forall>h \<in> set (db_grants (cn_db c2)). gr_grant_id h = gr_grant_id g \<longrightarrow> gr_deleted h \<noteq> 0)
    \<and> (blob_answer sha256 E c2 later (BrGetManifest b cap) = Inr (BrbGetManifest m expiry) \<longrightarrow>
        (\<exists>h \<in> set (grant_rows b gr_download_cap cap (cn_db c2)). gr_grant_id h \<noteq> gr_grant_id g \<and> gr_deleted h = 0
           \<and> Timestamp_as_secs later < expiry))"
proof -
  have inv: "blob_inv sha256 (cn_db c)"
    by (rule reachable_inv [OF assms(2,1) fresh_blob_inv])
  have "store_step sha256 E c c1"
    using store_step.direct [of sha256 E c "BrDelete b dcap" now] assms(4) by simp
  then have inv2: "blob_inv sha256 (cn_db c2)"
    using reachable_inv [OF _ assms(1) fresh_blob_inv, of sha256 c2] assms(2,5)
    by (meson converse_rtranclp_into_rtranclp rtranclp_trans)
  have effect: "cn_db c1 = (cn_db c)\<lparr>db_grants :=
      map (\<lambda>h. if gr_grant_id h = gr_grant_id g then h\<lparr>gr_deleted := 1\<rparr> else h) (db_grants (cn_db c))\<rparr>"
    using inv by (intro set_deleted_single [OF delete_direct_effect [OF assms(4,1)] assms(3)]) (simp add: blob_inv_def)
  have "g \<in> set (grant_rows b gr_delete_cap dcap (cn_db c))"
    using assms(3) by simp
  then have "g\<lparr>gr_deleted := 1\<rparr> \<in> set (db_grants (cn_db c1))"
    by (auto simp: effect grant_rows_def)
  then obtain k where k: "k \<in> set (db_grants (cn_db c2))" "grant_later (g\<lparr>gr_deleted := 1\<rparr>) k"
    using reachable_grows [OF assms(5,1)] unfolding blob_grows_def by blast
  have "h = k" if "h \<in> set (db_grants (cn_db c2))" "gr_grant_id h = gr_grant_id g" for h
    using inv2 k that by (intro distinct_key_eq [of gr_grant_id "db_grants (cn_db c2)"])
      (simp_all add: blob_inv_def grant_later_def)
  then have dead: "\<forall>h \<in> set (db_grants (cn_db c2)). gr_grant_id h = gr_grant_id g \<longrightarrow> gr_deleted h \<noteq> 0"
    using k(2) by (auto simp: grant_later_def)
  moreover have "\<exists>h \<in> set (db_grants (cn_db c2)). gr_grant_id h = gr_grant_id g"
    using k by (auto simp: grant_later_def)
  moreover have "\<exists>h \<in> set (grant_rows b gr_download_cap cap (cn_db c2)). gr_grant_id h \<noteq> gr_grant_id g
      \<and> gr_deleted h = 0 \<and> Timestamp_as_secs later < expiry"
    if "blob_answer sha256 E c2 later (BrGetManifest b cap) = Inr (BrbGetManifest m expiry)"
    using served_by_live_grant [OF assms(1) that] dead by (auto simp: grant_rows_def)
  ultimately show ?thesis
    using effect by blast
qed

lemma set_expiry_cases:
  "set_expiry b cap e db = Inr (x, db') \<Longrightarrow> g' \<in> set (db_grants db') \<Longrightarrow>
   \<exists>g \<in> set (db_grants db). gr_grant_id g' = gr_grant_id g
     \<and> (g' = g \<or> gr_blob_id g = BlobId_bytes b \<and> gr_renew_cap g = CapabilityId_bytes cap \<and> gr_deleted g = 0
          \<and> gr_expires_at g' = u64_to_be_bytes e)"
  by (auto simp: set_expiry_def; blast)

text \<open>
  Renewing extends the grant it was authorized by and never shortens one, provided no two live grants
  of the object share the renew capability. The answered expiry is the later one of the current and the
  requested expiry, the sum of the clock and the lifetime without wrap-around.
\<close>

theorem blob_renew_never_shortens:
  assumes "scans_rows E" and "blob_direct sha256 E (BrRenew b cap ttl) now c = (Inr (BrbRenew expiry), c1)"
    and "distinct (map gr_grant_id (db_grants (cn_db c)))"
    and "\<forall>g \<in> set (db_grants (cn_db c)). \<forall>h \<in> set (db_grants (cn_db c)).
      gr_blob_id g = BlobId_bytes b \<and> gr_blob_id h = BlobId_bytes b \<and> gr_renew_cap g = CapabilityId_bytes cap
      \<and> gr_renew_cap h = CapabilityId_bytes cap \<and> gr_deleted g = 0 \<and> gr_deleted h = 0 \<longrightarrow> g = h"
    and "g \<in> set (db_grants (cn_db c))" and "g' \<in> set (db_grants (cn_db c1))" and "gr_grant_id g' = gr_grant_id g"
  shows "u64_from_be_bytes (gr_expires_at g) \<le> u64_from_be_bytes (gr_expires_at g')
    \<and> unat (Timestamp_as_secs now) + unat ttl \<le> unat expiry"
proof -
  from assms(2) obtain c0 c0' where r: "renew_blob_tx E b cap now ttl c0 = (Inr expiry, c0')"
      and dbs: "cn_db c0 = cn_db c" "cn_db c1 = cn_db c0'"
    by (auto simp: tx_map_ok_def renew_blob_def in_transaction_def begin_tx_def commit_tx_def sql_exec_def res_simps)
  obtain current requested a where max: "expiry = max current requested" "requested_expiry now ttl = Inr requested"
      and a: "a \<in> set (db_grants (cn_db c))" "gr_blob_id a = BlobId_bytes b" "gr_renew_cap a = CapabilityId_bytes cap"
        "gr_deleted a = 0" "u64_from_be_bytes (gr_expires_at a) = current"
    using renew_effect(2) [OF r assms(1)] dbs(1) by auto
  have "unat (Timestamp_as_secs now) + unat ttl = unat requested"
    using max(2) by (auto simp: requested_expiry_def checked_add_eq_Some split: option.splits if_splits)
  moreover have "requested \<le> expiry" "current \<le> expiry"
    using max(1) by simp_all
  moreover obtain g0 where g0: "g0 \<in> set (db_grants (cn_db c))" "gr_grant_id g' = gr_grant_id g0"
      "g' = g0 \<or> gr_blob_id g0 = BlobId_bytes b \<and> gr_renew_cap g0 = CapabilityId_bytes cap \<and> gr_deleted g0 = 0
        \<and> gr_expires_at g' = u64_to_be_bytes expiry"
    using set_expiry_cases [OF renew_effect(1) [OF r assms(1)], of g'] assms(6) dbs by auto
  moreover have "g0 = g"
    using distinct_key_eq [OF assms(3) g0(1) assms(5)] g0(2) assms(7) by simp
  ultimately show ?thesis
    using assms(4) a by (auto simp: word_le_nat_alt)
qed

section \<open>A concrete run\<close>

text \<open>Upload of the two chunks of the example manifest, and publication.\<close>

lemma ex_manifest_parse: "BlobManifest_parse ex_manifest_bytes = Inr ex_manifest"
proof -
  have "chunks_exact 32 (replicate 64 (5 :: u8)) = [replicate 32 5, replicate 32 5]"
    by (simp add: chunks_exact.simps numeral_eq_Suc)
  then show ?thesis
    by (simp add: BlobManifest_parse_def ex_manifest_bytes_def ex_manifest_def Let_def u16_from_be_bytes_def u32_from_be_bytes_def
        u64_from_be_bytes_def be_val_def limits_valid_def is_power_of_two_def blob_bounds)
qed

definition ex_upload :: UploadId where
  "ex_upload = UploadId (replicate 32 8)"

definition ex_blob :: BlobId where
  "ex_blob = BlobId (replicate 32 5)"

definition ex_requests :: "BlobRequest list" where
  "ex_requests = [ex_begin, BrPutChunk ex_upload (cap_upload ex_caps) 0 (replicate 48 7),
     BrPutChunk ex_upload (cap_upload ex_caps) 1 (replicate 48 6), BrCommit ex_upload (cap_upload ex_caps) ex_blob]"

definition ex_stored :: Connection where
  "ex_stored = fold (\<lambda>request c. snd (blob_direct ex_sha max_rowid_engine request (Timestamp 5) c)) ex_requests fresh_connection"

lemma ex_stored_reached: "store_reaches ex_sha max_rowid_engine fresh_connection ex_stored"
proof -
  have "store_reaches ex_sha max_rowid_engine c (fold (\<lambda>request c. snd (blob_direct ex_sha max_rowid_engine request t c)) rs c)"
    for rs c t
    by (induction rs arbitrary: c) (auto intro: converse_rtranclp_into_rtranclp store_step.direct)
  then show ?thesis
    by (simp add: ex_stored_def)
qed

lemma max_rowid_engine_scans: "scans_rows max_rowid_engine"
  by (simp add: scans_rows_def max_rowid_engine_def)

definition ex_grant :: GrantRow where
  "ex_grant = \<lparr>gr_grant_id = replicate 32 8, gr_blob_id = replicate 32 5, gr_download_cap = replicate 32 2,
     gr_renew_cap = replicate 32 3, gr_delete_cap = replicate 32 4, gr_expires_at = u64_to_be_bytes 65, gr_deleted = 0\<rparr>"

lemma ex_stored_begin:
  "blob_direct ex_sha max_rowid_engine ex_begin (Timestamp 5) fresh_connection
    = (Inr (BrbBeginUpload BwStored), \<lparr>cn_db = empty_db\<lparr>db_uploads := [upload_row ex_upload ex_caps ex_manifest 65]\<rparr>, cn_calls = 4\<rparr>)"
  by (simp add: ex_begin_def ex_caps_def ex_upload_def upload_row_def begin_blob_upload_def begin_blob_upload_tx_def blob_eval fresh_connection_def
      empty_db_def)

definition ex_staged :: "(u32 \<times> u8) list \<Rightarrow> Db" where
  "ex_staged xs = empty_db\<lparr>db_uploads := [upload_row ex_upload ex_caps ex_manifest 65],
     db_upload_chunks := map (\<lambda>(i, x). \<lparr>uc_upload_id = replicate 32 8, uc_chunk_index = i, uc_ciphertext = replicate 48 x\<rparr>) xs\<rparr>"

lemmas ex_blob_eval = blob_eval ex_caps_def ex_upload_def upload_row_def ex_staged_def empty_db_def upload_def parse_stored_def
  ex_manifest_parse BlobManifest_digest_def get_at_def ex_sha_def

lemma ex_manifest_simps [simp]:
  "bm_bytes ex_manifest = ex_manifest_bytes" "bm_chunk_size ex_manifest = 32" "bm_digests ex_manifest = [replicate 32 5, replicate 32 5]"
  by (simp_all add: ex_manifest_def)

lemma ex_put:
  assumes "i = 0 \<and> xs = [] \<or> i = 1 \<and> xs = [(0, 7)]"
  shows "blob_direct ex_sha max_rowid_engine (BrPutChunk ex_upload (cap_upload ex_caps) i (replicate 48 x)) (Timestamp 5)
      \<lparr>cn_db = ex_staged xs, cn_calls = n\<rparr>
    = (Inr (BrbPutChunk BwStored), \<lparr>cn_db = ex_staged (xs @ [(i, x)]), cn_calls = n + 5\<rparr>)"
  using assms by (auto simp: put_blob_chunk_def put_blob_chunk_tx_def ex_blob_eval)

definition ex_published :: Db where
  "ex_published = (ex_staged [(0, 7), (1, 6)])\<lparr>
         db_uploads := [(upload_row ex_upload ex_caps ex_manifest 65)\<lparr>ur_committed_blob := Some (replicate 32 5)\<rparr>],
         db_objects := [\<lparr>or_blob_id = replicate 32 5, or_manifest = ex_manifest_bytes\<rparr>],
         db_chunks := [\<lparr>cr_blob_id = replicate 32 5, cr_chunk_index = 0, cr_ciphertext = replicate 48 7\<rparr>,
           \<lparr>cr_blob_id = replicate 32 5, cr_chunk_index = 1, cr_ciphertext = replicate 48 6\<rparr>],
         db_grants := [ex_grant]\<rparr>"

lemma ex_commit:
  "blob_direct ex_sha max_rowid_engine (BrCommit ex_upload (cap_upload ex_caps) ex_blob) (Timestamp 5)
      \<lparr>cn_db = ex_staged [(0, 7), (1, 6)], cn_calls = n\<rparr>
    = (Inr (BrbCommit 65), \<lparr>cn_db = ex_published, cn_calls = n + 11\<rparr>)"
  by (simp add: commit_blob_def commit_blob_tx_def ex_published_def ex_blob_eval ex_blob_def ex_grant_def identify_def BlobManifest_chunk_count_def
      upt_conv_Cons u32_try_from_def published_chunk_def add_chunk_def Let_def)

lemma ex_stored_eq: "ex_stored = \<lparr>cn_db = ex_published, cn_calls = 25\<rparr>"
proof -
  have staged: "empty_db\<lparr>db_uploads := [upload_row ex_upload ex_caps ex_manifest 65]\<rparr> = ex_staged []"
    by (simp add: ex_staged_def empty_db_def)
  show ?thesis
    by (simp add: ex_stored_def ex_requests_def ex_stored_begin staged ex_put ex_commit del: blob_direct.simps)
qed

lemma ex_grants: "grant_rows ex_blob gr_download_cap (cap_download ex_caps) (cn_db ex_stored) = [ex_grant]"
  by (simp add: ex_stored_eq ex_published_def grant_rows_def ex_blob_def ex_caps_def ex_grant_def)

theorem blob_live_grant_served_witness:
  "\<exists>m expiry. blob_answer ex_sha max_rowid_engine ex_stored (Timestamp 9) (BrGetManifest ex_blob (cap_download ex_caps))
      = Inr (BrbGetManifest m expiry)
    \<and> (\<forall>i. unat i < BlobManifest_chunk_count m \<longrightarrow> (\<exists>x. blob_answer ex_sha max_rowid_engine ex_stored (Timestamp 9)
        (BrGetChunk ex_blob (cap_download ex_caps) i) = Inr (BrbGetChunk x expiry)))"
proof -
  have "grant_rows ex_blob gr_download_cap (cap_download ex_caps) (cn_db ex_stored) \<noteq> []"
      "\<forall>g \<in> set (grant_rows ex_blob gr_download_cap (cap_download ex_caps) (cn_db ex_stored)).
        gr_deleted g = 0 \<and> Timestamp_as_secs (Timestamp 9) < u64_from_be_bytes (gr_expires_at g)"
    by (simp_all add: ex_grants ex_grant_def)
  from blob_live_grant_served [OF max_rowid_engine_scans ex_stored_reached this] show ?thesis
    by blast
qed

lemmas ex_run_eval = ex_stored_eq ex_published_def authorize_grant_def ex_blob_eval faultless_def ex_blob_def ex_grant_def

lemma ex_manifest_served:
  "blob_answer ex_sha max_rowid_engine ex_stored (Timestamp 9) (BrGetManifest ex_blob (cap_download ex_caps))
    = Inr (BrbGetManifest ex_manifest 65)"
  by (simp add: blob_answer_def get_blob_manifest_def get_blob_manifest_tx_def identify_def ex_run_eval)

theorem blob_download_complete_witness:
  "\<exists>x. blob_answer ex_sha max_rowid_engine ex_stored (Timestamp 9) (BrGetChunk ex_blob (cap_download ex_caps) 1)
      = Inr (BrbGetChunk x 65) \<and> length x = 48"
  using blob_download_complete [OF max_rowid_engine_scans ex_stored_reached ex_manifest_served, THEN conjunct2, rule_format, of 1]
  by (auto simp: BlobManifest_chunk_count_def)

definition ex_deleted :: Connection where
  "ex_deleted = snd (blob_direct ex_sha max_rowid_engine (BrDelete ex_blob (cap_delete ex_caps)) (Timestamp 9) ex_stored)"

theorem blob_objects_immutable_witness:
  "object_rows ex_blob (cn_db ex_deleted) = [\<lparr>or_blob_id = replicate 32 5, or_manifest = ex_manifest_bytes\<rparr>]"
proof -
  have rows: "object_rows ex_blob (cn_db ex_stored) = [\<lparr>or_blob_id = replicate 32 5, or_manifest = ex_manifest_bytes\<rparr>]"
    by (simp add: object_rows_def ex_run_eval)
  have "store_reaches ex_sha max_rowid_engine ex_stored ex_deleted"
    unfolding ex_deleted_def by (rule r_into_rtranclp, rule store_step.direct)
  from blob_objects_immutable [OF max_rowid_engine_scans ex_stored_reached this, of ex_blob] show ?thesis
    by (simp add: rows)
qed

theorem blob_delete_takes_one_grant_witness:
  "\<forall>m e. blob_answer ex_sha max_rowid_engine ex_deleted (Timestamp 12) (BrGetManifest ex_blob (cap_download ex_caps))
    \<noteq> Inr (BrbGetManifest m e)"
proof (intro allI notI)
  fix m e
  assume served: "blob_answer ex_sha max_rowid_engine ex_deleted (Timestamp 12) (BrGetManifest ex_blob (cap_download ex_caps))
    = Inr (BrbGetManifest m e)"
  have one: "grant_rows ex_blob gr_delete_cap (cap_delete ex_caps) (cn_db ex_stored) = [ex_grant]"
    by (simp add: ex_stored_eq ex_published_def grant_rows_def ex_blob_def ex_caps_def ex_grant_def)
  have deleted: "blob_direct ex_sha max_rowid_engine (BrDelete ex_blob (cap_delete ex_caps)) (Timestamp 9) ex_stored
      = (Inr BrbDelete, \<lparr>cn_db = ex_published\<lparr>db_grants := [ex_grant\<lparr>gr_deleted := 1\<rparr>]\<rparr>, cn_calls = 29\<rparr>)"
    by (simp add: delete_blob_def delete_blob_tx_def ex_run_eval)
  have eq: "ex_deleted = \<lparr>cn_db = ex_published\<lparr>db_grants := [ex_grant\<lparr>gr_deleted := 1\<rparr>]\<rparr>, cn_calls = 29\<rparr>"
    unfolding ex_deleted_def deleted by simp
  have rows: "grant_rows ex_blob gr_download_cap (cap_download ex_caps) (cn_db ex_deleted) = [ex_grant\<lparr>gr_deleted := 1\<rparr>]"
    by (simp add: eq grant_rows_def ex_run_eval)
  note kept = blob_delete_takes_one_grant [OF max_rowid_engine_scans ex_stored_reached one deleted [folded eq]
        rtranclp.rtrancl_refl, THEN conjunct2, THEN conjunct2, THEN conjunct2, rule_format, OF served]
  from kept [unfolded rows] show False
    by simp
qed

theorem blob_renew_never_shortens_witness:
  "\<exists>expiry c1 g'. blob_direct ex_sha max_rowid_engine (BrRenew ex_blob (cap_renew ex_caps) 100) (Timestamp 9) ex_stored
      = (Inr (BrbRenew expiry), c1) \<and> g' \<in> set (db_grants (cn_db c1)) \<and> unat (9 :: u64) + unat (100 :: u64) \<le> unat expiry
      \<and> u64_from_be_bytes (gr_expires_at ex_grant) \<le> u64_from_be_bytes (gr_expires_at g')"
proof -
  have renew: "blob_direct ex_sha max_rowid_engine (BrRenew ex_blob (cap_renew ex_caps) 100) (Timestamp 9) ex_stored
      = (Inr (BrbRenew 109), \<lparr>cn_db = ex_published\<lparr>db_grants := [ex_grant\<lparr>gr_expires_at := u64_to_be_bytes 109\<rparr>]\<rparr>, cn_calls = 29\<rparr>)"
    by (simp add: renew_blob_def renew_blob_tx_def Let_def ex_run_eval max_def)
  have grants: "db_grants (cn_db ex_stored) = [ex_grant]"
    by (simp add: ex_stored_eq ex_published_def)
  show ?thesis
    using renew blob_renew_never_shortens [OF max_rowid_engine_scans renew, of ex_grant "ex_grant\<lparr>gr_expires_at := u64_to_be_bytes 109\<rparr>"]
    by (simp add: grants)
qed

section \<open>Two limits of the guarantees\<close>

text \<open>
  With two live grants that share the renew capability, renewing sets both to the same expiry and
  so shortens the one that had more time left.
\<close>

lemma shared_renewal_shortens:
  assumes "c = \<lparr>cn_db = ex_published\<lparr>db_grants := [ex_grant, ex_grant\<lparr>gr_grant_id := replicate 32 9,
      gr_expires_at := u64_to_be_bytes 1000\<rparr>]\<rparr>, cn_calls = 0\<rparr>"
  shows "\<exists>c1. blob_direct ex_sha max_rowid_engine (BrRenew ex_blob (cap_renew ex_caps) 100) (Timestamp 9) c = (Inr (BrbRenew 109), c1)
    \<and> map (\<lambda>g. u64_from_be_bytes (gr_expires_at g)) (db_grants (cn_db c1)) = [109, 109]"
  unfolding assms by (simp add: renew_blob_def renew_blob_tx_def Let_def ex_run_eval max_def)

text \<open>
  A fault while a stored chunk is read is answered and recorded as the refusal \<open>NotFound\<close>, although
  without the fault the chunk is served.
\<close>

lemma chunk_fault_recorded_as_refusal:
  assumes "E = max_rowid_engine\<lparr>en_fault := (\<lambda>n. if n = 28 then Some (SqliteFailure SystemIoFailure) else None)\<rparr>"
    and "encode = (\<lambda>r. case r of Inr _ \<Rightarrow> [1] | Inl e \<Rightarrow> if e = BeNotFound then [2] else [3])"
  shows "\<exists>c1. blob_request_exchange ex_sha E (cap_download ex_caps) (RequestId (replicate 16 9)) [5, 5]
      (BrGetChunk ex_blob (cap_download ex_caps) 0) (Timestamp 9) encode ex_stored = (Inr (Respond [2]), c1)"
    and "blob_answer ex_sha E ex_stored (Timestamp 9) (BrGetChunk ex_blob (cap_download ex_caps) 0)
      = Inr (BrbGetChunk (replicate 48 7) 65)"
  unfolding assms
  by (simp_all add: blob_request_exchange_eq exchange_def blob_effect_error_def get_blob_chunk_tx_def get_blob_chunk_def
      blob_answer_def record_response_def insert_replay_def Namespace_insert_def Namespace_select_def rollback_to_def ex_run_eval)

end
