(* ===== verification/CW_Rate_Limit.thy ===== *)
theory CW_Rate_Limit
  imports CW_Relay_Data "HOL-Library.AList"
begin

text \<open>
  The per-key rate limiter of \<open>apps/cofferwired/src/rate_limit.rs\<close>: its state, \<open>new\<close> and \<open>admit\<close>, and
  the bound it enforces on every rolling window. Additions of clock readings wrap as in a release
  build; the bound assumes readings for which they do not.
\<close>

section \<open>State and operations\<close>

text \<open>The hash map as an association list with one entry per key; \<open>rt_poisoned\<close> is the state of the lock.\<close>

record 'k RateLimiter =
  rt_window_secs :: u64
  rt_max_requests :: nat
  rt_max_tracked_keys :: nat
  rt_windows :: "('k \<times> u64 list) list"
  rt_poisoned :: bool

definition RateLimiter_new :: "u64 \<Rightarrow> nat \<Rightarrow> nat \<Rightarrow> 'k RateLimiter" where
  "RateLimiter_new window_secs max_requests max_tracked_keys =
     \<lparr>rt_window_secs = window_secs, rt_max_requests = max_requests, rt_max_tracked_keys = max_tracked_keys,
      rt_windows = [], rt_poisoned = False\<rparr>"

text \<open>The \<open>while\<close> loop that drops the entries that have left the window.\<close>

fun pop_expired :: "u64 \<Rightarrow> u64 \<Rightarrow> u64 list \<Rightarrow> u64 list" where
  "pop_expired window now [] = []"
| "pop_expired window now (oldest # entries) =
     (if oldest + window \<le> now then pop_expired window now entries else oldest # entries)"

definition RateLimiter_admit :: "'k RateLimiter \<Rightarrow> 'k \<Rightarrow> u64 \<Rightarrow> bool \<times> 'k RateLimiter" where
  "RateLimiter_admit l key now =
     (if rt_poisoned l then (False, l)
      else case map_of (rt_windows l) key of
        Some entries \<Rightarrow>
          let entries = pop_expired (rt_window_secs l) now entries in
          if length entries \<ge> rt_max_requests l
          then (False, l\<lparr>rt_windows := AList.update key entries (rt_windows l)\<rparr>)
          else (True, l\<lparr>rt_windows := AList.update key (entries @ [now]) (rt_windows l)\<rparr>)
      | None \<Rightarrow>
          if length (rt_windows l) \<ge> rt_max_tracked_keys l then (False, l)
          else (True, l\<lparr>rt_windows := AList.update key [now] (rt_windows l)\<rparr>))"

section \<open>The rolling window\<close>

text \<open>A run of \<open>admit\<close> calls, and the times at which requests under a key were admitted.\<close>

fun admit_step :: "'k RateLimiter \<Rightarrow> 'k \<times> u64 \<Rightarrow> bool \<times> 'k RateLimiter" where
  "admit_step l (key, now) = RateLimiter_admit l key now"

fun admitted_times :: "'k \<Rightarrow> 'k RateLimiter \<Rightarrow> ('k \<times> u64) list \<Rightarrow> u64 list" where
  "admitted_times k l [] = []"
| "admitted_times k l ((key, now) # calls) =
     (case RateLimiter_admit l key now of
        (ok, l') \<Rightarrow> (if ok \<and> key = k then [now] else []) @ admitted_times k l' calls)"

definition in_window :: "u64 \<Rightarrow> nat \<Rightarrow> u64 \<Rightarrow> bool" where
  "in_window window s t \<longleftrightarrow> s \<le> unat t \<and> unat t < s + unat window"

definition entries_of :: "'k RateLimiter \<Rightarrow> 'k \<Rightarrow> u64 list" where
  "entries_of l k = (case map_of (rt_windows l) k of None \<Rightarrow> [] | Some es \<Rightarrow> es)"

text \<open>
  The history of a key against its entries: everything that is no longer an entry has left the
  window of the current reading, and no window holds more than the budget.
\<close>

definition window_inv :: "u64 \<Rightarrow> nat \<Rightarrow> nat \<Rightarrow> u64 list \<Rightarrow> u64 list \<Rightarrow> bool" where
  "window_inv window budget now history entries \<longleftrightarrow>
     length entries \<le> budget
     \<and> (\<exists>gone. history = gone @ entries \<and> (\<forall>t \<in> set gone. unat t + unat window \<le> now))
     \<and> (\<forall>s. length (filter (in_window window s) history) \<le> budget)"

lemma pop_expired_split:
  assumes "\<forall>t \<in> set entries. unat t + unat window \<le> u64_max"
  shows "\<exists>gone. entries = gone @ pop_expired window now entries \<and> (\<forall>t \<in> set gone. unat t + unat window \<le> unat now)"
  using assms
proof (induction window now entries rule: pop_expired.induct)
  case (2 window now oldest entries)
  have "unat (oldest + window) = unat oldest + unat window"
    using 2(2) by (simp add: unat_word_ariths u64_max_def)
  then have le: "oldest + window \<le> now \<longleftrightarrow> unat oldest + unat window \<le> unat now"
    by (simp add: word_le_nat_alt)
  show ?case
  proof (cases "oldest + window \<le> now")
    case True
    then obtain gone where "entries = gone @ pop_expired window now entries"
        "\<forall>t \<in> set gone. unat t + unat window \<le> unat now"
      using "2.IH" 2(2) by auto
    with True le show ?thesis
      by (intro exI [of _ "oldest # gone"]) auto
  qed simp
qed simp

lemma window_inv_later: "window_inv w b now h es \<Longrightarrow> now \<le> now' \<Longrightarrow> window_inv w b now' h es"
  by (auto simp: window_inv_def) force

lemma window_inv_pop:
  assumes "window_inv w b (unat now) h es" and "\<forall>t \<in> set h. unat t + unat w \<le> u64_max"
  shows "window_inv w b (unat now) h (pop_expired w now es)"
proof -
  obtain gone where gone: "h = gone @ es" "\<forall>t \<in> set gone. unat t + unat w \<le> unat now"
    using assms(1) by (auto simp: window_inv_def)
  obtain gone' where gone': "es = gone' @ pop_expired w now es" "\<forall>t \<in> set gone'. unat t + unat w \<le> unat now"
    using pop_expired_split [of es w now] assms(2) gone(1) by auto
  have "length (pop_expired w now es) \<le> length es"
    using arg_cong [OF gone'(1), of length] by simp
  moreover have "h = (gone @ gone') @ pop_expired w now es"
    using gone(1) gone'(1) by simp
  ultimately show ?thesis
    using assms(1) gone(2) gone'(2) unfolding window_inv_def
    by (metis (no_types, lifting) Un_iff order_trans set_append)
qed

lemma window_inv_push:
  assumes inv: "window_inv w b (unat now) h es" and room: "length es < b"
  shows "window_inv w b (unat now) (h @ [now]) (es @ [now])"
proof -
  obtain gone where gone: "h = gone @ es" "\<forall>t \<in> set gone. unat t + unat w \<le> unat now"
    using inv by (auto simp: window_inv_def)
  have "length (filter (in_window w s) (h @ [now])) \<le> b" for s
  proof (cases "in_window w s now")
    case False
    with inv show ?thesis by (simp add: window_inv_def)
  next
    case True
    then have "\<not> in_window w s t" if "t \<in> set gone" for t
      using gone(2) that by (fastforce simp: in_window_def)
    then have "filter (in_window w s) gone = []"
      by (simp add: filter_empty_conv)
    moreover have "length (filter (in_window w s) es) < b"
      by (rule le_less_trans [OF length_filter_le room])
    ultimately show ?thesis
      using gone(1) True by simp
  qed
  with room gone show ?thesis
    by (simp add: window_inv_def)
qed

lemma entries_of_admit:
  "rt_window_secs (snd (RateLimiter_admit l key now)) = rt_window_secs l"
  "rt_max_requests (snd (RateLimiter_admit l key now)) = rt_max_requests l"
  "key \<noteq> k \<Longrightarrow> entries_of (snd (RateLimiter_admit l key now)) k = entries_of l k"
  by (auto simp: RateLimiter_admit_def entries_of_def update_conv' Let_def split: option.split)

text \<open>
  What a key can use of its window. The first request under a key is admitted without a look at the
  budget, so a budget of zero still admits one.
\<close>

definition effective_budget :: "nat \<Rightarrow> nat" where
  "effective_budget max_requests = max 1 max_requests"

lemma admit_window:
  assumes "window_inv (rt_window_secs l) (effective_budget (rt_max_requests l)) (unat now) h (entries_of l key)"
    and "\<forall>t \<in> set h. unat t + unat (rt_window_secs l) \<le> u64_max"
    and "RateLimiter_admit l key now = (ok, l')"
  shows "window_inv (rt_window_secs l) (effective_budget (rt_max_requests l)) (unat now)
    (h @ (if ok then [now] else [])) (entries_of l' key)"
proof (cases "map_of (rt_windows l) key")
  case None
  then have "entries_of l key = []"
    by (simp add: entries_of_def)
  with None assms window_inv_push [OF assms(1)] show ?thesis
    by (auto simp: RateLimiter_admit_def entries_of_def update_conv' effective_budget_def split: if_splits)
next
  case (Some es)
  then have "entries_of l key = es"
    by (simp add: entries_of_def)
  with window_inv_pop [OF assms(1,2)] window_inv_push [OF window_inv_pop [OF assms(1,2)]] Some assms show ?thesis
    by (auto simp: RateLimiter_admit_def entries_of_def update_conv' Let_def effective_budget_def split: if_splits)
qed

lemma admitted_window:
  assumes "window_inv (rt_window_secs l) (effective_budget (rt_max_requests l)) t0 h (entries_of l k)"
    and "\<forall>t \<in> set h. unat t + unat (rt_window_secs l) \<le> u64_max"
    and "sorted (t0 # map (\<lambda>c. unat (snd c)) calls)"
    and "\<forall>c \<in> set calls. unat (snd c) + unat (rt_window_secs l) \<le> u64_max"
  shows "length (filter (in_window (rt_window_secs l) s) (h @ admitted_times k l calls)) \<le> effective_budget (rt_max_requests l)"
  using assms
proof (induction calls arbitrary: l t0 h)
  case Nil
  then show ?case by (simp add: window_inv_def)
next
  case (Cons call calls)
  obtain key now where call: "call = (key, now)" by (cases call)
  obtain ok l' where step: "RateLimiter_admit l key now = (ok, l')" by fastforce
  have fields: "rt_window_secs l' = rt_window_secs l" "rt_max_requests l' = rt_max_requests l"
      "key \<noteq> k \<Longrightarrow> entries_of l' k = entries_of l k"
    using entries_of_admit(1,2) [of l key now] entries_of_admit(3) [of key k l now] step by simp_all
  have inv: "window_inv (rt_window_secs l) (effective_budget (rt_max_requests l)) (unat now) h (entries_of l k)"
    using window_inv_later [OF Cons.prems(1)] Cons.prems(3) call by simp
  define h' where "h' = h @ (if ok \<and> key = k then [now] else [])"
  have "window_inv (rt_window_secs l') (effective_budget (rt_max_requests l')) (unat now) h' (entries_of l' k)"
    using admit_window [OF _ Cons.prems(2) step] inv fields by (cases "key = k") (auto simp: h'_def)
  moreover have "\<forall>t \<in> set h'. unat t + unat (rt_window_secs l') \<le> u64_max"
    using Cons.prems(2,4) call fields(1) by (auto simp: h'_def)
  ultimately have "length (filter (in_window (rt_window_secs l') s) (h' @ admitted_times k l' calls))
      \<le> effective_budget (rt_max_requests l')"
    using Cons.prems(3,4) call fields(1,2) by (intro Cons.IH [of l' "unat now" h']) auto
  then show ?case
    by (simp add: call step h'_def fields)
qed

text \<open>
  C30: the rate limit holds on every rolling window. In any run of a new limiter, with clock readings
  that do not go backwards and do not overflow with the window added, at most \<open>max_requests\<close>
  requests under a key are admitted within any \<open>window_secs\<close> consecutive seconds; one, when
  \<open>max_requests\<close> is zero.
\<close>

theorem rate_limit_bound:
  assumes "sorted (map (\<lambda>c. unat (snd c)) calls)"
    and "\<forall>c \<in> set calls. unat (snd c) + unat window \<le> u64_max"
  shows "length (filter (in_window window s) (admitted_times k (RateLimiter_new window budget keys) calls))
    \<le> (if budget = 0 then 1 else budget)"
proof -
  have "window_inv window (effective_budget budget) 0 [] (entries_of (RateLimiter_new window budget keys) k)"
    by (simp add: window_inv_def entries_of_def RateLimiter_new_def)
  moreover have "effective_budget budget = (if budget = 0 then 1 else budget)"
    by (simp add: effective_budget_def)
  ultimately show ?thesis
    using admitted_window [of "RateLimiter_new window budget keys" 0 "[]" k calls s] assms
    by (simp add: RateLimiter_new_def)
qed

theorem rate_limit_bound_witness:
  "admitted_times ''a'' (RateLimiter_new 60 2 9) [(''a'', 10), (''b'', 11), (''a'', 12), (''a'', 13), (''a'', 75)] = [10, 12, 75]
   \<and> length (filter (in_window 60 10)
      (admitted_times ''a'' (RateLimiter_new 60 2 9) [(''a'', 10), (''b'', 11), (''a'', 12), (''a'', 13), (''a'', 75)])) \<le> 2"
proof
  show "admitted_times ''a'' (RateLimiter_new 60 2 9) [(''a'', 10), (''b'', 11), (''a'', 12), (''a'', 13), (''a'', 75)] = [10, 12, 75]"
    by (simp add: RateLimiter_new_def RateLimiter_admit_def Let_def)
  show "length (filter (in_window 60 10)
      (admitted_times ''a'' (RateLimiter_new 60 2 9) [(''a'', 10), (''b'', 11), (''a'', 12), (''a'', 13), (''a'', 75)])) \<le> 2"
    using rate_limit_bound [of "[(''a'', 10), (''b'', 11), (''a'', 12), (''a'', 13), (''a'', 75)]" 60 10 "''a''" 2 9]
    by (simp add: u64_max_def)
qed

text \<open>The exception is real: with a budget of zero the first request under every key that can be tracked is admitted.\<close>

lemma zero_budget_admits_one:
  assumes "0 < keys"
  shows "admitted_times k (RateLimiter_new window 0 keys) [(k, now)] = [now]"
  using assms by (simp add: RateLimiter_new_def RateLimiter_admit_def)

section \<open>Tracked keys\<close>

text \<open>The memory bound: never more keys than allowed.\<close>

lemma update_length: "distinct (map fst xs) \<Longrightarrow> map_of xs k = None \<Longrightarrow> length (AList.update k v xs) = length xs + 1"
  by (induction xs) (auto split: if_splits)

lemma update_length_same: "map_of xs k = Some w \<Longrightarrow> length (AList.update k v xs) = length xs"
  by (induction xs) (auto split: if_splits)

definition keys_inv :: "'k RateLimiter \<Rightarrow> bool" where
  "keys_inv l \<longleftrightarrow> distinct (map fst (rt_windows l)) \<and> length (rt_windows l) \<le> rt_max_tracked_keys l"

lemma keys_inv_admit: "keys_inv l \<Longrightarrow> keys_inv (snd (RateLimiter_admit l key now))"
  by (auto simp: keys_inv_def RateLimiter_admit_def Let_def update_length update_length_same distinct_update split: option.split)

text \<open>
  Once the table is full, a key that is not in it is refused at every later time, however long ago the
  requests of the tracked keys were.
\<close>

lemma full_table_refuses:
  assumes "keys_inv l" and "length (rt_windows l) = rt_max_tracked_keys l" and "map_of (rt_windows l) k = None"
  shows "admitted_times k l calls = []"
  using assms
proof (induction calls arbitrary: l)
  case (Cons call calls)
  obtain key now where call: "call = (key, now)" by (cases call)
  obtain ok l' where step: "RateLimiter_admit l key now = (ok, l')" by fastforce
  have "keys_inv l'"
    using keys_inv_admit [OF Cons.prems(1), of key now] step by simp
  moreover have "length (rt_windows l') = rt_max_tracked_keys l'" "map_of (rt_windows l') k = None" "\<not> (ok \<and> key = k)"
    using step Cons.prems(2,3)
    by (auto simp: RateLimiter_admit_def Let_def update_length_same update_conv' split: option.splits if_splits)
  ultimately show ?case
    using Cons.IH [of l'] by (auto simp: call step)
qed simp

end
