(* ===== verification/CW_Crypto.thy ===== *)
theory CW_Crypto
  imports CW_Types
begin

text \<open>
  The cryptographic profile of \<open>crates/cofferwire-crypto/src/lib.rs\<close> and the application receipts of
  \<open>receipt.rs\<close>: proofs, envelopes, contexts and receipts byte for byte. The primitives come from
  third-party packages: Ed25519 and HPKE are the parameters \<open>Ed25519\<close> and \<open>Hpke\<close>, and what the code
  relies on of them, their documented correctness, is stated in \<open>ed25519_laws\<close> and \<open>hpke_laws\<close>.
\<close>

section \<open>Primitives\<close>

text \<open>
  Ed25519: the verifying key of a seed, signing, and the three checks of a verification (decoding the
  key, decoding the signature, \<open>verify_strict\<close>).
\<close>

record Ed25519 =
  ed_verifying_key :: "bytes \<Rightarrow> bytes"
  ed_sign :: "bytes \<Rightarrow> bytes \<Rightarrow> bytes"
  ed_key_ok :: "bytes \<Rightarrow> bool"
  ed_signature_ok :: "bytes \<Rightarrow> bool"
  ed_verify_strict :: "bytes \<Rightarrow> bytes \<Rightarrow> bytes \<Rightarrow> bool"

definition ed25519_laws :: "Ed25519 \<Rightarrow> bool" where
  "ed25519_laws ed \<longleftrightarrow> (\<forall>seed message.
     length (ed_verifying_key ed seed) = 32 \<and> ed_key_ok ed (ed_verifying_key ed seed)
     \<and> length (ed_sign ed seed message) = 64 \<and> ed_signature_ok ed (ed_sign ed seed message)
     \<and> ed_verify_strict ed (ed_verifying_key ed seed) message (ed_sign ed seed message))"

text \<open>
  Authenticated HPKE: contexts of type \<open>'ctx\<close> and a generator state of type \<open>'g\<close>; an operation that
  can fail gives an option.
\<close>

record ('ctx, 'g) Hpke =
  hp_public :: "bytes \<Rightarrow> bytes"
  hp_public_ok :: "bytes \<Rightarrow> bool"
  hp_encapped_ok :: "bytes \<Rightarrow> bool"
  hp_setup_sender :: "bytes \<Rightarrow> bytes \<Rightarrow> bytes \<Rightarrow> 'g \<Rightarrow> (bytes \<times> 'ctx) option \<times> 'g"
  hp_seal :: "'ctx \<Rightarrow> bytes \<Rightarrow> bytes \<Rightarrow> bytes option"
  hp_setup_receiver :: "bytes \<Rightarrow> bytes \<Rightarrow> bytes \<Rightarrow> bytes \<Rightarrow> 'ctx option"
  hp_open :: "'ctx \<Rightarrow> bytes \<Rightarrow> bytes \<Rightarrow> bytes option"

definition hpke_laws :: "('ctx, 'g) Hpke \<Rightarrow> bool" where
  "hpke_laws hp \<longleftrightarrow> (\<forall>sk. hp_public_ok hp (hp_public hp sk))
     \<and> (\<forall>skS skR info g enc sender g'.
          hp_setup_sender hp skS (hp_public hp skR) info g = (Some (enc, sender), g') \<longrightarrow>
          length enc = 32 \<and> hp_encapped_ok hp enc
          \<and> (\<exists>receiver. hp_setup_receiver hp (hp_public hp skS) skR enc info = Some receiver
               \<and> (\<forall>plaintext aad ciphertext. hp_seal hp sender plaintext aad = Some ciphertext \<longrightarrow>
                    length ciphertext = length plaintext + 16 \<and> hp_open hp receiver ciphertext aad = Some plaintext)))"

section \<open>Constants\<close>

definition PROFILE_ID :: bytes where "PROFILE_ID = u16_to_be_bytes 1"

definition ED25519_ID :: bytes where "ED25519_ID = u16_to_be_bytes 1"

definition KEM_ID :: bytes where "KEM_ID = u16_to_be_bytes 0x0020"

definition KDF_ID :: bytes where "KDF_ID = u16_to_be_bytes 0x0001"

definition AEAD_ID :: bytes where "AEAD_ID = u16_to_be_bytes 0x0003"

definition RELAY_AUTH_DOMAIN :: bytes where "RELAY_AUTH_DOMAIN = ascii ''cofferwire relay request v1'' @ [0]"

definition HPKE_INFO_DOMAIN :: bytes where "HPKE_INFO_DOMAIN = ascii ''cofferwire hpke info v1'' @ [0]"

definition HPKE_AAD_DOMAIN :: bytes where "HPKE_AAD_DOMAIN = ascii ''cofferwire hpke aad v1'' @ [0]"

definition AUTH_HEADER_BYTES :: nat where "AUTH_HEADER_BYTES = 4"

definition SIGNATURE_BYTES :: nat where "SIGNATURE_BYTES = 64"

definition ENVELOPE_HEADER_BYTES :: nat where "ENVELOPE_HEADER_BYTES = 8"

definition ENCAPSULATED_KEY_BYTES :: nat where "ENCAPSULATED_KEY_BYTES = 32"

definition AEAD_TAG_BYTES :: nat where "AEAD_TAG_BYTES = 16"

definition MAX_PLAINTEXT_BYTES :: nat where
  "MAX_PLAINTEXT_BYTES = MAX_MESSAGE_BYTES - ENVELOPE_HEADER_BYTES - ENCAPSULATED_KEY_BYTES - AEAD_TAG_BYTES"

datatype CryptoError =
    CeInvalidKey | CeAuthenticationFailed | CeInvalidEnvelope | CeDecryptionFailed
  | CePlaintextTooLarge nat nat | CeEncryptionFailed

section \<open>Request proofs\<close>

datatype RelaySigningKey = RelaySigningKey (RelaySigningKey_seed: bytes)

definition RelaySigningKey_principal :: "Ed25519 \<Rightarrow> RelaySigningKey \<Rightarrow> Principal" where
  "RelaySigningKey_principal ed key = Principal (ed_verifying_key ed (RelaySigningKey_seed key))"

text \<open>\<open>expect\<close> panics when the proof does not fit: then there is no value.\<close>

definition sign_request :: "Ed25519 \<Rightarrow> RelaySigningKey \<Rightarrow> bytes \<Rightarrow> Auth option" where
  "sign_request ed key authenticated_bytes =
     (let signature = ed_sign ed (RelaySigningKey_seed key) (RELAY_AUTH_DOMAIN @ authenticated_bytes)
      in case Auth_new (PROFILE_ID @ ED25519_ID @ signature) of Inr auth \<Rightarrow> Some auth | Inl _ \<Rightarrow> None)"

definition verify_request :: "Ed25519 \<Rightarrow> Principal \<Rightarrow> bytes \<Rightarrow> Auth \<Rightarrow> (CryptoError, unit) result" where
  "verify_request ed actor authenticated_bytes auth =
     (let bytes = Auth_bytes auth in
      if length bytes \<noteq> AUTH_HEADER_BYTES + SIGNATURE_BYTES \<or> take 2 bytes \<noteq> PROFILE_ID
         \<or> take 2 (drop 2 bytes) \<noteq> ED25519_ID
      then Inl CeAuthenticationFailed
      else if \<not> ed_key_ok ed (Principal_bytes actor) then Inl CeAuthenticationFailed
      else let signature = drop AUTH_HEADER_BYTES bytes in
      if \<not> ed_signature_ok ed signature then Inl CeAuthenticationFailed
      else if ed_verify_strict ed (Principal_bytes actor) (RELAY_AUTH_DOMAIN @ authenticated_bytes) signature
      then Inr () else Inl CeAuthenticationFailed)"

section \<open>Messages\<close>

datatype EncryptionPublicKey = EncryptionPublicKey (EncryptionPublicKey_bytes: bytes)
datatype EncryptionSecretKey = EncryptionSecretKey (EncryptionSecretKey_bytes: bytes)

definition EncryptionPublicKey_from_bytes :: "('ctx, 'g) Hpke \<Rightarrow> bytes \<Rightarrow> (CryptoError, EncryptionPublicKey) result" where
  "EncryptionPublicKey_from_bytes hp bs = (if hp_public_ok hp bs then Inr (EncryptionPublicKey bs) else Inl CeInvalidKey)"

definition EncryptionPublicKey_parse :: "('ctx, 'g) Hpke \<Rightarrow> EncryptionPublicKey \<Rightarrow> (CryptoError, bytes) result" where
  "EncryptionPublicKey_parse hp key =
     (if hp_public_ok hp (EncryptionPublicKey_bytes key) then Inr (EncryptionPublicKey_bytes key) else Inl CeInvalidKey)"

definition EncryptionSecretKey_public_key :: "('ctx, 'g) Hpke \<Rightarrow> EncryptionSecretKey \<Rightarrow> EncryptionPublicKey" where
  "EncryptionSecretKey_public_key hp key = EncryptionPublicKey (hp_public hp (EncryptionSecretKey_bytes key))"

record MessageContext =
  mc_queue_id :: QueueId
  mc_sender :: Principal
  mc_recipient :: Principal
  mc_message_id :: MessageId

definition context_bytes :: "bytes \<Rightarrow> MessageContext \<Rightarrow> bytes" where
  "context_bytes domain context =
     domain @ PROFILE_ID @ KEM_ID @ KDF_ID @ AEAD_ID
     @ QueueId_bytes (mc_queue_id context) @ Principal_bytes (mc_sender context)
     @ Principal_bytes (mc_recipient context) @ MessageId_bytes (mc_message_id context)"

definition seal_message ::
    "('ctx, 'g) Hpke \<Rightarrow> EncryptionSecretKey \<Rightarrow> EncryptionPublicKey \<Rightarrow> MessageContext \<Rightarrow> bytes \<Rightarrow> 'g \<Rightarrow>
     (CryptoError, Payload) result \<times> 'g" where
  "seal_message hp sender_secret recipient_public context plaintext rng =
     (if length plaintext > MAX_PLAINTEXT_BYTES
      then (Inl (CePlaintextTooLarge MAX_PLAINTEXT_BYTES (length plaintext)), rng)
      else case EncryptionPublicKey_parse hp recipient_public of
        Inl e \<Rightarrow> (Inl e, rng)
      | Inr recipient_public \<Rightarrow>
          let info = context_bytes HPKE_INFO_DOMAIN context; aad = context_bytes HPKE_AAD_DOMAIN context in
          (case hp_setup_sender hp (EncryptionSecretKey_bytes sender_secret) recipient_public info rng of
             (None, rng) \<Rightarrow> (Inl CeEncryptionFailed, rng)
           | (Some (encapped, encryption), rng) \<Rightarrow>
               (res_bind (ok_or (hp_seal hp encryption plaintext aad) CeEncryptionFailed) (\<lambda>ciphertext.
                map_err (\<lambda>_. CeEncryptionFailed)
                  (Payload_new (PROFILE_ID @ KEM_ID @ KDF_ID @ AEAD_ID @ encapped @ ciphertext))), rng)))"

definition open_message ::
    "('ctx, 'g) Hpke \<Rightarrow> EncryptionSecretKey \<Rightarrow> EncryptionPublicKey \<Rightarrow> MessageContext \<Rightarrow> Payload \<Rightarrow> (CryptoError, bytes) result" where
  "open_message hp recipient_secret sender_public context payload =
     (let envelope = Payload_bytes payload; encapped_end = ENVELOPE_HEADER_BYTES + ENCAPSULATED_KEY_BYTES in
      res_bind (ok_or (get_range envelope 0 ENVELOPE_HEADER_BYTES) CeInvalidEnvelope) (\<lambda>prefix.
      if take 2 prefix \<noteq> PROFILE_ID \<or> take 2 (drop 2 prefix) \<noteq> KEM_ID \<or> take 2 (drop 4 prefix) \<noteq> KDF_ID
         \<or> take 2 (drop 6 prefix) \<noteq> AEAD_ID
      then Inl CeInvalidEnvelope
      else
      res_bind (ok_or (get_range envelope ENVELOPE_HEADER_BYTES encapped_end) CeInvalidEnvelope) (\<lambda>encapped.
      let ciphertext = drop encapped_end envelope in
      if length ciphertext < AEAD_TAG_BYTES then Inl CeInvalidEnvelope
      else if \<not> hp_encapped_ok hp encapped then Inl CeInvalidEnvelope
      else
      res_bind (EncryptionPublicKey_parse hp sender_public) (\<lambda>sender_public.
      res_bind (ok_or (hp_setup_receiver hp sender_public (EncryptionSecretKey_bytes recipient_secret) encapped
          (context_bytes HPKE_INFO_DOMAIN context)) CeDecryptionFailed) (\<lambda>decryption.
      ok_or (hp_open hp decryption ciphertext (context_bytes HPKE_AAD_DOMAIN context)) CeDecryptionFailed)))))"

section \<open>Receipts\<close>

definition RECEIPT_DOMAIN :: bytes where "RECEIPT_DOMAIN = ascii ''cofferwire receipt v1'' @ [0]"

definition MAGIC :: bytes where "MAGIC = ascii ''CWR1''"

definition APPLIED_TYPE :: u8 where "APPLIED_TYPE = 1"

definition SIGNED_LEN :: nat where "SIGNED_LEN = 4 + 1 + 32 * 4 + 32 + 8"

definition RECEIPT_LEN :: nat where "RECEIPT_LEN = SIGNED_LEN + SIGNATURE_BYTES"

datatype ReceiptError = RcMalformed | RcAuthenticationFailed

record ConfirmedObject =
  co_queue_id :: QueueId
  co_sender :: Principal
  co_recipient :: Principal
  co_message_id :: MessageId

record AppliedReceipt =
  ap_confirmed :: ConfirmedObject
  ap_applied_content_digest :: bytes
  ap_applied_at_secs :: u64

definition receipt_sign :: "Ed25519 \<Rightarrow> RelaySigningKey \<Rightarrow> bytes \<Rightarrow> bytes" where
  "receipt_sign ed key signed_fields = ed_sign ed (RelaySigningKey_seed key) (RECEIPT_DOMAIN @ signed_fields)"

definition build_applied_receipt ::
    "(bytes \<Rightarrow> bytes) \<Rightarrow> Ed25519 \<Rightarrow> RelaySigningKey \<Rightarrow> ConfirmedObject \<Rightarrow> bytes \<Rightarrow> u64 \<Rightarrow> bytes" where
  "build_applied_receipt sha256 ed signing_key confirmed applied_plaintext applied_at_secs =
     (let message = MAGIC @ [APPLIED_TYPE] @ QueueId_bytes (co_queue_id confirmed) @ Principal_bytes (co_sender confirmed)
            @ Principal_bytes (co_recipient confirmed) @ MessageId_bytes (co_message_id confirmed)
            @ sha256 applied_plaintext @ u64_to_be_bytes applied_at_secs
      in message @ receipt_sign ed signing_key message)"

text \<open>\<open>read32\<close> at a fixed offset of a plaintext whose length was checked.\<close>

definition read32 :: "bytes \<Rightarrow> nat \<Rightarrow> bytes" where
  "read32 bs offset = take 32 (drop offset bs)"

definition verify_applied_receipt :: "Ed25519 \<Rightarrow> Principal \<Rightarrow> bytes \<Rightarrow> (ReceiptError, AppliedReceipt) result" where
  "verify_applied_receipt ed expected_signer plaintext =
     (if length plaintext \<noteq> RECEIPT_LEN then Inl RcMalformed
      else if take 4 plaintext \<noteq> MAGIC \<or> plaintext ! 4 \<noteq> APPLIED_TYPE then Inl RcMalformed
      else let signed = take SIGNED_LEN plaintext; signature_bytes = drop SIGNED_LEN plaintext in
      if \<not> ed_key_ok ed (Principal_bytes expected_signer) then Inl RcAuthenticationFailed
      else if \<not> ed_signature_ok ed signature_bytes then Inl RcAuthenticationFailed
      else if \<not> ed_verify_strict ed (Principal_bytes expected_signer) (RECEIPT_DOMAIN @ signed) signature_bytes
      then Inl RcAuthenticationFailed
      else Inr \<lparr>ap_confirmed = \<lparr>co_queue_id = QueueId (read32 plaintext 5), co_sender = Principal (read32 plaintext 37),
             co_recipient = Principal (read32 plaintext 69), co_message_id = MessageId (read32 plaintext 101)\<rparr>,
           ap_applied_content_digest = read32 plaintext 133,
           ap_applied_at_secs = u64_from_be_bytes (take 8 (drop 165 plaintext))\<rparr>)"

definition content_digest :: "(bytes \<Rightarrow> bytes) \<Rightarrow> bytes \<Rightarrow> bytes" where
  "content_digest sha256 plaintext = sha256 plaintext"

section \<open>Layout facts\<close>

lemmas crypto_constants = PROFILE_ID_def ED25519_ID_def KEM_ID_def KDF_ID_def AEAD_ID_def AUTH_HEADER_BYTES_def
  SIGNATURE_BYTES_def ENVELOPE_HEADER_BYTES_def ENCAPSULATED_KEY_BYTES_def AEAD_TAG_BYTES_def

lemma length_ids [simp]:
  "length PROFILE_ID = 2" "length ED25519_ID = 2" "length KEM_ID = 2" "length KDF_ID = 2" "length AEAD_ID = 2"
  by (simp_all add: crypto_constants)

lemma length_domains [simp]:
  "length RELAY_AUTH_DOMAIN = 28" "length HPKE_INFO_DOMAIN = 24" "length HPKE_AAD_DOMAIN = 23" "length RECEIPT_DOMAIN = 22"
  "length MAGIC = 4"
  by (simp_all add: RELAY_AUTH_DOMAIN_def HPKE_INFO_DOMAIN_def HPKE_AAD_DOMAIN_def RECEIPT_DOMAIN_def MAGIC_def)

definition wf_MessageContext :: "MessageContext \<Rightarrow> bool" where
  "wf_MessageContext c \<longleftrightarrow> wf_QueueId (mc_queue_id c) \<and> wf_Principal (mc_sender c) \<and> wf_Principal (mc_recipient c)
     \<and> wf_MessageId (mc_message_id c)"

section \<open>Properties\<close>

text \<open>
  A request proof made with a signing key verifies under the key's principal: signing never
  panics, its 68-byte proof fits the authentication field and is accepted for exactly the bytes signed.
\<close>

theorem signed_request_verifies:
  assumes "ed25519_laws ed"
  shows "\<exists>auth. sign_request ed key authenticated = Some auth \<and> length (Auth_bytes auth) = 68
    \<and> verify_request ed (RelaySigningKey_principal ed key) authenticated auth = Inr ()"
  using assms
  by (simp add: sign_request_def verify_request_def RelaySigningKey_principal_def ed25519_laws_def Let_def Auth_new_def
      AUTH_HEADER_BYTES_def SIGNATURE_BYTES_def MAX_AUTH_BYTES_def)

definition ex_ed :: Ed25519 where
  "ex_ed = \<lparr>ed_verifying_key = (\<lambda>seed. take 32 (seed @ replicate 32 0)), ed_sign = (\<lambda>seed m. replicate 64 (of_nat (length m))),
     ed_key_ok = (\<lambda>_. True), ed_signature_ok = (\<lambda>_. True), ed_verify_strict = (\<lambda>k m s. s = replicate 64 (of_nat (length m)))\<rparr>"

lemma ex_ed_laws: "ed25519_laws ex_ed"
  by (auto simp: ed25519_laws_def ex_ed_def min_def)

theorem signed_request_verifies_witness:
  "\<exists>auth. sign_request ex_ed (RelaySigningKey (replicate 32 1)) [1, 2] = Some auth
    \<and> verify_request ex_ed (Principal (replicate 32 1)) [1, 2] auth = Inr ()"
  using signed_request_verifies [OF ex_ed_laws, of "RelaySigningKey (replicate 32 1)" "[1, 2]"]
  by (auto simp: RelaySigningKey_principal_def ex_ed_def)

lemma hpke_lawsD:
  assumes "hpke_laws hp"
  shows "hp_public_ok hp (hp_public hp sk)"
    and "hp_setup_sender hp skS (hp_public hp skR) info g = (Some (enc, sender), g') \<Longrightarrow>
      length enc = 32 \<and> hp_encapped_ok hp enc
      \<and> (\<exists>receiver. hp_setup_receiver hp (hp_public hp skS) skR enc info = Some receiver
           \<and> (\<forall>plaintext aad ciphertext. hp_seal hp sender plaintext aad = Some ciphertext \<longrightarrow>
                length ciphertext = length plaintext + 16 \<and> hp_open hp receiver ciphertext aad = Some plaintext))"
  using assms unfolding hpke_laws_def by metis+

text \<open>Whatever was sealed for a recipient opens to the plaintext.\<close>

lemma seal_message_opens:
  assumes "hpke_laws hp"
    and "seal_message hp skS (EncryptionSecretKey_public_key hp skR) context plaintext rng = (Inr payload, rng')"
  shows "open_message hp skR (EncryptionSecretKey_public_key hp skS) context payload = Inr plaintext"
proof -
  note laws = hpke_lawsD [OF assms(1)]
  from assms(2) obtain encapped encryption ciphertext where
      established: "hp_setup_sender hp (EncryptionSecretKey_bytes skS) (hp_public hp (EncryptionSecretKey_bytes skR))
        (context_bytes HPKE_INFO_DOMAIN context) rng = (Some (encapped, encryption), rng')"
      and seal: "hp_seal hp encryption plaintext (context_bytes HPKE_AAD_DOMAIN context) = Some ciphertext"
      and payload: "payload = Payload (PROFILE_ID @ KEM_ID @ KDF_ID @ AEAD_ID @ encapped @ ciphertext)"
    by (auto simp: seal_message_def EncryptionPublicKey_parse_def EncryptionSecretKey_public_key_def Let_def res_simps laws(1)
        split: if_splits prod.splits option.splits)
  from laws(2) [OF established] seal show ?thesis
    by (auto simp: payload open_message_def Let_def get_range_def crypto_constants EncryptionPublicKey_parse_def
        EncryptionSecretKey_public_key_def laws(1))
qed

text \<open>
  End-to-end delivery of content. Whenever the primitives succeed on a plaintext within the bound,
  sealing succeeds with a payload that fits a message, and the recipient that opens it with the sender's
  public key in the same context obtains exactly the plaintext.
\<close>

theorem sealed_message_opens:
  assumes "hpke_laws hp" and "length plaintext \<le> MAX_PLAINTEXT_BYTES"
    and "hp_setup_sender hp (EncryptionSecretKey_bytes skS) (hp_public hp (EncryptionSecretKey_bytes skR))
      (context_bytes HPKE_INFO_DOMAIN context) rng = (Some (encapped, encryption), rng')"
    and "hp_seal hp encryption plaintext (context_bytes HPKE_AAD_DOMAIN context) = Some ciphertext"
  shows "\<exists>payload. seal_message hp skS (EncryptionSecretKey_public_key hp skR) context plaintext rng = (Inr payload, rng')
    \<and> wf_Payload payload
    \<and> open_message hp skR (EncryptionSecretKey_public_key hp skS) context payload = Inr plaintext"
proof -
  from assms(1,3) obtain receiver where enc: "length encapped = 32" "hp_encapped_ok hp encapped"
      and rec: "hp_setup_receiver hp (hp_public hp (EncryptionSecretKey_bytes skS)) (EncryptionSecretKey_bytes skR) encapped
        (context_bytes HPKE_INFO_DOMAIN context) = Some receiver"
      and op: "\<forall>plaintext aad ciphertext. hp_seal hp encryption plaintext aad = Some ciphertext \<longrightarrow>
        length ciphertext = length plaintext + 16 \<and> hp_open hp receiver ciphertext aad = Some plaintext"
    unfolding hpke_laws_def by metis
  have keys: "hp_public_ok hp (hp_public hp sk)" for sk
    using assms(1) by (simp add: hpke_laws_def)
  let ?e = "PROFILE_ID @ KEM_ID @ KDF_ID @ AEAD_ID @ encapped @ ciphertext"
  have len: "length ciphertext = length plaintext + 16"
    using op assms(4) by blast
  then have fits: "length ?e \<le> MAX_MESSAGE_BYTES"
    using assms(2) enc(1) by (simp add: MAX_PLAINTEXT_BYTES_def crypto_constants MAX_MESSAGE_BYTES_def)
  then have "seal_message hp skS (EncryptionSecretKey_public_key hp skR) context plaintext rng = (Inr (Payload ?e), rng')"
    using assms(2-4) keys
    by (simp add: seal_message_def EncryptionPublicKey_parse_def EncryptionSecretKey_public_key_def Let_def Payload_new_def)
  moreover have "open_message hp skR (EncryptionSecretKey_public_key hp skS) context (Payload ?e) = Inr plaintext"
    using enc rec op assms(4) keys len
    by (simp add: open_message_def Let_def get_range_def ENVELOPE_HEADER_BYTES_def ENCAPSULATED_KEY_BYTES_def AEAD_TAG_BYTES_def
        EncryptionPublicKey_parse_def EncryptionSecretKey_public_key_def)
  ultimately show ?thesis
    using fits by (simp add: wf_Payload_def)
qed

definition ex_hpke :: "(bytes, nat) Hpke" where
  "ex_hpke = \<lparr>hp_public = (\<lambda>sk. sk), hp_public_ok = (\<lambda>_. True), hp_encapped_ok = (\<lambda>enc. length enc = 32),
     hp_setup_sender = (\<lambda>sk pk info g. (Some (replicate 32 (of_nat g), info), g + 1)),
     hp_seal = (\<lambda>ctx pt aad. Some (pt @ replicate 16 9)),
     hp_setup_receiver = (\<lambda>pk sk enc info. Some info),
     hp_open = (\<lambda>ctx ct aad. Some (take (length ct - 16) ct))\<rparr>"

lemma ex_hpke_laws: "hpke_laws ex_hpke"
  by (simp add: hpke_laws_def ex_hpke_def)

definition ex_context :: MessageContext where
  "ex_context = \<lparr>mc_queue_id = QueueId (replicate 32 1), mc_sender = Principal (replicate 32 2),
     mc_recipient = Principal (replicate 32 3), mc_message_id = MessageId (replicate 32 4)\<rparr>"

theorem sealed_message_opens_witness:
  "\<exists>payload. seal_message ex_hpke (EncryptionSecretKey [1]) (EncryptionPublicKey [2]) ex_context [7, 8] 0 = (Inr payload, 1)
    \<and> open_message ex_hpke (EncryptionSecretKey [2]) (EncryptionPublicKey [1]) ex_context payload = Inr [7, 8]"
  using sealed_message_opens [OF ex_hpke_laws, of "[7, 8]" "EncryptionSecretKey [1]" "EncryptionSecretKey [2]" ex_context 0]
  by (auto simp: EncryptionSecretKey_public_key_def ex_hpke_def MAX_PLAINTEXT_BYTES_def crypto_constants MAX_MESSAGE_BYTES_def)

text \<open>
  Contexts are bound without ambiguity. The key-derivation and associated-data inputs of two
  well-formed contexts are equal only for the same context, and an input of one kind is never an input
  of the other, so a ciphertext cannot be moved to another queue, sender, recipient or message.
\<close>

theorem context_bytes_injective:
  assumes "wf_MessageContext c" and "wf_MessageContext c'"
    and "domain \<in> {HPKE_INFO_DOMAIN, HPKE_AAD_DOMAIN}" and "domain' \<in> {HPKE_INFO_DOMAIN, HPKE_AAD_DOMAIN}"
    and "context_bytes domain c = context_bytes domain' c'"
  shows "domain = domain' \<and> c = c'"
proof -
  have "length (context_bytes d x) = length d + 136" if "wf_MessageContext x" for d x
    using that by (simp add: context_bytes_def wf_MessageContext_def wf_id_defs)
  then have "length domain = length domain'"
    using assms(1,2,5) by (metis add_right_cancel)
  then have d: "domain = domain'"
    using assms(3,4) by auto
  obtain q s r m where c: "c = \<lparr>mc_queue_id = QueueId q, mc_sender = Principal s, mc_recipient = Principal r, mc_message_id = MessageId m\<rparr>"
    by (metis MessageContext.surjective QueueId.exhaust Principal.exhaust MessageId.exhaust unit.exhaust)
  obtain q' s' r' m' where c': "c' = \<lparr>mc_queue_id = QueueId q', mc_sender = Principal s', mc_recipient = Principal r', mc_message_id = MessageId m'\<rparr>"
    by (metis MessageContext.surjective QueueId.exhaust Principal.exhaust MessageId.exhaust unit.exhaust)
  show ?thesis
    using assms(1,2,5) d by (simp add: c c' context_bytes_def wf_MessageContext_def wf_id_defs)
qed

theorem context_bytes_injective_witness:
  "context_bytes HPKE_INFO_DOMAIN ex_context \<noteq> context_bytes HPKE_INFO_DOMAIN (ex_context\<lparr>mc_recipient := Principal (replicate 32 7)\<rparr>)"
proof
  assume "context_bytes HPKE_INFO_DOMAIN ex_context = context_bytes HPKE_INFO_DOMAIN (ex_context\<lparr>mc_recipient := Principal (replicate 32 7)\<rparr>)"
  from context_bytes_injective [OF _ _ _ _ this] show False
    by (simp add: ex_context_def wf_MessageContext_def wf_id_defs)
qed

section \<open>Receipts are exact\<close>

definition receipt_fields :: "AppliedReceipt \<Rightarrow> bytes" where
  "receipt_fields r = MAGIC @ [APPLIED_TYPE] @ QueueId_bytes (co_queue_id (ap_confirmed r)) @ Principal_bytes (co_sender (ap_confirmed r))
     @ Principal_bytes (co_recipient (ap_confirmed r)) @ MessageId_bytes (co_message_id (ap_confirmed r))
     @ ap_applied_content_digest r @ u64_to_be_bytes (ap_applied_at_secs r)"

definition wf_ConfirmedObject :: "ConfirmedObject \<Rightarrow> bool" where
  "wf_ConfirmedObject c \<longleftrightarrow> wf_QueueId (co_queue_id c) \<and> wf_Principal (co_sender c) \<and> wf_Principal (co_recipient c)
     \<and> wf_MessageId (co_message_id c)"

definition wf_AppliedReceipt :: "AppliedReceipt \<Rightarrow> bool" where
  "wf_AppliedReceipt r \<longleftrightarrow> wf_ConfirmedObject (ap_confirmed r) \<and> length (ap_applied_content_digest r) = 32"

lemma length_receipt_fields: "wf_AppliedReceipt r \<Longrightarrow> length (receipt_fields r) = SIGNED_LEN"
  by (simp add: receipt_fields_def wf_AppliedReceipt_def wf_ConfirmedObject_def wf_id_defs SIGNED_LEN_def)

text \<open>The fields read from a plaintext of the right length are the fields it was made of, and only those.\<close>

definition parsed_receipt :: "bytes \<Rightarrow> AppliedReceipt" where
  "parsed_receipt plaintext = \<lparr>ap_confirmed = \<lparr>co_queue_id = QueueId (read32 plaintext 5), co_sender = Principal (read32 plaintext 37),
     co_recipient = Principal (read32 plaintext 69), co_message_id = MessageId (read32 plaintext 101)\<rparr>,
     ap_applied_content_digest = read32 plaintext 133, ap_applied_at_secs = u64_from_be_bytes (take 8 (drop 165 plaintext))\<rparr>"

lemma take_at: "take (m + n) (drop k xs) = take m (drop k xs) @ take n (drop (k + m) xs)"
  by (simp add: take_add add.commute)

lemma parsed_receipt_fields:
  assumes "length pt = RECEIPT_LEN" and "take 4 pt = MAGIC" and "pt ! 4 = APPLIED_TYPE"
  shows "wf_AppliedReceipt (parsed_receipt pt)" and "receipt_fields (parsed_receipt pt) = take SIGNED_LEN pt"
proof -
  have len: "length pt = 237"
    using assms(1) by (simp add: RECEIPT_LEN_def SIGNED_LEN_def SIGNATURE_BYTES_def)
  show "wf_AppliedReceipt (parsed_receipt pt)"
    by (simp add: parsed_receipt_def wf_AppliedReceipt_def wf_ConfirmedObject_def wf_id_defs read32_def len)
  have "take 173 pt = take 4 pt @ take 1 (drop 4 pt) @ take 32 (drop 5 pt) @ take 32 (drop 37 pt) @ take 32 (drop 69 pt)
      @ take 32 (drop 101 pt) @ take 32 (drop 133 pt) @ take 8 (drop 165 pt)"
    using take_at [of 4 169 0 pt] take_at [of 1 168 4 pt] take_at [of 32 136 5 pt] take_at [of 32 104 37 pt]
      take_at [of 32 72 69 pt] take_at [of 32 40 101 pt] take_at [of 32 8 133 pt] by simp
  moreover have "take 1 (drop 4 pt) = [APPLIED_TYPE]"
    using assms(3) len by (simp add: take_Suc_conv_app_nth)
  moreover have "u64_to_be_bytes (u64_from_be_bytes (take 8 (drop 165 pt))) = take 8 (drop 165 pt)"
    by (rule u64_to_from_be) (simp add: len)
  ultimately show "receipt_fields (parsed_receipt pt) = take SIGNED_LEN pt"
    using assms(2) by (simp add: receipt_fields_def parsed_receipt_def read32_def SIGNED_LEN_def)
qed

lemma parsed_receipt_append:
  assumes "wf_AppliedReceipt r"
  shows "parsed_receipt (receipt_fields r @ signature) = r"
proof -
  obtain q s p m d t where r: "r = \<lparr>ap_confirmed = \<lparr>co_queue_id = QueueId q, co_sender = Principal s, co_recipient = Principal p,
      co_message_id = MessageId m\<rparr>, ap_applied_content_digest = d, ap_applied_at_secs = t\<rparr>"
    by (metis AppliedReceipt.surjective ConfirmedObject.surjective QueueId.exhaust Principal.exhaust MessageId.exhaust unit.exhaust)
  show ?thesis
    using assms by (simp add: r parsed_receipt_def receipt_fields_def read32_def wf_AppliedReceipt_def wf_ConfirmedObject_def wf_id_defs)
qed

text \<open>
  C29: receipts are exact. A plaintext verifies as a receipt exactly when it is the 173 bytes of the
  receipt's fields followed by a 64-byte signature that verifies, under the expected signer, over the
  receipt domain and exactly those bytes: every field of an accepted receipt is covered by the
  signature, and nothing else is accepted.
\<close>

theorem receipt_verify_exact:
  "verify_applied_receipt ed signer plaintext = Inr r \<longleftrightarrow>
     (\<exists>signature. wf_AppliedReceipt r \<and> plaintext = receipt_fields r @ signature \<and> length signature = 64
        \<and> ed_key_ok ed (Principal_bytes signer) \<and> ed_signature_ok ed signature
        \<and> ed_verify_strict ed (Principal_bytes signer) (RECEIPT_DOMAIN @ receipt_fields r) signature)"
  (is "?l \<longleftrightarrow> ?r")
proof
  assume l: ?l
  then have fmt: "length plaintext = RECEIPT_LEN" "take 4 plaintext = MAGIC" "plaintext ! 4 = APPLIED_TYPE"
      and r: "r = parsed_receipt plaintext"
      and sig: "ed_key_ok ed (Principal_bytes signer)" "ed_signature_ok ed (drop SIGNED_LEN plaintext)"
        "ed_verify_strict ed (Principal_bytes signer) (RECEIPT_DOMAIN @ take SIGNED_LEN plaintext) (drop SIGNED_LEN plaintext)"
    by (auto simp: verify_applied_receipt_def parsed_receipt_def Let_def split: if_splits)
  have "length (drop SIGNED_LEN plaintext) = 64"
    using fmt(1) by (simp add: RECEIPT_LEN_def SIGNATURE_BYTES_def)
  with sig parsed_receipt_fields [OF fmt] show ?r
    unfolding r by (intro exI [of _ "drop SIGNED_LEN plaintext"]) simp
next
  assume ?r
  then obtain signature where wf: "wf_AppliedReceipt r" and pt: "plaintext = receipt_fields r @ signature" "length signature = 64"
      and sig: "ed_key_ok ed (Principal_bytes signer)" "ed_signature_ok ed signature"
        "ed_verify_strict ed (Principal_bytes signer) (RECEIPT_DOMAIN @ receipt_fields r) signature"
    by blast
  have "take 4 plaintext = MAGIC" "plaintext ! 4 = APPLIED_TYPE"
    by (simp_all add: pt receipt_fields_def nth_append)
  with sig show ?l
    using parsed_receipt_append [OF wf, of signature] length_receipt_fields [OF wf] pt
    by (simp add: verify_applied_receipt_def parsed_receipt_def Let_def RECEIPT_LEN_def SIGNATURE_BYTES_def)
qed

lemma built_receipt:
  "build_applied_receipt sha256 ed key confirmed plaintext at
    = receipt_fields \<lparr>ap_confirmed = confirmed, ap_applied_content_digest = sha256 plaintext, ap_applied_at_secs = at\<rparr>
      @ receipt_sign ed key (receipt_fields \<lparr>ap_confirmed = confirmed, ap_applied_content_digest = sha256 plaintext, ap_applied_at_secs = at\<rparr>)"
  by (simp add: build_applied_receipt_def receipt_fields_def Let_def)

text \<open>
  A receipt built by a device verifies under the device's principal and reports exactly the
  confirmed object, the digest of the applied content and the time it was built with.
\<close>

theorem built_receipt_verifies:
  assumes "ed25519_laws ed" and "\<And>x. length (sha256 x) = 32" and "wf_ConfirmedObject confirmed"
  shows "verify_applied_receipt ed (RelaySigningKey_principal ed key) (build_applied_receipt sha256 ed key confirmed plaintext at)
    = Inr \<lparr>ap_confirmed = confirmed, ap_applied_content_digest = content_digest sha256 plaintext, ap_applied_at_secs = at\<rparr>"
  unfolding receipt_verify_exact built_receipt content_digest_def
  using assms by (auto simp: wf_AppliedReceipt_def ed25519_laws_def RelaySigningKey_principal_def receipt_sign_def)

theorem built_receipt_verifies_witness:
  "verify_applied_receipt ex_ed (Principal (replicate 32 3)) (build_applied_receipt (\<lambda>x. replicate 32 (of_nat (length x))) ex_ed
      (RelaySigningKey (replicate 32 3)) \<lparr>co_queue_id = QueueId (replicate 32 1), co_sender = Principal (replicate 32 2),
        co_recipient = Principal (replicate 32 3), co_message_id = MessageId (replicate 32 4)\<rparr> [5, 6] 77)
    = Inr \<lparr>ap_confirmed = \<lparr>co_queue_id = QueueId (replicate 32 1), co_sender = Principal (replicate 32 2),
        co_recipient = Principal (replicate 32 3), co_message_id = MessageId (replicate 32 4)\<rparr>,
      ap_applied_content_digest = replicate 32 2, ap_applied_at_secs = 77\<rparr>"
proof -
  have signer: "RelaySigningKey_principal ex_ed (RelaySigningKey (replicate 32 3)) = Principal (replicate 32 3)"
    by (simp add: RelaySigningKey_principal_def ex_ed_def)
  show ?thesis
    using built_receipt_verifies [OF ex_ed_laws, of "\<lambda>x. replicate 32 (of_nat (length x))"
        "\<lparr>co_queue_id = QueueId (replicate 32 1), co_sender = Principal (replicate 32 2),
        co_recipient = Principal (replicate 32 3), co_message_id = MessageId (replicate 32 4)\<rparr>"
        "RelaySigningKey (replicate 32 3)" "[5, 6]" 77]
    by (simp add: signer wf_ConfirmedObject_def wf_id_defs content_digest_def)
qed

end
