(* ===== verification/CW_Blob_Crypto.thy ===== *)
theory CW_Blob_Crypto
  imports CW_Crypto CW_Blob_Types
begin

text \<open>
  The construction of encrypted objects and the proofs of blob requests,
  \<open>crates/cofferwire-crypto/src/blob.rs\<close>: key derivation, nonces, associated data, manifests, sealing and
  opening. ChaCha20-Poly1305, HKDF, SHA-256 and the random generator come from third-party packages and
  are parameters; what the code relies on of them is in \<open>blob_primitives\<close>.
\<close>

section \<open>Primitives\<close>

text \<open>
  \<open>pr_expand salt key info n\<close> is HKDF with SHA-256, \<open>pr_fill n g\<close> the next \<open>n\<close> bytes of the generator in
  state \<open>g\<close>; an operation that can fail gives an option.
\<close>

record 'g Primitives =
  pr_sha256 :: "bytes \<Rightarrow> bytes"
  pr_expand :: "bytes \<Rightarrow> bytes \<Rightarrow> bytes \<Rightarrow> nat \<Rightarrow> bytes option"
  pr_encrypt :: "bytes \<Rightarrow> bytes \<Rightarrow> bytes \<Rightarrow> bytes \<Rightarrow> bytes option"
  pr_decrypt :: "bytes \<Rightarrow> bytes \<Rightarrow> bytes \<Rightarrow> bytes \<Rightarrow> bytes option"
  pr_fill :: "nat \<Rightarrow> 'g \<Rightarrow> bytes \<times> 'g"

text \<open>
  Documented behaviour: digests have 32 bytes; an expansion to 32 bytes succeeds; a message of at most a
  mebibyte is never refused, its ciphertext is 16 bytes longer and decrypts under the same key, nonce and
  associated data; the generator fills the whole buffer.
\<close>

definition blob_primitives :: "'g Primitives \<Rightarrow> bool" where
  "blob_primitives pr \<longleftrightarrow>
     (\<forall>x. length (pr_sha256 pr x) = 32)
     \<and> (\<forall>salt key info. \<exists>k. pr_expand pr salt key info 32 = Some k \<and> length k = 32)
     \<and> (\<forall>key nonce message aad. length key = 32 \<longrightarrow> length nonce = 12 \<longrightarrow> length message \<le> 2 ^ 20 \<longrightarrow>
          (\<exists>ciphertext. pr_encrypt pr key nonce message aad = Some ciphertext
             \<and> length ciphertext = length message + 16 \<and> pr_decrypt pr key nonce ciphertext aad = Some message))
     \<and> (\<forall>n g. length (fst (pr_fill pr n g)) = n)"

section \<open>Constants and types\<close>

definition KEY_INFO :: bytes where "KEY_INFO = ascii ''cofferwire blob key v1'' @ [0]"

definition CHUNK_DOMAIN :: bytes where "CHUNK_DOMAIN = ascii ''cofferwire blob chunk v1'' @ [0]"

definition BLOB_IDENTITY_DOMAIN :: bytes where "BLOB_IDENTITY_DOMAIN = ascii ''cofferwire blob identity v1'' @ [0]"

definition REQUEST_DOMAIN :: bytes where "REQUEST_DOMAIN = ascii ''cofferwire blob request v1'' @ [0]"

datatype BlobCryptoError = BcPlaintextTooLarge | BcInvalidChunkSize | BcAuthenticationFailed | BcInvalidObject

datatype ObjectKey = ObjectKey (ObjectKey_bytes: bytes)

datatype BlobSigningKey = BlobSigningKey (BlobSigningKey_seed: bytes)

record EncryptedBlob =
  eb_key :: ObjectKey
  eb_manifest :: BlobManifest
  eb_blob_id :: BlobId
  eb_chunks :: "bytes list"

definition ObjectKey_generate :: "'g Primitives \<Rightarrow> 'g \<Rightarrow> ObjectKey \<times> 'g" where
  "ObjectKey_generate pr rng = (let (bs, rng) = pr_fill pr 32 rng in (ObjectKey bs, rng))"

section \<open>Request proofs\<close>

definition BlobSigningKey_capability :: "Ed25519 \<Rightarrow> BlobSigningKey \<Rightarrow> CapabilityId" where
  "BlobSigningKey_capability ed key = CapabilityId (ed_verifying_key ed (BlobSigningKey_seed key))"

text \<open>\<open>expect\<close> panics when the proof does not fit: then there is no value.\<close>

definition sign_blob_request :: "Ed25519 \<Rightarrow> BlobSigningKey \<Rightarrow> bytes \<Rightarrow> Auth option" where
  "sign_blob_request ed key authenticated =
     (let signature = ed_sign ed (BlobSigningKey_seed key) (REQUEST_DOMAIN @ authenticated)
      in case Auth_new (u16_to_be_bytes 1 @ u16_to_be_bytes 1 @ signature) of Inr auth \<Rightarrow> Some auth | Inl _ \<Rightarrow> None)"

definition verify_blob_request :: "Ed25519 \<Rightarrow> CapabilityId \<Rightarrow> bytes \<Rightarrow> Auth \<Rightarrow> (BlobCryptoError, unit) result" where
  "verify_blob_request ed capability authenticated auth =
     (let proof = Auth_bytes auth in
      if length proof \<noteq> 68 \<or> take 2 proof \<noteq> u16_to_be_bytes 1 \<or> take 2 (drop 2 proof) \<noteq> u16_to_be_bytes 1
      then Inl BcAuthenticationFailed
      else if \<not> ed_key_ok ed (CapabilityId_bytes capability) then Inl BcAuthenticationFailed
      else let signature = drop 4 proof in
      if \<not> ed_signature_ok ed signature then Inl BcAuthenticationFailed
      else if ed_verify_strict ed (CapabilityId_bytes capability) (REQUEST_DOMAIN @ authenticated) signature
      then Inr () else Inl BcAuthenticationFailed)"

section \<open>Helpers\<close>

definition blob_identify :: "'g Primitives \<Rightarrow> BlobManifest \<Rightarrow> BlobId" where
  "blob_identify pr manifest = BlobId (pr_sha256 pr (BLOB_IDENTITY_DOMAIN @ bm_bytes manifest))"

text \<open>\<open>expect\<close> panics when the expansion fails: then there is no value.\<close>

definition derive_key :: "'g Primitives \<Rightarrow> ObjectKey \<Rightarrow> bytes \<Rightarrow> bytes option" where
  "derive_key pr key salt = pr_expand pr salt (ObjectKey_bytes key) KEY_INFO 32"

text \<open>\<open>u64::try_from\<close> of a \<open>usize\<close> cannot fail on a 64-bit target.\<close>

definition chunk_nonce :: "nat \<Rightarrow> (BlobCryptoError, bytes) result" where
  "chunk_nonce index = Inr (replicate 4 0 @ u64_to_be_bytes (of_nat index))"

definition chunk_aad :: "bytes \<Rightarrow> u64 \<Rightarrow> u32 \<Rightarrow> u32 \<Rightarrow> u32 \<Rightarrow> bytes" where
  "chunk_aad salt padded_size chunk_size count index =
     CHUNK_DOMAIN @ u16_to_be_bytes 1 @ u16_to_be_bytes 1 @ salt @ u64_to_be_bytes padded_size
     @ u32_to_be_bytes chunk_size @ u32_to_be_bytes count @ u32_to_be_bytes index"

definition usize_to_u32 :: "nat \<Rightarrow> (BlobCryptoError, u32) result" where
  "usize_to_u32 n = (if n < 2 ^ 32 then Inr (of_nat n) else Inl BcInvalidObject)"

definition make_manifest :: "bytes \<Rightarrow> u64 \<Rightarrow> u32 \<Rightarrow> bytes list \<Rightarrow> (BlobCryptoError, BlobManifest) result" where
  "make_manifest salt padded_size chunk_size digests =
     res_bind (usize_to_u32 (length digests)) (\<lambda>count.
     map_err (\<lambda>_. BcInvalidObject) (BlobManifest_parse
       (ascii ''CWB1'' @ u16_to_be_bytes 1 @ u16_to_be_bytes 1 @ salt @ u64_to_be_bytes padded_size
        @ u32_to_be_bytes chunk_size @ u32_to_be_bytes count @ concat digests)))"

text \<open>\<open>next_power_of_two\<close> of the standard library; its arguments here are at most \<open>MAX_PADDED_BYTES\<close>.\<close>

function doubled_to :: "nat \<Rightarrow> nat \<Rightarrow> nat" where
  "doubled_to p n = (if p = 0 \<or> n \<le> p then p else doubled_to (2 * p) n)"
  by auto
termination
  by (relation "measure (\<lambda>(p, n). n - p)") auto

declare doubled_to.simps [simp del]

definition next_power_of_two :: "nat \<Rightarrow> nat" where
  "next_power_of_two n = doubled_to 1 n"

section \<open>Sealing\<close>

text \<open>The loop over the numbered plaintext chunks: the ciphertexts and their digests.\<close>

fun seal_chunks ::
    "'g Primitives \<Rightarrow> bytes \<Rightarrow> bytes \<Rightarrow> u64 \<Rightarrow> u32 \<Rightarrow> u32 \<Rightarrow> (nat \<times> bytes) list \<Rightarrow>
     (BlobCryptoError, bytes list \<times> bytes list) result" where
  "seal_chunks pr key salt padded_size chunk_size count [] = Inr ([], [])"
| "seal_chunks pr key salt padded_size chunk_size count ((index, plain) # rest) =
     res_bind (chunk_nonce index) (\<lambda>nonce.
     res_bind (usize_to_u32 index) (\<lambda>i.
     res_bind (ok_or (pr_encrypt pr key nonce plain (chunk_aad salt padded_size chunk_size count i))
         BcAuthenticationFailed) (\<lambda>ciphertext.
     res_bind (seal_chunks pr key salt padded_size chunk_size count rest) (\<lambda>(chunks, digests).
     Inr (ciphertext # chunks, pr_sha256 pr ciphertext # digests)))))"

text \<open>
  The checks before anything is drawn from the generator: the padded size of the object. \<open>u64_max\<close> is
  the largest \<open>usize\<close>.
\<close>

definition padded_size_of :: "nat \<Rightarrow> u32 \<Rightarrow> (BlobCryptoError, nat) result" where
  "padded_size_of plaintext_len chunk_size =
     (if \<not> (32 \<le> chunk_size \<and> chunk_size \<le> 1048576) \<or> \<not> is_power_of_two chunk_size then Inl BcInvalidChunkSize
      else if plaintext_len + 8 > u64_max then Inl BcPlaintextTooLarge
      else
        let stream_len = plaintext_len + 8; max_padded = unat MAX_PADDED_BYTES; min_padded = unat MIN_PADDED_BYTES in
        if stream_len > max_padded then Inl BcPlaintextTooLarge
        else
          let padded_size = max (next_power_of_two (max stream_len min_padded)) (unat chunk_size) in
          if padded_size > max_padded \<or> padded_size mod unat chunk_size \<noteq> 0 \<or> padded_size div unat chunk_size > 32768
          then Inl BcInvalidChunkSize
          else Inr padded_size)"

text \<open>The value is missing when the key derivation panics.\<close>

definition seal_blob ::
    "'g Primitives \<Rightarrow> bytes \<Rightarrow> u32 \<Rightarrow> 'g \<Rightarrow> (BlobCryptoError, EncryptedBlob) result option \<times> 'g" where
  "seal_blob pr plaintext chunk_size rng =
     (case padded_size_of (length plaintext) chunk_size of
        Inl e \<Rightarrow> (Some (Inl e), rng)
      | Inr padded_size \<Rightarrow>
          let (key, rng) = ObjectKey_generate pr rng;
              (salt, rng) = pr_fill pr 16 rng;
              (padding, rng) = pr_fill pr (padded_size - (8 + length plaintext)) rng;
              stream = u64_to_be_bytes (of_nat (length plaintext)) @ plaintext @ padding
          in (case derive_key pr key salt of
                None \<Rightarrow> (None, rng)
              | Some aead_key \<Rightarrow>
                  (Some (res_bind (map_err (\<lambda>_. BcInvalidChunkSize) (usize_to_u32 (padded_size div unat chunk_size))) (\<lambda>count.
                     res_bind (seal_chunks pr aead_key salt (of_nat padded_size) chunk_size count
                         (enumerate 0 (chunks_exact (unat chunk_size) stream))) (\<lambda>(chunks, digests).
                     res_bind (make_manifest salt (of_nat padded_size) chunk_size digests) (\<lambda>manifest.
                     Inr \<lparr>eb_key = key, eb_manifest = manifest, eb_blob_id = blob_identify pr manifest,
                          eb_chunks = chunks\<rparr>)))), rng)))"

section \<open>Opening\<close>

fun open_chunks :: "'g Primitives \<Rightarrow> bytes \<Rightarrow> BlobManifest \<Rightarrow> u32 \<Rightarrow> (nat \<times> bytes) list \<Rightarrow> (BlobCryptoError, bytes) result" where
  "open_chunks pr key manifest count [] = Inr []"
| "open_chunks pr key manifest count ((index, chunk) # rest) =
     (if BlobManifest_digest manifest index \<noteq> Some (pr_sha256 pr chunk) then Inl BcInvalidObject
      else
      res_bind (usize_to_u32 index) (\<lambda>i.
      res_bind (chunk_nonce index) (\<lambda>nonce.
      res_bind (ok_or (pr_decrypt pr key nonce chunk (chunk_aad (bm_object_salt manifest) (bm_padded_size manifest)
          (bm_chunk_size manifest) count i)) BcAuthenticationFailed) (\<lambda>plaintext.
      if length plaintext \<noteq> unat (bm_chunk_size manifest) then Inl BcInvalidObject
      else map_ok (\<lambda>stream. plaintext @ stream) (open_chunks pr key manifest count rest)))))"

definition open_blob ::
    "'g Primitives \<Rightarrow> ObjectKey \<Rightarrow> BlobId \<Rightarrow> BlobManifest \<Rightarrow> bytes list \<Rightarrow> (BlobCryptoError, bytes) result option" where
  "open_blob pr key expected_id manifest chunks =
     (if blob_identify pr manifest \<noteq> expected_id \<or> length chunks \<noteq> BlobManifest_chunk_count manifest
      then Some (Inl BcInvalidObject)
      else case derive_key pr key (bm_object_salt manifest) of
        None \<Rightarrow> None
      | Some aead_key \<Rightarrow>
          Some (let padded_size = unat (bm_padded_size manifest) in
            res_bind (usize_to_u32 (BlobManifest_chunk_count manifest)) (\<lambda>count.
            res_bind (open_chunks pr aead_key manifest count (enumerate 0 chunks)) (\<lambda>stream.
            if length stream \<noteq> padded_size then Inl BcInvalidObject
            else
            res_bind (ok_or (get_range stream 0 8) BcInvalidObject) (\<lambda>prefix.
            let len = unat (u64_from_be_bytes prefix) in
            if len > length stream - 8 then Inl BcInvalidObject
            else Inr (take len (drop 8 stream)))))))"

section \<open>Powers of two\<close>

lemma is_power_of_two_power:
  assumes "a < LENGTH('w::len)"
  shows "is_power_of_two (2 ^ a :: 'w word)"
proof -
  have "(2 ^ a :: 'w word) AND mask a = 0"
    by (rule bit_word_eqI) (simp add: bit_simps)
  moreover have "(2 ^ a :: 'w word) \<noteq> 0"
    using assms by simp
  ultimately show ?thesis
    by (simp add: is_power_of_two_def mask_eq_exp_minus_1)
qed

lemma doubled_to_spec:
  assumes "k \<le> m" and "n \<le> 2 ^ m"
  shows "\<exists>j \<le> m. k \<le> j \<and> doubled_to (2 ^ k) n = 2 ^ j \<and> n \<le> 2 ^ j \<and> (k < j \<longrightarrow> 2 ^ j < 2 * n)"
  using assms
proof (induction "m - k" arbitrary: k)
  case 0
  then show ?case by (auto simp: doubled_to.simps)
next
  case (Suc d)
  show ?case
  proof (cases "n \<le> 2 ^ k")
    case True
    then show ?thesis using Suc.prems by (auto simp: doubled_to.simps intro!: exI [of _ k])
  next
    case False
    then have "doubled_to (2 ^ k) n = doubled_to (2 ^ Suc k) n"
      by (subst doubled_to.simps) simp
    moreover have "d = m - Suc k" "Suc k \<le> m"
      using Suc.hyps(2) by auto
    ultimately show ?thesis
      using Suc.hyps(1) [of "Suc k"] Suc.prems False
      by (metis Suc_leD le_neq_implies_less less_Suc_eq_le linorder_not_le mult_less_mono2 power_Suc zero_less_numeral)
  qed
qed

section \<open>The geometry of a sealed object\<close>

lemma padded_size_ofD:
  assumes "padded_size_of len cs = Inr p"
  shows "\<exists>j \<le> 30. p = 2 ^ j" and "len + 8 \<le> p" and "64 \<le> p" and "32 \<le> unat cs" and "unat cs \<le> 2 ^ 20"
    and "is_power_of_two cs" and "p mod unat cs = 0" and "p div unat cs \<le> 32768" and "unat cs \<le> p"
proof -
  have cs: "32 \<le> unat cs" "unat cs \<le> 2 ^ 20" "is_power_of_two cs" and len: "len + 8 \<le> 2 ^ 30"
      and p: "p = max (next_power_of_two (max (len + 8) 64)) (unat cs)"
      and fits: "p mod unat cs = 0" "p div unat cs \<le> 32768"
    using assms by (simp_all add: padded_size_of_def Let_def blob_bounds word_le_nat_alt split: if_splits)
  obtain i where i: "i \<le> 30" "next_power_of_two (max (len + 8) 64) = 2 ^ i" "max (len + 8) 64 \<le> 2 ^ i"
    using doubled_to_spec [of 0 30 "max (len + 8) 64"] len by (auto simp: next_power_of_two_def)
  obtain a where a: "unat cs = 2 ^ a"
    using is_power_of_two_unat [OF cs(3)] ..
  have "2 ^ a \<le> (2 :: nat) ^ 20"
    using cs(2) by (simp only: a)
  then have "a \<le> 20"
    by (rule power_le_imp_le_exp [rotated]) simp
  have "p = 2 ^ max i a"
    unfolding p i(2) a by (simp add: max_def)
  with i(1) \<open>a \<le> 20\<close> show "\<exists>j \<le> 30. p = 2 ^ j"
    by (intro exI [of _ "max i a"]) simp
  show "len + 8 \<le> p" "64 \<le> p" "unat cs \<le> p"
    using i(2,3) by (auto simp: p)
  show "32 \<le> unat cs" "unat cs \<le> 2 ^ 20" "is_power_of_two cs" "p mod unat cs = 0" "p div unat cs \<le> 32768"
    by (fact cs fits)+
qed

lemma padded_size_of_le:
  assumes "padded_size_of len cs = Inr p"
  shows "p \<le> 2 ^ 30"
proof -
  obtain j where j: "j \<le> 30" "p = 2 ^ j" using padded_size_ofD(1) [OF assms] by blast
  show ?thesis
    unfolding j(2) using j(1) by (intro power_increasing) simp_all
qed

lemma chunks_exact_concat:
  assumes "0 < n" and "\<forall>x \<in> set xs. length x = n"
  shows "chunks_exact n (concat xs) = xs"
  using assms(2)
proof (induction xs)
  case Nil
  then show ?case using assms(1) by (simp add: chunks_exact.simps)
next
  case (Cons x xs)
  then show ?case
    using assms(1) chunks_exact.simps [of n "concat (x # xs)"] by simp
qed

lemma length_concat_const: "\<forall>x \<in> set xs. length x = n \<Longrightarrow> length (concat xs) = length xs * n"
  by (induction xs) simp_all

lemma sealed_limits_valid:
  assumes "padded_size_of len cs = Inr p"
  shows "limits_valid (of_nat p) cs (of_nat (p div unat cs))"
proof -
  note d = padded_size_ofD [OF assms]
  obtain j where j: "j \<le> 30" "p = 2 ^ j" using d(1) by blast
  note p30 = padded_size_of_le [OF assms]
  have up: "unat (of_nat p :: u64) = p"
    using p30 by (simp add: unat_of_nat)
  have uc: "unat (of_nat (p div unat cs) :: u32) = p div unat cs"
    using d(8) by (simp add: unat_of_nat)
  have pow: "is_power_of_two (of_nat p :: u64)"
    using is_power_of_two_power [of j, where 'w = 64] j by simp
  have pos: "0 < p div unat cs"
    using d(4,9) by (simp add: div_greater_zero_iff)
  have "unat ((of_nat p :: u64) mod ucast cs) = 0" "unat ((of_nat p :: u64) div ucast cs) = p div unat cs"
    by (simp_all add: unat_mod_distrib unat_div_distrib up d(7))
  then have "(of_nat p :: u64) mod ucast cs = 0" "(of_nat p :: u64) div ucast cs = ucast (of_nat (p div unat cs) :: u32)"
    by (simp_all add: word_unat_eq_iff uc)
  with d pow pos p30 show ?thesis
    by (simp add: limits_valid_def blob_bounds uc up word_le_nat_alt)
qed

lemma make_manifest_ok:
  assumes p: "padded_size_of len cs = Inr p" and salt: "length salt = 16"
    and digests: "\<forall>d \<in> set digests. length d = 32" "length digests = p div unat cs"
  shows "\<exists>m. make_manifest salt (of_nat p) cs digests = Inr m \<and> wf_BlobManifest m \<and> bm_object_salt m = salt
    \<and> bm_padded_size m = of_nat p \<and> bm_chunk_size m = cs \<and> bm_digests m = digests"
proof -
  let ?count = "of_nat (length digests) :: u32"
  let ?bs = "ascii ''CWB1'' @ u16_to_be_bytes 1 @ u16_to_be_bytes 1 @ salt @ u64_to_be_bytes (of_nat p)
        @ u32_to_be_bytes cs @ u32_to_be_bytes ?count @ concat digests"
  let ?m = "\<lparr>bm_bytes = ?bs, bm_object_salt = salt, bm_padded_size = of_nat p, bm_chunk_size = cs, bm_digests = digests\<rparr>"
  note d = padded_size_ofD [OF p]
  have small: "length digests \<le> 32768" and pos: "0 < length digests"
    using d(4,8,9) digests(2) by (simp_all add: div_greater_zero_iff)
  have lim: "limits_valid (of_nat p) cs ?count"
    using sealed_limits_valid [OF p] by (simp add: digests(2))
  have uc: "unat ?count = length digests"
    using small by (simp add: unat_of_nat)
  have lc: "length (concat digests) = length digests * 32"
    by (rule length_concat_const [OF digests(1)])
  have "BlobManifest_parse ?bs = Inr ?m"
    using lim pos uc lc salt chunks_exact_concat [OF _ digests(1)]
    by (simp add: BlobManifest_parse_def ascii_def Let_def)
  with small show ?thesis
    by (auto simp: make_manifest_def usize_to_u32_def wf_BlobManifest_def)
qed

section \<open>Chunks\<close>

text \<open>A stored chunk opens to a plaintext chunk at its index under the manifest.\<close>

definition chunk_opens :: "'g Primitives \<Rightarrow> bytes \<Rightarrow> BlobManifest \<Rightarrow> u32 \<Rightarrow> nat \<Rightarrow> bytes \<Rightarrow> bytes \<Rightarrow> bool" where
  "chunk_opens pr key m count index chunk plain \<longleftrightarrow>
     index < 2 ^ 32 \<and> BlobManifest_digest m index = Some (pr_sha256 pr chunk)
     \<and> pr_decrypt pr key (replicate 4 0 @ u64_to_be_bytes (of_nat index)) chunk
          (chunk_aad (bm_object_salt m) (bm_padded_size m) (bm_chunk_size m) count (of_nat index)) = Some plain
     \<and> length plain = unat (bm_chunk_size m)"

lemma open_chunks_Inr:
  "open_chunks pr key m count (enumerate n chunks) = Inr stream \<longleftrightarrow>
     (\<exists>plains. length plains = length chunks \<and> stream = concat plains
        \<and> (\<forall>i < length chunks. chunk_opens pr key m count (n + i) (chunks ! i) (plains ! i)))"
proof (induction chunks arbitrary: n stream)
  case (Cons chunk chunks)
  have step: "open_chunks pr key m count (enumerate n (chunk # chunks)) = Inr stream \<longleftrightarrow>
      (\<exists>plain rest. chunk_opens pr key m count n chunk plain \<and> stream = plain @ rest
         \<and> open_chunks pr key m count (enumerate (Suc n) chunks) = Inr rest)"
    by (auto simp: chunk_opens_def usize_to_u32_def chunk_nonce_def res_simps guard_Inr split: if_splits)
  have shift: "(\<forall>i < length (chunk # chunks). chunk_opens pr key m count (n + i) ((chunk # chunks) ! i) ((plain # plains) ! i))
      \<longleftrightarrow> chunk_opens pr key m count n chunk plain
        \<and> (\<forall>i < length chunks. chunk_opens pr key m count (Suc n + i) (chunks ! i) (plains ! i))" for plain plains
    by (auto simp: less_Suc_eq_0_disj)
  show ?case
    unfolding step Cons.IH
  proof (safe, goal_cases)
    case (1 plain rest plains)
    then show ?case
      using shift [of plain plains] by (intro exI [of _ "plain # plains"]) simp
  next
    case (2 plains)
    then obtain plain ps where "plains = plain # ps"
      by (cases plains) auto
    with 2 show ?case
      using shift [of plain ps] by auto
  qed
qed auto

lemma blob_primitivesD:
  assumes "blob_primitives pr"
  shows "length (pr_sha256 pr x) = 32" and "\<exists>k. pr_expand pr salt ikm info 32 = Some k \<and> length k = 32"
    and "length key = 32 \<Longrightarrow> length nonce = 12 \<Longrightarrow> length message \<le> 2 ^ 20 \<Longrightarrow>
      \<exists>ciphertext. pr_encrypt pr key nonce message aad = Some ciphertext
        \<and> length ciphertext = length message + 16 \<and> pr_decrypt pr key nonce ciphertext aad = Some message"
    and "length (fst (pr_fill pr n g)) = n"
  using assms unfolding blob_primitives_def by blast+

lemma seal_chunks_ok:
  assumes pr: "blob_primitives pr" and key: "length key = 32"
    and "\<forall>x \<in> set plains. length x = c" and "c \<le> 2 ^ 20" and "n + length plains \<le> 2 ^ 32"
  shows "\<exists>cts. seal_chunks pr key salt padded cs count (enumerate n plains) = Inr (cts, map (pr_sha256 pr) cts)
    \<and> length cts = length plains
    \<and> (\<forall>i < length plains. length (cts ! i) = c + 16
         \<and> pr_decrypt pr key (replicate 4 0 @ u64_to_be_bytes (of_nat (n + i))) (cts ! i)
             (chunk_aad salt padded cs count (of_nat (n + i))) = Some (plains ! i))"
  using assms(3,5)
proof (induction plains arbitrary: n)
  case (Cons plain plains)
  obtain cts where cts: "seal_chunks pr key salt padded cs count (enumerate (Suc n) plains) = Inr (cts, map (pr_sha256 pr) cts)"
      "length cts = length plains"
      "\<forall>i < length plains. length (cts ! i) = c + 16
         \<and> pr_decrypt pr key (replicate 4 0 @ u64_to_be_bytes (of_nat (Suc n + i))) (cts ! i)
             (chunk_aad salt padded cs count (of_nat (Suc n + i))) = Some (plains ! i)"
    using Cons.IH [of "Suc n"] Cons.prems by auto
  obtain ct where ct: "pr_encrypt pr key (replicate 4 0 @ u64_to_be_bytes (of_nat n)) plain
        (chunk_aad salt padded cs count (of_nat n)) = Some ct" "length ct = c + 16"
      "pr_decrypt pr key (replicate 4 0 @ u64_to_be_bytes (of_nat n)) ct (chunk_aad salt padded cs count (of_nat n)) = Some plain"
    using blob_primitivesD(3) [OF pr key, of "replicate 4 0 @ u64_to_be_bytes (of_nat n)" plain
        "chunk_aad salt padded cs count (of_nat n)"] Cons.prems(1) assms(4) by auto
  show ?case
    using Cons.prems(2) cts ct
    by (intro exI [of _ "ct # cts"]) (auto simp: chunk_nonce_def usize_to_u32_def less_Suc_eq_0_disj add_ac)
qed simp

lemma open_blob_Inr:
  "open_blob pr key expected m chunks = Some (Inr plaintext) \<longleftrightarrow>
     blob_identify pr m = expected \<and> length chunks = BlobManifest_chunk_count m \<and> length chunks < 2 ^ 32
     \<and> (\<exists>aead_key plains padding. derive_key pr key (bm_object_salt m) = Some aead_key \<and> length plains = length chunks
          \<and> list_all (\<lambda>i. chunk_opens pr aead_key m (of_nat (length chunks)) i (chunks ! i) (plains ! i)) [0..<length chunks]
          \<and> concat plains = u64_to_be_bytes (of_nat (length plaintext)) @ plaintext @ padding
          \<and> length plaintext \<le> u64_max \<and> length (concat plains) = unat (bm_padded_size m))"
  (is "?l \<longleftrightarrow> ?ids \<and> ?len \<and> ?small \<and> (\<exists>k ps pad. ?r k ps pad)")
proof
  assume l: ?l
  then obtain k stream where ids: ?ids ?len ?small and k: "derive_key pr key (bm_object_salt m) = Some k"
      and stream: "open_chunks pr k m (of_nat (length chunks)) (enumerate 0 chunks) = Inr stream"
      and size: "length stream = unat (bm_padded_size m)" "8 \<le> length stream"
      and len: "unat (u64_from_be_bytes (take 8 stream)) \<le> length stream - 8"
      and pt: "plaintext = take (unat (u64_from_be_bytes (take 8 stream))) (drop 8 stream)"
    by (auto simp: open_blob_def usize_to_u32_def get_range_eq_Some res_simps guard_Inr Let_def split: if_splits option.splits)
  obtain plains where plains: "length plains = length chunks" "stream = concat plains"
      "\<forall>i < length chunks. chunk_opens pr k m (of_nat (length chunks)) i (chunks ! i) (plains ! i)"
    using stream unfolding open_chunks_Inr by auto
  have lp: "length plaintext = unat (u64_from_be_bytes (take 8 stream))"
    using len by (simp add: pt)
  then have "u64_to_be_bytes (of_nat (length plaintext)) = take 8 stream"
    using size(2) by (simp add: u64_to_from_be)
  then have "stream = u64_to_be_bytes (of_nat (length plaintext)) @ plaintext @ drop (length plaintext) (drop 8 stream)"
    by (metis append_take_drop_id lp pt)
  moreover have "length plaintext \<le> u64_max"
    unfolding lp by (rule unat_u64_le_max)
  ultimately have "?r k plains (drop (length plaintext) (drop 8 stream))"
    using k plains size(1) by (auto simp: list_all_iff)
  with ids show "?ids \<and> ?len \<and> ?small \<and> (\<exists>k ps pad. ?r k ps pad)" by blast
next
  assume "?ids \<and> ?len \<and> ?small \<and> (\<exists>k ps pad. ?r k ps pad)"
  then obtain k plains pad where ids: ?ids ?len ?small and r: "?r k plains pad" by blast
  let ?stream = "concat plains"
  have "open_chunks pr k m (of_nat (length chunks)) (enumerate 0 chunks) = Inr ?stream"
    unfolding open_chunks_Inr using r by (auto simp: list_all_iff)
  moreover have "take 8 ?stream = u64_to_be_bytes (of_nat (length plaintext))"
    and "drop 8 ?stream = plaintext @ pad"
    using r by simp_all
  moreover have "unat (of_nat (length plaintext) :: u64) = length plaintext"
    using r by (simp add: u64_max_def unat_of_nat)
  moreover have "length ?stream = 8 + length plaintext + length pad"
    using r by simp
  moreover have "length ?stream = unat (bm_padded_size m)"
    using r by blast
  ultimately show ?l
    using ids r by (auto simp: open_blob_def usize_to_u32_def get_range_def Let_def)
qed

section \<open>Properties\<close>

text \<open>
  C34: opening is exact and fails closed. A plaintext is returned exactly when the manifest has the
  expected identity, there is one chunk per digest, every chunk has the digest the manifest names at its
  index and authenticates under the nonce of that index and the object's parameters to a full plaintext
  chunk, and the padded stream they form starts with the length of the plaintext and the plaintext.
\<close>

theorem open_blob_exact:
  "open_blob pr key expected m chunks = Some (Inr plaintext) \<longleftrightarrow>
     blob_identify pr m = expected \<and> length chunks = BlobManifest_chunk_count m \<and> length chunks < 2 ^ 32
     \<and> (\<exists>aead_key plains padding. derive_key pr key (bm_object_salt m) = Some aead_key \<and> length plains = length chunks
          \<and> list_all (\<lambda>i. chunk_opens pr aead_key m (of_nat (length chunks)) i (chunks ! i) (plains ! i)) [0..<length chunks]
          \<and> concat plains = u64_to_be_bytes (of_nat (length plaintext)) @ plaintext @ padding
          \<and> length plaintext \<le> u64_max \<and> length (concat plains) = unat (bm_padded_size m))"
  by (rule open_blob_Inr)

lemma seal_blob_opens:
  assumes "blob_primitives pr" and "padded_size_of (length plaintext) chunk_size = Inr padded"
  shows "\<exists>e. fst (seal_blob pr plaintext chunk_size rng) = Some (Inr e)
    \<and> wf_BlobManifest (eb_manifest e) \<and> eb_blob_id e = blob_identify pr (eb_manifest e)
    \<and> bm_chunk_size (eb_manifest e) = chunk_size \<and> unat (bm_padded_size (eb_manifest e)) = padded
    \<and> bm_digests (eb_manifest e) = map (pr_sha256 pr) (eb_chunks e)
    \<and> list_all (\<lambda>c. length c = unat chunk_size + 16) (eb_chunks e)
    \<and> open_blob pr (eb_key e) (eb_blob_id e) (eb_manifest e) (eb_chunks e) = Some (Inr plaintext)"
proof -
  note pr = blob_primitivesD [OF assms(1)] and d = padded_size_ofD [OF assms(2)]
  obtain key rng1 where key: "ObjectKey_generate pr rng = (key, rng1)" by fastforce
  obtain salt rng2 where salt: "pr_fill pr 16 rng1 = (salt, rng2)" by fastforce
  obtain pad rng3 where pad: "pr_fill pr (padded - (8 + length plaintext)) rng2 = (pad, rng3)" by fastforce
  obtain ak where ak: "derive_key pr key salt = Some ak" "length ak = 32"
    using pr(2) unfolding derive_key_def by blast
  let ?stream = "u64_to_be_bytes (of_nat (length plaintext)) @ plaintext @ pad"
  let ?n = "padded div unat chunk_size"
  let ?plains = "chunks_exact (unat chunk_size) ?stream"
  have ls: "length salt = 16" and lp: "length ?stream = padded"
    using pr(4) [of 16 rng1] pr(4) [of "padded - (8 + length plaintext)" rng2] d(2) by (simp_all add: salt pad)
  have n: "length ?plains = ?n"
    using d(4) by (simp add: length_chunks_exact lp del: length_append)
  have widths: "\<forall>x \<in> set ?plains. length x = unat chunk_size"
    by (auto dest: chunks_exact_widths)
  have cat: "concat ?plains = ?stream"
    using d(4,7) lp by (intro concat_chunks_exact) simp_all
  obtain cts where cts: "seal_chunks pr ak salt (of_nat padded) chunk_size (of_nat ?n) (enumerate 0 ?plains)
        = Inr (cts, map (pr_sha256 pr) cts)" "length cts = ?n"
      "\<forall>i < ?n. length (cts ! i) = unat chunk_size + 16
         \<and> pr_decrypt pr ak (replicate 4 0 @ u64_to_be_bytes (of_nat i)) (cts ! i)
             (chunk_aad salt (of_nat padded) chunk_size (of_nat ?n) (of_nat i)) = Some (?plains ! i)"
    using seal_chunks_ok [OF assms(1) ak(2) widths d(5), of 0 salt "of_nat padded" chunk_size "of_nat ?n"] d(8)
    unfolding n by auto
  obtain m where m: "make_manifest salt (of_nat padded) chunk_size (map (pr_sha256 pr) cts) = Inr m"
      "wf_BlobManifest m" "bm_object_salt m = salt" "bm_padded_size m = of_nat padded" "bm_chunk_size m = chunk_size"
      "bm_digests m = map (pr_sha256 pr) cts"
    using make_manifest_ok [OF assms(2) ls, of "map (pr_sha256 pr) cts"] pr(1) cts(2) by auto
  have up: "unat (of_nat padded :: u64) = padded"
    using padded_size_of_le [OF assms(2)] by (simp add: unat_of_nat)
  have sealed: "fst (seal_blob pr plaintext chunk_size rng)
      = Some (Inr \<lparr>eb_key = key, eb_manifest = m, eb_blob_id = blob_identify pr m, eb_chunks = cts\<rparr>)"
    using cts(1) m(1) d(8) by (simp add: seal_blob_def assms(2) key salt pad ak usize_to_u32_def)
  have "list_all (\<lambda>i. chunk_opens pr ak m (of_nat ?n) i (cts ! i) (?plains ! i)) [0..<?n]"
    using cts(2,3) widths n d(8)
    by (auto simp: list_all_iff chunk_opens_def m BlobManifest_digest_def get_at_def)
  moreover have "length plaintext \<le> u64_max"
    using d(2) up unat_u64_le_max [of "of_nat padded"] by simp
  ultimately have "open_blob pr key (blob_identify pr m) m cts = Some (Inr plaintext)"
    unfolding open_blob_Inr using ak(1) cts(2) m n cat lp up d(8)
    by (auto simp: BlobManifest_chunk_count_def intro!: exI [of _ ak] exI [of _ ?plains] exI [of _ pad] simp del: length_append)
  with sealed m up cts(2,3) show ?thesis
    by (intro exI) (auto simp: list_all_length)
qed

text \<open>
  C33: sealing an object whose size fits succeeds, and the object opens again to the exact plaintext. The
  manifest is well formed, has the requested chunk size and the padded size (which depends on the length
  of the plaintext only through the next power of two), lists the digests of the chunks in order, and
  its identity is the object's identifier; every chunk is the 16-byte tag longer than a plaintext chunk.
\<close>

theorem sealed_blob_opens:
  assumes "blob_primitives pr" and "padded_size_of (length plaintext) chunk_size = Inr padded"
  shows "\<exists>e. fst (seal_blob pr plaintext chunk_size rng) = Some (Inr e)
    \<and> wf_BlobManifest (eb_manifest e) \<and> eb_blob_id e = blob_identify pr (eb_manifest e)
    \<and> bm_chunk_size (eb_manifest e) = chunk_size \<and> unat (bm_padded_size (eb_manifest e)) = padded
    \<and> bm_digests (eb_manifest e) = map (pr_sha256 pr) (eb_chunks e)
    \<and> list_all (\<lambda>c. length c = unat chunk_size + 16) (eb_chunks e)
    \<and> open_blob pr (eb_key e) (eb_blob_id e) (eb_manifest e) (eb_chunks e) = Some (Inr plaintext)"
  using assms by (rule seal_blob_opens)

text \<open>Concrete primitives that satisfy the laws: a constant tag, a counter as generator.\<close>

definition ex_primitives :: "u8 Primitives" where
  "ex_primitives = \<lparr>pr_sha256 = (\<lambda>x. replicate 32 (of_nat (length x))), pr_expand = (\<lambda>salt key info n. Some (replicate n 0)),
     pr_encrypt = (\<lambda>key nonce m aad. Some (m @ replicate 16 0)), pr_decrypt = (\<lambda>key nonce c aad. Some (take (length c - 16) c)),
     pr_fill = (\<lambda>n g. (replicate n g, g + 1))\<rparr>"

lemma ex_primitives_laws: "blob_primitives ex_primitives"
  by (simp add: blob_primitives_def ex_primitives_def)

theorem sealed_blob_opens_witness:
  "\<exists>e. fst (seal_blob ex_primitives [1, 2, 3] 32 7) = Some (Inr e)
    \<and> open_blob ex_primitives (eb_key e) (eb_blob_id e) (eb_manifest e) (eb_chunks e) = Some (Inr [1, 2, 3])"
proof -
  have "padded_size_of (length [1 :: u8, 2, 3]) 32 = Inr 64"
    by (simp add: padded_size_of_def is_power_of_two_def u64_max_def blob_bounds next_power_of_two_def doubled_to.simps)
  from sealed_blob_opens [OF ex_primitives_laws this, of 7] show ?thesis
    by blast
qed

section \<open>Proofs of blob requests\<close>

lemma signed_blob_request_verifies:
  assumes "ed25519_laws ed"
  shows "\<exists>auth. sign_blob_request ed key authenticated = Some auth \<and> length (Auth_bytes auth) = 68
    \<and> verify_blob_request ed (BlobSigningKey_capability ed key) authenticated auth = Inr ()"
  using assms
  by (simp add: sign_blob_request_def verify_blob_request_def BlobSigningKey_capability_def ed25519_laws_def Let_def
      Auth_new_def MAX_AUTH_BYTES_def)

text \<open>
  The messages signed for queue requests, blob requests and receipts are pairwise different whatever
  they carry, so a signature made for one never serves for another.
\<close>

lemma signed_messages_disjoint:
  "RELAY_AUTH_DOMAIN @ a \<noteq> REQUEST_DOMAIN @ b" "RELAY_AUTH_DOMAIN @ a \<noteq> RECEIPT_DOMAIN @ b" "REQUEST_DOMAIN @ a \<noteq> RECEIPT_DOMAIN @ b"
  by (simp_all add: RELAY_AUTH_DOMAIN_def REQUEST_DOMAIN_def RECEIPT_DOMAIN_def ascii_def)

text \<open>The associated data of a chunk determines the object's parameters and the index it was sealed for.\<close>

lemma chunk_aad_inject:
  assumes "chunk_aad salt p c n i = chunk_aad salt' p' c' n' i'" and "length salt = 16" and "length salt' = 16"
  shows "salt = salt' \<and> p = p' \<and> c = c' \<and> n = n' \<and> i = i'"
  using assms by (auto simp: chunk_aad_def) (metis u32_be_roundtrip)+

end
