(* ===== verification/CW_Service.thy ===== *)
theory CW_Service
  imports CW_Codec CW_Blob_Codec CW_Blob_Runs CW_Rate_Limit CW_Blob_Crypto
begin

text \<open>
  The relay service of \<open>apps/cofferwired/src/lib.rs\<close>: a frame of either protocol is decoded, its proof is
  checked, its author is rate limited, and it is executed through the replay store of the durable relay.
  The transports call \<open>exchange_at\<close> and \<open>exchange_blob_at\<close> with frames and clock readings; the semaphores
  that bound concurrent calls belong to them.
\<close>

section \<open>State\<close>

definition QUEUE_RATE_LIMIT_WINDOW_SECS :: u64 where "QUEUE_RATE_LIMIT_WINDOW_SECS = 60"

definition QUEUE_RATE_LIMIT_MAX_REQUESTS :: nat where "QUEUE_RATE_LIMIT_MAX_REQUESTS = 300"

definition BLOB_RATE_LIMIT_WINDOW_SECS :: u64 where "BLOB_RATE_LIMIT_WINDOW_SECS = 60"

definition BLOB_RATE_LIMIT_MAX_REQUESTS :: nat where "BLOB_RATE_LIMIT_MAX_REQUESTS = 1000"

definition RATE_LIMIT_MAX_TRACKED_KEYS :: nat where "RATE_LIMIT_MAX_TRACKED_KEYS = 100000"

text \<open>\<open>sv_poisoned\<close> is the state of the lock around the durable relay.\<close>

record RelayService =
  sv_relay :: Connection
  sv_poisoned :: bool
  sv_queue_rate_limiter :: "Principal RateLimiter"
  sv_blob_rate_limiter :: "CapabilityId RateLimiter"

definition RelayService_new :: "Connection \<Rightarrow> RelayService" where
  "RelayService_new relay = \<lparr>sv_relay = relay, sv_poisoned = False,
     sv_queue_rate_limiter = RateLimiter_new QUEUE_RATE_LIMIT_WINDOW_SECS QUEUE_RATE_LIMIT_MAX_REQUESTS RATE_LIMIT_MAX_TRACKED_KEYS,
     sv_blob_rate_limiter = RateLimiter_new BLOB_RATE_LIMIT_WINDOW_SECS BLOB_RATE_LIMIT_MAX_REQUESTS RATE_LIMIT_MAX_TRACKED_KEYS\<rparr>"

datatype ExchangeError = ExOverloaded | ExStorage | ExInternal

section \<open>Statuses and error responses\<close>

fun relay_status :: "RelayError \<Rightarrow> Status" where
  "relay_status ReQueueNotFound = StQueueNotFound"
| "relay_status ReUnauthorized = StUnauthorized"
| "relay_status ReQueueIdConflict = StQueueIdConflict"
| "relay_status ReMessageIdConflict = StMessageIdConflict"
| "relay_status ReMessageTooLarge = StMessageTooLarge"
| "relay_status ReQueueFull = StQueueFull"
| "relay_status ReExpiryOverflow = StExpiryOverflow"
| "relay_status ReLimitOutOfRange = StLimitOutOfRange"
| "relay_status ReAckMismatch = StAckMismatch"
| "relay_status ReNotDelivered = StNotDelivered"

fun blob_status :: "BlobRelayError \<Rightarrow> BlobStatus" where
  "blob_status BeNotFound = BsNotFound"
| "blob_status BeUnauthorized = BsUnauthorized"
| "blob_status BeIdConflict = BsIdConflict"
| "blob_status BeLimitOutOfRange = BsLimitOutOfRange"
| "blob_status BeChunkConflict = BsChunkConflict"
| "blob_status BeIncomplete = BsIncomplete"
| "blob_status BeIdentityMismatch = BsIdentityMismatch"
| "blob_status BeExpired = BsExpired"

fun request_principal :: "Request \<Rightarrow> Principal" where
  "request_principal (ReqCreateQueue create) = cq_sender create"
| "request_principal (ReqSend send) = sr_sender send"
| "request_principal (ReqFetch fetch) = fr_recipient fetch"
| "request_principal (ReqAck ack) = ar_recipient ack"
| "request_principal (ReqDeleteQueue delete) = dq_recipient delete"

text \<open>
  \<open>expect\<close> takes the value of a result and panics on an error, for which \<open>projr\<close> has no defined value;
  \<open>expect_never_panics\<close> below shows that none of its uses meets an error.
\<close>

definition error_response :: "RequestId \<Rightarrow> Command option \<Rightarrow> Status \<Rightarrow> bytes" where
  "error_response request_id command status =
     encode_response \<lparr>rsf_request_id = request_id, rsf_response = RespError (projr (ErrorResponse_new command status))\<rparr>"

definition blob_error_response :: "RequestId \<Rightarrow> BlobCommand option \<Rightarrow> BlobStatus \<Rightarrow> bytes" where
  "blob_error_response request_id command status =
     encode_blob_response \<lparr>brsf_request_id = request_id,
       brsf_response = \<lparr>br_command = command, br_status = status, br_body = None\<rparr>\<rparr>"

definition request_id_from_prefix :: "bytes \<Rightarrow> RequestId" where
  "request_id_from_prefix bs =
     RequestId (case get_range bs 1 17 of Some source \<Rightarrow> source | None \<Rightarrow> replicate 16 0)"

definition decode_error_response :: "bytes \<Rightarrow> DecodeError \<Rightarrow> bytes" where
  "decode_error_response bs error =
     (let request_id = (case error of DeUnsupportedVersion _ request_id \<Rightarrow> request_id | _ \<Rightarrow> request_id_from_prefix bs);
          status = (case error of DeUnsupportedVersion _ _ \<Rightarrow> StUnsupportedVersion
                     | DeFrameTooLarge _ \<Rightarrow> StFrameTooLarge | _ \<Rightarrow> StMalformedFrame)
      in error_response request_id None status)"

definition blob_decode_error_response :: "bytes \<Rightarrow> DecodeError \<Rightarrow> bytes" where
  "blob_decode_error_response bs error =
     (let request_id = (case error of DeUnsupportedVersion _ request_id \<Rightarrow> request_id | _ \<Rightarrow> request_id_from_prefix bs);
          status = (case error of DeUnsupportedVersion _ _ \<Rightarrow> BsUnsupportedVersion
                     | DeFrameTooLarge _ \<Rightarrow> BsFrameTooLarge
                     | DeInvalidValue field _ \<Rightarrow> if field = ''blob command'' then BsUnknownCommand else BsMalformedFrame
                     | _ \<Rightarrow> BsMalformedFrame)
      in blob_error_response request_id None status)"

definition encode_queue_outcome :: "RequestId \<Rightarrow> Command \<Rightarrow> (RelayError, ResponseBody) result \<Rightarrow> bytes" where
  "encode_queue_outcome request_id command r =
     encode_response \<lparr>rsf_request_id = request_id,
       rsf_response = (case r of
          Inr body \<Rightarrow> RespSuccess body
        | Inl error \<Rightarrow> RespError (projr (ErrorResponse_new (Some command) (relay_status error))))\<rparr>"

definition encode_blob_outcome :: "RequestId \<Rightarrow> BlobCommand \<Rightarrow> (BlobRelayError, BlobResponseBody) result \<Rightarrow> bytes" where
  "encode_blob_outcome request_id command r =
     encode_blob_response \<lparr>brsf_request_id = request_id,
       brsf_response = (case r of
          Inr body \<Rightarrow> \<lparr>br_command = Some command, br_status = BsOk, br_body = Some body\<rparr>
        | Inl error \<Rightarrow> \<lparr>br_command = Some command, br_status = blob_status error, br_body = None\<rparr>)\<rparr>"

text \<open>\<open>usize::try_from\<close> of a \<open>u64\<close> cannot fail on a 64-bit target.\<close>

fun validate_queue_request :: "Request \<Rightarrow> (Status, unit) result" where
  "validate_queue_request (ReqCreateQueue create) = Inr ()"
| "validate_queue_request (ReqSend send) =
     map_ok (\<lambda>_. ()) (ok_or (RelayTtl_from_secs (Ttl_as_secs (sr_ttl send))) StLimitOutOfRange)"
| "validate_queue_request (ReqFetch fetch) = Inr ()"
| "validate_queue_request (ReqAck ack) = Inr ()"
| "validate_queue_request (ReqDeleteQueue delete) = Inr ()"

section \<open>Exchanges\<close>

definition exchange_at ::
    "Ed25519 \<Rightarrow> Engine \<Rightarrow> RelayService \<Rightarrow> bytes \<Rightarrow> Timestamp \<Rightarrow> (ExchangeError, bytes) result \<times> RelayService" where
  "exchange_at ed E sv bs now =
     (case decode_request bs of
        Inl error \<Rightarrow> (Inr (decode_error_response bs error), sv)
      | Inr decoded \<Rightarrow>
          let request_id = rf_request_id (dr_frame decoded); request = rf_request (dr_frame decoded);
              command = Request_command request; actor = request_principal request in
          case verify_request ed actor (dr_authenticated_bytes decoded) (rf_auth (dr_frame decoded)) of
            Inl _ \<Rightarrow> (Inr (error_response request_id (Some command) StAuthInvalid), sv)
          | Inr _ \<Rightarrow>
              let (admitted, limiter) = RateLimiter_admit (sv_queue_rate_limiter sv) actor (Timestamp_as_secs now);
                  sv = sv\<lparr>sv_queue_rate_limiter := limiter\<rparr> in
              if \<not> admitted then (Inl ExOverloaded, sv)
              else case validate_queue_request request of
                Inl status \<Rightarrow> (Inr (error_response request_id (Some command) status), sv)
              | Inr _ \<Rightarrow>
                  if sv_poisoned sv then (Inl ExStorage, sv)
                  else case queue_replay E actor request_id (sv_relay sv) of
                    (Inl _, c) \<Rightarrow> (Inl ExStorage, sv\<lparr>sv_relay := c\<rparr>)
                  | (Inr (Some (stored_request, stored_response)), c) \<Rightarrow>
                      (Inr (if stored_request = bs then stored_response
                            else error_response request_id (Some command) StAuthReplay), sv\<lparr>sv_relay := c\<rparr>)
                  | (Inr None, c) \<Rightarrow>
                      (case queue_request_exchange E actor request_id bs request now
                          (encode_queue_outcome request_id command) c of
                         (Inr (Respond response), c) \<Rightarrow> (Inr response, sv\<lparr>sv_relay := c\<rparr>)
                       | (Inr Conflict, c) \<Rightarrow>
                           (Inr (error_response request_id (Some command) StAuthReplay), sv\<lparr>sv_relay := c\<rparr>)
                       | (Inl _, c) \<Rightarrow> (Inl ExStorage, sv\<lparr>sv_relay := c\<rparr>)))"

definition exchange_blob_at ::
    "Ed25519 \<Rightarrow> (bytes \<Rightarrow> bytes) \<Rightarrow> Engine \<Rightarrow> RelayService \<Rightarrow> bytes \<Rightarrow> Timestamp \<Rightarrow>
     (ExchangeError, bytes) result \<times> RelayService" where
  "exchange_blob_at ed sha256 E sv bs now =
     (case decode_blob_request bs of
        Inl error \<Rightarrow> (Inr (blob_decode_error_response bs error), sv)
      | Inr decoded \<Rightarrow>
          let request_id = brf_request_id (dbr_frame decoded); request = brf_request (dbr_frame decoded);
              command = BlobRequest_command request; capability = BlobRequest_capability request in
          case verify_blob_request ed capability (dbr_authenticated_bytes decoded) (brf_auth (dbr_frame decoded)) of
            Inl _ \<Rightarrow> (Inr (blob_error_response request_id (Some command) BsAuthInvalid), sv)
          | Inr _ \<Rightarrow>
              let (admitted, limiter) = RateLimiter_admit (sv_blob_rate_limiter sv) capability (Timestamp_as_secs now);
                  sv = sv\<lparr>sv_blob_rate_limiter := limiter\<rparr> in
              if \<not> admitted then (Inl ExOverloaded, sv)
              else if sv_poisoned sv then (Inl ExStorage, sv)
              else case blob_replay E capability request_id (sv_relay sv) of
                (Inl _, c) \<Rightarrow> (Inl ExStorage, sv\<lparr>sv_relay := c\<rparr>)
              | (Inr (Some (stored_request, stored_response)), c) \<Rightarrow>
                  (Inr (if stored_request = bs then stored_response
                        else blob_error_response request_id (Some command) BsAuthReplay), sv\<lparr>sv_relay := c\<rparr>)
              | (Inr None, c) \<Rightarrow>
                  (case blob_request_exchange sha256 E capability request_id bs request now
                      (encode_blob_outcome request_id command) c of
                     (Inr (Respond response), c) \<Rightarrow> (Inr response, sv\<lparr>sv_relay := c\<rparr>)
                   | (Inr Conflict, c) \<Rightarrow>
                       (Inr (blob_error_response request_id (Some command) BsAuthReplay), sv\<lparr>sv_relay := c\<rparr>)
                   | (Inl _, c) \<Rightarrow> (Inl ExStorage, sv\<lparr>sv_relay := c\<rparr>)))"

section \<open>No status is mistaken for success\<close>

lemma status_not_ok [simp]: "relay_status e \<noteq> StOk" "blob_status b \<noteq> BsOk"
  by (cases e; simp) (cases b; simp)

lemma validate_not_ok: "validate_queue_request request = Inl status \<Longrightarrow> status = StLimitOutOfRange"
  by (cases request) (auto simp: res_simps map_ok_def split: sum.splits)

lemma expect_never_panics:
  "\<exists>e. ErrorResponse_new (Some command) (relay_status error) = Inr e"
  "status \<noteq> StOk \<Longrightarrow> \<exists>e. ErrorResponse_new c status = Inr e"
  by (simp_all add: ErrorResponse_new_def)

section \<open>Answering through the replay store\<close>

text \<open>The common tail of the two exchanges: look the key up, and execute when it is not recorded.\<close>

definition answer_frame ::
    "Engine \<Rightarrow> Namespace \<Rightarrow> bytes \<Rightarrow> RequestId \<Rightarrow> bytes \<Rightarrow> (DurableRelayError, ReplayExchange) tx \<Rightarrow> bytes \<Rightarrow> Connection \<Rightarrow>
     (ExchangeError, bytes) result \<times> Connection" where
  "answer_frame E ns s rid bs exch conflict c =
     (case lookup E ns s rid c of
        (Inl _, c) \<Rightarrow> (Inl ExStorage, c)
      | (Inr (Some (stored_request, stored_response)), c) \<Rightarrow> (Inr (if stored_request = bs then stored_response else conflict), c)
      | (Inr None, c) \<Rightarrow>
          (case exch c of
             (Inr (Respond response), c) \<Rightarrow> (Inr response, c)
           | (Inr Conflict, c) \<Rightarrow> (Inr conflict, c)
           | (Inl _, c) \<Rightarrow> (Inl ExStorage, c)))"

definition recorded_reply :: "ReplayRow \<Rightarrow> bytes \<Rightarrow> bytes \<Rightarrow> bytes" where
  "recorded_reply row bs conflict = (if rp_request row = bs then rp_response row else conflict)"

lemma lookup_cases:
  assumes "lookup E ns s rid c = (r, c')"
  shows "cn_db c' = cn_db c" and "(\<exists>e. r = Inl e) \<or> r = Inr (case Namespace_select ns s rid (cn_db c) of
     [] \<Rightarrow> None | row # _ \<Rightarrow> Some (rp_request row, rp_response row))"
  using begin_commit_db(3) [OF assms] lookup_Inr [of E ns s rid c] assms by (cases r; auto)+

context recorded_effect
begin

lemma frame_cases:
  assumes x_def: "x = answer_frame E ns s rid bs (exchange E ns s rid bs (eff r E) encode) conflict c"
  obtains (failed) "fst x = Inl ExStorage" "cn_db (snd x) = cn_db c"
    | (replayed) row rest where "Namespace_select ns s rid (cn_db c) = row # rest" "fst x = Inr (recorded_reply row bs conflict)"
        "cn_db (snd x) = cn_db c"
    | (fresh) resp db where "Namespace_select ns s rid (cn_db c) = []" "fst x = Inr resp"
        "cn_db (snd x) = add_replay ns (replay_row s rid bs resp) db" "length s = 32" "wf_RequestId rid"
        "committed_effect (pure_tx (eff r) E (cn_db c)) encode (cn_db c) = Some (resp, db)
          \<or> (\<exists>p. masked r p \<and> resp = encode (Inl p) \<and> db = cn_db c)"
proof -
  obtain l c1 where l: "lookup E ns s rid c = (l, c1)" by fastforce
  obtain e c2 where e: "exchange E ns s rid bs (eff r E) encode c1 = (e, c2)" by fastforce
  note lc = lookup_cases [OF l]
  show thesis
  proof (cases "(\<exists>err. l = Inl err) \<or> Namespace_select ns s rid (cn_db c) \<noteq> []")
    case True
    then show thesis
      using lc failed replayed by (auto simp: x_def answer_frame_def l recorded_reply_def split: list.splits)
  next
    case False
    then have none: "l = Inr None" "Namespace_select ns s rid (cn_db c) = []"
      using lc(2) by auto
    have x: "x = (case (e, c2) of (Inr (Respond response), c) \<Rightarrow> (Inr response, c) | (Inr Conflict, c) \<Rightarrow> (Inr conflict, c)
        | (Inl _, c) \<Rightarrow> (Inl ExStorage, c))"
      by (simp add: x_def answer_frame_def l e none)
    from ends [of E s rid bs r encode c1] show thesis
    proof (elim disjE)
      assume "aborted (exchange E ns s rid bs (eff r E) encode c1) c1"
      then show thesis
        using failed lc(1) by (auto simp: aborted_def e x)
    next
      assume "executed_once ns s rid bs (committed_effect (pure_tx (eff r) E (cn_db c1)) encode (cn_db c1))
        (exchange E ns s rid bs (eff r E) encode c1) c1"
      then show thesis
        using fresh none(2) lc(1) by (auto simp: executed_once_def e x)
    next
      assume "fault_recorded (masked r) ns s rid bs encode (exchange E ns s rid bs (eff r E) encode c1) c1"
      then show thesis
        using fresh none(2) lc(1) by (fastforce simp: fault_recorded_def executed_once_def e x)
    next
      assume "answered_from_record ns s rid bs (exchange E ns s rid bs (eff r E) encode c1) c1"
      then show thesis
        using none(2) lc(1) by (auto simp: answered_from_record_def)
    qed
  qed
qed

text \<open>An answered frame is recorded, every record stays, and a recorded key is answered from its record.\<close>

lemma frame_records_grow:
  "\<exists>added. replay_table ns' (cn_db (snd (answer_frame E ns s rid bs (exchange E ns s rid bs (eff r E) encode) conflict c)))
     = replay_table ns' (cn_db c) @ added"
  by (rule frame_cases [OF refl, of E s rid bs r encode conflict c]) (auto simp: replay_table_add effect_keeps)

lemma frame_recorded:
  assumes "answer_frame E ns s rid bs (exchange E ns s rid bs (eff r E) encode) conflict c = (Inr resp, c')"
  shows "\<exists>row rest. Namespace_select ns s rid (cn_db c') = row # rest \<and> resp = recorded_reply row bs conflict"
proof (rule frame_cases [OF assms [symmetric]], goal_cases)
  case (3 resp' db)
  have "replay_table ns db = replay_table ns (cn_db c)"
    using 3(6) effect_keeps by blast
  with 3 show ?case
    by (auto simp: Namespace_select_def replay_table_add replay_row_def recorded_reply_def)
qed auto

lemma frame_repeated:
  assumes "answer_frame E ns s rid bs (exchange E ns s rid bs (eff r E) encode) conflict c = (res, c')"
    and "Namespace_select ns s rid (cn_db c) = row # rest"
  shows "cn_db c' = cn_db c \<and> (res = Inr (recorded_reply row bs conflict) \<or> (\<exists>e. res = Inl e))"
  by (rule frame_cases [OF assms(1) [symmetric]]) (use assms(2) in auto)

lemma frame_effect:
  assumes "answer_frame E ns s rid bs (exchange E ns s rid bs (eff r E) encode) conflict c = (res, c')"
    and "cn_db c' \<noteq> cn_db c"
  shows "\<exists>resp. res = Inr resp \<and> Namespace_select ns s rid (cn_db c) = []
    \<and> Namespace_select ns s rid (cn_db c') = [replay_row s rid bs resp]"
proof (rule frame_cases [OF assms(1) [symmetric]], goal_cases)
  case (3 resp db)
  have "replay_table ns db = replay_table ns (cn_db c)"
    using 3(6) effect_keeps by blast
  with 3 show ?case
    by (auto simp: Namespace_select_def replay_table_add replay_row_def)
qed (use assms in auto)

end

section \<open>What an exchange depends on\<close>

text \<open>The frames that are answered without looking at any state, with that answer.\<close>

definition queue_fixed_answer :: "Ed25519 \<Rightarrow> bytes \<Rightarrow> bytes option" where
  "queue_fixed_answer ed bs =
     (case decode_request bs of
        Inl error \<Rightarrow> Some (decode_error_response bs error)
      | Inr d \<Rightarrow>
          let rid = rf_request_id (dr_frame d); request = rf_request (dr_frame d) in
          case verify_request ed (request_principal request) (dr_authenticated_bytes d) (rf_auth (dr_frame d)) of
            Inl _ \<Rightarrow> Some (error_response rid (Some (Request_command request)) StAuthInvalid)
          | Inr _ \<Rightarrow>
              (case validate_queue_request request of
                 Inl status \<Rightarrow> Some (error_response rid (Some (Request_command request)) status)
               | Inr _ \<Rightarrow> None))"

definition blob_fixed_answer :: "Ed25519 \<Rightarrow> bytes \<Rightarrow> bytes option" where
  "blob_fixed_answer ed bs =
     (case decode_blob_request bs of
        Inl error \<Rightarrow> Some (blob_decode_error_response bs error)
      | Inr d \<Rightarrow>
          let rid = brf_request_id (dbr_frame d); request = brf_request (dbr_frame d) in
          case verify_blob_request ed (BlobRequest_capability request) (dbr_authenticated_bytes d) (brf_auth (dbr_frame d)) of
            Inl _ \<Rightarrow> Some (blob_error_response rid (Some (BlobRequest_command request)) BsAuthInvalid)
          | Inr _ \<Rightarrow> None)"

text \<open>The common tail for a decoded request of either protocol.\<close>

definition queue_tail :: "Engine \<Rightarrow> bytes \<Rightarrow> Timestamp \<Rightarrow> RequestFrame \<Rightarrow> Connection \<Rightarrow> (ExchangeError, bytes) result \<times> Connection" where
  "queue_tail E bs now f =
     answer_frame E NsQueue (Principal_bytes (request_principal (rf_request f))) (rf_request_id f) bs
       (exchange E NsQueue (Principal_bytes (request_principal (rf_request f))) (rf_request_id f) bs
         (queue_effect (rf_request f, now) E) (encode_queue_outcome (rf_request_id f) (Request_command (rf_request f))))
       (error_response (rf_request_id f) (Some (Request_command (rf_request f))) StAuthReplay)"

definition blob_tail ::
    "(bytes \<Rightarrow> bytes) \<Rightarrow> Engine \<Rightarrow> bytes \<Rightarrow> Timestamp \<Rightarrow> BlobRequestFrame \<Rightarrow> Connection \<Rightarrow> (ExchangeError, bytes) result \<times> Connection" where
  "blob_tail sha256 E bs now f =
     answer_frame E NsBlob (CapabilityId_bytes (BlobRequest_capability (brf_request f))) (brf_request_id f) bs
       (exchange E NsBlob (CapabilityId_bytes (BlobRequest_capability (brf_request f))) (brf_request_id f) bs
         (blob_effect sha256 (brf_request f, now) E) (encode_blob_outcome (brf_request_id f) (BlobRequest_command (brf_request f))))
       (blob_error_response (brf_request_id f) (Some (BlobRequest_command (brf_request f))) BsAuthReplay)"

lemma exchange_at_fixed:
  "queue_fixed_answer ed bs = Some resp \<Longrightarrow>
   fst (exchange_at ed E sv bs now) \<in> {Inr resp, Inl ExOverloaded} \<and> sv_relay (snd (exchange_at ed E sv bs now)) = sv_relay sv"
  by (auto simp: queue_fixed_answer_def exchange_at_def Let_def split: sum.splits prod.splits)

lemma exchange_blob_at_fixed:
  "blob_fixed_answer ed bs = Some resp \<Longrightarrow>
   fst (exchange_blob_at ed sha256 E sv bs now) = Inr resp
   \<and> sv_relay (snd (exchange_blob_at ed sha256 E sv bs now)) = sv_relay sv"
  by (auto simp: blob_fixed_answer_def exchange_blob_at_def Let_def split: sum.splits prod.splits)

lemma exchange_at_live:
  assumes "queue_fixed_answer ed bs = None" and "x = exchange_at ed E sv bs now"
  obtains d where "decode_request bs = Inr d"
    and "verify_request ed (request_principal (rf_request (dr_frame d))) (dr_authenticated_bytes d) (rf_auth (dr_frame d)) = Inr ()"
    and "(\<exists>e. fst x = Inl e) \<and> sv_relay (snd x) = sv_relay sv
      \<or> (fst x, sv_relay (snd x)) = queue_tail E bs now (dr_frame d) (sv_relay sv)"
proof -
  obtain d where d: "decode_request bs = Inr d"
      and v: "verify_request ed (request_principal (rf_request (dr_frame d))) (dr_authenticated_bytes d) (rf_auth (dr_frame d)) = Inr ()"
      and w: "validate_queue_request (rf_request (dr_frame d)) = Inr ()"
    using assms(1) by (auto simp: queue_fixed_answer_def Let_def split: sum.splits)
  show thesis
  proof (rule that [OF d v], cases "RateLimiter_admit (sv_queue_rate_limiter sv) (request_principal (rf_request (dr_frame d)))
      (Timestamp_as_secs now)")
    case (Pair ok limiter)
    then show "(\<exists>e. fst x = Inl e) \<and> sv_relay (snd x) = sv_relay sv
      \<or> (fst x, sv_relay (snd x)) = queue_tail E bs now (dr_frame d) (sv_relay sv)"
      by (auto simp: assms(2) exchange_at_def d v w Let_def queue_tail_def answer_frame_def queue_replay_def
          queue_request_exchange_eq split: prod.splits sum.splits option.splits ReplayExchange.splits)
  qed
qed

lemma exchange_blob_at_live:
  assumes "blob_fixed_answer ed bs = None" and "x = exchange_blob_at ed sha256 E sv bs now"
  obtains d where "decode_blob_request bs = Inr d"
    and "verify_blob_request ed (BlobRequest_capability (brf_request (dbr_frame d))) (dbr_authenticated_bytes d)
      (brf_auth (dbr_frame d)) = Inr ()"
    and "(\<exists>e. fst x = Inl e) \<and> sv_relay (snd x) = sv_relay sv
      \<or> (fst x, sv_relay (snd x)) = blob_tail sha256 E bs now (dbr_frame d) (sv_relay sv)"
proof -
  obtain d where d: "decode_blob_request bs = Inr d"
      and v: "verify_blob_request ed (BlobRequest_capability (brf_request (dbr_frame d))) (dbr_authenticated_bytes d)
        (brf_auth (dbr_frame d)) = Inr ()"
    using assms(1) by (auto simp: blob_fixed_answer_def Let_def split: sum.splits)
  show thesis
  proof (rule that [OF d v], cases "RateLimiter_admit (sv_blob_rate_limiter sv) (BlobRequest_capability (brf_request (dbr_frame d)))
      (Timestamp_as_secs now)")
    case (Pair ok limiter)
    then show "(\<exists>e. fst x = Inl e) \<and> sv_relay (snd x) = sv_relay sv
      \<or> (fst x, sv_relay (snd x)) = blob_tail sha256 E bs now (dbr_frame d) (sv_relay sv)"
      by (auto simp: assms(2) exchange_blob_at_def d v Let_def blob_tail_def answer_frame_def blob_replay_def
          blob_request_exchange_eq split: prod.splits sum.splits option.splits ReplayExchange.splits)
  qed
qed

section \<open>Runs of the service\<close>

text \<open>A frame on the wire: its protocol, its bytes and the clock reading at which it is served.\<close>

type_synonym frame_call = "Namespace \<times> bytes \<times> Timestamp"

fun serve ::
    "Ed25519 \<Rightarrow> (bytes \<Rightarrow> bytes) \<Rightarrow> Engine \<Rightarrow> RelayService \<Rightarrow> frame_call \<Rightarrow> (ExchangeError, bytes) result \<times> RelayService" where
  "serve ed sha256 E sv (NsQueue, bs, now) = exchange_at ed E sv bs now"
| "serve ed sha256 E sv (NsBlob, bs, now) = exchange_blob_at ed sha256 E sv bs now"

fun fixed_answer :: "Ed25519 \<Rightarrow> Namespace \<Rightarrow> bytes \<Rightarrow> bytes option" where
  "fixed_answer ed NsQueue bs = queue_fixed_answer ed bs"
| "fixed_answer ed NsBlob bs = blob_fixed_answer ed bs"

lemma serve_fixed:
  "fixed_answer ed ns bs = Some resp \<Longrightarrow>
   fst (serve ed sha256 E sv (ns, bs, now)) \<in> {Inr resp, Inl ExOverloaded}
   \<and> sv_relay (snd (serve ed sha256 E sv (ns, bs, now))) = sv_relay sv"
  by (cases ns) (auto dest: exchange_at_fixed [of ed bs resp E sv now] exchange_blob_at_fixed [of ed bs resp sha256 E sv now])

lemma serve_grows:
  "\<exists>added. replay_table ns' (cn_db (sv_relay (snd (serve ed sha256 E sv (ns, bs, now)))))
     = replay_table ns' (cn_db (sv_relay sv)) @ added"
proof (cases "fixed_answer ed ns bs")
  case None
  show ?thesis
  proof (cases ns)
    case NsQueue
    then have "queue_fixed_answer ed bs = None" using None by simp
    then show ?thesis
    proof (rule exchange_at_live [OF _ refl, of ed bs E sv now], goal_cases)
      case (1 d)
      from 1(3) show ?case
        using NsQueue queue_records.frame_records_grow [of ns' E] unfolding queue_tail_def
        by (metis append_Nil2 serve.simps(1) snd_conv)
    qed
  next
    case NsBlob
    then have "blob_fixed_answer ed bs = None" using None by simp
    then show ?thesis
    proof (rule exchange_blob_at_live [OF _ refl, of ed bs sha256 E sv now], goal_cases)
      case (1 d)
      from 1(3) show ?case
        using NsBlob blob_records.frame_records_grow [of ns' E] unfolding blob_tail_def
        by (metis append_Nil2 serve.simps(2) snd_conv)
    qed
  qed
qed (use serve_fixed in simp)

text \<open>The replay key of a frame and the answer to a conflicting reuse of it.\<close>

fun frame_key :: "Namespace \<Rightarrow> bytes \<Rightarrow> (bytes \<times> RequestId \<times> bytes) option" where
  "frame_key NsQueue bs =
     (case decode_request bs of
        Inl _ \<Rightarrow> None
      | Inr d \<Rightarrow> let f = dr_frame d in
          Some (Principal_bytes (request_principal (rf_request f)), rf_request_id f,
            error_response (rf_request_id f) (Some (Request_command (rf_request f))) StAuthReplay))"
| "frame_key NsBlob bs =
     (case decode_blob_request bs of
        Inl _ \<Rightarrow> None
      | Inr d \<Rightarrow> let f = dbr_frame d in
          Some (CapabilityId_bytes (BlobRequest_capability (brf_request f)), brf_request_id f,
            blob_error_response (brf_request_id f) (Some (BlobRequest_command (brf_request f))) BsAuthReplay))"

lemma serve_recorded:
  assumes "fixed_answer ed ns bs = None" and "serve ed sha256 E sv (ns, bs, now) = (Inr resp, sv')"
  shows "\<exists>s rid conflict row rest. frame_key ns bs = Some (s, rid, conflict)
    \<and> Namespace_select ns s rid (cn_db (sv_relay sv')) = row # rest \<and> resp = recorded_reply row bs conflict"
proof (cases ns)
  case NsQueue
  then have "queue_fixed_answer ed bs = None" using assms(1) by simp
  then show ?thesis
  proof (rule exchange_at_live [OF _ refl, of ed bs E sv now], goal_cases)
    case (1 d)
    then have tail: "queue_tail E bs now (dr_frame d) (sv_relay sv) = (Inr resp, sv_relay sv')"
      using assms(2) NsQueue by auto
    with 1(1) show ?case
      using queue_records.frame_recorded [OF tail [unfolded queue_tail_def]] by (auto simp: NsQueue Let_def)
  qed
next
  case NsBlob
  then have "blob_fixed_answer ed bs = None" using assms(1) by simp
  then show ?thesis
  proof (rule exchange_blob_at_live [OF _ refl, of ed bs sha256 E sv now], goal_cases)
    case (1 d)
    then have tail: "blob_tail sha256 E bs now (dbr_frame d) (sv_relay sv) = (Inr resp, sv_relay sv')"
      using assms(2) NsBlob by auto
    with 1(1) show ?case
      using blob_records.frame_recorded [OF tail [unfolded blob_tail_def]] by (auto simp: NsBlob Let_def)
  qed
qed

lemma serve_repeated:
  assumes "fixed_answer ed ns bs = None" and "frame_key ns bs = Some (s, rid, conflict)"
    and "Namespace_select ns s rid (cn_db (sv_relay sv)) = row # rest" and "serve ed sha256 E sv (ns, bs, now) = (r, sv')"
  shows "cn_db (sv_relay sv') = cn_db (sv_relay sv) \<and> (r = Inr (recorded_reply row bs conflict) \<or> (\<exists>e. r = Inl e))"
proof (cases ns)
  case NsQueue
  then have "queue_fixed_answer ed bs = None" using assms(1) by simp
  then show ?thesis
  proof (rule exchange_at_live [OF _ refl, of ed bs E sv now], goal_cases)
    case (1 d)
    from 1(3) show ?case
    proof
      assume "(fst (exchange_at ed E sv bs now), sv_relay (snd (exchange_at ed E sv bs now))) = queue_tail E bs now (dr_frame d) (sv_relay sv)"
      then have tail: "queue_tail E bs now (dr_frame d) (sv_relay sv) = (r, sv_relay sv')"
        using assms(4) NsQueue by simp
      show ?thesis
        using queue_records.frame_repeated [OF tail [unfolded queue_tail_def]] assms(2,3) 1(1) by (auto simp: NsQueue Let_def)
    qed (use assms(4) NsQueue in auto)
  qed
next
  case NsBlob
  then have "blob_fixed_answer ed bs = None" using assms(1) by simp
  then show ?thesis
  proof (rule exchange_blob_at_live [OF _ refl, of ed bs sha256 E sv now], goal_cases)
    case (1 d)
    from 1(3) show ?case
    proof
      assume "(fst (exchange_blob_at ed sha256 E sv bs now), sv_relay (snd (exchange_blob_at ed sha256 E sv bs now)))
        = blob_tail sha256 E bs now (dbr_frame d) (sv_relay sv)"
      then have tail: "blob_tail sha256 E bs now (dbr_frame d) (sv_relay sv) = (r, sv_relay sv')"
        using assms(4) NsBlob by simp
      show ?thesis
        using blob_records.frame_repeated [OF tail [unfolded blob_tail_def]] assms(2,3) 1(1) by (auto simp: NsBlob Let_def)
    qed (use assms(4) NsBlob in auto)
  qed
qed

text \<open>
  A server of frames does in every step what the service does on the same connection, whatever else its state
  holds. The service itself is one; others are the concurrent transports.
\<close>

locale frame_server =
  fixes ed :: Ed25519 and sha256 :: "bytes \<Rightarrow> bytes" and E :: Engine
    and step :: "'s \<Rightarrow> frame_call \<Rightarrow> (ExchangeError, bytes) result \<times> 's" and conn :: "'s \<Rightarrow> Connection"
  assumes serves: "\<exists>sv sv'. sv_relay sv = conn s \<and> serve ed sha256 E sv call = (fst (step s call), sv') \<and> sv_relay sv' = conn (snd (step s call))"
begin

lemma step_served:
  assumes "step s call = (r, s')"
  obtains sv sv' where "serve ed sha256 E sv call = (r, sv')" "sv_relay sv = conn s" "sv_relay sv' = conn s'"
  using serves [of s call] assms by auto

lemma run_grows:
  "run_steps step s calls = (outs, s') \<Longrightarrow> \<exists>added. replay_table ns (cn_db (conn s')) = replay_table ns (cn_db (conn s)) @ added"
proof (induction calls arbitrary: s outs)
  case (Cons call calls)
  obtain k bs now where call: "call = (k, bs, now)" by (cases call)
  obtain out s1 where st: "step s call = (out, s1)" by fastforce
  obtain outs' where rest: "run_steps step s1 calls = (outs', s')"
    using Cons.prems by (auto simp: st split: prod.splits)
  obtain sv sv' where sv: "serve ed sha256 E sv call = (out, sv')" "sv_relay sv = conn s" "sv_relay sv' = conn s1"
    by (rule step_served [OF st])
  obtain a where a: "replay_table ns (cn_db (conn s1)) = replay_table ns (cn_db (conn s)) @ a"
    using serve_grows [of ns ed sha256 E sv k bs now] sv call by auto
  obtain b where "replay_table ns (cn_db (conn s')) = replay_table ns (cn_db (conn s1)) @ b"
    using Cons.IH [OF rest] ..
  with a show ?case by simp
qed auto

lemma answers_final:
  assumes first: "step s (ns, bs, now) = (Inr resp, s1)" and "run_steps step s1 calls = (outs, s2)" and again: "step s2 (ns, bs, now') = (r, s3)"
  shows "cn_db (conn s3) = cn_db (conn s2) \<and> (r = Inr resp \<or> (\<exists>e. r = Inl e))"
proof -
  obtain sv sv1 where 1: "serve ed sha256 E sv (ns, bs, now) = (Inr resp, sv1)" "sv_relay sv1 = conn s1"
    by (rule step_served [OF first])
  obtain sv2 sv3 where 3: "serve ed sha256 E sv2 (ns, bs, now') = (r, sv3)" "sv_relay sv2 = conn s2" "sv_relay sv3 = conn s3"
    by (rule step_served [OF again])
  show ?thesis
  proof (cases "fixed_answer ed ns bs")
    case None
    obtain k rid conflict row rest where key: "frame_key ns bs = Some (k, rid, conflict)"
        and row: "Namespace_select ns k rid (cn_db (sv_relay sv1)) = row # rest" and resp: "resp = recorded_reply row bs conflict"
      using serve_recorded [OF None 1(1)] by blast
    obtain rest' where "Namespace_select ns k rid (cn_db (sv_relay sv2)) = row # rest'"
      using run_grows [OF assms(2), of ns] row by (auto simp: Namespace_select_def 1(2) 3(2))
    from serve_repeated [OF None key this 3(1)] resp 3(2,3) show ?thesis by simp
  next
    case (Some fixed)
    then show ?thesis
      using serve_fixed [OF Some, of sha256 E sv now] serve_fixed [OF Some, of sha256 E sv2 now'] 1(1) 3 by auto
  qed
qed

end

interpretation service: frame_server ed sha256 E "serve ed sha256 E" sv_relay for ed sha256 E
  by unfold_locales (metis prod.collapse)

section \<open>Properties\<close>

text \<open>
  C31: answers are final. Once the service has answered a frame of either protocol, whatever the answer
  was, then after any further frames of both protocols and under any storage faults the same frame is
  answered with the same bytes, or with an error of the transport (overloaded, storage), and does not
  change the database.
\<close>

theorem service_answer_stable:
  assumes "serve ed sha256 E sv (ns, bs, now) = (Inr resp, sv1)"
    and "run_steps (serve ed sha256 E) sv1 calls = (outs, sv2)"
    and "serve ed sha256 E sv2 (ns, bs, now') = (r, sv3)"
  shows "cn_db (sv_relay sv3) = cn_db (sv_relay sv2) \<and> (r = Inr resp \<or> (\<exists>e. r = Inl e))"
  by (rule service.answers_final [OF assms])

text \<open>A frame that carries a valid proof of the author its request names.\<close>

fun authentic_frame :: "Ed25519 \<Rightarrow> Namespace \<Rightarrow> bytes \<Rightarrow> bool" where
  "authentic_frame ed NsQueue bs \<longleftrightarrow>
     (\<exists>f. wf_RequestFrame f \<and> bs = encode_request f
        \<and> verify_request ed (request_principal (rf_request f)) (encode_authenticated_request (rf_request_id f) (rf_request f))
            (rf_auth f) = Inr ())"
| "authentic_frame ed NsBlob bs \<longleftrightarrow>
     (\<exists>f. wf_BlobRequestFrame f \<and> bs = encode_blob_request f
        \<and> verify_blob_request ed (BlobRequest_capability (brf_request f))
            (encode_blob_authenticated_request (brf_request_id f) (brf_request f)) (brf_auth f) = Inr ())"

text \<open>
  C32: no effect without proof. If serving a frame changes the database in any way, then the frame is the
  exact encoding of a well-formed request with a proof that verifies, over exactly the request's bytes,
  under the principal or capability the request acts for; its replay key had no record, and the answer
  returned is the one recorded under it, together with the frame.
\<close>

theorem service_effect_authenticated:
  assumes "serve ed sha256 E sv (ns, bs, now) = (r, sv')" and "cn_db (sv_relay sv') \<noteq> cn_db (sv_relay sv)"
  shows "authentic_frame ed ns bs
    \<and> (\<exists>s rid conflict resp. frame_key ns bs = Some (s, rid, conflict) \<and> r = Inr resp
         \<and> Namespace_select ns s rid (cn_db (sv_relay sv)) = []
         \<and> Namespace_select ns s rid (cn_db (sv_relay sv')) = [replay_row s rid bs resp])"
proof (cases "fixed_answer ed ns bs")
  case None
  show ?thesis
  proof (cases ns)
    case NsQueue
    then have "queue_fixed_answer ed bs = None" using None by simp
    then show ?thesis
    proof (rule exchange_at_live [OF _ refl, of ed bs E sv now], goal_cases)
      case (1 d)
      then have tail: "queue_tail E bs now (dr_frame d) (sv_relay sv) = (r, sv_relay sv')"
        using assms NsQueue by auto
      have "authentic_frame ed NsQueue bs"
        using 1(1,2) by (auto simp: decode_request_exact)
      with 1(1) show ?case
        using queue_records.frame_effect [OF tail [unfolded queue_tail_def] assms(2)] by (auto simp: NsQueue Let_def)
    qed
  next
    case NsBlob
    then have "blob_fixed_answer ed bs = None" using None by simp
    then show ?thesis
    proof (rule exchange_blob_at_live [OF _ refl, of ed bs sha256 E sv now], goal_cases)
      case (1 d)
      then have tail: "blob_tail sha256 E bs now (dbr_frame d) (sv_relay sv) = (r, sv_relay sv')"
        using assms NsBlob by auto
      have "authentic_frame ed NsBlob bs"
        using 1(1,2) by (auto simp: decode_blob_request_exact)
      with 1(1) show ?case
        using blob_records.frame_effect [OF tail [unfolded blob_tail_def] assms(2)] by (auto simp: NsBlob Let_def)
    qed
  qed
qed (use serve_fixed [of ed ns bs _ sha256 E sv now] assms in auto)

text \<open>A concrete run: a signed creation of a queue, served to a new service on an empty database.\<close>

definition ex_id :: RequestId where "ex_id = RequestId (replicate 16 9)"

definition ex_auth :: Auth where
  "ex_auth = Auth (PROFILE_ID @ ED25519_ID
     @ ed_sign ex_ed (replicate 32 2) (RELAY_AUTH_DOMAIN @ encode_authenticated_request ex_id ex_create))"

definition ex_frame :: bytes where
  "ex_frame = encode_request \<lparr>rf_request_id = ex_id, rf_request = ex_create, rf_auth = ex_auth\<rparr>"

lemma length_ex_auth: "length (Auth_bytes ex_auth) = 68"
  by (simp add: ex_auth_def ex_ed_def)

lemma ex_frame_decodes:
  "decode_request ex_frame = Inr \<lparr>dr_frame = \<lparr>rf_request_id = ex_id, rf_request = ex_create, rf_auth = ex_auth\<rparr>,
     dr_authenticated_bytes = encode_authenticated_request ex_id ex_create\<rparr>"
proof -
  have wf: "wf_RequestFrame \<lparr>rf_request_id = ex_id, rf_request = ex_create, rf_auth = ex_auth\<rparr>"
    using length_ex_auth by (simp add: wf_RequestFrame_def ex_id_def ex_create_def wf_id_defs wf_QueueLimits_def wf_Auth_def
        MAX_MESSAGE_BYTES_def MAX_AUTH_BYTES_def)
  then show ?thesis
    using length_encode_request_le [OF wf] by (simp add: decode_request_exact ex_frame_def)
qed

lemma ex_frame_verifies:
  "verify_request ex_ed (Principal (replicate 32 2)) (encode_authenticated_request ex_id ex_create) ex_auth = Inr ()"
  using length_ex_auth by (simp add: verify_request_def ex_auth_def ex_ed_def crypto_constants Let_def)

lemma ex_served:
  "\<exists>resp sv1. serve ex_ed ex_sha max_rowid_engine (RelayService_new fresh_connection) (NsQueue, ex_frame, Timestamp 1) = (Inr resp, sv1)
    \<and> cn_db (sv_relay sv1) \<noteq> cn_db fresh_connection"
proof -
  have actor: "request_principal ex_create = Principal (replicate 32 2)"
    by (simp add: ex_create_def)
  obtain resp c where step: "queue_request_exchange max_rowid_engine (Principal (replicate 32 2)) ex_id ex_frame ex_create
      (Timestamp 1) (encode_queue_outcome ex_id (Request_command ex_create)) (fresh_connection\<lparr>cn_calls := 1\<rparr>) = (Inr (Respond resp), c)"
      "cn_db c \<noteq> cn_db fresh_connection"
    by (simp add: queue_request_exchange_eq exchange_def ex_create_def durable_eval fresh_connection_def empty_db_def
      RelayQueueLimits_new_def create_queue_tx_def insert_queue_def queue_row_checks_def record_response_def
      insert_replay_def Namespace_insert_def Namespace_select_def ex_id_def)
  have look: "queue_replay max_rowid_engine (Principal (replicate 32 2)) ex_id fresh_connection
      = (Inr None, fresh_connection\<lparr>cn_calls := 1\<rparr>)"
    by (simp add: queue_replay_def lookup_def durable_eval fresh_connection_def empty_db_def Namespace_select_def)
  have "validate_queue_request ex_create = Inr ()"
    by (simp add: ex_create_def)
  with step look ex_frame_decodes ex_frame_verifies show ?thesis
    by (simp add: exchange_at_def Let_def actor RelayService_new_def RateLimiter_admit_def RateLimiter_new_def
        RATE_LIMIT_MAX_TRACKED_KEYS_def)
qed

theorem service_answer_stable_witness:
  "\<exists>resp sv1. serve ex_ed ex_sha max_rowid_engine (RelayService_new fresh_connection) (NsQueue, ex_frame, Timestamp 1) = (Inr resp, sv1)
    \<and> (let x = serve ex_ed ex_sha max_rowid_engine
            (snd (run_steps (serve ex_ed ex_sha max_rowid_engine) sv1 [(NsBlob, [1, 2], Timestamp 5)])) (NsQueue, ex_frame, Timestamp 7)
       in fst x = Inr resp \<or> (\<exists>e. fst x = Inl e))"
proof -
  obtain resp sv1 where 1: "serve ex_ed ex_sha max_rowid_engine (RelayService_new fresh_connection) (NsQueue, ex_frame, Timestamp 1)
      = (Inr resp, sv1)"
    using ex_served by blast
  obtain outs sv2 where 2: "run_steps (serve ex_ed ex_sha max_rowid_engine) sv1 [(NsBlob, [1, 2], Timestamp 5)] = (outs, sv2)"
    by fastforce
  obtain r sv3 where 3: "serve ex_ed ex_sha max_rowid_engine sv2 (NsQueue, ex_frame, Timestamp 7) = (r, sv3)"
    by fastforce
  show ?thesis
    using service_answer_stable [OF 1 2 3] 1 2 3 by (auto simp: Let_def simp del: serve.simps run_steps.simps)
qed

theorem service_effect_authenticated_witness:
  "\<exists>r sv1. serve ex_ed ex_sha max_rowid_engine (RelayService_new fresh_connection) (NsQueue, ex_frame, Timestamp 1) = (r, sv1)
    \<and> cn_db (sv_relay sv1) \<noteq> cn_db (sv_relay (RelayService_new fresh_connection)) \<and> authentic_frame ex_ed NsQueue ex_frame"
proof -
  obtain r sv1 where 1: "serve ex_ed ex_sha max_rowid_engine (RelayService_new fresh_connection) (NsQueue, ex_frame, Timestamp 1)
      = (r, sv1)" and 2: "cn_db (sv_relay sv1) \<noteq> cn_db (sv_relay (RelayService_new fresh_connection))"
    using ex_served by (auto simp: RelayService_new_def)
  show ?thesis
    using service_effect_authenticated [OF 1 2] 1 2 by blast
qed

end
