(* ===== verification/CW_Client.thy ===== *)
theory CW_Client
  imports CW_Codec CW_Crypto "HOL-Library.Sublist"
begin

text \<open>
  The client state machines of \<open>crates/cofferwire-client/src/lib.rs\<close>, sender and recipient, and the
  verification of receipts of \<open>receipt.rs\<close>. The transport, the source of request identifiers and the
  local stores are supplied by the application and are parameters.
\<close>

section \<open>The application's side\<close>

datatype TransportError = TransportError

datatype StoreError = StoreError

datatype CommitOutcome = CoApplied | CoAlreadyCommitted

type_synonym 't transport = "'t \<Rightarrow> bytes \<Rightarrow> (TransportError, bytes) result \<times> 't"

type_synonym 'i id_source = "'i \<Rightarrow> RequestId \<times> 'i"

type_synonym 's inbox = "'s \<Rightarrow> MessageId \<Rightarrow> bytes \<Rightarrow> (StoreError, CommitOutcome) result \<times> 's"

datatype ClientError =
    ClPrincipalKeyMismatch | ClTransport TransportError | ClDecode DecodeError | ClCrypto CryptoError
  | ClResponseRequestIdMismatch | ClResponseCommandMismatch | ClRelay Status | ClUnexpectedResponse
  | ClStore StoreError | ClInvalidPreparedSend

section \<open>Frames\<close>

text \<open>
  A signature always has 64 bytes, so the \<open>expect\<close> in \<open>sign_request\<close> does not panic; \<open>the\<close> takes the
  proof it returns.
\<close>

definition signed_frame :: "Ed25519 \<Rightarrow> RelaySigningKey \<Rightarrow> RequestId \<Rightarrow> Request \<Rightarrow> bytes" where
  "signed_frame ed key request_id request =
     (let authenticated = encode_authenticated_request request_id request;
          auth = the (sign_request ed key authenticated)
      in encode_request \<lparr>rf_request_id = request_id, rf_request = request, rf_auth = auth\<rparr>)"

definition checked_response :: "bytes \<Rightarrow> RequestId \<Rightarrow> Command \<Rightarrow> (ClientError, Response) result" where
  "checked_response bs request_id command =
     res_bind (map_err ClDecode (decode_response bs)) (\<lambda>frame.
     if rsf_request_id frame \<noteq> request_id then Inl ClResponseRequestIdMismatch
     else if Response_command (rsf_response frame) \<noteq> Some command then Inl ClResponseCommandMismatch
     else Inr (rsf_response frame))"

section \<open>The sender\<close>

record PreparedSend =
  ps_request_id :: RequestId
  ps_message_id :: MessageId
  ps_frame :: bytes

datatype SendCompletion = ScAccepted | ScDuplicate

record Sender =
  sd_queue_id :: QueueId
  sd_sender :: Principal
  sd_recipient :: Principal
  sd_signing_key :: RelaySigningKey
  sd_encryption_key :: EncryptionSecretKey
  sd_recipient_encryption_key :: EncryptionPublicKey

definition Sender_new ::
    "Ed25519 \<Rightarrow> QueueId \<Rightarrow> Principal \<Rightarrow> Principal \<Rightarrow> RelaySigningKey \<Rightarrow> EncryptionSecretKey \<Rightarrow> EncryptionPublicKey \<Rightarrow>
     (ClientError, Sender) result" where
  "Sender_new ed queue sender recipient signing_key encryption_key recipient_encryption_key =
     (if RelaySigningKey_principal ed signing_key \<noteq> sender then Inl ClPrincipalKeyMismatch
      else Inr \<lparr>sd_queue_id = queue, sd_sender = sender, sd_recipient = recipient, sd_signing_key = signing_key,
             sd_encryption_key = encryption_key, sd_recipient_encryption_key = recipient_encryption_key\<rparr>)"

definition Sender_prepare ::
    "Ed25519 \<Rightarrow> ('ctx, 'g) Hpke \<Rightarrow> Sender \<Rightarrow> RequestId \<Rightarrow> MessageId \<Rightarrow> bytes \<Rightarrow> Ttl \<Rightarrow> 'g \<Rightarrow>
     (ClientError, PreparedSend) result \<times> 'g" where
  "Sender_prepare ed hp sd request_id message plaintext ttl rng =
     (let context = \<lparr>mc_queue_id = sd_queue_id sd, mc_sender = sd_sender sd, mc_recipient = sd_recipient sd,
            mc_message_id = message\<rparr> in
      case seal_message hp (sd_encryption_key sd) (sd_recipient_encryption_key sd) context plaintext rng of
        (Inl e, rng) \<Rightarrow> (Inl (ClCrypto e), rng)
      | (Inr ciphertext, rng) \<Rightarrow>
          let request = ReqSend \<lparr>sr_queue_id = sd_queue_id sd, sr_sender = sd_sender sd, sr_message_id = message,
                sr_payload = ciphertext, sr_ttl = ttl\<rparr>
          in (Inr \<lparr>ps_request_id = request_id, ps_message_id = message,
                ps_frame = signed_frame ed (sd_signing_key sd) request_id request\<rparr>, rng))"

definition Sender_restore :: "Ed25519 \<Rightarrow> Sender \<Rightarrow> bytes \<Rightarrow> (ClientError, PreparedSend) result" where
  "Sender_restore ed sd bs =
     res_bind (map_err (\<lambda>_. ClInvalidPreparedSend) (decode_request bs)) (\<lambda>decoded.
     res_bind (map_err (\<lambda>_. ClInvalidPreparedSend)
         (verify_request ed (sd_sender sd) (dr_authenticated_bytes decoded) (rf_auth (dr_frame decoded)))) (\<lambda>_.
     case rf_request (dr_frame decoded) of
       ReqSend send \<Rightarrow>
         if sr_queue_id send = sd_queue_id sd \<and> sr_sender send = sd_sender sd
         then Inr \<lparr>ps_request_id = rf_request_id (dr_frame decoded), ps_message_id = sr_message_id send, ps_frame = bs\<rparr>
         else Inl ClInvalidPreparedSend
     | _ \<Rightarrow> Inl ClInvalidPreparedSend))"

definition Sender_send :: "'t transport \<Rightarrow> Sender \<Rightarrow> PreparedSend \<Rightarrow> 't \<Rightarrow> (ClientError, SendCompletion) result \<times> 't" where
  "Sender_send exchange sd prepared t =
     (case exchange t (ps_frame prepared) of
        (Inl e, t) \<Rightarrow> (Inl (ClTransport e), t)
      | (Inr response, t) \<Rightarrow>
          (res_bind (checked_response response (ps_request_id prepared) CmdSend) (\<lambda>response.
             case response of
               RespSuccess (RespSend Accepted) \<Rightarrow> Inr ScAccepted
             | RespSuccess (RespSend SendDuplicate) \<Rightarrow> Inr ScDuplicate
             | RespError error \<Rightarrow> Inl (ClRelay (er_status error))
             | RespSuccess _ \<Rightarrow> Inl ClUnexpectedResponse), t))"

section \<open>The recipient\<close>

datatype PollOutcome = PoEmpty | PoApplied MessageId | PoRedeliveryAcknowledged MessageId

record Recipient =
  rc_queue_id :: QueueId
  rc_sender :: Principal
  rc_recipient :: Principal
  rc_signing_key :: RelaySigningKey
  rc_encryption_key :: EncryptionSecretKey
  rc_sender_encryption_key :: EncryptionPublicKey

definition Recipient_new ::
    "Ed25519 \<Rightarrow> QueueId \<Rightarrow> Principal \<Rightarrow> Principal \<Rightarrow> RelaySigningKey \<Rightarrow> EncryptionSecretKey \<Rightarrow> EncryptionPublicKey \<Rightarrow>
     (ClientError, Recipient) result" where
  "Recipient_new ed queue sender recipient signing_key encryption_key sender_encryption_key =
     (if RelaySigningKey_principal ed signing_key \<noteq> recipient then Inl ClPrincipalKeyMismatch
      else Inr \<lparr>rc_queue_id = queue, rc_sender = sender, rc_recipient = recipient, rc_signing_key = signing_key,
             rc_encryption_key = encryption_key, rc_sender_encryption_key = sender_encryption_key\<rparr>)"

text \<open>The state is the transport's, the store's and the identifier source's.\<close>

definition Recipient_poll ::
    "Ed25519 \<Rightarrow> ('ctx, 'g) Hpke \<Rightarrow> 't transport \<Rightarrow> 's inbox \<Rightarrow> 'i id_source \<Rightarrow> Recipient \<Rightarrow> 't \<times> 's \<times> 'i \<Rightarrow>
     (ClientError, PollOutcome) result \<times> 't \<times> 's \<times> 'i" where
  "Recipient_poll ed hp exchange commit next_request_id rc w =
     (case w of (t, s, i) \<Rightarrow>
      let (fetch_id, i) = next_request_id i;
          fetch = ReqFetch \<lparr>fr_queue_id = rc_queue_id rc, fr_recipient = rc_recipient rc\<rparr>;
          fetch_bytes = signed_frame ed (rc_signing_key rc) fetch_id fetch in
      case exchange t fetch_bytes of
        (Inl e, t) \<Rightarrow> (Inl (ClTransport e), t, s, i)
      | (Inr response, t) \<Rightarrow>
      (case checked_response response fetch_id CmdFetch of
         Inl e \<Rightarrow> (Inl e, t, s, i)
       | Inr (RespSuccess (RespFetch None)) \<Rightarrow> (Inr PoEmpty, t, s, i)
       | Inr (RespError error) \<Rightarrow> (Inl (ClRelay (er_status error)), t, s, i)
       | Inr (RespSuccess (RespFetch (Some delivery))) \<Rightarrow>
           let message = dl_message_id delivery;
               context = \<lparr>mc_queue_id = rc_queue_id rc, mc_sender = rc_sender rc, mc_recipient = rc_recipient rc,
                 mc_message_id = message\<rparr> in
           (case open_message hp (rc_encryption_key rc) (rc_sender_encryption_key rc) context (dl_payload delivery) of
              Inl e \<Rightarrow> (Inl (ClCrypto e), t, s, i)
            | Inr plaintext \<Rightarrow>
           (case commit s message plaintext of
              (Inl e, s) \<Rightarrow> (Inl (ClStore e), t, s, i)
            | (Inr outcome, s) \<Rightarrow>
                let (ack_id, i) = next_request_id i;
                    ack = ReqAck \<lparr>ar_queue_id = rc_queue_id rc, ar_recipient = rc_recipient rc, ar_message_id = message\<rparr>;
                    ack_bytes = signed_frame ed (rc_signing_key rc) ack_id ack in
                (case exchange t ack_bytes of
                   (Inl e, t) \<Rightarrow> (Inl (ClTransport e), t, s, i)
                 | (Inr response, t) \<Rightarrow>
                     (case checked_response response ack_id CmdAck of
                        Inl e \<Rightarrow> (Inl e, t, s, i)
                      | Inr (RespSuccess RespAck) \<Rightarrow>
                          (Inr (case outcome of CoApplied \<Rightarrow> PoApplied message
                                 | CoAlreadyCommitted \<Rightarrow> PoRedeliveryAcknowledged message), t, s, i)
                      | Inr (RespError error) \<Rightarrow> (Inl (ClRelay (er_status error)), t, s, i)
                      | Inr (RespSuccess _) \<Rightarrow> (Inl ClUnexpectedResponse, t, s, i)))))
       | Inr (RespSuccess _) \<Rightarrow> (Inl ClUnexpectedResponse, t, s, i)))"

section \<open>Receipts\<close>

datatype ReceiptOutcome = RoRecorded | RoAlreadyRecorded

datatype ReceiptVerificationError = RvCrypto ReceiptError | RvObjectMismatch | RvContentMismatch | RvStore StoreError

definition verify_and_record_applied_receipt ::
    "(bytes \<Rightarrow> bytes) \<Rightarrow> Ed25519 \<Rightarrow> ('s \<Rightarrow> ConfirmedObject \<Rightarrow> (StoreError, ReceiptOutcome) result \<times> 's) \<Rightarrow> 's \<Rightarrow> Principal \<Rightarrow>
     ConfirmedObject \<Rightarrow> bytes option \<Rightarrow> bytes \<Rightarrow> (ReceiptVerificationError, AppliedReceipt \<times> ReceiptOutcome) result \<times> 's" where
  "verify_and_record_applied_receipt sha256 ed record_receipt store expected_signer expected expected_content plaintext =
     (case verify_applied_receipt ed expected_signer plaintext of
        Inl e \<Rightarrow> (Inl (RvCrypto e), store)
      | Inr receipt \<Rightarrow>
          if ap_confirmed receipt \<noteq> expected then (Inl RvObjectMismatch, store)
          else if (case expected_content of Some content \<Rightarrow> ap_applied_content_digest receipt \<noteq> content_digest sha256 content
                   | None \<Rightarrow> False)
          then (Inl RvContentMismatch, store)
          else case record_receipt store expected of
            (Inl e, store) \<Rightarrow> (Inl (RvStore e), store)
          | (Inr outcome, store) \<Rightarrow> (Inr (receipt, outcome), store))"

section \<open>Signed frames\<close>

lemma length_sign_request:
  "ed25519_laws ed \<Longrightarrow> \<exists>auth. sign_request ed key m = Some auth \<and> length (Auth_bytes auth) = 68
     \<and> verify_request ed (RelaySigningKey_principal ed key) m auth = Inr ()"
  by (simp add: sign_request_def verify_request_def RelaySigningKey_principal_def ed25519_laws_def Let_def Auth_new_def
      AUTH_HEADER_BYTES_def SIGNATURE_BYTES_def MAX_AUTH_BYTES_def)

text \<open>A signed frame of a well-formed request decodes to that request, with a proof that verifies.\<close>

lemma signed_frame_decodes:
  assumes "ed25519_laws ed" and "wf_RequestId rid" and "wf_Request request"
  shows "\<exists>auth. decode_request (signed_frame ed key rid request)
      = Inr \<lparr>dr_frame = \<lparr>rf_request_id = rid, rf_request = request, rf_auth = auth\<rparr>,
          dr_authenticated_bytes = encode_authenticated_request rid request\<rparr>
    \<and> verify_request ed (RelaySigningKey_principal ed key) (encode_authenticated_request rid request) auth = Inr ()"
proof -
  obtain auth where auth: "sign_request ed key (encode_authenticated_request rid request) = Some auth"
      "length (Auth_bytes auth) = 68"
      "verify_request ed (RelaySigningKey_principal ed key) (encode_authenticated_request rid request) auth = Inr ()"
    using length_sign_request [OF assms(1)] by blast
  have wf: "wf_RequestFrame \<lparr>rf_request_id = rid, rf_request = request, rf_auth = auth\<rparr>"
    using assms(2,3) auth(2) by (simp add: wf_RequestFrame_def wf_Auth_def MAX_AUTH_BYTES_def)
  with auth show ?thesis
    using length_encode_request_le [OF wf] by (auto simp: decode_request_exact signed_frame_def)
qed

lemma seal_message_wf:
  "seal_message hp skS pk context plaintext rng = (Inr payload, rng') \<Longrightarrow> wf_Payload payload"
  by (auto simp: seal_message_def Let_def res_simps Payload_new_Inr split: if_splits sum.splits prod.splits option.splits)

section \<open>Properties\<close>

text \<open>
  A prepared message survives a restart. The bytes the sender prepares and persists restore to exactly
  the prepared state, so that a retry sends the same request identifier, message identifier and frame.
\<close>

theorem prepared_send_restores:
  assumes "ed25519_laws ed" and "Sender_new ed queue sender recipient key ek pk = Inr sd"
    and "wf_QueueId queue" and "wf_Principal sender" and "wf_MessageId m" and "wf_RequestId rid"
    and "Sender_prepare ed hp sd rid m plaintext ttl rng = (Inr prepared, rng')"
  shows "Sender_restore ed sd (ps_frame prepared) = Inr prepared"
proof -
  have sd: "sender = RelaySigningKey_principal ed key" "sd_sender sd = sender" "sd_queue_id sd = queue" "sd_signing_key sd = key"
    using assms(2) by (auto simp: Sender_new_def split: if_splits)
  obtain payload where payload: "wf_Payload payload" "prepared = \<lparr>ps_request_id = rid, ps_message_id = m,
      ps_frame = signed_frame ed key rid (ReqSend \<lparr>sr_queue_id = queue, sr_sender = sender, sr_message_id = m,
        sr_payload = payload, sr_ttl = ttl\<rparr>)\<rparr>"
    using assms(7) by (auto simp: Sender_prepare_def Let_def sd dest: seal_message_wf split: prod.splits sum.splits)
  show ?thesis
    using signed_frame_decodes [OF assms(1,6), of "ReqSend \<lparr>sr_queue_id = queue, sr_sender = sender, sr_message_id = m,
        sr_payload = payload, sr_ttl = ttl\<rparr>" key] payload assms(3-5)
    by (auto simp: Sender_restore_def sd)
qed

text \<open>The frames of a poll, the context it opens messages in, and a transport that logs what is sent.\<close>

definition fetch_frame :: "Ed25519 \<Rightarrow> Recipient \<Rightarrow> RequestId \<Rightarrow> bytes" where
  "fetch_frame ed rc rid =
     signed_frame ed (rc_signing_key rc) rid (ReqFetch \<lparr>fr_queue_id = rc_queue_id rc, fr_recipient = rc_recipient rc\<rparr>)"

definition ack_frame :: "Ed25519 \<Rightarrow> Recipient \<Rightarrow> RequestId \<Rightarrow> MessageId \<Rightarrow> bytes" where
  "ack_frame ed rc rid m =
     signed_frame ed (rc_signing_key rc) rid (ReqAck \<lparr>ar_queue_id = rc_queue_id rc, ar_recipient = rc_recipient rc, ar_message_id = m\<rparr>)"

definition rc_context :: "Recipient \<Rightarrow> MessageId \<Rightarrow> MessageContext" where
  "rc_context rc m = \<lparr>mc_queue_id = rc_queue_id rc, mc_sender = rc_sender rc, mc_recipient = rc_recipient rc, mc_message_id = m\<rparr>"

definition rc_opens :: "('ctx, 'g) Hpke \<Rightarrow> Recipient \<Rightarrow> MessageId \<Rightarrow> bytes \<Rightarrow> bool" where
  "rc_opens hp rc m plaintext \<longleftrightarrow>
     (\<exists>payload. open_message hp (rc_encryption_key rc) (rc_sender_encryption_key rc) (rc_context rc m) payload = Inr plaintext)"

definition logged :: "'t transport \<Rightarrow> ('t \<times> bytes list) transport" where
  "logged exchange state frame = (case exchange (fst state) frame of (r, t) \<Rightarrow> (r, t, snd state @ [frame]))"

lemma poll_cases:
  assumes "Recipient_poll ed hp exchange commit next_id rc (t, s, i) = (r, t', s', i')"
  obtains (early) "s' = s" "t' = snd (exchange t (fetch_frame ed rc (fst (next_id i))))" "r = Inr PoEmpty \<or> (\<exists>e. r = Inl e)"
    | (failed) m plaintext e where "rc_opens hp rc m plaintext" "commit s m plaintext = (Inl e, s')"
      "t' = snd (exchange t (fetch_frame ed rc (fst (next_id i))))" "r = Inl (ClStore e)"
    | (acked) m plaintext outcome where "rc_opens hp rc m plaintext" "commit s m plaintext = (Inr outcome, s')"
      "t' = snd (exchange (snd (exchange t (fetch_frame ed rc (fst (next_id i)))))
         (ack_frame ed rc (fst (next_id (snd (next_id i)))) m))"
      "r = Inr (PoApplied m) \<and> outcome = CoApplied
       \<or> r = Inr (PoRedeliveryAcknowledged m) \<and> outcome = CoAlreadyCommitted \<or> (\<exists>e. r = Inl e)"
proof -
  obtain r1 t1 where 1: "exchange t (fetch_frame ed rc (fst (next_id i))) = (r1, t1)" by fastforce
  obtain fid i1 where i1: "next_id i = (fid, i1)" by fastforce
  note poll = assms [unfolded Recipient_poll_def, simplified i1 Let_def prod.case, folded fetch_frame_def,
      unfolded 1 [unfolded i1 fst_conv] prod.case]
  show thesis
  proof (cases "\<exists>resp delivery plaintext. r1 = Inr resp \<and> checked_response resp fid CmdFetch = Inr (RespSuccess (RespFetch (Some delivery)))
      \<and> open_message hp (rc_encryption_key rc) (rc_sender_encryption_key rc) (rc_context rc (dl_message_id delivery)) (dl_payload delivery)
          = Inr plaintext")
    case False
    then show thesis
      using poll early 1
      by (auto simp: rc_context_def i1 split: sum.splits Response.splits ResponseBody.splits option.splits)
  next
    case True
    then obtain resp delivery plaintext where d: "r1 = Inr resp"
        "checked_response resp fid CmdFetch = Inr (RespSuccess (RespFetch (Some delivery)))"
        "open_message hp (rc_encryption_key rc) (rc_sender_encryption_key rc) (rc_context rc (dl_message_id delivery))
           (dl_payload delivery) = Inr plaintext" by blast
    have opens: "rc_opens hp rc (dl_message_id delivery) plaintext"
      using d(3) by (auto simp: rc_opens_def)
    obtain r2 s2 where 2: "commit s (dl_message_id delivery) plaintext = (r2, s2)" by fastforce
    obtain aid i2 where i2: "next_id i1 = (aid, i2)" by fastforce
    obtain r3 t3 where 3: "exchange t1 (ack_frame ed rc aid (dl_message_id delivery)) = (r3, t3)" by fastforce
    show thesis
    proof (cases r2)
      case (Inl e)
      then show thesis
        using poll failed [OF opens] 2 1 d by (auto simp: rc_context_def i1)
    next
      case (Inr outcome)
      have "s' = s2 \<and> t' = t3 \<and> (r = Inr (PoApplied (dl_message_id delivery)) \<and> outcome = CoApplied
          \<or> r = Inr (PoRedeliveryAcknowledged (dl_message_id delivery)) \<and> outcome = CoAlreadyCommitted \<or> (\<exists>e. r = Inl e))"
        using poll 2 3 d Inr
        by (auto simp: rc_context_def i2 ack_frame_def split: sum.splits Response.splits ResponseBody.splits CommitOutcome.splits)
      then show thesis
        using acked [OF opens, of outcome] 1 2 3 Inr by (auto simp: i1 i2)
    qed
  qed
qed

text \<open>
  C35: a message is acknowledged only after it was committed. Whatever the transport answers, a poll sends
  the fetch request first, and an acknowledgement only for a message whose payload opened under the
  sender's key in the context of this queue and whose plaintext the store has just accepted, as applied
  now or earlier; it reports the message as applied exactly in the first case. In every other case the
  fetch request is all that was sent, and nothing was reported as applied or acknowledged.
\<close>

theorem poll_acks_only_committed:
  assumes "Recipient_poll ed hp (logged exchange) commit next_id rc ((t, []), s, i) = (r, (t', frames), s', i')"
  shows "(\<exists>m plaintext outcome rid. rc_opens hp rc m plaintext \<and> commit s m plaintext = (Inr outcome, s')
      \<and> frames = [fetch_frame ed rc (fst (next_id i)), ack_frame ed rc rid m]
      \<and> (r = Inr (PoApplied m) \<and> outcome = CoApplied
         \<or> r = Inr (PoRedeliveryAcknowledged m) \<and> outcome = CoAlreadyCommitted \<or> (\<exists>e. r = Inl e)))
    \<or> frames = [fetch_frame ed rc (fst (next_id i))] \<and> (r = Inr PoEmpty \<or> (\<exists>e. r = Inl e))
      \<and> (s' = s \<or> (\<exists>m plaintext e. rc_opens hp rc m plaintext \<and> commit s m plaintext = (Inl e, s')))"
proof -
  have log: "snd (snd (logged exchange state frame)) = snd state @ [frame]" for state frame
    by (simp add: logged_def split: prod.split)
  from assms show ?thesis
  proof (cases rule: poll_cases)
    case early
    then show ?thesis
      by (metis append_Nil log snd_conv)
  next
    case (failed m plaintext e)
    then have "frames = [fetch_frame ed rc (fst (next_id i))]"
      by (metis append_Nil log snd_conv)
    with failed show ?thesis by blast
  next
    case (acked m plaintext outcome)
    then have "frames = [fetch_frame ed rc (fst (next_id i)), ack_frame ed rc (fst (next_id (snd (next_id i)))) m]"
      by (metis append_Cons append_Nil log snd_conv)
    with acked show ?thesis by blast
  qed
qed

text \<open>
  The documented contract of the inbox store, over the history of what the application has applied: a
  message is applied at most once, by the first successful commit of its identifier. A commit that
  reports an error has applied the message or has changed nothing.
\<close>

definition inbox_laws :: "'s inbox \<Rightarrow> ('s \<Rightarrow> (MessageId \<times> bytes) list) \<Rightarrow> bool" where
  "inbox_laws commit history \<longleftrightarrow> (\<forall>s m plaintext r s'. commit s m plaintext = (r, s') \<longrightarrow>
     (if r = Inr CoAlreadyCommitted then m \<in> fst ` set (history s) \<and> history s' = history s
      else if r = Inr CoApplied then m \<notin> fst ` set (history s) \<and> history s' = history s @ [(m, plaintext)]
      else history s' = history s \<or> m \<notin> fst ` set (history s) \<and> history s' = history s @ [(m, plaintext)]))"

inductive poll_reaches ::
    "Ed25519 \<Rightarrow> ('ctx, 'g) Hpke \<Rightarrow> 't transport \<Rightarrow> 's inbox \<Rightarrow> 'i id_source \<Rightarrow> Recipient \<Rightarrow> 't \<times> 's \<times> 'i \<Rightarrow> 't \<times> 's \<times> 'i \<Rightarrow> bool"
  for ed hp exchange commit next_id rc w where
  start: "poll_reaches ed hp exchange commit next_id rc w w"
| again: "poll_reaches ed hp exchange commit next_id rc w w' \<Longrightarrow> Recipient_poll ed hp exchange commit next_id rc w' = (r, w'')
    \<Longrightarrow> poll_reaches ed hp exchange commit next_id rc w w''"

lemma inbox_step:
  assumes "inbox_laws commit history" and "commit s m plaintext = (r, s')"
  shows "history s' = history s \<or> m \<notin> fst ` set (history s) \<and> history s' = history s @ [(m, plaintext)]"
  using assms(1) [unfolded inbox_laws_def, rule_format, OF assms(2)] by (auto split: if_splits)

lemma poll_history:
  assumes laws: "inbox_laws commit history" and poll: "Recipient_poll ed hp exchange commit next_id rc (t, s, i) = (r, t', s', i')"
  shows "history s' = history s
    \<or> (\<exists>m plaintext. rc_opens hp rc m plaintext \<and> m \<notin> fst ` set (history s) \<and> history s' = history s @ [(m, plaintext)])"
  using poll by (cases rule: poll_cases) (use inbox_step [OF laws] in blast)+

text \<open>
  A message is applied at most once. However often the recipient polls, and whatever the relay sends
  it, with redeliveries and lost responses, the application's history only grows, no message identifier
  occurs in it twice, and every plaintext it applies was opened under the configured sender's key in the
  context of the queue and of its message identifier.
\<close>

theorem poll_applies_once:
  assumes "inbox_laws commit history" and "distinct (map fst (history s))"
    and "poll_reaches ed hp exchange commit next_id rc (t, s, i) (t', s', i')"
  shows "distinct (map fst (history s')) \<and> prefix (history s) (history s')
    \<and> list_all (\<lambda>(m, plaintext). rc_opens hp rc m plaintext) (drop (length (history s)) (history s'))"
  using assms(3)
proof (induction "(t', s', i')" arbitrary: t' s' i' rule: poll_reaches.induct)
  case start
  then show ?case using assms(2) by simp
next
  case (again w' r)
  obtain t1 s1 i1 where w': "w' = (t1, s1, i1)" by (cases w')
  from again(2) [OF w'] have IH: "distinct (map fst (history s1))" "prefix (history s) (history s1)"
      "list_all (\<lambda>(m, plaintext). rc_opens hp rc m plaintext) (drop (length (history s)) (history s1))"
    by blast+
  have len: "length (history s) \<le> length (history s1)"
    using IH(2) by (rule prefix_length_le)
  from poll_history [OF assms(1), of ed hp exchange next_id rc t1 s1 i1 r t' s' i'] again(3) w'
  consider "history s' = history s1"
    | m plaintext where "rc_opens hp rc m plaintext" "m \<notin> fst ` set (history s1)" "history s' = history s1 @ [(m, plaintext)]"
    by auto
  then show ?case
  proof cases
    case 1
    with IH show ?thesis by simp
  next
    case 2
    then show ?thesis
      using IH len by (auto simp: image_iff)
  qed
qed

text \<open>A receipt is recorded only when it is authentic, confirms the expected object and matches the content.\<close>

lemma receipt_recorded:
  assumes "verify_and_record_applied_receipt sha256 ed record_receipt store signer expected content plaintext = (r, store')"
    and "store' \<noteq> store \<or> (\<exists>v. r = Inr v)"
  shows "\<exists>receipt. verify_applied_receipt ed signer plaintext = Inr receipt \<and> ap_confirmed receipt = expected
    \<and> (\<forall>c. content = Some c \<longrightarrow> ap_applied_content_digest receipt = content_digest sha256 c)
    \<and> store' = snd (record_receipt store expected)"
  using assms by (auto simp: verify_and_record_applied_receipt_def split: sum.splits prod.splits if_splits option.splits)

text \<open>A concrete session: a relay that delivers one message and confirms its acknowledgement.\<close>

lemma checked_response_encoded:
  assumes "wf_RequestId rid" and "wf_Response response" and "Response_command response = Some command"
  shows "checked_response (encode_response \<lparr>rsf_request_id = rid, rsf_response = response\<rparr>) rid command = Inr response"
proof -
  have wf: "wf_ResponseFrame \<lparr>rsf_request_id = rid, rsf_response = response\<rparr>"
    using assms by (simp add: wf_ResponseFrame_def)
  have "decode_response (encode_response \<lparr>rsf_request_id = rid, rsf_response = response\<rparr>)
      = Inr \<lparr>rsf_request_id = rid, rsf_response = response\<rparr>"
    using length_encode_response_le [OF wf] wf by (simp add: decode_response_exact)
  with assms(3) show ?thesis
    by (simp add: checked_response_def)
qed

definition ex_rc :: Recipient where
  "ex_rc = \<lparr>rc_queue_id = QueueId (replicate 32 1), rc_sender = Principal (replicate 32 2), rc_recipient = Principal (replicate 32 3),
     rc_signing_key = RelaySigningKey (replicate 32 3), rc_encryption_key = EncryptionSecretKey [2],
     rc_sender_encryption_key = EncryptionPublicKey [1]\<rparr>"

definition ex_delivery :: Delivery where
  "ex_delivery = \<lparr>dl_message_id = MessageId (replicate 32 4),
     dl_payload = Payload (PROFILE_ID @ KEM_ID @ KDF_ID @ AEAD_ID @ replicate 32 0 @ [7, 8] @ replicate 16 9), dl_expires_at = Timestamp 90\<rparr>"

definition ex_ids :: "nat id_source" where
  "ex_ids i = (RequestId (replicate 16 (of_nat i)), i + 1)"

definition ex_relay :: "nat transport" where
  "ex_relay n frame = (Inr (encode_response \<lparr>rsf_request_id = fst (ex_ids n),
     rsf_response = RespSuccess (if n = 0 then RespFetch (Some ex_delivery) else RespAck)\<rparr>), n + 1)"

definition ex_inbox :: "(MessageId \<times> bytes) list inbox" where
  "ex_inbox s m plaintext = (if m \<in> fst ` set s then (Inr CoAlreadyCommitted, s) else (Inr CoApplied, s @ [(m, plaintext)]))"

lemma ex_inbox_laws: "inbox_laws ex_inbox (\<lambda>s. s)"
  by (auto simp: inbox_laws_def ex_inbox_def split: if_splits)

lemma ex_delivery_opens:
  "open_message ex_hpke (EncryptionSecretKey [2]) (EncryptionPublicKey [1]) context (dl_payload ex_delivery) = Inr [7, 8]"
  by (simp add: open_message_def ex_hpke_def ex_delivery_def crypto_constants get_range_def EncryptionPublicKey_parse_def Let_def)

lemma ex_relay_answers:
  "checked_response (encode_response \<lparr>rsf_request_id = RequestId (replicate 16 (of_nat n)),
     rsf_response = RespSuccess (RespFetch (Some ex_delivery))\<rparr>) (RequestId (replicate 16 (of_nat n))) CmdFetch
     = Inr (RespSuccess (RespFetch (Some ex_delivery)))"
  "checked_response (encode_response \<lparr>rsf_request_id = RequestId (replicate 16 (of_nat n)), rsf_response = RespSuccess RespAck\<rparr>)
     (RequestId (replicate 16 (of_nat n))) CmdAck = Inr (RespSuccess RespAck)"
  by (rule checked_response_encoded; simp add: wf_RequestId_def ex_delivery_def wf_MessageId_def wf_Payload_def MAX_MESSAGE_BYTES_def)+

lemmas ex_poll_simps = Recipient_poll_def ex_relay_def ex_ids_def ex_relay_answers [where n = 0, simplified]
  ex_relay_answers [where n = 1, simplified] ex_delivery_opens ex_inbox_def ex_rc_def Let_def

theorem poll_acks_only_committed_witness:
  "\<exists>frames. Recipient_poll ex_ed ex_hpke (logged ex_relay) ex_inbox ex_ids ex_rc ((0, []), [], 0)
      = (Inr (PoApplied (MessageId (replicate 32 4))), (2, frames), [(MessageId (replicate 32 4), [7, 8])], 2)
    \<and> length frames = 2 \<and> rc_opens ex_hpke ex_rc (MessageId (replicate 32 4)) [7, 8]"
proof -
  have "\<exists>frames. Recipient_poll ex_ed ex_hpke (logged ex_relay) ex_inbox ex_ids ex_rc ((0, []), [], 0)
      = (Inr (PoApplied (MessageId (replicate 32 4))), (2, frames), [(MessageId (replicate 32 4), [7, 8])], 2)"
    by (simp add: ex_poll_simps logged_def) (simp add: ex_delivery_def)
  then obtain frames where frames: "Recipient_poll ex_ed ex_hpke (logged ex_relay) ex_inbox ex_ids ex_rc ((0, []), [], 0)
      = (Inr (PoApplied (MessageId (replicate 32 4))), (2, frames), [(MessageId (replicate 32 4), [7, 8])], 2)" ..
  from poll_acks_only_committed [OF this] have "length frames = 2 \<and> rc_opens ex_hpke ex_rc (MessageId (replicate 32 4)) [7, 8]"
    by (auto simp: ex_inbox_def)
  with frames show ?thesis by blast
qed

theorem poll_applies_once_witness:
  "\<exists>t s i. poll_reaches ex_ed ex_hpke ex_relay ex_inbox ex_ids ex_rc (0, [], 0) (t, s, i)
    \<and> s = [(MessageId (replicate 32 4), [7, 8])] \<and> distinct (map fst s)
    \<and> list_all (\<lambda>(m, plaintext). rc_opens ex_hpke ex_rc m plaintext) s"
proof -
  have "Recipient_poll ex_ed ex_hpke ex_relay ex_inbox ex_ids ex_rc (0, [], 0)
      = (Inr (PoApplied (MessageId (replicate 32 4))), 2, [(MessageId (replicate 32 4), [7, 8])], 2)"
    by (simp add: ex_poll_simps) (simp add: ex_delivery_def)
  from poll_reaches.again [OF poll_reaches.start this]
  have reach: "poll_reaches ex_ed ex_hpke ex_relay ex_inbox ex_ids ex_rc (0, [], 0) (2, [(MessageId (replicate 32 4), [7, 8])], 2)" .
  from poll_applies_once [OF ex_inbox_laws _ this] show ?thesis
    using reach by fastforce
qed

theorem prepared_send_restores_witness:
  "\<exists>sd prepared rng. Sender_new ex_ed (QueueId (replicate 32 1)) (Principal (replicate 32 2)) (Principal (replicate 32 3))
      (RelaySigningKey (replicate 32 2)) (EncryptionSecretKey [1]) (EncryptionPublicKey [2]) = Inr sd
    \<and> Sender_prepare ex_ed ex_hpke sd (RequestId (replicate 16 5)) (MessageId (replicate 32 4)) [7, 8] (Ttl 60) 0 = (Inr prepared, rng)
    \<and> Sender_restore ex_ed sd (ps_frame prepared) = Inr prepared"
proof -
  have "RelaySigningKey_principal ex_ed (RelaySigningKey (replicate 32 2)) = Principal (replicate 32 2)"
    by (simp add: RelaySigningKey_principal_def ex_ed_def)
  then obtain sd where sd: "Sender_new ex_ed (QueueId (replicate 32 1)) (Principal (replicate 32 2)) (Principal (replicate 32 3))
      (RelaySigningKey (replicate 32 2)) (EncryptionSecretKey [1]) (EncryptionPublicKey [2]) = Inr sd"
    by (simp add: Sender_new_def)
  then have pk: "sd_recipient_encryption_key sd = EncryptionPublicKey [2]"
    by (auto simp: Sender_new_def split: if_splits)
  obtain prepared rng where prep: "Sender_prepare ex_ed ex_hpke sd (RequestId (replicate 16 5)) (MessageId (replicate 32 4)) [7, 8] (Ttl 60) 0
      = (Inr prepared, rng)"
    by (simp add: Sender_prepare_def seal_message_def ex_hpke_def EncryptionPublicKey_parse_def pk MAX_PLAINTEXT_BYTES_def
        crypto_constants MAX_MESSAGE_BYTES_def Payload_new_def Let_def)
  show ?thesis
    using prepared_send_restores [OF ex_ed_laws sd _ _ _ _ prep] sd prep by (auto simp: wf_id_defs)
qed

end
