(* ===== verification/CW_Offline.thy ===== *)
theory CW_Offline
  imports CW_Client
begin

text \<open>
  Offline bundles, \<open>crates/cofferwire-client/src/offline.rs\<close>: the encoding of a bundle's fields, its
  strict decoder, sealing and opening of the envelope, and the recording of an import. The store that
  records imports is supplied by the application and is a parameter.
\<close>

section \<open>Types\<close>

definition MAX_RELAY_HINTS :: nat where "MAX_RELAY_HINTS = 8"

definition MAX_RELAY_HINT_BYTES :: nat where "MAX_RELAY_HINT_BYTES = 256"

definition BUNDLE_MAGIC :: bytes where "BUNDLE_MAGIC = ascii ''CWOB''"

definition BUNDLE_VERSION :: u8 where "BUNDLE_VERSION = 1"

definition ENVELOPE_HEADER_LEN :: nat where "ENVELOPE_HEADER_LEN = 4 + 1 + 32 + 32"

definition INVITATION_TYPE :: u8 where "INVITATION_TYPE = 1"

definition RECOVERY_TYPE :: u8 where "RECOVERY_TYPE = 2"

datatype Role = RoleSender | RoleRecipient

record OwnIdentitySeed =
  oi_signing_seed :: bytes
  oi_encryption_ikm :: bytes

text \<open>\<open>derive\<close> is the deterministic key derivation of the HPKE package.\<close>

definition OwnIdentitySeed_reconstruct :: "(bytes \<Rightarrow> bytes) \<Rightarrow> OwnIdentitySeed \<Rightarrow> RelaySigningKey \<times> EncryptionSecretKey" where
  "OwnIdentitySeed_reconstruct derive seed =
     (RelaySigningKey (oi_signing_seed seed), EncryptionSecretKey (derive (oi_encryption_ikm seed)))"

record BundleFields =
  bf_role :: Role
  bf_peer_principal :: Principal
  bf_peer_encryption_public_key :: EncryptionPublicKey
  bf_created_at_secs :: u64
  bf_own_identity :: "OwnIdentitySeed option"
  bf_relay_hints :: "bytes list"

datatype BundleError = BnRelayHints | BnMalformed | BnUnsupportedVersion | BnCrypto CryptoError

section \<open>Encoding\<close>

text \<open>The two \<open>expect\<close> calls follow the checks, so the conversions keep the lengths.\<close>

definition encode_hint :: "bytes \<Rightarrow> bytes" where
  "encode_hint hint = u16_to_be_bytes (of_nat (length hint)) @ hint"

definition encode_fields :: "BundleFields \<Rightarrow> (BundleError, bytes) result" where
  "encode_fields content =
     (if length (bf_relay_hints content) > MAX_RELAY_HINTS then Inl BnRelayHints
      else if \<exists>hint \<in> set (bf_relay_hints content). length hint > MAX_RELAY_HINT_BYTES then Inl BnRelayHints
      else Inr ([if bf_own_identity content \<noteq> None then RECOVERY_TYPE else INVITATION_TYPE]
        @ [case bf_role content of RoleSender \<Rightarrow> 0 | RoleRecipient \<Rightarrow> 1]
        @ Principal_bytes (bf_peer_principal content)
        @ EncryptionPublicKey_bytes (bf_peer_encryption_public_key content)
        @ u64_to_be_bytes (bf_created_at_secs content)
        @ (case bf_own_identity content of Some identity \<Rightarrow> oi_signing_seed identity @ oi_encryption_ikm identity | None \<Rightarrow> [])
        @ [of_nat (length (bf_relay_hints content))]
        @ concat (map encode_hint (bf_relay_hints content))))"

section \<open>Decoding\<close>

text \<open>The cursor is the rest of the input.\<close>

definition Cursor_bytes :: "nat \<Rightarrow> bytes \<Rightarrow> (BundleError, bytes \<times> bytes) result" where
  "Cursor_bytes n cursor = (if length cursor < n then Inl BnMalformed else Inr (take n cursor, drop n cursor))"

definition Cursor_byte :: "bytes \<Rightarrow> (BundleError, u8 \<times> bytes) result" where
  "Cursor_byte cursor = res_bind (Cursor_bytes 1 cursor) (\<lambda>(head, cursor). Inr (hd head, cursor))"

definition Cursor_finish :: "bytes \<Rightarrow> (BundleError, unit) result" where
  "Cursor_finish cursor = (if cursor = [] then Inr () else Inl BnMalformed)"

primrec decode_hints :: "nat \<Rightarrow> bytes \<Rightarrow> (BundleError, bytes list \<times> bytes) result" where
  "decode_hints 0 cursor = Inr ([], cursor)"
| "decode_hints (Suc n) cursor =
     res_bind (Cursor_bytes 2 cursor) (\<lambda>(len, cursor).
     if unat (u16_from_be_bytes len) > MAX_RELAY_HINT_BYTES then Inl BnMalformed
     else
     res_bind (Cursor_bytes (unat (u16_from_be_bytes len)) cursor) (\<lambda>(hint, cursor).
     res_bind (decode_hints n cursor) (\<lambda>(hints, cursor). Inr (hint # hints, cursor))))"

definition decode_role :: "u8 \<Rightarrow> (BundleError, Role) result" where
  "decode_role code = (if code = 0 then Inr RoleSender else if code = 1 then Inr RoleRecipient else Inl BnMalformed)"

definition decode_identity :: "u8 \<Rightarrow> bytes \<Rightarrow> (BundleError, OwnIdentitySeed option \<times> bytes) result" where
  "decode_identity bundle_type cursor =
     (if bundle_type = RECOVERY_TYPE
      then res_bind (Cursor_bytes 32 cursor) (\<lambda>(signing_seed, cursor).
           res_bind (Cursor_bytes 32 cursor) (\<lambda>(encryption_ikm, cursor).
           Inr (Some \<lparr>oi_signing_seed = signing_seed, oi_encryption_ikm = encryption_ikm\<rparr>, cursor)))
      else Inr (None, cursor))"

definition decode_fields :: "('ctx, 'g) Hpke \<Rightarrow> bytes \<Rightarrow> (BundleError, BundleFields) result" where
  "decode_fields hp plaintext =
     res_bind (Cursor_byte plaintext) (\<lambda>(bundle_type, cursor).
     if bundle_type \<noteq> INVITATION_TYPE \<and> bundle_type \<noteq> RECOVERY_TYPE then Inl BnMalformed
     else
     res_bind (Cursor_byte cursor) (\<lambda>(role_code, cursor).
     res_bind (decode_role role_code) (\<lambda>role.
     res_bind (Cursor_bytes 32 cursor) (\<lambda>(peer, cursor).
     res_bind (Cursor_bytes 32 cursor) (\<lambda>(public_key, cursor).
     res_bind (map_err (\<lambda>_. BnMalformed) (EncryptionPublicKey_from_bytes hp public_key)) (\<lambda>peer_key.
     res_bind (Cursor_bytes 8 cursor) (\<lambda>(created, cursor).
     res_bind (decode_identity bundle_type cursor) (\<lambda>(own_identity, cursor).
     res_bind (Cursor_byte cursor) (\<lambda>(hint_count, cursor).
     if unat hint_count > MAX_RELAY_HINTS then Inl BnMalformed
     else
     res_bind (decode_hints (unat hint_count) cursor) (\<lambda>(relay_hints, cursor).
     res_bind (Cursor_finish cursor) (\<lambda>_.
     Inr \<lparr>bf_role = role, bf_peer_principal = Principal peer, bf_peer_encryption_public_key = peer_key,
       bf_created_at_secs = u64_from_be_bytes created, bf_own_identity = own_identity, bf_relay_hints = relay_hints\<rparr>)))))))))))"

section \<open>Envelopes\<close>

definition seal_bundle ::
    "('ctx, 'g) Hpke \<Rightarrow> MessageContext \<Rightarrow> EncryptionSecretKey \<Rightarrow> EncryptionPublicKey \<Rightarrow> BundleFields \<Rightarrow> 'g \<Rightarrow>
     (BundleError, bytes) result \<times> 'g" where
  "seal_bundle hp context exporting_key importing_key content rng =
     (case encode_fields content of
        Inl e \<Rightarrow> (Inl e, rng)
      | Inr plaintext \<Rightarrow>
          (case seal_message hp exporting_key importing_key context plaintext rng of
             (Inl e, rng) \<Rightarrow> (Inl (BnCrypto e), rng)
           | (Inr sealed, rng) \<Rightarrow>
               (Inr (BUNDLE_MAGIC @ [BUNDLE_VERSION] @ QueueId_bytes (mc_queue_id context)
                  @ MessageId_bytes (mc_message_id context) @ Payload_bytes sealed), rng)))"

definition open_offline_bundle ::
    "('ctx, 'g) Hpke \<Rightarrow> EncryptionSecretKey \<Rightarrow> Principal \<Rightarrow> Principal \<Rightarrow> EncryptionPublicKey \<Rightarrow> bytes \<Rightarrow>
     (BundleError, QueueId \<times> MessageId \<times> BundleFields) result" where
  "open_offline_bundle hp importing_key importing_principal expected_exporter expected_exporter_key envelope =
     (if length envelope < ENVELOPE_HEADER_LEN \<or> take 4 envelope \<noteq> BUNDLE_MAGIC then Inl BnMalformed
      else if envelope ! 4 \<noteq> BUNDLE_VERSION then Inl BnUnsupportedVersion
      else
      res_bind (Cursor_bytes 32 (drop 5 envelope)) (\<lambda>(queue, cursor).
      res_bind (Cursor_bytes 32 cursor) (\<lambda>(bundle_id, cursor).
      res_bind (map_err (\<lambda>_. BnMalformed) (Payload_new cursor)) (\<lambda>sealed.
      let context = \<lparr>mc_queue_id = QueueId queue, mc_sender = expected_exporter, mc_recipient = importing_principal,
            mc_message_id = MessageId bundle_id\<rparr> in
      res_bind (map_err BnCrypto (open_message hp importing_key expected_exporter_key context sealed)) (\<lambda>plaintext.
      res_bind (decode_fields hp plaintext) (\<lambda>content.
      Inr (QueueId queue, MessageId bundle_id, content)))))))"

section \<open>Recording an import\<close>

datatype ImportOutcome = IoImported | IoAlreadyImported

datatype BundleStoreError = BstConflictingIdentity | BstFailure StoreError

datatype ImportError = ImBundle BundleError | ImConflictingIdentity | ImStore StoreError

definition open_and_record_bundle ::
    "('ctx, 'g) Hpke \<Rightarrow> ('s \<Rightarrow> QueueId \<Rightarrow> Role \<Rightarrow> Principal \<Rightarrow> MessageId \<Rightarrow> (BundleStoreError, ImportOutcome) result \<times> 's) \<Rightarrow> 's \<Rightarrow>
     EncryptionSecretKey \<Rightarrow> Principal \<Rightarrow> Principal \<Rightarrow> EncryptionPublicKey \<Rightarrow> bytes \<Rightarrow>
     (ImportError, QueueId \<times> BundleFields \<times> ImportOutcome) result \<times> 's" where
  "open_and_record_bundle hp record_import store importing_key importing_principal expected_exporter expected_exporter_key envelope =
     (case open_offline_bundle hp importing_key importing_principal expected_exporter expected_exporter_key envelope of
        Inl e \<Rightarrow> (Inl (ImBundle e), store)
      | Inr (queue, bundle_id, content) \<Rightarrow>
          (case record_import store queue (bf_role content) (bf_peer_principal content) bundle_id of
             (Inl BstConflictingIdentity, store) \<Rightarrow> (Inl ImConflictingIdentity, store)
           | (Inl (BstFailure e), store) \<Rightarrow> (Inl (ImStore e), store)
           | (Inr outcome, store) \<Rightarrow> (Inr (queue, content, outcome), store)))"

section \<open>The decoder is exact\<close>

definition wf_BundleFields :: "('ctx, 'g) Hpke \<Rightarrow> BundleFields \<Rightarrow> bool" where
  "wf_BundleFields hp f \<longleftrightarrow> wf_Principal (bf_peer_principal f)
     \<and> length (EncryptionPublicKey_bytes (bf_peer_encryption_public_key f)) = 32
     \<and> hp_public_ok hp (EncryptionPublicKey_bytes (bf_peer_encryption_public_key f))
     \<and> (case bf_own_identity f of None \<Rightarrow> True
          | Some i \<Rightarrow> length (oi_signing_seed i) = 32 \<and> length (oi_encryption_ikm i) = 32)"

lemma Cursor_bytes_Inr [res_simps]: "Cursor_bytes n c = Inr (x, c') \<longleftrightarrow> length x = n \<and> c = x @ c'"
  by (auto simp: Cursor_bytes_def)

lemma Cursor_byte_Inr [res_simps]: "Cursor_byte c = Inr (b, c') \<longleftrightarrow> c = b # c'"
  by (cases c) (auto simp: Cursor_byte_def Cursor_bytes_def)

lemma Cursor_finish_Inr [res_simps]: "Cursor_finish c = Inr u \<longleftrightarrow> c = []"
  by (simp add: Cursor_finish_def)

lemma decode_hints_Inr:
  "decode_hints n c = Inr (hints, c') \<longleftrightarrow>
     length hints = n \<and> (\<forall>h \<in> set hints. length h \<le> MAX_RELAY_HINT_BYTES) \<and> c = concat (map encode_hint hints) @ c'"
proof (induction n arbitrary: c hints)
  case 0
  then show ?case by auto
next
  case (Suc n)
  have "decode_hints (Suc n) c = Inr (hints, c') \<longleftrightarrow>
      (\<exists>h hs c1. hints = h # hs \<and> length h \<le> MAX_RELAY_HINT_BYTES \<and> c = encode_hint h @ c1 \<and> decode_hints n c1 = Inr (hs, c'))"
  proof
    assume "decode_hints (Suc n) c = Inr (hints, c')"
    then obtain len h hs c1 where d: "length len = 2" "length h = unat (u16_from_be_bytes len)" "length h \<le> MAX_RELAY_HINT_BYTES"
        "c = len @ h @ c1" "decode_hints n c1 = Inr (hs, c')" "hints = h # hs"
      by (auto simp: res_simps split: prod.splits if_splits)
    moreover have "encode_hint h = len @ h"
      by (simp add: encode_hint_def d(2) u16_to_from_be [OF d(1)])
    ultimately show "\<exists>h hs c1. hints = h # hs \<and> length h \<le> MAX_RELAY_HINT_BYTES \<and> c = encode_hint h @ c1 \<and> decode_hints n c1 = Inr (hs, c')"
      by auto
  next
    assume "\<exists>h hs c1. hints = h # hs \<and> length h \<le> MAX_RELAY_HINT_BYTES \<and> c = encode_hint h @ c1 \<and> decode_hints n c1 = Inr (hs, c')"
    then obtain h hs c1 where d: "hints = h # hs" "length h \<le> MAX_RELAY_HINT_BYTES" "c = encode_hint h @ c1"
        "decode_hints n c1 = Inr (hs, c')" by blast
    then have "unat (of_nat (length h) :: u16) = length h"
      by (simp add: MAX_RELAY_HINT_BYTES_def unat_of_nat)
    with d show "decode_hints (Suc n) c = Inr (hints, c')"
      by (simp add: encode_hint_def Cursor_bytes_def)
  qed
  then show ?case
    unfolding Suc.IH by (cases hints) auto
qed

definition role_code :: "Role \<Rightarrow> u8" where
  "role_code role = (case role of RoleSender \<Rightarrow> 0 | RoleRecipient \<Rightarrow> 1)"

definition identity_bytes :: "OwnIdentitySeed option \<Rightarrow> bytes" where
  "identity_bytes own = (case own of Some identity \<Rightarrow> oi_signing_seed identity @ oi_encryption_ikm identity | None \<Rightarrow> [])"

definition identity_type :: "OwnIdentitySeed option \<Rightarrow> u8" where
  "identity_type own = (if own \<noteq> None then RECOVERY_TYPE else INVITATION_TYPE)"

definition wf_identity :: "OwnIdentitySeed option \<Rightarrow> bool" where
  "wf_identity own \<longleftrightarrow> (case own of None \<Rightarrow> True | Some i \<Rightarrow> length (oi_signing_seed i) = 32 \<and> length (oi_encryption_ikm i) = 32)"

lemma decode_role_Inr: "decode_role code = Inr role \<longleftrightarrow> code = role_code role"
  by (cases role) (auto simp: decode_role_def role_code_def)

lemma decode_identity_Inr:
  "(ty = INVITATION_TYPE \<or> ty = RECOVERY_TYPE) \<and> decode_identity ty c = Inr (own, c') \<longleftrightarrow>
   ty = identity_type own \<and> wf_identity own \<and> c = identity_bytes own @ c'"
proof (cases own)
  case None
  then show ?thesis
    by (auto simp: decode_identity_def identity_type_def wf_identity_def identity_bytes_def res_simps INVITATION_TYPE_def RECOVERY_TYPE_def
        split: prod.splits if_splits)
next
  case (Some i)
  then show ?thesis
    by (cases i) (auto simp: decode_identity_def identity_type_def wf_identity_def identity_bytes_def res_simps INVITATION_TYPE_def
        RECOVERY_TYPE_def split: prod.splits if_splits)
qed

lemma created_Inr: "length created = 8 \<and> v = u64_from_be_bytes created \<longleftrightarrow> created = u64_to_be_bytes v"
  by (auto simp: u64_to_from_be)

lemma count_byte: "n \<le> MAX_RELAY_HINTS \<Longrightarrow> unat (of_nat n :: u8) = n"
  by (simp add: MAX_RELAY_HINTS_def)

lemma decode_fields_chain:
  "decode_fields hp bs = Inr f \<longleftrightarrow>
     (\<exists>ty c1 code c2 role peer c3 pk c4 created c5 own c6 count c7 hints.
        Cursor_byte bs = Inr (ty, c1) \<and> Cursor_byte c1 = Inr (code, c2) \<and> decode_role code = Inr role
        \<and> Cursor_bytes 32 c2 = Inr (peer, c3) \<and> Cursor_bytes 32 c3 = Inr (pk, c4) \<and> hp_public_ok hp pk
        \<and> Cursor_bytes 8 c4 = Inr (created, c5)
        \<and> ((ty = INVITATION_TYPE \<or> ty = RECOVERY_TYPE) \<and> decode_identity ty c5 = Inr (own, c6))
        \<and> Cursor_byte c6 = Inr (count, c7) \<and> unat count \<le> MAX_RELAY_HINTS \<and> decode_hints (unat count) c7 = Inr (hints, [])
        \<and> f = \<lparr>bf_role = role, bf_peer_principal = Principal peer, bf_peer_encryption_public_key = EncryptionPublicKey pk,
             bf_created_at_secs = u64_from_be_bytes created, bf_own_identity = own, bf_relay_hints = hints\<rparr>)"
proof -
  have key: "map_err (\<lambda>_. BnMalformed) (EncryptionPublicKey_from_bytes hp pk) = Inr key \<longleftrightarrow> hp_public_ok hp pk \<and> key = EncryptionPublicKey pk"
    for pk key by (auto simp: EncryptionPublicKey_from_bytes_def)
  have ty: "\<not> (ty \<noteq> INVITATION_TYPE \<and> ty \<noteq> RECOVERY_TYPE) \<longleftrightarrow> ty = INVITATION_TYPE \<or> ty = RECOVERY_TYPE" for ty :: u8
    by blast
  show ?thesis
    unfolding decode_fields_def res_bind_eq_Inr split_paired_Ex prod.case guard_Inr key ty Cursor_finish_Inr not_less sum.inject
    by (rule iffI; elim exE conjE; hypsubst; intro exI conjI; (assumption | rule refl))
qed

lemma encode_fields_Inr:
  "encode_fields f = Inr bs \<longleftrightarrow>
     length (bf_relay_hints f) \<le> MAX_RELAY_HINTS \<and> (\<forall>h \<in> set (bf_relay_hints f). length h \<le> MAX_RELAY_HINT_BYTES)
     \<and> bs = identity_type (bf_own_identity f) # role_code (bf_role f) # Principal_bytes (bf_peer_principal f)
         @ EncryptionPublicKey_bytes (bf_peer_encryption_public_key f) @ u64_to_be_bytes (bf_created_at_secs f)
         @ identity_bytes (bf_own_identity f) @ of_nat (length (bf_relay_hints f)) # concat (map encode_hint (bf_relay_hints f))"
  by (auto simp: encode_fields_def identity_type_def role_code_def identity_bytes_def not_less split: if_splits dest: bspec leD)

lemma decode_fields_exact: "decode_fields hp bs = Inr f \<longleftrightarrow> wf_BundleFields hp f \<and> encode_fields f = Inr bs"
proof
  assume "decode_fields hp bs = Inr f"
  then show "wf_BundleFields hp f \<and> encode_fields f = Inr bs"
    unfolding decode_fields_chain decode_identity_Inr decode_role_Inr Cursor_bytes_Inr Cursor_byte_Inr decode_hints_Inr
    by (elim exE conjE) (simp add: wf_BundleFields_def wf_identity_def wf_Principal_def encode_fields_Inr u64_to_from_be)
next
  assume r: "wf_BundleFields hp f \<and> encode_fields f = Inr bs"
  obtain role peer pk at own hints where f: "f = \<lparr>bf_role = role, bf_peer_principal = Principal peer,
      bf_peer_encryption_public_key = EncryptionPublicKey pk, bf_created_at_secs = at, bf_own_identity = own, bf_relay_hints = hints\<rparr>"
    by (metis BundleFields.surjective Principal.exhaust EncryptionPublicKey.exhaust unit.exhaust)
  have bytes: "Cursor_bytes n (x @ c) = Inr (x, c)" if "length x = n" for n x c
    using that by (simp add: Cursor_bytes_Inr)
  have byte: "Cursor_byte (b # c) = Inr (b, c)" for b c
    by (simp add: Cursor_byte_Inr)
  have role: "decode_role (role_code role) = Inr role"
    by (simp add: decode_role_Inr)
  have own: "identity_type own = INVITATION_TYPE \<or> identity_type own = RECOVERY_TYPE"
      "decode_identity (identity_type own) (identity_bytes own @ c) = Inr (own, c)" for c
    using r decode_identity_Inr [of "identity_type own" "identity_bytes own @ c" own c]
    by (auto simp: f wf_BundleFields_def wf_identity_def)
  have hints: "decode_hints (length hints) (concat (map encode_hint hints)) = Inr (hints, [])"
    using r by (simp add: f decode_hints_Inr encode_fields_Inr)
  show "decode_fields hp bs = Inr f"
    using r count_byte [of "length hints"] own(1)
    by (auto simp: f decode_fields_def encode_fields_Inr byte bytes role own(2) hints wf_BundleFields_def wf_Principal_def
        EncryptionPublicKey_from_bytes_def Cursor_finish_def simp del: unat_of_nat_u8)
qed

text \<open>
  The bundle encoding is exact. A plaintext decodes to bundle fields exactly when it is the encoding of
  those fields and they are well formed; a bundle is never read in two ways, and no trailing or missing
  byte, unknown type or role, oversized hint or invalid key is accepted.
\<close>

theorem decode_fields_iff_encoded:
  "decode_fields hp bs = Inr f \<longleftrightarrow> wf_BundleFields hp f \<and> encode_fields f = Inr bs"
  by (rule decode_fields_exact)

text \<open>
  C37: an exported bundle imports. A bundle sealed for an importing device opens there, under the exporter's
  principal and key, to exactly the queue, the bundle identifier and the fields it was sealed with.
\<close>

theorem sealed_bundle_opens:
  assumes "hpke_laws hp" and "wf_MessageContext context" and "wf_BundleFields hp content"
    and "seal_bundle hp context skS (EncryptionSecretKey_public_key hp skR) content rng = (Inr envelope, rng')"
  shows "open_offline_bundle hp skR (mc_recipient context) (mc_sender context) (EncryptionSecretKey_public_key hp skS) envelope
    = Inr (mc_queue_id context, mc_message_id context, content)"
proof -
  obtain plaintext sealed where enc: "encode_fields content = Inr plaintext"
      and seal: "seal_message hp skS (EncryptionSecretKey_public_key hp skR) context plaintext rng = (Inr sealed, rng')"
      and env: "envelope = BUNDLE_MAGIC @ [BUNDLE_VERSION] @ QueueId_bytes (mc_queue_id context)
        @ MessageId_bytes (mc_message_id context) @ Payload_bytes sealed"
    using assms(4) by (auto simp: seal_bundle_def split: sum.splits prod.splits)
  have len: "length (QueueId_bytes (mc_queue_id context)) = 32" "length (MessageId_bytes (mc_message_id context)) = 32"
    using assms(2) by (simp_all add: wf_MessageContext_def wf_id_defs)
  have wf: "wf_Payload sealed"
    by (rule seal_message_wf [OF seal])
  have opens: "open_message hp skR (EncryptionSecretKey_public_key hp skS) context sealed = Inr plaintext"
    by (rule seal_message_opens [OF assms(1) seal])
  have inner: "decode_fields hp plaintext = Inr content"
    using assms(3) enc by (simp add: decode_fields_exact)
  have magic: "length BUNDLE_MAGIC = 4"
    by (simp add: BUNDLE_MAGIC_def)
  have same: "\<lparr>mc_queue_id = mc_queue_id context, mc_sender = mc_sender context, mc_recipient = mc_recipient context,
      mc_message_id = mc_message_id context\<rparr> = context"
    by simp
  show ?thesis
    using len wf opens inner
    by (simp add: same open_offline_bundle_def env magic nth_append ENVELOPE_HEADER_LEN_def Cursor_bytes_def Payload_new_def wf_Payload_def Let_def)
qed

definition ex_bundle :: BundleFields where
  "ex_bundle = \<lparr>bf_role = RoleRecipient, bf_peer_principal = Principal (replicate 32 2),
     bf_peer_encryption_public_key = EncryptionPublicKey (replicate 32 1), bf_created_at_secs = 100,
     bf_own_identity = Some \<lparr>oi_signing_seed = replicate 32 3, oi_encryption_ikm = replicate 32 4\<rparr>, bf_relay_hints = [[1, 2], []]\<rparr>"

theorem sealed_bundle_opens_witness:
  "\<exists>envelope rng. seal_bundle ex_hpke ex_context (EncryptionSecretKey [1]) (EncryptionPublicKey [2]) ex_bundle 0 = (Inr envelope, rng)
    \<and> open_offline_bundle ex_hpke (EncryptionSecretKey [2]) (mc_recipient ex_context) (mc_sender ex_context) (EncryptionPublicKey [1]) envelope
        = Inr (QueueId (replicate 32 1), MessageId (replicate 32 4), ex_bundle)"
proof -
  have keys: "EncryptionSecretKey_public_key ex_hpke (EncryptionSecretKey k) = EncryptionPublicKey k" for k
    by (simp add: EncryptionSecretKey_public_key_def ex_hpke_def)
  have wf: "wf_MessageContext ex_context" "wf_BundleFields ex_hpke ex_bundle"
    by (simp_all add: wf_MessageContext_def ex_context_def wf_id_defs wf_BundleFields_def ex_bundle_def ex_hpke_def)
  obtain envelope rng where seal: "seal_bundle ex_hpke ex_context (EncryptionSecretKey [1]) (EncryptionPublicKey [2]) ex_bundle 0
      = (Inr envelope, rng)"
    by (simp add: seal_bundle_def encode_fields_def ex_bundle_def MAX_RELAY_HINTS_def MAX_RELAY_HINT_BYTES_def encode_hint_def
        seal_message_def ex_hpke_def EncryptionPublicKey_parse_def MAX_PLAINTEXT_BYTES_def crypto_constants MAX_MESSAGE_BYTES_def
        Payload_new_def Let_def)
  from sealed_bundle_opens [OF ex_hpke_laws wf seal [folded keys]] seal show ?thesis
    by (auto simp: keys ex_context_def)
qed

text \<open>Nothing is recorded unless the bundle opened, and what is recorded is what it says.\<close>

lemma recorded_bundle_opened:
  assumes "open_and_record_bundle hp record_import store sk p x pk envelope = (r, store')" and "store' \<noteq> store \<or> (\<exists>v. r = Inr v)"
  shows "\<exists>queue bundle_id content. open_offline_bundle hp sk p x pk envelope = Inr (queue, bundle_id, content)
    \<and> store' = snd (record_import store queue (bf_role content) (bf_peer_principal content) bundle_id)"
  using assms by (auto simp: open_and_record_bundle_def split: sum.splits prod.splits BundleStoreError.splits)

end
