(* ===== verification/CW_Blob_Client.thy ===== *)
theory CW_Blob_Client
  imports CW_Blob_Codec CW_Blob_Crypto CW_Client
begin

text \<open>
  The blob client of \<open>crates/cofferwire-client/src/blob.rs\<close>: prepared objects, the resumable uploader with
  its persisted state, and the download. The transport, the identifier source, the store of upload states
  and the key generation are parameters.
\<close>

section \<open>Types\<close>

definition UPLOAD_STATE_MAGIC :: bytes where "UPLOAD_STATE_MAGIC = ascii ''CWBU''"

definition UPLOAD_STATE_VERSION :: u8 where "UPLOAD_STATE_VERSION = 1"

datatype BlobClientError =
    BceTransport | BceStore | BceCrypto | BceInvalidResponse | BceInvalidPersistedState | BceRelay BlobStatus

type_synonym 's upload_store = "'s \<Rightarrow> bytes \<Rightarrow> (StoreError, unit) result \<times> 's"

record BlobUploadIdentity =
  ui_upload_id :: UploadId
  ui_blob_id :: BlobId
  ui_capabilities :: BlobCapabilities

definition BlobUploadIdentity_to_bytes :: "BlobUploadIdentity \<Rightarrow> bytes" where
  "BlobUploadIdentity_to_bytes identity =
     UploadId_bytes (ui_upload_id identity) @ BlobId_bytes (ui_blob_id identity)
     @ CapabilityId_bytes (cap_upload (ui_capabilities identity)) @ CapabilityId_bytes (cap_download (ui_capabilities identity))
     @ CapabilityId_bytes (cap_renew (ui_capabilities identity)) @ CapabilityId_bytes (cap_delete (ui_capabilities identity))"

definition BlobUploadIdentity_from_bytes :: "bytes \<Rightarrow> BlobUploadIdentity" where
  "BlobUploadIdentity_from_bytes bs =
     (let field = (\<lambda>index. take 32 (drop (index * 32) bs)) in
      \<lparr>ui_upload_id = UploadId (field 0), ui_blob_id = BlobId (field 1),
       ui_capabilities = \<lparr>cap_upload = CapabilityId (field 2), cap_download = CapabilityId (field 3),
         cap_renew = CapabilityId (field 4), cap_delete = CapabilityId (field 5)\<rparr>\<rparr>)"

record PreparedBlob =
  pb_upload_id :: UploadId
  pb_encrypted :: EncryptedBlob
  pb_upload_key :: BlobSigningKey
  pb_download_key :: BlobSigningKey
  pb_renew_key :: BlobSigningKey
  pb_delete_key :: BlobSigningKey

text \<open>\<open>generate\<close> is the key generation of the Ed25519 package. No value when sealing panics.\<close>

definition PreparedBlob_new ::
    "'g Primitives \<Rightarrow> ('g \<Rightarrow> bytes \<times> 'g) \<Rightarrow> bytes \<Rightarrow> u32 \<Rightarrow> 'g \<Rightarrow> (BlobClientError, PreparedBlob) result option \<times> 'g" where
  "PreparedBlob_new pr generate plaintext chunk_size rng =
     (case seal_blob pr plaintext chunk_size rng of
        (None, rng) \<Rightarrow> (None, rng)
      | (Some (Inl _), rng) \<Rightarrow> (Some (Inl BceCrypto), rng)
      | (Some (Inr encrypted), rng) \<Rightarrow>
          let (upload_id, rng) = pr_fill pr 32 rng;
              (upload_key, rng) = generate rng;
              (download_key, rng) = generate rng;
              (renew_key, rng) = generate rng;
              (delete_key, rng) = generate rng
          in (Some (Inr \<lparr>pb_upload_id = UploadId upload_id, pb_encrypted = encrypted, pb_upload_key = BlobSigningKey upload_key,
                pb_download_key = BlobSigningKey download_key, pb_renew_key = BlobSigningKey renew_key,
                pb_delete_key = BlobSigningKey delete_key\<rparr>), rng))"

definition blob_capabilities :: "Ed25519 \<Rightarrow> PreparedBlob \<Rightarrow> BlobCapabilities" where
  "blob_capabilities ed blob =
     \<lparr>cap_upload = BlobSigningKey_capability ed (pb_upload_key blob), cap_download = BlobSigningKey_capability ed (pb_download_key blob),
      cap_renew = BlobSigningKey_capability ed (pb_renew_key blob), cap_delete = BlobSigningKey_capability ed (pb_delete_key blob)\<rparr>"

definition PreparedBlob_upload_identity :: "Ed25519 \<Rightarrow> PreparedBlob \<Rightarrow> BlobUploadIdentity" where
  "PreparedBlob_upload_identity ed blob =
     \<lparr>ui_upload_id = pb_upload_id blob, ui_blob_id = eb_blob_id (pb_encrypted blob), ui_capabilities = blob_capabilities ed blob\<rparr>"

datatype UploadStage = UsBegin | UsChunk nat | UsCommit | UsComplete

record Pending =
  pe_request_id :: RequestId
  pe_command :: BlobCommand
  pe_bytes :: bytes

datatype UploadProgress = UpBegun | UpChunkStored nat | UpCommitted u64 | UpComplete

record BlobUploader =
  bu_blob :: PreparedBlob
  bu_ttl :: u64
  bu_stage :: UploadStage
  bu_pending :: "Pending option"

definition PreparedBlob_uploader :: "PreparedBlob \<Rightarrow> u64 \<Rightarrow> BlobUploader" where
  "PreparedBlob_uploader blob ttl = \<lparr>bu_blob = blob, bu_ttl = ttl, bu_stage = UsBegin, bu_pending = None\<rparr>"

text \<open>A signature has 64 bytes, so the \<open>expect\<close> of the signer does not panic.\<close>

definition signed_blob :: "Ed25519 \<Rightarrow> BlobSigningKey \<Rightarrow> RequestId \<Rightarrow> BlobRequest \<Rightarrow> bytes" where
  "signed_blob ed key request_id request =
     (let authenticated = encode_blob_authenticated_request request_id request;
          auth = the (sign_blob_request ed key authenticated)
      in encode_blob_request \<lparr>brf_request_id = request_id, brf_request = request, brf_auth = auth\<rparr>)"

section \<open>The persisted state\<close>

text \<open>
  The \<open>expect\<close> calls around \<open>u32::try_from\<close> hold for the states of the program, whose manifests, chunks
  and frames are bounded by the profile.
\<close>

definition push_sized :: "bytes \<Rightarrow> bytes" where
  "push_sized value = u32_to_be_bytes (of_nat (length value)) @ value"

fun stage_code :: "UploadStage \<Rightarrow> u8 \<times> u32" where
  "stage_code UsBegin = (0, 0)"
| "stage_code (UsChunk index) = (1, of_nat index)"
| "stage_code UsCommit = (2, 0)"
| "stage_code UsComplete = (3, 0)"

definition encode_upload_state :: "BlobUploader \<Rightarrow> bytes" where
  "encode_upload_state u =
     (let blob = bu_blob u; (stage, index) = stage_code (bu_stage u) in
      UPLOAD_STATE_MAGIC @ [UPLOAD_STATE_VERSION] @ UploadId_bytes (pb_upload_id blob)
      @ ObjectKey_bytes (eb_key (pb_encrypted blob))
      @ BlobSigningKey_seed (pb_upload_key blob) @ BlobSigningKey_seed (pb_download_key blob)
      @ BlobSigningKey_seed (pb_renew_key blob) @ BlobSigningKey_seed (pb_delete_key blob)
      @ u64_to_be_bytes (bu_ttl u) @ [stage] @ u32_to_be_bytes index
      @ push_sized (bm_bytes (eb_manifest (pb_encrypted blob)))
      @ u32_to_be_bytes (of_nat (length (eb_chunks (pb_encrypted blob))))
      @ concat (map push_sized (eb_chunks (pb_encrypted blob)))
      @ push_sized (case bu_pending u of None \<Rightarrow> [] | Some pending \<Rightarrow> pe_bytes pending))"

definition StateCursor_take :: "nat \<Rightarrow> bytes \<Rightarrow> (BlobClientError, bytes \<times> bytes) result" where
  "StateCursor_take n cursor =
     (if length cursor < n then Inl BceInvalidPersistedState else Inr (take n cursor, drop n cursor))"

definition StateCursor_byte :: "bytes \<Rightarrow> (BlobClientError, u8 \<times> bytes) result" where
  "StateCursor_byte cursor = res_bind (StateCursor_take 1 cursor) (\<lambda>(head, cursor). Inr (hd head, cursor))"

definition StateCursor_sized :: "nat \<Rightarrow> bytes \<Rightarrow> (BlobClientError, bytes \<times> bytes) result" where
  "StateCursor_sized maximum cursor =
     res_bind (StateCursor_take 4 cursor) (\<lambda>(len, cursor).
     if unat (u32_from_be_bytes len) > maximum then Inl BceInvalidPersistedState
     else StateCursor_take (unat (u32_from_be_bytes len)) cursor)"

definition StateCursor_finish :: "bytes \<Rightarrow> (BlobClientError, unit) result" where
  "StateCursor_finish cursor = (if cursor = [] then Inr () else Inl BceInvalidPersistedState)"

text \<open>\<open>chunk_size + 16\<close> does not overflow: a chunk size is a \<open>u32\<close>.\<close>

primrec decode_chunks :: "nat \<Rightarrow> nat \<Rightarrow> bytes \<Rightarrow> (BlobClientError, bytes list \<times> bytes) result" where
  "decode_chunks maximum 0 cursor = Inr ([], cursor)"
| "decode_chunks maximum (Suc n) cursor =
     res_bind (StateCursor_sized maximum cursor) (\<lambda>(chunk, cursor).
     res_bind (decode_chunks maximum n cursor) (\<lambda>(chunks, cursor). Inr (chunk # chunks, cursor)))"

definition decode_stage :: "u8 \<Rightarrow> nat \<Rightarrow> nat \<Rightarrow> (BlobClientError, UploadStage) result" where
  "decode_stage tag index chunk_count =
     (if tag = 0 \<and> index = 0 then Inr UsBegin
      else if tag = 1 \<and> index < chunk_count then Inr (UsChunk index)
      else if tag = 2 \<and> index = 0 then Inr UsCommit
      else if tag = 3 \<and> index = 0 then Inr UsComplete
      else Inl BceInvalidPersistedState)"

fun pending_matches :: "Ed25519 \<Rightarrow> PreparedBlob \<Rightarrow> u64 \<Rightarrow> UploadStage \<Rightarrow> BlobRequest \<Rightarrow> bool" where
  "pending_matches ed blob ttl UsBegin (BrBeginUpload upload_id capabilities manifest request_ttl) \<longleftrightarrow>
     upload_id = pb_upload_id blob \<and> request_ttl = ttl \<and> manifest = eb_manifest (pb_encrypted blob)
     \<and> cap_upload capabilities = BlobSigningKey_capability ed (pb_upload_key blob)
     \<and> cap_download capabilities = BlobSigningKey_capability ed (pb_download_key blob)
     \<and> cap_renew capabilities = BlobSigningKey_capability ed (pb_renew_key blob)
     \<and> cap_delete capabilities = BlobSigningKey_capability ed (pb_delete_key blob)"
| "pending_matches ed blob ttl (UsChunk expected) (BrPutChunk upload_id upload_cap index ciphertext) \<longleftrightarrow>
     upload_id = pb_upload_id blob \<and> upload_cap = BlobSigningKey_capability ed (pb_upload_key blob)
     \<and> unat index = expected \<and> get_at (eb_chunks (pb_encrypted blob)) expected = Some ciphertext"
| "pending_matches ed blob ttl UsCommit (BrCommit upload_id upload_cap blob_id) \<longleftrightarrow>
     upload_id = pb_upload_id blob \<and> upload_cap = BlobSigningKey_capability ed (pb_upload_key blob)
     \<and> blob_id = eb_blob_id (pb_encrypted blob)"
| "pending_matches ed blob ttl _ _ \<longleftrightarrow> False"

definition validate_pending ::
    "Ed25519 \<Rightarrow> PreparedBlob \<Rightarrow> u64 \<Rightarrow> UploadStage \<Rightarrow> bytes \<Rightarrow> (BlobClientError, Pending) result" where
  "validate_pending ed blob ttl stage bs =
     res_bind (map_err (\<lambda>_. BceInvalidPersistedState) (decode_blob_request bs)) (\<lambda>decoded.
     let request = brf_request (dbr_frame decoded) in
     res_bind (map_err (\<lambda>_. BceInvalidPersistedState) (verify_blob_request ed (BlobRequest_capability request)
         (dbr_authenticated_bytes decoded) (brf_auth (dbr_frame decoded)))) (\<lambda>_.
     if \<not> pending_matches ed blob ttl stage request then Inl BceInvalidPersistedState
     else Inr \<lparr>pe_request_id = brf_request_id (dbr_frame decoded), pe_command = BlobRequest_command request, pe_bytes = bs\<rparr>))"

text \<open>\<open>the\<close> takes the result of \<open>open_blob\<close>, whose key derivation to 32 bytes does not panic.\<close>

definition decode_upload_state ::
    "Ed25519 \<Rightarrow> 'g Primitives \<Rightarrow> bytes \<Rightarrow> (BlobClientError, BlobUploader) result" where
  "decode_upload_state ed pr bs =
     res_bind (StateCursor_take 4 bs) (\<lambda>(magic, cursor).
     if magic \<noteq> UPLOAD_STATE_MAGIC then Inl BceInvalidPersistedState
     else
     res_bind (StateCursor_byte cursor) (\<lambda>(version, cursor).
     if version \<noteq> UPLOAD_STATE_VERSION then Inl BceInvalidPersistedState
     else
     res_bind (StateCursor_take 32 cursor) (\<lambda>(upload_id, cursor).
     res_bind (StateCursor_take 32 cursor) (\<lambda>(object_key, cursor).
     res_bind (StateCursor_take 32 cursor) (\<lambda>(upload_seed, cursor).
     res_bind (StateCursor_take 32 cursor) (\<lambda>(download_seed, cursor).
     res_bind (StateCursor_take 32 cursor) (\<lambda>(renew_seed, cursor).
     res_bind (StateCursor_take 32 cursor) (\<lambda>(delete_seed, cursor).
     res_bind (StateCursor_take 8 cursor) (\<lambda>(ttl_bytes, cursor).
     let ttl = u64_from_be_bytes ttl_bytes in
     if ttl = 0 then Inl BceInvalidPersistedState
     else
     res_bind (StateCursor_byte cursor) (\<lambda>(stage_tag, cursor).
     res_bind (StateCursor_take 4 cursor) (\<lambda>(index_bytes, cursor).
     let stage_index = unat (u32_from_be_bytes index_bytes) in
     res_bind (StateCursor_sized MAX_BLOB_FRAME_BYTES cursor) (\<lambda>(manifest_bytes, cursor).
     res_bind (map_err (\<lambda>_. BceInvalidPersistedState) (BlobManifest_parse manifest_bytes)) (\<lambda>manifest.
     res_bind (StateCursor_take 4 cursor) (\<lambda>(count_bytes, cursor).
     let chunk_count = unat (u32_from_be_bytes count_bytes) in
     if chunk_count \<noteq> BlobManifest_chunk_count manifest \<or> chunk_count > MAX_CHUNKS then Inl BceInvalidPersistedState
     else
     res_bind (decode_chunks (unat (bm_chunk_size manifest) + 16) chunk_count cursor) (\<lambda>(chunks, cursor).
     res_bind (StateCursor_sized MAX_BLOB_FRAME_BYTES cursor) (\<lambda>(pending_bytes, cursor).
     res_bind (StateCursor_finish cursor) (\<lambda>_.
     let encrypted = \<lparr>eb_key = ObjectKey object_key, eb_manifest = manifest, eb_blob_id = blob_identify pr manifest,
           eb_chunks = chunks\<rparr> in
     res_bind (map_err (\<lambda>_. BceInvalidPersistedState)
         (the (open_blob pr (eb_key encrypted) (eb_blob_id encrypted) (eb_manifest encrypted) (eb_chunks encrypted)))) (\<lambda>_.
     res_bind (decode_stage stage_tag stage_index (length (eb_chunks encrypted))) (\<lambda>stage.
     let blob = \<lparr>pb_upload_id = UploadId upload_id, pb_encrypted = encrypted, pb_upload_key = BlobSigningKey upload_seed,
           pb_download_key = BlobSigningKey download_seed, pb_renew_key = BlobSigningKey renew_seed,
           pb_delete_key = BlobSigningKey delete_seed\<rparr> in
     res_bind (if pending_bytes = [] then Inr None
         else map_ok Some (validate_pending ed blob ttl stage pending_bytes)) (\<lambda>pending.
     if stage = UsComplete \<and> pending \<noteq> None then Inl BceInvalidPersistedState
     else Inr \<lparr>bu_blob = blob, bu_ttl = ttl, bu_stage = stage, bu_pending = pending\<rparr>))))))))))))))))))))"

definition BlobUploader_restore ::
    "Ed25519 \<Rightarrow> 'g Primitives \<Rightarrow> bytes \<Rightarrow> BlobUploadIdentity \<Rightarrow> (BlobClientError, BlobUploader) result" where
  "BlobUploader_restore ed pr bs expected =
     res_bind (decode_upload_state ed pr bs) (\<lambda>uploader.
     if PreparedBlob_upload_identity ed (bu_blob uploader) \<noteq> expected then Inl BceInvalidPersistedState
     else Inr uploader)"

section \<open>Uploading\<close>

text \<open>
  The request of a stage. The complete stage returns before it is reached (\<open>unreachable\<close> in the source),
  and \<open>chunks[index]\<close> is in range for the stages of the program.
\<close>

definition stage_request :: "Ed25519 \<Rightarrow> BlobUploader \<Rightarrow> (BlobClientError, BlobRequest) result" where
  "stage_request ed u =
     (let blob = bu_blob u; upload_cap = BlobSigningKey_capability ed (pb_upload_key blob) in
      case bu_stage u of
        UsBegin \<Rightarrow> Inr (BrBeginUpload (pb_upload_id blob) (blob_capabilities ed blob) (eb_manifest (pb_encrypted blob)) (bu_ttl u))
      | UsChunk index \<Rightarrow>
          map_ok (\<lambda>i. BrPutChunk (pb_upload_id blob) upload_cap i (eb_chunks (pb_encrypted blob) ! index))
            (map_err (\<lambda>_. BceInvalidResponse) (usize_to_u32 index))
      | UsCommit \<Rightarrow> Inr (BrCommit (pb_upload_id blob) upload_cap (eb_blob_id (pb_encrypted blob)))
      | UsComplete \<Rightarrow> Inl BceInvalidResponse)"

definition checked_body :: "bytes \<Rightarrow> RequestId \<Rightarrow> BlobCommand \<Rightarrow> (BlobClientError, BlobResponseBody option) result" where
  "checked_body bs request_id command =
     res_bind (map_err (\<lambda>_. BceInvalidResponse) (decode_blob_response bs)) (\<lambda>response.
     if brsf_request_id response \<noteq> request_id \<or> br_command (brsf_response response) \<noteq> Some command
     then Inl BceInvalidResponse
     else if \<not> BlobStatus_is_ok (br_status (brsf_response response)) then Inl (BceRelay (br_status (brsf_response response)))
     else Inr (br_body (brsf_response response)))"

fun stage_after :: "BlobUploader \<Rightarrow> UploadStage \<Rightarrow> BlobResponseBody option \<Rightarrow> (BlobClientError, UploadStage \<times> UploadProgress) result" where
  "stage_after u UsBegin (Some (BrbBeginUpload _)) = Inr (UsChunk 0, UpBegun)"
| "stage_after u (UsChunk completed) (Some (BrbPutChunk _)) =
     Inr (if completed + 1 = length (eb_chunks (pb_encrypted (bu_blob u))) then UsCommit else UsChunk (completed + 1),
          UpChunkStored completed)"
| "stage_after u UsCommit (Some (BrbCommit expiry)) = Inr (UsComplete, UpCommitted expiry)"
| "stage_after u _ _ = Inl BceInvalidResponse"

text \<open>The first part of \<open>advance\<close>: the pending request is made when there is none.\<close>

definition with_pending :: "Ed25519 \<Rightarrow> 'i id_source \<Rightarrow> BlobUploader \<Rightarrow> 'i \<Rightarrow> (BlobClientError, BlobUploader) result \<times> 'i" where
  "with_pending ed next_request_id u i =
     (case bu_pending u of
        Some _ \<Rightarrow> (Inr u, i)
      | None \<Rightarrow>
          (case stage_request ed u of
             Inl e \<Rightarrow> (Inl e, i)
           | Inr request \<Rightarrow>
               let (request_id, i) = next_request_id i in
               (Inr (u\<lparr>bu_pending := Some \<lparr>pe_request_id = request_id, pe_command = BlobRequest_command request,
                  pe_bytes = signed_blob ed (pb_upload_key (bu_blob u)) request_id request\<rparr>\<rparr>), i)))"

definition BlobUploader_advance ::
    "Ed25519 \<Rightarrow> 't transport \<Rightarrow> 'i id_source \<Rightarrow> 's upload_store \<Rightarrow> BlobUploader \<Rightarrow> 't \<times> 'i \<times> 's \<Rightarrow>
     (BlobClientError, UploadProgress) result \<times> BlobUploader \<times> 't \<times> 'i \<times> 's" where
  "BlobUploader_advance ed exchange next_request_id commit u w =
     (case w of (t, i, s) \<Rightarrow>
      if bu_stage u = UsComplete then (Inr UpComplete, u, t, i, s)
      else case with_pending ed next_request_id u i of
        (Inl e, i) \<Rightarrow> (Inl e, u, t, i, s)
      | (Inr u, i) \<Rightarrow>
          (case commit s (encode_upload_state u) of
             (Inl _, s) \<Rightarrow> (Inl BceStore, u, t, i, s)
           | (Inr _, s) \<Rightarrow>
               (case bu_pending u of
                  None \<Rightarrow> (Inl BceInvalidResponse, u, t, i, s)
                | Some pending \<Rightarrow>
                    (case exchange t (pe_bytes pending) of
                       (Inl _, t) \<Rightarrow> (Inl BceTransport, u, t, i, s)
                     | (Inr response_bytes, t) \<Rightarrow>
                         (case res_bind (checked_body response_bytes (pe_request_id pending) (pe_command pending))
                              (stage_after u (bu_stage u)) of
                            Inl e \<Rightarrow> (Inl e, u, t, i, s)
                          | Inr (next_stage, progress) \<Rightarrow>
                              let u' = u\<lparr>bu_stage := next_stage, bu_pending := None\<rparr> in
                              (case commit s (encode_upload_state u') of
                                 (Inl _, s) \<Rightarrow> (Inl BceStore, u, t, i, s)
                               | (Inr _, s) \<Rightarrow> (Inr progress, u', t, i, s)))))))"

section \<open>Downloading\<close>

definition blob_client_exchange ::
    "Ed25519 \<Rightarrow> 't transport \<Rightarrow> 'i id_source \<Rightarrow> BlobSigningKey \<Rightarrow> BlobRequest \<Rightarrow> 't \<times> 'i \<Rightarrow>
     (BlobClientError, BlobResponseBody) result \<times> 't \<times> 'i" where
  "blob_client_exchange ed exchange next_request_id key request w =
     (case w of (t, i) \<Rightarrow>
      let (request_id, i) = next_request_id i;
          command = BlobRequest_command request;
          bs = signed_blob ed key request_id request in
      case exchange t bs of
        (Inl _, t) \<Rightarrow> (Inl BceTransport, t, i)
      | (Inr response_bytes, t) \<Rightarrow>
          (res_bind (checked_body response_bytes request_id command) (\<lambda>body. ok_or body BceInvalidResponse), t, i))"

primrec download_chunks ::
    "Ed25519 \<Rightarrow> 't transport \<Rightarrow> 'i id_source \<Rightarrow> PreparedBlob \<Rightarrow> nat list \<Rightarrow> 't \<times> 'i \<Rightarrow>
     (BlobClientError, bytes list) result \<times> 't \<times> 'i" where
  "download_chunks ed exchange next_request_id prepared [] w = (Inr [], w)"
| "download_chunks ed exchange next_request_id prepared (index # rest) w =
     (case map_err (\<lambda>_. BceInvalidResponse) (usize_to_u32 index) of
        Inl e \<Rightarrow> (Inl e, w)
      | Inr i \<Rightarrow>
          (case blob_client_exchange ed exchange next_request_id (pb_download_key prepared)
              (BrGetChunk (eb_blob_id (pb_encrypted prepared)) (BlobSigningKey_capability ed (pb_download_key prepared)) i) w of
             (Inl e, w) \<Rightarrow> (Inl e, w)
           | (Inr (BrbGetChunk chunk _), w) \<Rightarrow>
               (case download_chunks ed exchange next_request_id prepared rest w of
                  (r, w) \<Rightarrow> (map_ok (\<lambda>chunks. chunk # chunks) r, w))
           | (Inr _, w) \<Rightarrow> (Inl BceInvalidResponse, w)))"

definition download_blob ::
    "Ed25519 \<Rightarrow> 'g Primitives \<Rightarrow> 't transport \<Rightarrow> 'i id_source \<Rightarrow> PreparedBlob \<Rightarrow> 't \<times> 'i \<Rightarrow>
     (BlobClientError, bytes) result \<times> 't \<times> 'i" where
  "download_blob ed pr exchange next_request_id prepared w =
     (case blob_client_exchange ed exchange next_request_id (pb_download_key prepared)
         (BrGetManifest (eb_blob_id (pb_encrypted prepared)) (BlobSigningKey_capability ed (pb_download_key prepared))) w of
        (Inl e, w) \<Rightarrow> (Inl e, w)
      | (Inr (BrbGetManifest manifest _), w) \<Rightarrow>
          (case download_chunks ed exchange next_request_id prepared [0..<BlobManifest_chunk_count manifest] w of
             (Inl e, w) \<Rightarrow> (Inl e, w)
           | (Inr chunks, w) \<Rightarrow>
               (map_err (\<lambda>_. BceCrypto) (the (open_blob pr (eb_key (pb_encrypted prepared)) (eb_blob_id (pb_encrypted prepared))
                  manifest chunks)), w))
      | (Inr _, w) \<Rightarrow> (Inl BceInvalidResponse, w))"

section \<open>The persisted state is exact\<close>

lemma StateCursor_take_Inr [res_simps]: "StateCursor_take n c = Inr (x, c') \<longleftrightarrow> length x = n \<and> c = x @ c'"
  by (auto simp: StateCursor_take_def)

lemma StateCursor_byte_Inr [res_simps]: "StateCursor_byte c = Inr (b, c') \<longleftrightarrow> c = b # c'"
  by (cases c) (auto simp: StateCursor_byte_def StateCursor_take_def)

lemma StateCursor_finish_Inr [res_simps]: "StateCursor_finish c = Inr u \<longleftrightarrow> c = []"
  by (simp add: StateCursor_finish_def)

lemma StateCursor_sized_Inr:
  assumes "maximum < 2 ^ 32"
  shows "StateCursor_sized maximum c = Inr (x, c') \<longleftrightarrow> length x \<le> maximum \<and> c = push_sized x @ c'"
proof
  assume "StateCursor_sized maximum c = Inr (x, c')"
  then obtain len where d: "length len = 4" "length x = unat (u32_from_be_bytes len)" "length x \<le> maximum" "c = len @ x @ c'"
    by (auto simp: StateCursor_sized_def res_simps split: prod.splits if_splits)
  then have "push_sized x = len @ x"
    by (simp add: push_sized_def u32_to_from_be)
  with d show "length x \<le> maximum \<and> c = push_sized x @ c'" by simp
next
  assume r: "length x \<le> maximum \<and> c = push_sized x @ c'"
  then have "unat (of_nat (length x) :: u32) = length x"
    using assms by (simp add: unat_of_nat)
  with r show "StateCursor_sized maximum c = Inr (x, c')"
    by (simp add: StateCursor_sized_def StateCursor_take_def push_sized_def)
qed

lemma decode_chunks_Inr:
  assumes "maximum < 2 ^ 32"
  shows "decode_chunks maximum n c = Inr (chunks, c') \<longleftrightarrow>
    length chunks = n \<and> (\<forall>x \<in> set chunks. length x \<le> maximum) \<and> c = concat (map push_sized chunks) @ c'"
proof (induction n arbitrary: c chunks)
  case 0
  then show ?case by auto
next
  case (Suc n)
  have "decode_chunks maximum (Suc n) c = Inr (chunks, c') \<longleftrightarrow>
      (\<exists>x xs c1. chunks = x # xs \<and> length x \<le> maximum \<and> c = push_sized x @ c1 \<and> decode_chunks maximum n c1 = Inr (xs, c'))"
    by (auto simp: res_bind_eq_Inr StateCursor_sized_Inr [OF assms] split: prod.splits)
  then show ?case
    unfolding Suc.IH by (cases chunks) auto
qed

fun stage_index :: "UploadStage \<Rightarrow> nat" where
  "stage_index (UsChunk index) = index"
| "stage_index _ = 0"

fun stage_ok :: "nat \<Rightarrow> UploadStage \<Rightarrow> bool" where
  "stage_ok n (UsChunk index) \<longleftrightarrow> index < n"
| "stage_ok n _ \<longleftrightarrow> True"

lemma decode_stage_Inr:
  "decode_stage tag index n = Inr stage \<longleftrightarrow> stage_ok n stage \<and> tag = fst (stage_code stage) \<and> index = stage_index stage"
  by (cases stage) (auto simp: decode_stage_def)

lemma stage_code_index: "snd (stage_code stage) = of_nat (stage_index stage)"
  by (cases stage) simp_all

text \<open>
  Sound objects, and sound upload states. The lifetime is nonzero: \<open>PreparedBlob::uploader\<close> takes zero too, but such
  a state does not restore.
\<close>

definition wf_blob :: "'g Primitives \<Rightarrow> PreparedBlob \<Rightarrow> bool" where
  "wf_blob pr blob \<longleftrightarrow>
     wf_UploadId (pb_upload_id blob) \<and> length (ObjectKey_bytes (eb_key (pb_encrypted blob))) = 32
     \<and> length (BlobSigningKey_seed (pb_upload_key blob)) = 32 \<and> length (BlobSigningKey_seed (pb_download_key blob)) = 32
     \<and> length (BlobSigningKey_seed (pb_renew_key blob)) = 32 \<and> length (BlobSigningKey_seed (pb_delete_key blob)) = 32
     \<and> wf_BlobManifest (eb_manifest (pb_encrypted blob))
     \<and> eb_blob_id (pb_encrypted blob) = blob_identify pr (eb_manifest (pb_encrypted blob))
     \<and> length (eb_chunks (pb_encrypted blob)) = BlobManifest_chunk_count (eb_manifest (pb_encrypted blob))
     \<and> (\<forall>x \<in> set (eb_chunks (pb_encrypted blob)). length x \<le> unat (bm_chunk_size (eb_manifest (pb_encrypted blob))) + 16)
     \<and> (\<exists>plaintext. the (open_blob pr (eb_key (pb_encrypted blob)) (eb_blob_id (pb_encrypted blob)) (eb_manifest (pb_encrypted blob))
          (eb_chunks (pb_encrypted blob))) = Inr plaintext)"

definition wf_uploader :: "Ed25519 \<Rightarrow> 'g Primitives \<Rightarrow> BlobUploader \<Rightarrow> bool" where
  "wf_uploader ed pr u \<longleftrightarrow> wf_blob pr (bu_blob u) \<and> bu_ttl u \<noteq> 0
     \<and> stage_ok (length (eb_chunks (pb_encrypted (bu_blob u)))) (bu_stage u)
     \<and> (case bu_pending u of None \<Rightarrow> True
          | Some p \<Rightarrow> bu_stage u \<noteq> UsComplete \<and> validate_pending ed (bu_blob u) (bu_ttl u) (bu_stage u) (pe_bytes p) = Inr p)"

lemma wf_manifest_bounds:
  assumes "wf_BlobManifest m"
  shows "length (bm_bytes m) \<le> MAX_BLOB_FRAME_BYTES" and "BlobManifest_chunk_count m \<le> MAX_CHUNKS"
    and "unat (bm_chunk_size m) \<le> MAX_CHUNK_BYTES" and "0 < BlobManifest_chunk_count m"
proof -
  obtain count where lim: "limits_valid (bm_padded_size m) (bm_chunk_size m) count"
      and len: "length (bm_bytes m) = 40 + unat count * 32" and dg: "bm_digests m = chunks_exact 32 (drop 40 (bm_bytes m))"
    using assms [unfolded wf_BlobManifest_def BlobManifest_parse_Inr] by (metis BlobManifest.select_convs(5))
  have "BlobManifest_chunk_count m = unat count"
    using len by (simp add: BlobManifest_chunk_count_def dg length_chunks_exact)
  then show "length (bm_bytes m) \<le> MAX_BLOB_FRAME_BYTES" and "BlobManifest_chunk_count m \<le> MAX_CHUNKS"
    and "unat (bm_chunk_size m) \<le> MAX_CHUNK_BYTES" and "0 < BlobManifest_chunk_count m"
    using lim len by (simp_all add: limits_valid_def blob_bounds)
qed

lemma validate_pending_bytes:
  "validate_pending ed blob ttl stage bs = Inr p \<Longrightarrow> pe_bytes p = bs \<and> bs \<noteq> [] \<and> length bs \<le> MAX_BLOB_FRAME_BYTES"
  by (auto simp: validate_pending_def res_simps decode_blob_request_exact Let_def encode_blob_request_def
      encode_blob_authenticated_request_def split: if_splits)

text \<open>The items of an encoded state, in order.\<close>

lemma decode_upload_state_chain:
  assumes "decode_upload_state ed pr bs = Inr u"
  shows "\<exists>magic c1 version c2 uid c3 okey c4 us c5 ds c6 rs c7 xs c8 ttlb c9 tag c10 ib c11 mb c12 m cb c13 chunks c14 pb c15 pt stage pending.
    StateCursor_take 4 bs = Inr (magic, c1) \<and> magic = UPLOAD_STATE_MAGIC
    \<and> StateCursor_byte c1 = Inr (version, c2) \<and> version = UPLOAD_STATE_VERSION
    \<and> StateCursor_take 32 c2 = Inr (uid, c3) \<and> StateCursor_take 32 c3 = Inr (okey, c4)
    \<and> StateCursor_take 32 c4 = Inr (us, c5) \<and> StateCursor_take 32 c5 = Inr (ds, c6)
    \<and> StateCursor_take 32 c6 = Inr (rs, c7) \<and> StateCursor_take 32 c7 = Inr (xs, c8)
    \<and> StateCursor_take 8 c8 = Inr (ttlb, c9) \<and> u64_from_be_bytes ttlb \<noteq> 0
    \<and> StateCursor_byte c9 = Inr (tag, c10) \<and> StateCursor_take 4 c10 = Inr (ib, c11)
    \<and> StateCursor_sized MAX_BLOB_FRAME_BYTES c11 = Inr (mb, c12) \<and> BlobManifest_parse mb = Inr m
    \<and> StateCursor_take 4 c12 = Inr (cb, c13)
    \<and> \<not> (unat (u32_from_be_bytes cb) \<noteq> BlobManifest_chunk_count m \<or> unat (u32_from_be_bytes cb) > MAX_CHUNKS)
    \<and> decode_chunks (unat (bm_chunk_size m) + 16) (unat (u32_from_be_bytes cb)) c13 = Inr (chunks, c14)
    \<and> StateCursor_sized MAX_BLOB_FRAME_BYTES c14 = Inr (pb, c15) \<and> c15 = []
    \<and> the (open_blob pr (ObjectKey okey) (blob_identify pr m) m chunks) = Inr pt
    \<and> decode_stage tag (unat (u32_from_be_bytes ib)) (length chunks) = Inr stage
    \<and> (if pb = [] then Inr None
         else map_ok Some (validate_pending ed \<lparr>pb_upload_id = UploadId uid, pb_encrypted = \<lparr>eb_key = ObjectKey okey, eb_manifest = m,
             eb_blob_id = blob_identify pr m, eb_chunks = chunks\<rparr>, pb_upload_key = BlobSigningKey us,
           pb_download_key = BlobSigningKey ds, pb_renew_key = BlobSigningKey rs, pb_delete_key = BlobSigningKey xs\<rparr>
           (u64_from_be_bytes ttlb) stage pb)) = Inr pending
    \<and> \<not> (stage = UsComplete \<and> pending \<noteq> None)
    \<and> u = \<lparr>bu_blob = \<lparr>pb_upload_id = UploadId uid, pb_encrypted = \<lparr>eb_key = ObjectKey okey, eb_manifest = m,
             eb_blob_id = blob_identify pr m, eb_chunks = chunks\<rparr>, pb_upload_key = BlobSigningKey us,
           pb_download_key = BlobSigningKey ds, pb_renew_key = BlobSigningKey rs, pb_delete_key = BlobSigningKey xs\<rparr>,
         bu_ttl = u64_from_be_bytes ttlb, bu_stage = stage, bu_pending = pending\<rparr>"
  using assms
  unfolding decode_upload_state_def Let_def res_bind_eq_Inr split_paired_Ex prod.case guard_Inr not_not StateCursor_finish_Inr
    map_err_eq_Inr sum.inject EncryptedBlob.select_convs
  by (elim exE conjE) (hypsubst; intro exI conjI; (assumption | rule refl))

lemma frame_bound_small: "MAX_BLOB_FRAME_BYTES < 2 ^ 32" "unat (bm_chunk_size m) \<le> MAX_CHUNK_BYTES \<Longrightarrow> unat (bm_chunk_size m) + 16 < 2 ^ 32"
  by (simp_all add: blob_bounds)

lemma u32_unat_bytes: "length bs = 4 \<Longrightarrow> u32_to_be_bytes (of_nat (unat (u32_from_be_bytes bs))) = bs"
  by (simp add: u32_to_from_be)

lemma decode_upload_state_sound:
  assumes "decode_upload_state ed pr bs = Inr u"
  shows "wf_uploader ed pr u \<and> bs = encode_upload_state u"
proof -
  obtain magic c1 version c2 uid c3 okey c4 us c5 ds c6 rs c7 xs c8 ttlb c9 tag c10 ib c11 mb c12 m cb c13 chunks c14 pb pt stage pending
    where take: "bs = UPLOAD_STATE_MAGIC @ UPLOAD_STATE_VERSION # uid @ okey @ us @ ds @ rs @ xs @ ttlb @ tag # ib @ c11"
        "length uid = 32" "length okey = 32" "length us = 32" "length ds = 32" "length rs = 32" "length xs = 32" "length ttlb = 8"
        "length ib = 4" "u64_from_be_bytes ttlb \<noteq> 0"
      and m: "StateCursor_sized MAX_BLOB_FRAME_BYTES c11 = Inr (mb, c12)" "BlobManifest_parse mb = Inr m"
      and cb: "c12 = cb @ c13" "length cb = 4" "unat (u32_from_be_bytes cb) = BlobManifest_chunk_count m"
      and chunks: "decode_chunks (unat (bm_chunk_size m) + 16) (unat (u32_from_be_bytes cb)) c13 = Inr (chunks, c14)"
      and pb: "StateCursor_sized MAX_BLOB_FRAME_BYTES c14 = Inr (pb, [])"
      and op: "the (open_blob pr (ObjectKey okey) (blob_identify pr m) m chunks) = Inr pt"
      and stage: "decode_stage tag (unat (u32_from_be_bytes ib)) (length chunks) = Inr stage"
      and pending: "(if pb = [] then Inr None
         else map_ok Some (validate_pending ed \<lparr>pb_upload_id = UploadId uid, pb_encrypted = \<lparr>eb_key = ObjectKey okey, eb_manifest = m,
             eb_blob_id = blob_identify pr m, eb_chunks = chunks\<rparr>, pb_upload_key = BlobSigningKey us,
           pb_download_key = BlobSigningKey ds, pb_renew_key = BlobSigningKey rs, pb_delete_key = BlobSigningKey xs\<rparr>
           (u64_from_be_bytes ttlb) stage pb)) = Inr pending" "\<not> (stage = UsComplete \<and> pending \<noteq> None)"
      and u: "u = \<lparr>bu_blob = \<lparr>pb_upload_id = UploadId uid, pb_encrypted = \<lparr>eb_key = ObjectKey okey, eb_manifest = m,
             eb_blob_id = blob_identify pr m, eb_chunks = chunks\<rparr>, pb_upload_key = BlobSigningKey us,
           pb_download_key = BlobSigningKey ds, pb_renew_key = BlobSigningKey rs, pb_delete_key = BlobSigningKey xs\<rparr>,
         bu_ttl = u64_from_be_bytes ttlb, bu_stage = stage, bu_pending = pending\<rparr>"
    using decode_upload_state_chain [OF assms] unfolding StateCursor_take_Inr StateCursor_byte_Inr
    by (elim exE conjE) simp
  have wfm: "wf_BlobManifest m" "bm_bytes m = mb"
    using m(2) by (simp_all add: BlobManifest_parse_wf)
  note b = wf_manifest_bounds [OF wfm(1)]
  have ch: "length chunks = BlobManifest_chunk_count m" "\<forall>x \<in> set chunks. length x \<le> unat (bm_chunk_size m) + 16"
      "c13 = concat (map push_sized chunks) @ c14"
    using chunks cb(3) by (simp_all add: decode_chunks_Inr [OF frame_bound_small(2) [OF b(3)]])
  have rest: "c11 = push_sized mb @ c12" "c14 = push_sized pb"
    using m(1) pb by (simp_all add: StateCursor_sized_Inr [OF frame_bound_small(1)])
  have st: "stage_ok (length chunks) stage" "tag = fst (stage_code stage)" "ib = u32_to_be_bytes (of_nat (stage_index stage))"
    using stage u32_unat_bytes [OF take(9)] by (auto simp: decode_stage_Inr)
  have cbs: "cb = u32_to_be_bytes (of_nat (length chunks))"
    using u32_unat_bytes [OF cb(2)] cb(3) ch(1) by simp
  have pe: "pb = (case pending of None \<Rightarrow> [] | Some p \<Rightarrow> pe_bytes p)"
    using pending(1) by (auto simp: res_simps dest: validate_pending_bytes split: if_splits)
  have "bs = encode_upload_state u"
    using take(1,8) rest cb(1) ch(3) st(2,3) cbs pe wfm(2)
    by (cases "stage_code stage") (auto simp: u encode_upload_state_def Let_def u64_to_from_be stage_code_index [symmetric])
  moreover have "wf_uploader ed pr u"
    using take(2-10) wfm(1) ch(1,2) op st(1) pending pe
    by (auto simp: u wf_uploader_def wf_blob_def wf_UploadId_def res_simps split: if_splits)
  ultimately show ?thesis by blast
qed

lemma decode_upload_state_complete:
  assumes wf: "wf_uploader ed pr u"
  shows "decode_upload_state ed pr (encode_upload_state u) = Inr u"
proof -
  obtain uid okey us ds rs xs m bid chunks ttl stage pending where u: "u = \<lparr>bu_blob = \<lparr>pb_upload_id = UploadId uid,
        pb_encrypted = \<lparr>eb_key = ObjectKey okey, eb_manifest = m, eb_blob_id = bid, eb_chunks = chunks\<rparr>,
        pb_upload_key = BlobSigningKey us, pb_download_key = BlobSigningKey ds, pb_renew_key = BlobSigningKey rs,
        pb_delete_key = BlobSigningKey xs\<rparr>, bu_ttl = ttl, bu_stage = stage, bu_pending = pending\<rparr>"
  proof -
    obtain blob ttl stage pending where u: "u = \<lparr>bu_blob = blob, bu_ttl = ttl, bu_stage = stage, bu_pending = pending\<rparr>"
      by (cases u) auto
    obtain uid e us ds rs xs where blob: "blob = \<lparr>pb_upload_id = UploadId uid, pb_encrypted = e, pb_upload_key = BlobSigningKey us,
        pb_download_key = BlobSigningKey ds, pb_renew_key = BlobSigningKey rs, pb_delete_key = BlobSigningKey xs\<rparr>"
      by (cases blob) (metis UploadId.exhaust BlobSigningKey.exhaust old.unit.exhaust)
    obtain okey m bid chunks where e: "e = \<lparr>eb_key = ObjectKey okey, eb_manifest = m, eb_blob_id = bid, eb_chunks = chunks\<rparr>"
      by (cases e) (metis ObjectKey.exhaust old.unit.exhaust)
    show thesis
      using that u blob e by blast
  qed
  let ?pb = "case pending of None \<Rightarrow> [] | Some p \<Rightarrow> pe_bytes p"
  have len: "length uid = 32" "length okey = 32" "length us = 32" "length ds = 32" "length rs = 32" "length xs = 32"
      and m: "wf_BlobManifest m" and bid: "bid = blob_identify pr m" and ttl: "ttl \<noteq> 0" and stage: "stage_ok (length chunks) stage"
      and ch: "length chunks = BlobManifest_chunk_count m" "\<forall>x \<in> set chunks. length x \<le> unat (bm_chunk_size m) + 16"
    using wf by (auto simp: u wf_uploader_def wf_blob_def wf_UploadId_def)
  obtain pt where op: "the (open_blob pr (ObjectKey okey) (blob_identify pr m) m chunks) = Inr pt"
    using wf by (auto simp: u bid wf_uploader_def wf_blob_def)
  note b = wf_manifest_bounds [OF m]
  have parse: "BlobManifest_parse (bm_bytes m) = Inr m"
    using m by (simp add: wf_BlobManifest_def)
  have tk: "StateCursor_take n (x @ c) = Inr (x, c)" if "length x = n" for n x c
    using that by (simp add: StateCursor_take_Inr)
  have by1: "StateCursor_byte (x # c) = Inr (x, c)" for x c
    by (simp add: StateCursor_byte_Inr)
  have sz: "StateCursor_sized MAX_BLOB_FRAME_BYTES (push_sized (bm_bytes m) @ c) = Inr (bm_bytes m, c)" for c
    using b(1) by (simp add: StateCursor_sized_Inr [OF frame_bound_small(1)])
  have pb: "StateCursor_sized MAX_BLOB_FRAME_BYTES (push_sized ?pb) = Inr (?pb, [])"
    using wf by (auto simp: StateCursor_sized_Inr [OF frame_bound_small(1)] u wf_uploader_def dest: validate_pending_bytes split: option.splits)
  have "BlobManifest_chunk_count m < 2 ^ 32"
    using b(2) by (simp add: MAX_CHUNKS_def)
  then have cnt: "unat (of_nat (BlobManifest_chunk_count m) :: u32) = BlobManifest_chunk_count m"
    by (simp add: unat_of_nat)
  have chs: "decode_chunks (unat (bm_chunk_size m) + 16) (BlobManifest_chunk_count m) (concat (map push_sized chunks) @ c) = Inr (chunks, c)" for c
    using ch by (simp add: decode_chunks_Inr [OF frame_bound_small(2) [OF b(3)]])
  have "stage_index stage < 2 ^ 32"
    using stage ch(1) b(2) by (cases stage) (simp_all add: MAX_CHUNKS_def)
  then have idx: "unat (snd (stage_code stage)) = stage_index stage"
    by (simp add: stage_code_index unat_of_nat)
  have st: "decode_stage (fst (stage_code stage)) (stage_index stage) (length chunks) = Inr stage"
    using stage by (simp add: decode_stage_Inr)
  have magic: "length UPLOAD_STATE_MAGIC = 4"
    by (simp add: UPLOAD_STATE_MAGIC_def)
  have pend: "pe_bytes p \<noteq> []" "validate_pending ed (bu_blob u) ttl stage (pe_bytes p) = Inr p" "stage \<noteq> UsComplete" if "pending = Some p" for p
    using wf that by (auto simp: u wf_uploader_def dest: validate_pending_bytes)
  note eval = decode_upload_state_def encode_upload_state_def split_beta Let_def tk by1 len sz parse ch(1) cnt chs idx st [unfolded ch(1)]
    op bid ttl b(2) magic StateCursor_finish_def not_less
  show ?thesis
  proof (cases pending)
    case None
    then show ?thesis
      using pb by (simp add: u eval del: unat_of_nat)
  next
    case (Some p)
    then show ?thesis
      using pb pend [OF Some] by (simp add: u eval del: unat_of_nat)
  qed
qed

text \<open>
  A pending request seen from the side that makes one: a frame for exactly the request of the current stage,
  with a proof that verifies under the upload capability, kept with its identifier and command.
\<close>

definition stage_frame :: "Ed25519 \<Rightarrow> BlobUploader \<Rightarrow> Pending \<Rightarrow> bool" where
  "stage_frame ed u p \<longleftrightarrow> (\<exists>f. wf_BlobRequestFrame f \<and> stage_request ed u = Inr (brf_request f)
     \<and> verify_blob_request ed (BlobSigningKey_capability ed (pb_upload_key (bu_blob u)))
         (encode_blob_authenticated_request (brf_request_id f) (brf_request f)) (brf_auth f) = Inr ()
     \<and> p = \<lparr>pe_request_id = brf_request_id f, pe_command = BlobRequest_command (brf_request f),
         pe_bytes = encode_blob_request f\<rparr>)"

lemma pending_matches_stage:
  assumes "wf_blob pr (bu_blob u)" and "stage_ok (length (eb_chunks (pb_encrypted (bu_blob u)))) (bu_stage u)"
  shows "pending_matches ed (bu_blob u) (bu_ttl u) (bu_stage u) request \<longleftrightarrow> stage_request ed u = Inr request"
proof -
  have caps: "blob_capabilities ed blob = caps \<longleftrightarrow> cap_upload caps = BlobSigningKey_capability ed (pb_upload_key blob)
      \<and> cap_download caps = BlobSigningKey_capability ed (pb_download_key blob)
      \<and> cap_renew caps = BlobSigningKey_capability ed (pb_renew_key blob)
      \<and> cap_delete caps = BlobSigningKey_capability ed (pb_delete_key blob)" for caps blob
    by (cases caps) (auto simp: blob_capabilities_def)
  have small: "i < 2 ^ 32" if "i < length (eb_chunks (pb_encrypted (bu_blob u)))" for i
    using that assms(1) wf_manifest_bounds(2) [of "eb_manifest (pb_encrypted (bu_blob u))"]
    by (simp add: wf_blob_def MAX_CHUNKS_def)
  have index: "unat (w :: u32) = i \<longleftrightarrow> of_nat i = w" if "i < 2 ^ 32" for w i
    using that by (auto simp: unat_of_nat)
  show ?thesis
  proof (cases "bu_stage u")
    case UsBegin
    then show ?thesis
      by (cases request) (simp_all add: stage_request_def Let_def caps, blast)
  next
    case (UsChunk i)
    then show ?thesis
      using assms(2) small [of i] index [of i]
      by (cases request) (auto simp: stage_request_def Let_def res_simps usize_to_u32_def get_at_def)
  qed (cases request; auto simp: stage_request_def Let_def)+
qed

lemma stage_request_capability:
  "stage_request ed u = Inr request \<Longrightarrow> BlobRequest_capability request = BlobSigningKey_capability ed (pb_upload_key (bu_blob u))"
  by (auto simp: stage_request_def Let_def res_simps blob_capabilities_def split: UploadStage.splits)

lemma validate_pending_stage:
  assumes "wf_blob pr (bu_blob u)" and "stage_ok (length (eb_chunks (pb_encrypted (bu_blob u)))) (bu_stage u)"
  shows "validate_pending ed (bu_blob u) (bu_ttl u) (bu_stage u) (pe_bytes p) = Inr p \<longleftrightarrow> stage_frame ed u p"
proof
  assume "validate_pending ed (bu_blob u) (bu_ttl u) (bu_stage u) (pe_bytes p) = Inr p"
  then obtain d where d: "decode_blob_request (pe_bytes p) = Inr d"
      and v: "verify_blob_request ed (BlobRequest_capability (brf_request (dbr_frame d))) (dbr_authenticated_bytes d) (brf_auth (dbr_frame d)) = Inr ()"
      and s: "stage_request ed u = Inr (brf_request (dbr_frame d))"
      and p: "p = \<lparr>pe_request_id = brf_request_id (dbr_frame d), pe_command = BlobRequest_command (brf_request (dbr_frame d)), pe_bytes = pe_bytes p\<rparr>"
    by (auto simp: validate_pending_def Let_def res_simps pending_matches_stage [OF assms] split: if_splits)
  show "stage_frame ed u p"
    unfolding stage_frame_def
  proof (intro exI [of _ "dbr_frame d"] conjI)
    show "p = \<lparr>pe_request_id = brf_request_id (dbr_frame d), pe_command = BlobRequest_command (brf_request (dbr_frame d)),
        pe_bytes = encode_blob_request (dbr_frame d)\<rparr>"
      using p d by (metis decode_blob_request_exact)
  qed (use d v s stage_request_capability [OF s] in \<open>simp_all add: decode_blob_request_exact\<close>)
next
  assume "stage_frame ed u p"
  then obtain f where f: "wf_BlobRequestFrame f" "stage_request ed u = Inr (brf_request f)"
      "verify_blob_request ed (BlobSigningKey_capability ed (pb_upload_key (bu_blob u)))
         (encode_blob_authenticated_request (brf_request_id f) (brf_request f)) (brf_auth f) = Inr ()"
      "p = \<lparr>pe_request_id = brf_request_id f, pe_command = BlobRequest_command (brf_request f), pe_bytes = encode_blob_request f\<rparr>"
    by (auto simp: stage_frame_def)
  have "decode_blob_request (encode_blob_request f) = Inr \<lparr>dbr_frame = f,
      dbr_authenticated_bytes = encode_blob_authenticated_request (brf_request_id f) (brf_request f)\<rparr>"
    using f(1) length_encode_blob_request_le [OF f(1)] by (simp add: decode_blob_request_exact)
  then show "validate_pending ed (bu_blob u) (bu_ttl u) (bu_stage u) (pe_bytes p) = Inr p"
    using f stage_request_capability [OF f(2)] pending_matches_stage [OF assms, of ed]
    by (simp add: validate_pending_def Let_def)
qed

text \<open>
  C36: the persisted upload state is exact. Bytes restore to an upload state exactly when they are the
  encoding of that state and the state is sound: keys and identifiers of the right size, a nonzero
  lifetime, a well-formed manifest with all its chunks, which open under the object key, a stage
  within the object, and a pending frame, if any, that encodes the request the uploader makes in that stage, with
  a proof that verifies under the upload capability. An uploader made with a zero lifetime is not restored.
\<close>

theorem upload_state_exact:
  "decode_upload_state ed pr bs = Inr u \<longleftrightarrow>
     wf_blob pr (bu_blob u) \<and> bu_ttl u \<noteq> 0
     \<and> stage_ok (length (eb_chunks (pb_encrypted (bu_blob u)))) (bu_stage u)
     \<and> (case bu_pending u of None \<Rightarrow> True | Some p \<Rightarrow> stage_frame ed u p)
     \<and> bs = encode_upload_state u"
proof -
  have "stage_frame ed u p \<Longrightarrow> bu_stage u \<noteq> UsComplete" for p
    by (auto simp: stage_frame_def stage_request_def Let_def)
  then have "wf_uploader ed pr u \<longleftrightarrow> wf_blob pr (bu_blob u) \<and> bu_ttl u \<noteq> 0
      \<and> stage_ok (length (eb_chunks (pb_encrypted (bu_blob u)))) (bu_stage u)
      \<and> (case bu_pending u of None \<Rightarrow> True | Some p \<Rightarrow> stage_frame ed u p)"
    using validate_pending_stage [of pr u ed] by (auto simp: wf_uploader_def split: option.splits)
  then show ?thesis
    using decode_upload_state_sound decode_upload_state_complete by blast
qed

section \<open>Requests of the uploader\<close>

lemma signed_blob_decodes:
  assumes "ed25519_laws ed" and "wf_RequestId rid" and "wf_BlobRequest request"
  shows "\<exists>auth. decode_blob_request (signed_blob ed key rid request)
      = Inr \<lparr>dbr_frame = \<lparr>brf_request_id = rid, brf_request = request, brf_auth = auth\<rparr>,
          dbr_authenticated_bytes = encode_blob_authenticated_request rid request\<rparr>
    \<and> verify_blob_request ed (BlobSigningKey_capability ed key) (encode_blob_authenticated_request rid request) auth = Inr ()"
proof -
  obtain auth where auth: "sign_blob_request ed key (encode_blob_authenticated_request rid request) = Some auth"
      "length (Auth_bytes auth) = 68"
      "verify_blob_request ed (BlobSigningKey_capability ed key) (encode_blob_authenticated_request rid request) auth = Inr ()"
    using signed_blob_request_verifies [OF assms(1)] by blast
  have wf: "wf_BlobRequestFrame \<lparr>brf_request_id = rid, brf_request = request, brf_auth = auth\<rparr>"
    using assms(2,3) auth(2) by (simp add: wf_BlobRequestFrame_def)
  with auth show ?thesis
    using length_encode_blob_request_le [OF wf] by (auto simp: decode_blob_request_exact signed_blob_def)
qed

lemma wf_capability: "ed25519_laws ed \<Longrightarrow> wf_CapabilityId (BlobSigningKey_capability ed key)"
  by (simp add: ed25519_laws_def wf_CapabilityId_def BlobSigningKey_capability_def)

lemma stage_request_ok:
  assumes "ed25519_laws ed" and "\<And>x. length (pr_sha256 pr x) = 32" and "wf_uploader ed pr u" and "stage_request ed u = Inr request"
  shows "wf_BlobRequest request" and "BlobRequest_capability request = BlobSigningKey_capability ed (pb_upload_key (bu_blob u))"
    and "pending_matches ed (bu_blob u) (bu_ttl u) (bu_stage u) request"
proof -
  note cap = wf_capability [OF assms(1)]
  have wf: "wf_blob pr (bu_blob u)" "bu_ttl u \<noteq> 0" "stage_ok (length (eb_chunks (pb_encrypted (bu_blob u)))) (bu_stage u)"
    using assms(3) by (auto simp: wf_uploader_def)
  note b = wf_manifest_bounds [of "eb_manifest (pb_encrypted (bu_blob u))"]
  have chunk: "length (eb_chunks (pb_encrypted (bu_blob u)) ! i) \<le> MAX_CHUNK_BYTES + 16"
    if "i < length (eb_chunks (pb_encrypted (bu_blob u)))" for i
    using wf(1) b(3) that unfolding wf_blob_def by (meson add_le_mono1 le_trans nth_mem)
  show "wf_BlobRequest request"
    using assms(2,4) wf cap chunk
    by (auto simp: stage_request_def Let_def res_simps usize_to_u32_def wf_blob_def wf_BlobCapabilities_def blob_capabilities_def
        wf_BlobId_def blob_identify_def split: UploadStage.splits if_splits)
  show "BlobRequest_capability request = BlobSigningKey_capability ed (pb_upload_key (bu_blob u))"
    by (rule stage_request_capability [OF assms(4)])
  show "pending_matches ed (bu_blob u) (bu_ttl u) (bu_stage u) request"
    using assms(4) by (simp only: pending_matches_stage [OF wf(1,3)])
qed

lemma with_pending_ok:
  assumes "ed25519_laws ed" and "\<And>x. length (pr_sha256 pr x) = 32" and "wf_uploader ed pr u" and "bu_stage u \<noteq> UsComplete"
    and "\<And>j. wf_RequestId (fst (next_id j))" and "with_pending ed next_id u i = (Inr u1, i')"
  shows "wf_uploader ed pr u1" and "\<exists>p. u1 = u\<lparr>bu_pending := Some p\<rparr> \<and> (bu_pending u = None \<or> bu_pending u = Some p)"
proof -
  consider (old) p where "bu_pending u = Some p" "u1 = u"
    | (new) request rid where "bu_pending u = None" "stage_request ed u = Inr request" "wf_RequestId rid"
        "u1 = u\<lparr>bu_pending := Some \<lparr>pe_request_id = rid, pe_command = BlobRequest_command request,
           pe_bytes = signed_blob ed (pb_upload_key (bu_blob u)) rid request\<rparr>\<rparr>"
    using assms(5) [of i] assms(6) by (auto simp: with_pending_def split: option.splits sum.splits prod.splits)
  then have "wf_uploader ed pr u1 \<and> (\<exists>p. u1 = u\<lparr>bu_pending := Some p\<rparr> \<and> (bu_pending u = None \<or> bu_pending u = Some p))"
  proof cases
    case old
    then show ?thesis using assms(3) by (cases u) auto
  next
    case new
    note ok = stage_request_ok [OF assms(1-3) new(2)]
    obtain auth where d: "decode_blob_request (signed_blob ed (pb_upload_key (bu_blob u)) rid request)
        = Inr \<lparr>dbr_frame = \<lparr>brf_request_id = rid, brf_request = request, brf_auth = auth\<rparr>,
          dbr_authenticated_bytes = encode_blob_authenticated_request rid request\<rparr>"
      "verify_blob_request ed (BlobSigningKey_capability ed (pb_upload_key (bu_blob u))) (encode_blob_authenticated_request rid request) auth = Inr ()"
      using signed_blob_decodes [OF assms(1) new(3) ok(1)] by blast
    then have "validate_pending ed (bu_blob u) (bu_ttl u) (bu_stage u) (signed_blob ed (pb_upload_key (bu_blob u)) rid request)
        = Inr \<lparr>pe_request_id = rid, pe_command = BlobRequest_command request,
           pe_bytes = signed_blob ed (pb_upload_key (bu_blob u)) rid request\<rparr>"
      using ok by (simp add: validate_pending_def)
    then show ?thesis
      using assms(3,4) new(1,4) by (auto simp: wf_uploader_def)
  qed
  then show "wf_uploader ed pr u1" and "\<exists>p. u1 = u\<lparr>bu_pending := Some p\<rparr> \<and> (bu_pending u = None \<or> bu_pending u = Some p)"
    by blast+
qed

end
