(* ===== verification/CW_Blob_Upload.thy ===== *)
theory CW_Blob_Upload
  imports CW_Blob_Client
begin

text \<open>
  Runs of the resumable uploader of \<open>crates/cofferwire-client/src/blob.rs\<close>: any number of transitions over
  any transport and any store that honours its contract, with restarts of the process in between. Every
  stage is sent as one frame only, and every successful transition is progress.
\<close>

section \<open>One transition of the uploader\<close>

fun stage_rank :: "nat \<Rightarrow> UploadStage \<Rightarrow> nat" where
  "stage_rank n UsBegin = 0"
| "stage_rank n (UsChunk index) = index + 1"
| "stage_rank n UsCommit = n + 1"
| "stage_rank n UsComplete = n + 2"

abbreviation chunk_total :: "PreparedBlob \<Rightarrow> nat" where
  "chunk_total blob \<equiv> length (eb_chunks (pb_encrypted blob))"

abbreviation upload_rank :: "BlobUploader \<Rightarrow> nat" where
  "upload_rank u \<equiv> stage_rank (chunk_total (bu_blob u)) (bu_stage u)"

text \<open>A successful response moves to the next stage.\<close>

lemma stage_after_next:
  assumes "stage_after u (bu_stage u) body = Inr (stage, progress)" and "0 < chunk_total (bu_blob u)"
    and "stage_ok (chunk_total (bu_blob u)) (bu_stage u)"
  shows "stage_rank (chunk_total (bu_blob u)) stage = upload_rank u + 1 \<and> stage_ok (chunk_total (bu_blob u)) stage"
  using assms by (cases "(u, bu_stage u, body)" rule: stage_after.cases) (auto split: if_splits)

text \<open>The ways a transition can end, with what was committed and what was sent.\<close>

lemma advance_cases:
  assumes adv: "BlobUploader_advance ed exchange next_id commit u (t, i, s) = (r, u', t', i', s')"
  obtains (complete) "bu_stage u = UsComplete" "u' = u" "t' = t" "s' = s" "r = Inr UpComplete"
    | (unmade) e where "bu_stage u \<noteq> UsComplete" "u' = u" "t' = t" "s' = s" "r = Inl e" "with_pending ed next_id u i = (Inl e, i')"
    | (unsaved) e where "bu_stage u \<noteq> UsComplete" "with_pending ed next_id u i = (Inr u', i')"
        "commit s (encode_upload_state u') = (Inl e, s')" "t' = t" "r = Inl BceStore"
    | (unsent) "bu_stage u \<noteq> UsComplete" "with_pending ed next_id u i = (Inr u', i')"
        "commit s (encode_upload_state u') = (Inr (), s')" "bu_pending u' = None" "t' = t" "r = Inl BceInvalidResponse"
    | (refused) p e where "bu_stage u \<noteq> UsComplete" "with_pending ed next_id u i = (Inr u', i')"
        "commit s (encode_upload_state u') = (Inr (), s')" "bu_pending u' = Some p" "t' = snd (exchange t (pe_bytes p))" "r = Inl e"
    | (unfinished) p s1 body stage progress e where "bu_stage u \<noteq> UsComplete" "with_pending ed next_id u i = (Inr u', i')"
        "commit s (encode_upload_state u') = (Inr (), s1)" "bu_pending u' = Some p" "t' = snd (exchange t (pe_bytes p))"
        "stage_after u' (bu_stage u') body = Inr (stage, progress)"
        "commit s1 (encode_upload_state (u'\<lparr>bu_stage := stage, bu_pending := None\<rparr>)) = (Inl e, s')" "r = Inl BceStore"
    | (moved) u1 p s1 body stage progress where "bu_stage u \<noteq> UsComplete" "with_pending ed next_id u i = (Inr u1, i')"
        "commit s (encode_upload_state u1) = (Inr (), s1)" "bu_pending u1 = Some p" "t' = snd (exchange t (pe_bytes p))"
        "stage_after u1 (bu_stage u1) body = Inr (stage, progress)" "u' = u1\<lparr>bu_stage := stage, bu_pending := None\<rparr>"
        "commit s1 (encode_upload_state u') = (Inr (), s')" "r = Inr progress"
proof (cases "bu_stage u = UsComplete")
  case True
  then show thesis using adv by (intro complete) (simp_all add: BlobUploader_advance_def)
next
  case nc: False
  obtain r1 i1 where 1: "with_pending ed next_id u i = (r1, i1)" by fastforce
  show thesis
  proof (cases r1)
    case (Inl e)
    then show thesis using adv nc 1 by (intro unmade [of e]) (simp_all add: BlobUploader_advance_def)
  next
    case r1: (Inr u1)
    obtain r2 s1 where 2: "commit s (encode_upload_state u1) = (r2, s1)" by fastforce
    show thesis
    proof (cases r2)
      case (Inl e)
      then show thesis using adv nc 1 r1 2 by (intro unsaved [of e]) (simp_all add: BlobUploader_advance_def)
    next
      case r2: (Inr v)
      note base = nc 1 r1 2 r2
      show thesis
      proof (cases "bu_pending u1")
        case None
        then show thesis using adv base by (intro unsent) (simp_all add: BlobUploader_advance_def)
      next
        case p: (Some p)
        obtain r3 t1 where 3: "exchange t (pe_bytes p) = (r3, t1)" by fastforce
        let ?next = "res_bind (map_err (\<lambda>_. BceTransport) r3) (\<lambda>resp. res_bind (checked_body resp (pe_request_id p) (pe_command p)) (stage_after u1 (bu_stage u1)))"
        show thesis
        proof (cases ?next)
          case (Inl e)
          then show thesis
            using adv base p 3
            by (intro refused [of p e]; cases r3) (auto simp: BlobUploader_advance_def)
        next
          case (Inr res)
          then obtain resp body stage progress where ok: "r3 = Inr resp" "checked_body resp (pe_request_id p) (pe_command p) = Inr body"
              "stage_after u1 (bu_stage u1) body = Inr (stage, progress)" by (cases res; cases r3) (auto simp: res_simps)
          obtain r4 s2 where 4: "commit s1 (encode_upload_state (u1\<lparr>bu_stage := stage, bu_pending := None\<rparr>)) = (r4, s2)" by fastforce
          show thesis
          proof (cases r4)
            case (Inl e)
            then show thesis
              using adv base p 3 ok 4 by (intro unfinished [of s1 p body stage progress e]) (simp_all add: BlobUploader_advance_def)
          next
            case (Inr v')
            then show thesis
              using adv base p 3 ok 4 by (intro moved [of u1 s1 p body stage progress]) (simp_all add: BlobUploader_advance_def)
          qed
        qed
      qed
    qed
  qed
qed

section \<open>Runs with restarts\<close>

text \<open>
  What the uploader relies on of the application's store of upload states, as the documentation of
  \<open>BlobUploadStore\<close> asks for: a commit that succeeds has replaced the stored state, one that fails has
  replaced it or left it. \<open>load\<close> is what the application reads back after a restart.
\<close>

definition upload_store_laws :: "'s upload_store \<Rightarrow> ('s \<Rightarrow> bytes option) \<Rightarrow> bool" where
  "upload_store_laws commit load \<longleftrightarrow>
     (\<forall>s bs s'. commit s bs = (Inr (), s') \<longrightarrow> load s' = Some bs)
     \<and> (\<forall>s bs e s'. commit s bs = (Inl e, s') \<longrightarrow> load s' = load s \<or> load s' = Some bs)"

text \<open>
  A run: a new uploader with an empty store, then transitions and restarts in any order. A restart loses
  the uploader in memory, the connection and the state of the identifier source, and restores the uploader
  from the store. The run keeps the frames handed to the transport, each with the stage it was sent in, and
  counts the transitions that succeeded before the upload was complete.
\<close>

inductive upload_run ::
    "Ed25519 \<Rightarrow> 'g Primitives \<Rightarrow> 't transport \<Rightarrow> 'i id_source \<Rightarrow> 's upload_store \<Rightarrow> ('s \<Rightarrow> bytes option) \<Rightarrow> PreparedBlob \<Rightarrow> u64 \<Rightarrow>
     BlobUploader \<Rightarrow> 's \<Rightarrow> (UploadStage \<times> bytes) list \<Rightarrow> nat \<Rightarrow> bool"
  for ed pr exchange next_id commit load blob ttl where
  start: "load s = None \<Longrightarrow> upload_run ed pr exchange next_id commit load blob ttl (PreparedBlob_uploader blob ttl) s [] 0"
| advance: "upload_run ed pr exchange next_id commit load blob ttl u s log n
    \<Longrightarrow> BlobUploader_advance ed (logged exchange) next_id commit u ((t, []), i, s) = (r, u', (t', frames), i', s')
    \<Longrightarrow> upload_run ed pr exchange next_id commit load blob ttl u' s' (log @ map (Pair (bu_stage u)) frames)
          (if bu_stage u \<noteq> UsComplete \<and> \<not> isl r then Suc n else n)"
| restart: "upload_run ed pr exchange next_id commit load blob ttl u s log n \<Longrightarrow> load s = Some bs
    \<Longrightarrow> BlobUploader_restore ed pr bs (PreparedBlob_upload_identity ed blob) = Inr u'
    \<Longrightarrow> upload_run ed pr exchange next_id commit load blob ttl u' s log n"

text \<open>An upload state is ahead of a log when it cannot send another frame in a stage of the log.\<close>

definition ahead_of :: "Ed25519 \<Rightarrow> 'g Primitives \<Rightarrow> PreparedBlob \<Rightarrow> u64 \<Rightarrow> (UploadStage \<times> bytes) list \<Rightarrow> BlobUploader \<Rightarrow> bool" where
  "ahead_of ed pr blob ttl log u \<longleftrightarrow> wf_uploader ed pr u \<and> bu_blob u = blob \<and> bu_ttl u = ttl
     \<and> (\<forall>(k, f) \<in> set log. stage_rank (chunk_total blob) k < stage_rank (chunk_total blob) (bu_stage u)
          \<or> k = bu_stage u \<and> (\<exists>p. bu_pending u = Some p \<and> pe_bytes p = f))"

definition sent_once :: "Ed25519 \<Rightarrow> PreparedBlob \<Rightarrow> u64 \<Rightarrow> (UploadStage \<times> bytes) list \<Rightarrow> bool" where
  "sent_once ed blob ttl log \<longleftrightarrow>
     (\<forall>k f f'. (k, f) \<in> set log \<longrightarrow> (k, f') \<in> set log \<longrightarrow> f = f')
     \<and> (\<forall>k f. (k, f) \<in> set log \<longrightarrow> (\<exists>p. validate_pending ed blob ttl k f = Inr p))"

definition stored_ahead ::
    "Ed25519 \<Rightarrow> 'g Primitives \<Rightarrow> PreparedBlob \<Rightarrow> u64 \<Rightarrow> (UploadStage \<times> bytes) list \<Rightarrow> BlobUploader \<Rightarrow> bytes option \<Rightarrow> bool" where
  "stored_ahead ed pr blob ttl log u stored \<longleftrightarrow>
     (case stored of
        None \<Rightarrow> log = []
      | Some bs \<Rightarrow> \<exists>v. bs = encode_upload_state v \<and> ahead_of ed pr blob ttl log v \<and> upload_rank u \<le> upload_rank v)"

lemma stored_ahead_saved:
  "ahead_of ed pr blob ttl log v \<Longrightarrow> upload_rank u \<le> upload_rank v \<Longrightarrow> stored_ahead ed pr blob ttl log u (Some (encode_upload_state v))"
  by (auto simp: stored_ahead_def)

lemma stored_ahead_same:
  "stored_ahead ed pr blob ttl log u stored \<Longrightarrow> upload_rank u' = upload_rank u \<Longrightarrow> stored_ahead ed pr blob ttl log u' stored"
  by (cases stored) (simp_all add: stored_ahead_def)

lemma chunk_total_pos: "wf_uploader ed pr u \<Longrightarrow> 0 < chunk_total (bu_blob u)"
  using wf_manifest_bounds(4) by (auto simp: wf_uploader_def wf_blob_def)

lemma ahead_pending:
  assumes "ed25519_laws ed" and "\<And>x. length (pr_sha256 pr x) = 32" and "\<And>j. wf_RequestId (fst (next_id j))"
    and ahead: "ahead_of ed pr blob ttl log u" and "bu_stage u \<noteq> UsComplete" and "with_pending ed next_id u i = (Inr u1, i')"
  obtains p where "u1 = u\<lparr>bu_pending := Some p\<rparr>" "ahead_of ed pr blob ttl log u1"
proof -
  have wf: "wf_uploader ed pr u" using ahead by (simp add: ahead_of_def)
  note ok = with_pending_ok [OF assms(1,2) wf assms(5,3,6)]
  from ok(2) obtain p where p: "u1 = u\<lparr>bu_pending := Some p\<rparr>" "bu_pending u = None \<or> bu_pending u = Some p" by blast
  with ahead ok(1) have "ahead_of ed pr blob ttl log u1"
    by (fastforce simp: ahead_of_def)
  with p(1) that show thesis by blast
qed

lemma ahead_send:
  assumes "ahead_of ed pr blob ttl log u" and "bu_pending u = Some p" and "sent_once ed blob ttl log"
  shows "ahead_of ed pr blob ttl (log @ [(bu_stage u, pe_bytes p)]) u" and "sent_once ed blob ttl (log @ [(bu_stage u, pe_bytes p)])"
proof -
  show "ahead_of ed pr blob ttl (log @ [(bu_stage u, pe_bytes p)]) u"
    using assms(1,2) by (simp add: ahead_of_def)
  have same: "f = pe_bytes p" if "(bu_stage u, f) \<in> set log" for f
    using assms(1,2) that by (auto simp: ahead_of_def dest!: bspec)
  have "validate_pending ed blob ttl (bu_stage u) (pe_bytes p) = Inr p"
    using assms(1,2) by (auto simp: ahead_of_def wf_uploader_def)
  then show "sent_once ed blob ttl (log @ [(bu_stage u, pe_bytes p)])"
    using assms(3) same unfolding sent_once_def by auto
qed

lemma ahead_next:
  assumes "ahead_of ed pr blob ttl log u" and "stage_after u (bu_stage u) body = Inr (stage, progress)"
  shows "ahead_of ed pr blob ttl log (u\<lparr>bu_stage := stage, bu_pending := None\<rparr>)"
    and "stage_rank (chunk_total (bu_blob u)) stage = upload_rank u + 1"
proof -
  have wf: "wf_uploader ed pr u" using assms(1) by (simp add: ahead_of_def)
  have ok: "stage_rank (chunk_total (bu_blob u)) stage = upload_rank u + 1 \<and> stage_ok (chunk_total (bu_blob u)) stage"
    using stage_after_next [OF assms(2) chunk_total_pos [OF wf]] wf by (simp add: wf_uploader_def)
  then show "stage_rank (chunk_total (bu_blob u)) stage = upload_rank u + 1" by simp
  show "ahead_of ed pr blob ttl log (u\<lparr>bu_stage := stage, bu_pending := None\<rparr>)"
    using assms(1) ok by (auto simp: ahead_of_def wf_uploader_def)
qed

lemma logged_frames [simp]: "snd (snd (logged exchange (t, frames) f)) = frames @ [f]"
  by (simp add: logged_def split: prod.split)

text \<open>One transition keeps the state in memory and the stored one ahead of what was sent.\<close>

lemma advance_keeps_ahead:
  assumes env: "ed25519_laws ed" "\<And>x. length (pr_sha256 pr x) = 32" "\<And>j. wf_RequestId (fst (next_id j))" "upload_store_laws commit load"
    and ahead: "ahead_of ed pr blob ttl log u" "sent_once ed blob ttl log" "stored_ahead ed pr blob ttl log u (load s)"
    and adv: "BlobUploader_advance ed (logged exchange) next_id commit u ((t, []), i, s) = (r, u', (t', frames), i', s')"
  defines "log' \<equiv> log @ map (Pair (bu_stage u)) frames"
  shows "ahead_of ed pr blob ttl log' u' \<and> sent_once ed blob ttl log' \<and> stored_ahead ed pr blob ttl log' u' (load s')
    \<and> upload_rank u' = (if bu_stage u \<noteq> UsComplete \<and> \<not> isl r then Suc (upload_rank u) else upload_rank u)"
proof -
  note pend = ahead_pending [OF env(1-3) ahead(1)]
  have frames: "frames = [pe_bytes p]" if "(t', frames) = snd (logged exchange (t, []) (pe_bytes p))" for p
    using logged_frames [of exchange t "[]" "pe_bytes p"] that by (metis append_Nil snd_conv)
  have keep: "log' = log \<and> frames = []" if "(t', frames) = (t, [])"
    using that by (simp add: log'_def)
  have save: "load s2 = Some bs" if "commit s1 bs = (Inr (), s2)" for s1 bs s2
    using env(4) that by (auto simp: upload_store_laws_def)
  have lose: "load s2 = load s1 \<or> load s2 = Some bs" if "commit s1 bs = (Inl e, s2)" for s1 bs e s2
    using env(4) that by (auto simp: upload_store_laws_def)
  from adv show ?thesis
  proof (cases rule: advance_cases)
    case complete
    then show ?thesis using ahead keep by simp
  next
    case (unmade e)
    then show ?thesis using ahead keep by simp
  next
    case (unsaved e)
    from unsaved(1,2) obtain p where u': "u' = u\<lparr>bu_pending := Some p\<rparr>" "ahead_of ed pr blob ttl log u'" by (rule pend)
    moreover have "stored_ahead ed pr blob ttl log u' (load s')"
      using lose [OF unsaved(3)] stored_ahead_saved [OF u'(2) order_refl] stored_ahead_same [OF ahead(3), of u'] u'(1) by auto
    ultimately show ?thesis using ahead keep unsaved by simp
  next
    case unsent
    from unsent(1,2) obtain p where "u' = u\<lparr>bu_pending := Some p\<rparr>" "ahead_of ed pr blob ttl log u'" by (rule pend)
    with unsent(4) show ?thesis by simp
  next
    case (refused p e)
    from refused(1,2) obtain q where u': "u' = u\<lparr>bu_pending := Some q\<rparr>" "ahead_of ed pr blob ttl log u'" by (rule pend)
    have log': "log' = log @ [(bu_stage u', pe_bytes p)]"
      using frames [OF refused(5)] u'(1) by (simp add: log'_def)
    note sent = ahead_send [OF u'(2) refused(4) ahead(2)]
    from sent stored_ahead_saved [OF sent(1) order_refl] save [OF refused(3)] u'(1) refused(6) show ?thesis
      by (simp add: log')
  next
    case (unfinished p s1 body stage progress e)
    from unfinished(1,2) obtain q where u': "u' = u\<lparr>bu_pending := Some q\<rparr>" "ahead_of ed pr blob ttl log u'" by (rule pend)
    have log': "log' = log @ [(bu_stage u', pe_bytes p)]"
      using frames [OF unfinished(5)] u'(1) by (simp add: log'_def)
    note sent = ahead_send [OF u'(2) unfinished(4) ahead(2)]
    note nxt = ahead_next [OF sent(1) unfinished(6)]
    have "stored_ahead ed pr blob ttl log' u' (load s')"
      using lose [OF unfinished(7)] save [OF unfinished(3)] stored_ahead_saved [OF sent(1) order_refl]
        stored_ahead_saved [OF nxt(1), of u'] nxt(2) by (auto simp: log')
    with sent u'(1) unfinished(8) show ?thesis
      by (simp add: log')
  next
    case (moved u1 p s1 body stage progress)
    from moved(1,2) obtain q where u1: "u1 = u\<lparr>bu_pending := Some q\<rparr>" "ahead_of ed pr blob ttl log u1" by (rule pend)
    have log': "log' = log @ [(bu_stage u1, pe_bytes p)]"
      using frames [OF moved(5)] u1(1) by (simp add: log'_def)
    note sent = ahead_send [OF u1(2) moved(4) ahead(2)]
    note nxt = ahead_next [OF sent(1) moved(6)]
    have "stored_ahead ed pr blob ttl log' u' (load s')"
      using save [OF moved(8)] stored_ahead_saved [OF nxt(1) order_refl] by (simp add: log' moved(7))
    with sent(2) nxt u1(1) moved(1,7,9) show ?thesis
      by (simp add: log')
  qed
qed

lemma restore_encoded:
  assumes "ahead_of ed pr blob ttl log v"
  shows "BlobUploader_restore ed pr (encode_upload_state v) (PreparedBlob_upload_identity ed blob) = Inr v"
  using assms decode_upload_state_complete [of ed pr v] by (simp add: BlobUploader_restore_def ahead_of_def)

lemma restored_ahead:
  assumes "stored_ahead ed pr blob ttl log u (Some bs)" and "BlobUploader_restore ed pr bs expected = Inr u'"
  shows "ahead_of ed pr blob ttl log u'" and "upload_rank u \<le> upload_rank u'"
proof -
  obtain v where v: "bs = encode_upload_state v" "ahead_of ed pr blob ttl log v" "upload_rank u \<le> upload_rank v"
    using assms(1) by (auto simp: stored_ahead_def)
  then have "u' = v"
    using assms(2) decode_upload_state_complete [of ed pr v]
    by (auto simp: BlobUploader_restore_def ahead_of_def res_simps split: if_splits)
  with v show "ahead_of ed pr blob ttl log u'" "upload_rank u \<le> upload_rank u'" by simp_all
qed

lemma upload_run_ahead:
  assumes env: "ed25519_laws ed" "\<And>x. length (pr_sha256 pr x) = 32" "\<And>j. wf_RequestId (fst (next_id j))" "upload_store_laws commit load"
    and blob: "wf_blob pr blob" "ttl \<noteq> 0"
    and run: "upload_run ed pr exchange next_id commit load blob ttl u s log n"
  shows "ahead_of ed pr blob ttl log u \<and> sent_once ed blob ttl log \<and> stored_ahead ed pr blob ttl log u (load s) \<and> n \<le> upload_rank u"
  using run
proof induction
  case (start s)
  then show ?case
    using blob by (simp add: ahead_of_def sent_once_def stored_ahead_def wf_uploader_def PreparedBlob_uploader_def)
next
  case (advance u s log n t i r u' t' frames i' s')
  from advance.IH advance_keeps_ahead [OF env _ _ _ advance(2), of blob ttl log]
  have kept: "ahead_of ed pr blob ttl (log @ map (Pair (bu_stage u)) frames) u'"
      "sent_once ed blob ttl (log @ map (Pair (bu_stage u)) frames)"
      "stored_ahead ed pr blob ttl (log @ map (Pair (bu_stage u)) frames) u' (load s')"
      "upload_rank u' = (if bu_stage u \<noteq> UsComplete \<and> \<not> isl r then Suc (upload_rank u) else upload_rank u)" "n \<le> upload_rank u"
    by blast+
  then have "(if bu_stage u \<noteq> UsComplete \<and> \<not> isl r then Suc n else n) \<le> upload_rank u'"
    unfolding kept(4) by (simp only: split: if_split) simp
  with kept(1-3) show ?case by blast
next
  case (restart u s log n bs u')
  have "stored_ahead ed pr blob ttl log u (Some bs)" using restart by simp
  note ahead = restored_ahead [OF this restart(3)]
  have "stored_ahead ed pr blob ttl log u' (load s)"
    using restart ahead stored_ahead_saved [OF ahead(1) order_refl] decode_upload_state_sound [of ed pr bs u']
    by (auto simp: BlobUploader_restore_def res_simps split: if_splits)
  with ahead restart show ?case by simp
qed

text \<open>
  C38: an upload repeats itself exactly. Over any transport, whatever it answers or loses, with a store that
  may fail and with the process restarted from the stored state at any point, all frames the uploader
  ever sends in one stage are the same bytes, each the signed request of that stage with one request
  identifier, so that the relay recognises every repetition; and once anything was sent, the stored state
  restores to an uploader of the same object that is not behind it. The requested lifetime is nonzero.
\<close>

theorem upload_sends_once:
  assumes "ed25519_laws ed" and "\<And>x. length (pr_sha256 pr x) = 32" and "\<And>j. wf_RequestId (fst (next_id j))"
    and "upload_store_laws commit load" and "wf_blob pr blob" and "ttl \<noteq> 0"
    and "upload_run ed pr exchange next_id commit load blob ttl u s log n"
  shows "(\<forall>k f f'. (k, f) \<in> set log \<longrightarrow> (k, f') \<in> set log \<longrightarrow> f = f')
    \<and> (\<forall>k f. (k, f) \<in> set log \<longrightarrow> (\<exists>p. validate_pending ed blob ttl k f = Inr p))
    \<and> (log \<noteq> [] \<longrightarrow> (\<exists>bs v. load s = Some bs \<and> BlobUploader_restore ed pr bs (PreparedBlob_upload_identity ed blob) = Inr v
          \<and> bu_blob v = blob \<and> upload_rank u \<le> upload_rank v))"
proof -
  note inv = upload_run_ahead [OF assms]
  have "\<exists>bs v. load s = Some bs \<and> BlobUploader_restore ed pr bs (PreparedBlob_upload_identity ed blob) = Inr v
      \<and> bu_blob v = blob \<and> upload_rank u \<le> upload_rank v" if "log \<noteq> []"
  proof -
    obtain v where v: "load s = Some (encode_upload_state v)" "ahead_of ed pr blob ttl log v" "upload_rank u \<le> upload_rank v"
      using inv \<open>log \<noteq> []\<close> by (auto simp: stored_ahead_def split: option.splits)
    from v(1,3) restore_encoded [OF v(2)] v(2) [unfolded ahead_of_def] show ?thesis by blast
  qed
  then show ?thesis using inv unfolding sent_once_def by blast
qed

section \<open>Progress\<close>

text \<open>
  A relay that answers every request of an upload with success, whatever the outcome it reports, and the
  loop of the application that advances the upload \<open>k\<close> times.
\<close>

definition answers_uploads :: "'t transport \<Rightarrow> bool" where
  "answers_uploads exchange \<longleftrightarrow>
     (\<forall>t f d. decode_blob_request f = Inr d \<longrightarrow> BlobRequest_command (brf_request (dbr_frame d)) \<in> {BcBeginUpload, BcPutChunk, BcCommit} \<longrightarrow>
       (\<exists>body. BlobResponseBody_command body = BlobRequest_command (brf_request (dbr_frame d))
         \<and> fst (exchange t f) = Inr (encode_blob_response \<lparr>brsf_request_id = brf_request_id (dbr_frame d),
             brsf_response = \<lparr>br_command = Some (BlobRequest_command (brf_request (dbr_frame d))), br_status = BsOk, br_body = Some body\<rparr>\<rparr>)))"

primrec drive_upload ::
    "Ed25519 \<Rightarrow> 't transport \<Rightarrow> 'i id_source \<Rightarrow> 's upload_store \<Rightarrow> nat \<Rightarrow> BlobUploader \<Rightarrow> 't \<times> 'i \<times> 's \<Rightarrow> BlobUploader" where
  "drive_upload ed exchange next_id commit 0 u w = u"
| "drive_upload ed exchange next_id commit (Suc k) u w =
     (case BlobUploader_advance ed exchange next_id commit u w of (r, u', w') \<Rightarrow> drive_upload ed exchange next_id commit k u' w')"

lemma checked_body_encoded:
  assumes "wf_RequestId rid" and "wf_BlobResponseBody body"
  shows "checked_body (encode_blob_response \<lparr>brsf_request_id = rid,
      brsf_response = \<lparr>br_command = Some (BlobResponseBody_command body), br_status = BsOk, br_body = Some body\<rparr>\<rparr>)
    rid (BlobResponseBody_command body) = Inr (Some body)" (is "checked_body (encode_blob_response ?f) _ _ = _")
proof -
  have wf: "wf_BlobResponseFrame ?f"
    using assms by (simp add: wf_BlobResponseFrame_def wf_BlobResponse_def)
  then have "decode_blob_response (encode_blob_response ?f) = Inr ?f"
    using length_encode_blob_response_le by (simp add: decode_blob_response_exact)
  then show ?thesis by (simp add: checked_body_def BlobStatus_is_ok_def)
qed

lemma stage_request_total:
  assumes "wf_uploader ed pr u" and "bu_stage u \<noteq> UsComplete"
  shows "\<exists>request. stage_request ed u = Inr request"
proof -
  have "i < 2 ^ 32" if "bu_stage u = UsChunk i" for i
    using assms(1) wf_manifest_bounds(2) that by (fastforce simp: wf_uploader_def wf_blob_def MAX_CHUNKS_def)
  then show ?thesis
    using assms(2) by (cases "bu_stage u") (auto simp: stage_request_def Let_def usize_to_u32_def)
qed

lemma with_pending_total:
  assumes "wf_uploader ed pr u" and "bu_stage u \<noteq> UsComplete"
  obtains u1 i' where "with_pending ed next_id u i = (Inr u1, i')"
  using stage_request_total [OF assms] that
  by (cases "bu_pending u"; cases "next_id i") (auto simp: with_pending_def)

lemma validate_pendingD:
  assumes "validate_pending ed blob ttl stage bs = Inr p"
  shows "\<exists>d. decode_blob_request bs = Inr d \<and> pending_matches ed blob ttl stage (brf_request (dbr_frame d))
    \<and> pe_request_id p = brf_request_id (dbr_frame d) \<and> pe_command p = BlobRequest_command (brf_request (dbr_frame d))"
  using assms by (auto simp: validate_pending_def Let_def res_simps split: if_splits)

text \<open>The answer to the pending request of a stage moves the uploader on.\<close>

lemma pending_answered:
  assumes "wf_uploader ed pr u" and "bu_pending u = Some p" and "answers_uploads exchange"
  shows "\<exists>resp body stage progress. fst (exchange t (pe_bytes p)) = Inr resp
    \<and> checked_body resp (pe_request_id p) (pe_command p) = Inr body \<and> stage_after u (bu_stage u) body = Inr (stage, progress)"
proof -
  obtain d where d: "decode_blob_request (pe_bytes p) = Inr d" "pending_matches ed (bu_blob u) (bu_ttl u) (bu_stage u) (brf_request (dbr_frame d))"
      "pe_request_id p = brf_request_id (dbr_frame d)" "pe_command p = BlobRequest_command (brf_request (dbr_frame d))"
    using assms(1,2) validate_pendingD [of ed "bu_blob u" "bu_ttl u" "bu_stage u" "pe_bytes p" p]
    by (auto simp: wf_uploader_def)
  let ?q = "brf_request (dbr_frame d)"
  have rid: "wf_RequestId (brf_request_id (dbr_frame d))"
    using d(1) by (auto simp: decode_blob_request_exact wf_BlobRequestFrame_def)
  have "BlobRequest_command ?q \<in> {BcBeginUpload, BcPutChunk, BcCommit}"
    using d(2) by (cases ?q; cases "bu_stage u") auto
  with assms(3) d(1) obtain body where body: "BlobResponseBody_command body = BlobRequest_command ?q"
      "fst (exchange t (pe_bytes p)) = Inr (encode_blob_response \<lparr>brsf_request_id = brf_request_id (dbr_frame d),
             brsf_response = \<lparr>br_command = Some (BlobRequest_command ?q), br_status = BsOk, br_body = Some body\<rparr>\<rparr>)"
    unfolding answers_uploads_def by blast
  have "wf_BlobResponseBody body" "\<exists>stage progress. stage_after u (bu_stage u) (Some body) = Inr (stage, progress)"
    using d(2) body(1) by (cases ?q; cases "bu_stage u"; cases body; simp)+
  with body d(3,4) checked_body_encoded [OF rid, of body] show ?thesis by fastforce
qed

lemma advance_answered:
  assumes env: "ed25519_laws ed" "\<And>x. length (pr_sha256 pr x) = 32" "\<And>j. wf_RequestId (fst (next_id j))"
    and "wf_uploader ed pr u" and "bu_stage u \<noteq> UsComplete" and "answers_uploads exchange" and saves: "\<And>s bs. fst (commit s bs) = Inr ()"
    and adv: "BlobUploader_advance ed exchange next_id commit u (t, i, s) = (r, u', t', i', s')"
  shows "wf_uploader ed pr u' \<and> bu_blob u' = bu_blob u \<and> upload_rank u' = Suc (upload_rank u)"
proof -
  obtain u1 i1 where wp: "with_pending ed next_id u i = (Inr u1, i1)"
    by (rule with_pending_total [OF assms(4,5)])
  obtain p where u1: "wf_uploader ed pr u1" "u1 = u\<lparr>bu_pending := Some p\<rparr>"
    using with_pending_ok [OF env(1,2) assms(4,5) env(3) wp] by blast
  obtain s1 where s1: "commit s (encode_upload_state u1) = (Inr (), s1)"
    using saves [of s "encode_upload_state u1"] by (cases "commit s (encode_upload_state u1)") simp
  obtain resp body stage progress where ans: "fst (exchange t (pe_bytes p)) = Inr resp"
      "checked_body resp (pe_request_id p) (pe_command p) = Inr body" "stage_after u1 (bu_stage u1) body = Inr (stage, progress)"
    using pending_answered [OF u1(1) _ assms(6), of p t] u1(2) by auto
  let ?u' = "u1\<lparr>bu_stage := stage, bu_pending := None\<rparr>"
  obtain s2 where s2: "commit s1 (encode_upload_state ?u') = (Inr (), s2)"
    using saves [of s1 "encode_upload_state ?u'"] by (cases "commit s1 (encode_upload_state ?u')") simp
  have pend: "bu_pending u1 = Some p" "bu_blob u1 = bu_blob u" "bu_stage u1 = bu_stage u"
    by (simp_all add: u1(2))
  obtain t1 where ex: "exchange t (pe_bytes p) = (Inr resp, t1)"
    using ans(1) by (cases "exchange t (pe_bytes p)") simp
  have "u' = ?u'"
    using adv by (simp add: BlobUploader_advance_def assms(5) wp s1 pend(1) ex ans(2,3) s2)
  moreover have "ahead_of ed pr (bu_blob u1) (bu_ttl u1) [] u1"
    using u1(1) by (simp add: ahead_of_def)
  note ahead_next [OF this ans(3)]
  ultimately show ?thesis
    using pend by (simp add: ahead_of_def)
qed

lemma upload_rank_bound:
  assumes "wf_uploader ed pr u"
  shows "upload_rank u \<le> chunk_total (bu_blob u) + 2 \<and> (upload_rank u = chunk_total (bu_blob u) + 2 \<longleftrightarrow> bu_stage u = UsComplete)"
  using assms by (cases "bu_stage u") (auto simp: wf_uploader_def)

lemma drive_completes:
  assumes env: "ed25519_laws ed" "\<And>x. length (pr_sha256 pr x) = 32" "\<And>j. wf_RequestId (fst (next_id j))"
    "answers_uploads exchange" "\<And>s bs. fst (commit s bs) = Inr ()"
    and "wf_uploader ed pr u" and "k \<le> chunk_total (bu_blob u) + 2 - upload_rank u"
  shows "bu_stage (drive_upload ed exchange next_id commit k u w) = UsComplete \<longleftrightarrow> k = chunk_total (bu_blob u) + 2 - upload_rank u"
  using assms(6,7)
proof (induction k arbitrary: u w)
  case 0
  then show ?case using upload_rank_bound [OF 0(1)] by auto
next
  case (Suc k)
  obtain t i s where w: "w = (t, i, s)" by (cases w)
  obtain r u' t' i' s' where adv: "BlobUploader_advance ed exchange next_id commit u (t, i, s) = (r, u', t', i', s')"
    by (metis prod_cases5)
  have "bu_stage u \<noteq> UsComplete"
    using Suc.prems by auto
  note step = advance_answered [OF env(1-3) Suc.prems(1) this env(4,5) adv]
  have left: "chunk_total (bu_blob u') + 2 - upload_rank u' = chunk_total (bu_blob u) + 1 - upload_rank u"
    using step by (elim conjE) simp
  from step Suc.IH [of u' "(t', i', s')"] Suc.prems(2) show ?case
    unfolding left by (simp add: w adv) linarith
qed

text \<open>
  C39: an upload terminates. In every run with faults and restarts at most one transition per chunk and two
  more succeed before the upload is complete, and it is complete when so many have; and from every state
  such a run can reach, once the relay answers and the store commits, advancing completes the upload in
  exactly the number of stages that are left. The requested lifetime is nonzero.
\<close>

theorem upload_terminates:
  assumes "ed25519_laws ed" and "\<And>x. length (pr_sha256 pr x) = 32" and "\<And>j. wf_RequestId (fst (next_id j))"
    and "upload_store_laws commit load" and "wf_blob pr blob" and "ttl \<noteq> 0"
    and "upload_run ed pr exchange next_id commit load blob ttl u s log n"
    and "answers_uploads exchange'" and "\<And>s bs. fst (commit' s bs) = Inr ()"
  shows "n \<le> chunk_total blob + 2 \<and> (n = chunk_total blob + 2 \<longrightarrow> bu_stage u = UsComplete)
    \<and> (\<forall>k \<le> chunk_total blob + 2 - upload_rank u.
         bu_stage (drive_upload ed exchange' next_id commit' k u w) = UsComplete \<longleftrightarrow> k = chunk_total blob + 2 - upload_rank u)"
proof -
  have wf: "wf_uploader ed pr u" "bu_blob u = blob" "n \<le> upload_rank u"
    using upload_run_ahead [OF assms(1-7)] unfolding ahead_of_def by blast+
  with upload_rank_bound [OF wf(1)] drive_completes [OF assms(1-3,8,9) wf(1)] show ?thesis by auto
qed

section \<open>Concrete instances\<close>

definition ex_object :: "u8 Primitives \<Rightarrow> EncryptedBlob" where
  "ex_object pr = projr (the (fst (seal_blob pr [1, 2, 3] 64 7)))"

definition ex_blob :: "u8 Primitives \<Rightarrow> PreparedBlob" where
  "ex_blob pr = \<lparr>pb_upload_id = UploadId (replicate 32 1), pb_encrypted = ex_object pr,
     pb_upload_key = BlobSigningKey (replicate 32 2), pb_download_key = BlobSigningKey (replicate 32 3),
     pb_renew_key = BlobSigningKey (replicate 32 4), pb_delete_key = BlobSigningKey (replicate 32 5)\<rparr>"

lemma ex_object_sealed:
  assumes "blob_primitives pr"
  shows "fst (seal_blob pr [1, 2, 3] 64 7) = Some (Inr (ex_object pr))" and "wf_BlobManifest (eb_manifest (ex_object pr))"
    and "eb_blob_id (ex_object pr) = blob_identify pr (eb_manifest (ex_object pr))"
    and "bm_chunk_size (eb_manifest (ex_object pr)) = 64"
    and "bm_digests (eb_manifest (ex_object pr)) = map (pr_sha256 pr) (eb_chunks (ex_object pr))"
    and "list_all (\<lambda>c. length c = 80) (eb_chunks (ex_object pr))" and "unat (bm_padded_size (eb_manifest (ex_object pr))) = 64"
    and "open_blob pr (eb_key (ex_object pr)) (eb_blob_id (ex_object pr)) (eb_manifest (ex_object pr)) (eb_chunks (ex_object pr))
      = Some (Inr [1, 2, 3])"
proof -
  have "padded_size_of (length [1 :: u8, 2, 3]) 64 = Inr 64"
    by (simp add: padded_size_of_def is_power_of_two_def u64_max_def blob_bounds next_power_of_two_def doubled_to.simps)
  from seal_blob_opens [OF assms this, of 7] obtain e where e: "fst (seal_blob pr [1, 2, 3] 64 7) = Some (Inr e)"
      "wf_BlobManifest (eb_manifest e)" "eb_blob_id e = blob_identify pr (eb_manifest e)" "bm_chunk_size (eb_manifest e) = 64"
      "bm_digests (eb_manifest e) = map (pr_sha256 pr) (eb_chunks e)" "list_all (\<lambda>c. length c = 80) (eb_chunks e)"
      "unat (bm_padded_size (eb_manifest e)) = 64"
      "open_blob pr (eb_key e) (eb_blob_id e) (eb_manifest e) (eb_chunks e) = Some (Inr [1, 2, 3])"
    by auto
  then have "ex_object pr = e" by (simp add: ex_object_def)
  with e show "fst (seal_blob pr [1, 2, 3] 64 7) = Some (Inr (ex_object pr))" "wf_BlobManifest (eb_manifest (ex_object pr))"
    "eb_blob_id (ex_object pr) = blob_identify pr (eb_manifest (ex_object pr))"
    "bm_chunk_size (eb_manifest (ex_object pr)) = 64"
    "bm_digests (eb_manifest (ex_object pr)) = map (pr_sha256 pr) (eb_chunks (ex_object pr))"
    "list_all (\<lambda>c. length c = 80) (eb_chunks (ex_object pr))" "unat (bm_padded_size (eb_manifest (ex_object pr))) = 64"
    "open_blob pr (eb_key (ex_object pr)) (eb_blob_id (ex_object pr)) (eb_manifest (ex_object pr)) (eb_chunks (ex_object pr))
      = Some (Inr [1, 2, 3])" by simp_all
qed

lemma seal_blob_key: "fst (seal_blob pr plaintext chunk_size rng) = Some (Inr e) \<Longrightarrow> eb_key e = fst (ObjectKey_generate pr rng)"
  by (auto simp: seal_blob_def Let_def res_simps split: sum.splits option.splits prod.splits)

lemma ex_blob_wf:
  assumes "blob_primitives pr"
  shows "wf_blob pr (ex_blob pr)"
proof -
  note e = ex_object_sealed [OF assms]
  have "length (ObjectKey_bytes (eb_key (ex_object pr))) = 32"
    unfolding seal_blob_key [OF e(1)] using blob_primitivesD(4) [OF assms, of 32 7]
    by (auto simp: ObjectKey_generate_def split: prod.split)
  moreover have "length (eb_chunks (ex_object pr)) = BlobManifest_chunk_count (eb_manifest (ex_object pr))"
    using e(5) by (simp add: BlobManifest_chunk_count_def)
  ultimately show ?thesis
    using e(2,3,6,8) by (auto simp: wf_blob_def ex_blob_def wf_UploadId_def e(4) list_all_iff)
qed

definition ex_store :: "bytes option upload_store" where
  "ex_store s bs = (Inr (), Some bs)"

lemma ex_store_laws: "upload_store_laws ex_store (\<lambda>s. s)"
  by (simp add: upload_store_laws_def ex_store_def)

lemma ex_ids_wf: "wf_RequestId (fst (ex_ids j))"
  by (simp add: ex_ids_def wf_RequestId_def)

definition lost :: "unit transport" where
  "lost t f = (Inl TransportError, t)"

text \<open>A transport that loses every answer, and a restart after the first attempt.\<close>

theorem upload_sends_once_witness:
  "\<exists>u s f f'. upload_run ex_ed ex_primitives lost ex_ids ex_store (\<lambda>s. s) (ex_blob ex_primitives) 60 u s [(UsBegin, f), (UsBegin, f')] 0 \<and> f = f'"
proof -
  let ?run = "upload_run ex_ed ex_primitives lost ex_ids ex_store (\<lambda>s. s) (ex_blob ex_primitives) 60"
  let ?u = "PreparedBlob_uploader (ex_blob ex_primitives) 60"
  have sha: "length (pr_sha256 ex_primitives x) = 32" for x
    by (simp add: ex_primitives_def)
  have wf: "wf_uploader ex_ed ex_primitives ?u" "bu_stage ?u \<noteq> UsComplete" "bu_stage ?u = UsBegin"
    using ex_blob_wf [OF ex_primitives_laws] by (simp_all add: wf_uploader_def PreparedBlob_uploader_def)
  obtain u1 i' where wp: "with_pending ex_ed ex_ids ?u 0 = (Inr u1, i')"
    by (rule with_pending_total [OF wf(1,2)])
  obtain p where u1: "wf_uploader ex_ed ex_primitives u1" "u1 = ?u\<lparr>bu_pending := Some p\<rparr>"
    using with_pending_ok [OF ex_ed_laws sha wf(1,2) ex_ids_wf wp] by blast
  have p: "bu_pending u1 = Some p" "bu_stage u1 = UsBegin" "bu_blob u1 = ex_blob ex_primitives"
    using wf(3) by (simp_all add: u1(2) PreparedBlob_uploader_def)
  have adv: "BlobUploader_advance ex_ed (logged lost) ex_ids ex_store ?u (((), []), 0, None)
      = (Inl BceTransport, u1, ((), [pe_bytes p]), i', Some (encode_upload_state u1))"
    using wf(2) by (simp add: BlobUploader_advance_def wp ex_store_def p(1) logged_def lost_def)
  have adv': "BlobUploader_advance ex_ed (logged lost) ex_ids ex_store u1 (((), []), 0, Some (encode_upload_state u1))
      = (Inl BceTransport, u1, ((), [pe_bytes p]), 0, Some (encode_upload_state u1))"
    by (simp add: BlobUploader_advance_def with_pending_def ex_store_def p logged_def lost_def)
  have re: "BlobUploader_restore ex_ed ex_primitives (encode_upload_state u1) (PreparedBlob_upload_identity ex_ed (ex_blob ex_primitives)) = Inr u1"
    using decode_upload_state_complete [OF u1(1)] by (simp add: BlobUploader_restore_def p(3))
  have "?run ?u None [] 0" by (rule upload_run.start) simp
  from upload_run.advance [OF this adv] have "?run u1 (Some (encode_upload_state u1)) [(UsBegin, pe_bytes p)] 0"
    by (simp add: wf(3))
  from upload_run.restart [OF this refl re] have "?run u1 (Some (encode_upload_state u1)) [(UsBegin, pe_bytes p)] 0" .
  from upload_run.advance [OF this adv'] have run: "?run u1 (Some (encode_upload_state u1)) [(UsBegin, pe_bytes p), (UsBegin, pe_bytes p)] 0"
    by (simp add: p(2))
  with upload_sends_once [OF ex_ed_laws sha ex_ids_wf ex_store_laws ex_blob_wf [OF ex_primitives_laws] _ run] show ?thesis by auto
qed

text \<open>A relay that answers every upload request.\<close>

definition ex_answer :: "BlobCommand \<Rightarrow> BlobResponseBody" where
  "ex_answer c = (case c of BcBeginUpload \<Rightarrow> BrbBeginUpload BwStored | BcPutChunk \<Rightarrow> BrbPutChunk BwStored | _ \<Rightarrow> BrbCommit 100)"

definition ex_upload_relay :: "unit transport" where
  "ex_upload_relay t f =
     (case decode_blob_request f of
        Inl _ \<Rightarrow> (Inl TransportError, t)
      | Inr d \<Rightarrow> (Inr (encode_blob_response \<lparr>brsf_request_id = brf_request_id (dbr_frame d),
             brsf_response = \<lparr>br_command = Some (BlobRequest_command (brf_request (dbr_frame d))), br_status = BsOk,
               br_body = Some (ex_answer (BlobRequest_command (brf_request (dbr_frame d))))\<rparr>\<rparr>), t))"

lemma ex_upload_relay_answers: "answers_uploads ex_upload_relay"
proof -
  have "BlobResponseBody_command (ex_answer c) = c" if "c \<in> {BcBeginUpload, BcPutChunk, BcCommit}" for c
    using that by (auto simp: ex_answer_def)
  then have "BlobResponseBody_command (ex_answer (BlobRequest_command (brf_request (dbr_frame d)))) = BlobRequest_command (brf_request (dbr_frame d))"
    if "BlobRequest_command (brf_request (dbr_frame d)) \<in> {BcBeginUpload, BcPutChunk, BcCommit}" for d using that by blast
  then show ?thesis
    unfolding answers_uploads_def
    by (intro allI impI exI conjI) (assumption | simp add: ex_upload_relay_def)+
qed

theorem upload_terminates_witness:
  "bu_stage (drive_upload ex_ed ex_upload_relay ex_ids ex_store (chunk_total (ex_blob ex_primitives) + 2)
      (PreparedBlob_uploader (ex_blob ex_primitives) 60) ((), 0, None)) = UsComplete
    \<and> bu_stage (drive_upload ex_ed ex_upload_relay ex_ids ex_store (chunk_total (ex_blob ex_primitives) + 1)
      (PreparedBlob_uploader (ex_blob ex_primitives) 60) ((), 0, None)) \<noteq> UsComplete"
proof -
  have sha: "length (pr_sha256 ex_primitives x) = 32" for x
    by (simp add: ex_primitives_def)
  have "upload_run ex_ed ex_primitives lost ex_ids ex_store (\<lambda>s. s) (ex_blob ex_primitives) 60
      (PreparedBlob_uploader (ex_blob ex_primitives) 60) None [] 0"
    by (rule upload_run.start) simp
  from upload_terminates [OF ex_ed_laws sha ex_ids_wf ex_store_laws ex_blob_wf [OF ex_primitives_laws] _ this ex_upload_relay_answers, of ex_store]
  have "\<forall>k \<le> chunk_total (ex_blob ex_primitives) + 2.
      bu_stage (drive_upload ex_ed ex_upload_relay ex_ids ex_store k (PreparedBlob_uploader (ex_blob ex_primitives) 60) ((), 0, None)) = UsComplete
      \<longleftrightarrow> k = chunk_total (ex_blob ex_primitives) + 2"
    by (simp add: ex_store_def PreparedBlob_uploader_def del: drive_upload.simps)
  then show ?thesis by (simp del: drive_upload.simps add_2_eq_Suc')
qed

end
