(* ===== verification/CW_Blob_Download.thy ===== *)
theory CW_Blob_Download
  imports CW_Blob_Upload
begin

text \<open>
  The download of \<open>crates/cofferwire-client/src/blob.rs\<close>: from a relay that serves the object it succeeds,
  and from any relay it yields the original object or an error.
\<close>

section \<open>Downloads\<close>

lemma blob_client_exchange_Inr:
  assumes "blob_client_exchange ed exchange next_id key request w = (Inr body, w')"
  shows "wf_BlobResponseBody body"
  using assms
  by (auto simp: blob_client_exchange_def Let_def checked_body_def res_simps decode_blob_response_exact wf_BlobResponseFrame_def wf_BlobResponse_def
      ok_or_def split: prod.splits sum.splits option.splits if_splits)

text \<open>The digests of the given inputs occur for no other input: what a collision-resistant hash provides.\<close>

definition unique_digests :: "'g Primitives \<Rightarrow> bytes list \<Rightarrow> bool" where
  "unique_digests pr xs \<longleftrightarrow> (\<forall>x \<in> set xs. \<forall>y. pr_sha256 pr y = pr_sha256 pr x \<longrightarrow> y = x)"

lemma seal_blob_size:
  "fst (seal_blob pr plaintext chunk_size rng) = Some (Inr e) \<Longrightarrow> \<exists>padded. padded_size_of (length plaintext) chunk_size = Inr padded"
  by (auto simp: seal_blob_def split: sum.splits)

lemma wf_manifest_same_bytes: "wf_BlobManifest m \<Longrightarrow> wf_BlobManifest m' \<Longrightarrow> bm_bytes m = bm_bytes m' \<Longrightarrow> m = m'"
  by (metis sum.inject(2) wf_BlobManifest_def)

text \<open>What opens under the identity of an object with unique digests is that object.\<close>

lemma opened_same_object:
  assumes "wf_BlobManifest m" and "wf_BlobManifest m'" and "unique_digests pr ((BLOB_IDENTITY_DOMAIN @ bm_bytes m) # chunks)"
    and "bm_digests m = map (pr_sha256 pr) chunks"
    and "open_blob pr key (blob_identify pr m) m' chunks' = Some (Inr plaintext)"
  shows "m' = m \<and> chunks' = chunks"
proof -
  note opened = assms(5) [unfolded open_blob_Inr]
  have "pr_sha256 pr (BLOB_IDENTITY_DOMAIN @ bm_bytes m') = pr_sha256 pr (BLOB_IDENTITY_DOMAIN @ bm_bytes m)"
    using opened by (simp add: blob_identify_def)
  then have "BLOB_IDENTITY_DOMAIN @ bm_bytes m' = BLOB_IDENTITY_DOMAIN @ bm_bytes m"
    using assms(3) unfolding unique_digests_def by (meson list.set_intros(1))
  then have m: "m' = m"
    using wf_manifest_same_bytes [OF assms(2,1)] by simp
  have len: "length chunks' = length chunks"
    using opened m assms(4) by (simp add: BlobManifest_chunk_count_def)
  moreover have "chunks' ! i = chunks ! i" if "i < length chunks" for i
  proof -
    have "BlobManifest_digest m i = Some (pr_sha256 pr (chunks' ! i))"
      using opened that len by (auto simp: m list_all_length chunk_opens_def)
    then have "pr_sha256 pr (chunks' ! i) = pr_sha256 pr (chunks ! i)"
      using that assms(4) by (simp add: BlobManifest_digest_def get_at_def)
    then show ?thesis
      using assms(3) that unfolding unique_digests_def by (meson list.set_intros(2) nth_mem)
  qed
  ultimately show ?thesis using m by (simp add: list_eq_iff_nth_eq)
qed

text \<open>
  C40: a download is the uploaded object or an error. Whatever the relay answers, a download that returns a
  plaintext returns the one the object was sealed from, provided the digests of the object's manifest
  and chunks have no second input.
\<close>

theorem download_returns_original:
  assumes "blob_primitives pr" and "fst (seal_blob pr plaintext chunk_size rng) = Some (Inr (pb_encrypted prepared))"
    and "unique_digests pr ((BLOB_IDENTITY_DOMAIN @ bm_bytes (eb_manifest (pb_encrypted prepared))) # eb_chunks (pb_encrypted prepared))"
    and "download_blob ed pr exchange next_id prepared w = (Inr result, w')"
  shows "result = plaintext"
proof -
  let ?e = "pb_encrypted prepared"
  obtain padded where "padded_size_of (length plaintext) chunk_size = Inr padded"
    using seal_blob_size [OF assms(2)] by blast
  from seal_blob_opens [OF assms(1) this, of rng] assms(2)
  have e: "wf_BlobManifest (eb_manifest ?e)" "eb_blob_id ?e = blob_identify pr (eb_manifest ?e)"
      "bm_digests (eb_manifest ?e) = map (pr_sha256 pr) (eb_chunks ?e)"
      "open_blob pr (eb_key ?e) (eb_blob_id ?e) (eb_manifest ?e) (eb_chunks ?e) = Some (Inr plaintext)"
    by auto
  obtain m expiry w1 chunks where m: "wf_BlobManifest m"
      and op: "the (open_blob pr (eb_key ?e) (blob_identify pr (eb_manifest ?e)) m chunks) = Inr result"
    using assms(4) unfolding e(2) [symmetric]
    by (fastforce simp: download_blob_def res_simps dest!: blob_client_exchange_Inr split: prod.splits sum.splits BlobResponseBody.splits)
  obtain k where "derive_key pr (eb_key ?e) (bm_object_salt m) = Some k"
    using blob_primitivesD(2) [OF assms(1)] unfolding derive_key_def by blast
  then have some: "open_blob pr (eb_key ?e) (blob_identify pr (eb_manifest ?e)) m chunks = Some (Inr result)"
    using op by (cases "open_blob pr (eb_key ?e) (blob_identify pr (eb_manifest ?e)) m chunks") (auto simp: open_blob_def Let_def split: if_splits)
  from opened_same_object [OF e(1) m assms(3) e(3) some] some e(4) e(2) show ?thesis by simp
qed

section \<open>A relay that serves an object\<close>

definition serves_object :: "'t transport \<Rightarrow> BlobId \<Rightarrow> BlobManifest \<Rightarrow> bytes list \<Rightarrow> bool" where
  "serves_object exchange blob_id m chunks \<longleftrightarrow>
     (\<forall>t f d cap. decode_blob_request f = Inr d \<longrightarrow> brf_request (dbr_frame d) = BrGetManifest blob_id cap \<longrightarrow>
        (\<exists>expiry. fst (exchange t f) = Inr (encode_blob_response \<lparr>brsf_request_id = brf_request_id (dbr_frame d),
           brsf_response = \<lparr>br_command = Some BcGetManifest, br_status = BsOk, br_body = Some (BrbGetManifest m expiry)\<rparr>\<rparr>)))
     \<and> (\<forall>t f d cap i. decode_blob_request f = Inr d \<longrightarrow> brf_request (dbr_frame d) = BrGetChunk blob_id cap i \<longrightarrow> unat i < length chunks \<longrightarrow>
        (\<exists>expiry. fst (exchange t f) = Inr (encode_blob_response \<lparr>brsf_request_id = brf_request_id (dbr_frame d),
           brsf_response = \<lparr>br_command = Some BcGetChunk, br_status = BsOk, br_body = Some (BrbGetChunk (chunks ! unat i) expiry)\<rparr>\<rparr>)))"

lemma client_exchange_answered:
  assumes "ed25519_laws ed" and "\<And>j. wf_RequestId (fst (next_id j))" and "wf_BlobRequest request"
    and body: "\<And>body. P body \<Longrightarrow> wf_BlobResponseBody body \<and> BlobResponseBody_command body = BlobRequest_command request"
    and answer: "\<And>t f d. decode_blob_request f = Inr d \<Longrightarrow> brf_request (dbr_frame d) = request \<Longrightarrow>
      \<exists>body. P body \<and> fst (exchange t f) = Inr (encode_blob_response \<lparr>brsf_request_id = brf_request_id (dbr_frame d),
        brsf_response = \<lparr>br_command = Some (BlobRequest_command request), br_status = BsOk, br_body = Some body\<rparr>\<rparr>)"
  obtains body w' where "P body" "blob_client_exchange ed exchange next_id key request w = (Inr body, w')"
proof -
  obtain t i where w: "w = (t, i)" by (cases w)
  obtain rid i' where i: "next_id i = (rid, i')" by (cases "next_id i")
  have rid: "wf_RequestId rid" using assms(2) [of i] i by simp
  obtain auth where d: "decode_blob_request (signed_blob ed key rid request)
      = Inr \<lparr>dbr_frame = \<lparr>brf_request_id = rid, brf_request = request, brf_auth = auth\<rparr>,
          dbr_authenticated_bytes = encode_blob_authenticated_request rid request\<rparr>"
    using signed_blob_decodes [OF assms(1) rid assms(3)] by blast
  obtain body t' where "P body" and ex: "exchange t (signed_blob ed key rid request) = (Inr (encode_blob_response \<lparr>brsf_request_id = rid,
        brsf_response = \<lparr>br_command = Some (BlobRequest_command request), br_status = BsOk, br_body = Some body\<rparr>\<rparr>), t')"
    using answer [OF d, of t] by (cases "exchange t (signed_blob ed key rid request)") auto
  note b = body [OF \<open>P body\<close>]
  have "blob_client_exchange ed exchange next_id key request w = (Inr body, t', i')"
    using checked_body_encoded [OF rid, of body] b by (simp add: blob_client_exchange_def w i ex ok_or_def)
  with \<open>P body\<close> that show thesis by blast
qed

lemma download_chunks_served:
  assumes env: "ed25519_laws ed" "\<And>j. wf_RequestId (fst (next_id j))" "wf_BlobId (eb_blob_id (pb_encrypted blob))"
    and chunks: "\<And>x. x \<in> set chunks \<Longrightarrow> length x \<le> MAX_CHUNK_BYTES + 16" "length chunks < 2 ^ 32"
    and serves: "serves_object exchange (eb_blob_id (pb_encrypted blob)) m chunks" and "\<forall>i \<in> set is. i < length chunks"
  shows "fst (download_chunks ed exchange next_id blob is w) = Inr (map (nth chunks) is)"
  using assms(7)
proof (induction "is" arbitrary: w)
  case (Cons i "is")
  have i: "i < length chunks" "i < 2 ^ 32" "unat (of_nat i :: u32) = i"
    using Cons.prems chunks(2) by (simp_all add: unat_of_nat)
  let ?q = "BrGetChunk (eb_blob_id (pb_encrypted blob)) (BlobSigningKey_capability ed (pb_download_key blob)) (of_nat i)"
  let ?P = "\<lambda>body. \<exists>expiry. body = BrbGetChunk (chunks ! i) expiry"
  have wf: "wf_BlobRequest ?q"
    using env(3) wf_capability [OF env(1)] by simp
  have P: "wf_BlobResponseBody body \<and> BlobResponseBody_command body = BlobRequest_command ?q" if "?P body" for body
    using that chunks(1) i(1) by auto
  have ans: "\<exists>body. ?P body \<and> fst (exchange t f) = Inr (encode_blob_response \<lparr>brsf_request_id = brf_request_id (dbr_frame d),
        brsf_response = \<lparr>br_command = Some (BlobRequest_command ?q), br_status = BsOk, br_body = Some body\<rparr>\<rparr>)"
    if "decode_blob_request f = Inr d" "brf_request (dbr_frame d) = ?q" for t f d
    using serves that i unfolding serves_object_def by (metis BlobRequest_command.simps(5))
  obtain body w' where "?P body" and "blob_client_exchange ed exchange next_id (pb_download_key blob) ?q w = (Inr body, w')"
    by (rule client_exchange_answered [OF env(1,2) wf P ans])
  then obtain expiry where ex: "blob_client_exchange ed exchange next_id (pb_download_key blob) ?q w = (Inr (BrbGetChunk (chunks ! i) expiry), w')"
    by blast
  have "fst (download_chunks ed exchange next_id blob is w') = Inr (map (nth chunks) is)"
    using Cons by simp
  then show ?case
    using i(2) by (cases "download_chunks ed exchange next_id blob is w'") (simp add: ex usize_to_u32_def)
qed simp

lemma download_served:
  assumes "ed25519_laws ed" and "\<And>j. wf_RequestId (fst (next_id j))" and "\<And>x. length (pr_sha256 pr x) = 32" and blob: "wf_blob pr blob"
    and serves: "serves_object exchange (eb_blob_id (pb_encrypted blob)) (eb_manifest (pb_encrypted blob)) (eb_chunks (pb_encrypted blob))"
  shows "fst (download_blob ed pr exchange next_id blob w)
    = map_err (\<lambda>_. BceCrypto) (the (open_blob pr (eb_key (pb_encrypted blob)) (eb_blob_id (pb_encrypted blob))
        (eb_manifest (pb_encrypted blob)) (eb_chunks (pb_encrypted blob))))"
proof -
  let ?e = "pb_encrypted blob"
  let ?q = "BrGetManifest (eb_blob_id ?e) (BlobSigningKey_capability ed (pb_download_key blob))"
  let ?P = "\<lambda>body. \<exists>expiry. body = BrbGetManifest (eb_manifest ?e) expiry"
  have e: "wf_BlobManifest (eb_manifest ?e)" "length (eb_chunks ?e) = BlobManifest_chunk_count (eb_manifest ?e)" "wf_BlobId (eb_blob_id ?e)"
    using blob assms(3) by (auto simp: wf_blob_def blob_identify_def wf_BlobId_def)
  note b = wf_manifest_bounds [OF e(1)]
  have small: "length (eb_chunks ?e) < 2 ^ 32"
    using e(2) b(2) by (simp add: MAX_CHUNKS_def)
  have chunk: "length x \<le> MAX_CHUNK_BYTES + 16" if "x \<in> set (eb_chunks ?e)" for x
    using blob b(3) that by (auto simp: wf_blob_def dest: bspec)
  have wf: "wf_BlobRequest ?q"
    using e(3) wf_capability [OF assms(1)] by simp
  have P: "wf_BlobResponseBody body \<and> BlobResponseBody_command body = BlobRequest_command ?q" if "?P body" for body
    using that e(1) by auto
  have ans: "\<exists>body. ?P body \<and> fst (exchange t f) = Inr (encode_blob_response \<lparr>brsf_request_id = brf_request_id (dbr_frame d),
        brsf_response = \<lparr>br_command = Some (BlobRequest_command ?q), br_status = BsOk, br_body = Some body\<rparr>\<rparr>)"
    if "decode_blob_request f = Inr d" "brf_request (dbr_frame d) = ?q" for t f d
    using serves that unfolding serves_object_def by (metis BlobRequest_command.simps(4))
  obtain body w' where "?P body" and "blob_client_exchange ed exchange next_id (pb_download_key blob) ?q w = (Inr body, w')"
    by (rule client_exchange_answered [OF assms(1,2) wf P ans])
  then obtain expiry where ex: "blob_client_exchange ed exchange next_id (pb_download_key blob) ?q w = (Inr (BrbGetManifest (eb_manifest ?e) expiry), w')"
    by blast
  have "fst (download_chunks ed exchange next_id blob [0..<length (eb_chunks ?e)] w') = Inr (map (nth (eb_chunks ?e)) [0..<length (eb_chunks ?e)])"
    by (rule download_chunks_served [OF assms(1,2) e(3) chunk small serves]) simp_all
  then show ?thesis
    by (cases "download_chunks ed exchange next_id blob [0..<length (eb_chunks ?e)] w'") (simp add: download_blob_def ex e(2) [symmetric] map_nth)
qed

lemma wf_manifest_product:
  assumes "wf_BlobManifest m"
  shows "BlobManifest_chunk_count m * unat (bm_chunk_size m) = unat (bm_padded_size m)"
proof -
  obtain count where lim: "limits_valid (bm_padded_size m) (bm_chunk_size m) count"
      and len: "length (bm_bytes m) = 40 + unat count * 32" and dg: "bm_digests m = chunks_exact 32 (drop 40 (bm_bytes m))"
    using assms [unfolded wf_BlobManifest_def BlobManifest_parse_Inr] by (metis BlobManifest.select_convs(5))
  have "BlobManifest_chunk_count m = unat count"
    using len by (simp add: BlobManifest_chunk_count_def dg length_chunks_exact)
  with limits_valid_product [OF lim] show ?thesis by simp
qed

text \<open>The digest function enters a sealed object only through the manifest.\<close>

lemma seal_chunks_sha:
  "seal_chunks (pr\<lparr>pr_sha256 := h\<rparr>) key salt padded chunk count xs =
     map_ok (\<lambda>(chunks, digests). (chunks, map h chunks)) (seal_chunks pr key salt padded chunk count xs)"
  by (induction pr key salt padded chunk count xs rule: seal_chunks.induct)
    (auto simp: res_bind_def map_ok_def ok_or_def split: sum.splits prod.splits option.splits)

lemma seal_blob_sha:
  assumes "fst (seal_blob pr plaintext chunk rng) = Some (Inr e)"
    and "fst (seal_blob (pr\<lparr>pr_sha256 := h\<rparr>) plaintext chunk rng) = Some (Inr e')"
  shows "eb_chunks e' = eb_chunks e"
  using assms
  by (auto simp: seal_blob_def Let_def ObjectKey_generate_def derive_key_def seal_chunks_sha res_simps
      split: sum.splits option.splits prod.splits)

lemma seal_blob_sha_manifest:
  assumes "fst (seal_blob (pr\<lparr>pr_sha256 := h\<rparr>) plaintext chunk rng) = Some (Inr e)"
    and "fst (seal_blob (pr\<lparr>pr_sha256 := h'\<rparr>) plaintext chunk rng) = Some (Inr e')"
    and "map h (eb_chunks e) = map h' (eb_chunks e)"
  shows "eb_manifest e' = eb_manifest e"
  using assms
  by (auto simp: seal_blob_def Let_def ObjectKey_generate_def derive_key_def seal_chunks_sha res_simps
      simp del: map_eq_conv split: sum.splits option.splits prod.splits)

definition ex_digest :: "bytes \<Rightarrow> bytes \<Rightarrow> bytes \<Rightarrow> bytes" where
  "ex_digest c ident x = (if x = c then replicate 32 1 else if x = ident then replicate 32 2 else replicate 32 0)"

abbreviation ex_with :: "bytes \<Rightarrow> bytes \<Rightarrow> u8 Primitives" where
  "ex_with c ident \<equiv> ex_primitives\<lparr>pr_sha256 := ex_digest c ident\<rparr>"

lemma ex_with_laws: "blob_primitives (ex_with c ident)"
  using ex_primitives_laws by (simp add: blob_primitives_def ex_digest_def)

text \<open>Primitives under which the digests of the object have no second input.\<close>

lemma ex_unique:
  obtains c ident where "unique_digests (ex_with c ident)
    ((BLOB_IDENTITY_DOMAIN @ bm_bytes (eb_manifest (ex_object (ex_with c ident)))) # eb_chunks (ex_object (ex_with c ident)))"
proof -
  note e = ex_object_sealed [OF ex_primitives_laws]
  have "BlobManifest_chunk_count (eb_manifest (ex_object ex_primitives)) = 1"
    using wf_manifest_product [OF e(2)] e(4,7) by simp
  then obtain c where c: "eb_chunks (ex_object ex_primitives) = [c]"
    using e(5) by (auto simp: BlobManifest_chunk_count_def length_Suc_conv)
  have chunks: "eb_chunks (ex_object (ex_with c ident)) = [c]" for ident
    using seal_blob_sha [OF e(1) ex_object_sealed(1) [OF ex_with_laws]] c by simp
  define ident where "ident = BLOB_IDENTITY_DOMAIN @ bm_bytes (eb_manifest (ex_object (ex_with c [])))"
  have "eb_manifest (ex_object (ex_with c ident)) = eb_manifest (ex_object (ex_with c []))"
    by (rule seal_blob_sha_manifest [OF ex_object_sealed(1) ex_object_sealed(1), OF ex_with_laws ex_with_laws])
      (simp add: chunks ex_digest_def)
  then have "unique_digests (ex_with c ident)
      ((BLOB_IDENTITY_DOMAIN @ bm_bytes (eb_manifest (ex_object (ex_with c ident)))) # eb_chunks (ex_object (ex_with c ident)))"
    by (auto simp: unique_digests_def chunks ex_digest_def ident_def split: if_splits)
  then show thesis by (rule that)
qed

definition ex_server :: "EncryptedBlob \<Rightarrow> unit transport" where
  "ex_server e t f =
     (case decode_blob_request f of
        Inl _ \<Rightarrow> (Inl TransportError, t)
      | Inr d \<Rightarrow>
          let respond = (\<lambda>body. (Inr (encode_blob_response \<lparr>brsf_request_id = brf_request_id (dbr_frame d),
             brsf_response = \<lparr>br_command = Some (BlobResponseBody_command body), br_status = BsOk, br_body = Some body\<rparr>\<rparr>), t)) in
          case brf_request (dbr_frame d) of
            BrGetManifest _ _ \<Rightarrow> respond (BrbGetManifest (eb_manifest e) 100)
          | BrGetChunk _ _ i \<Rightarrow> respond (BrbGetChunk (eb_chunks e ! unat i) 100)
          | _ \<Rightarrow> (Inl TransportError, t))"

lemma ex_server_serves: "serves_object (ex_server e) blob_id (eb_manifest e) (eb_chunks e)"
  by (auto simp: serves_object_def ex_server_def Let_def)

theorem download_returns_original_witness:
  "\<exists>pr. blob_primitives pr \<and> (\<exists>result w. download_blob ex_ed pr (ex_server (ex_object pr)) ex_ids (ex_blob pr) ((), 0) = (Inr result, w)
    \<and> result = [1, 2, 3])"
proof -
  obtain c ident where unique: "unique_digests (ex_with c ident)
    ((BLOB_IDENTITY_DOMAIN @ bm_bytes (eb_manifest (ex_object (ex_with c ident)))) # eb_chunks (ex_object (ex_with c ident)))"
    by (rule ex_unique)
  define pr where "pr = ex_with c ident"
  have laws: "blob_primitives pr" by (simp add: pr_def ex_with_laws)
  note e = ex_object_sealed [OF laws]
  have sealed: "fst (seal_blob pr [1, 2, 3] 64 7) = Some (Inr (pb_encrypted (ex_blob pr)))"
    using e(1) by (simp add: ex_blob_def)
  note original = download_returns_original [OF laws sealed]
  have u: "unique_digests pr ((BLOB_IDENTITY_DOMAIN @ bm_bytes (eb_manifest (pb_encrypted (ex_blob pr)))) # eb_chunks (pb_encrypted (ex_blob pr)))"
    using unique by (simp add: pr_def ex_blob_def)
  have "fst (download_blob ex_ed pr (ex_server (ex_object pr)) ex_ids (ex_blob pr) ((), 0)) = Inr [1, 2, 3]"
    using download_served [OF ex_ed_laws ex_ids_wf blob_primitivesD(1) [OF laws] ex_blob_wf [OF laws], of "ex_server (ex_object pr)"]
      ex_server_serves e(8) by (simp add: ex_blob_def)
  then obtain result w where "download_blob ex_ed pr (ex_server (ex_object pr)) ex_ids (ex_blob pr) ((), 0) = (Inr result, w)"
    by (metis prod.collapse)
  with laws original [OF u this] show ?thesis by blast
qed

end
