(* ===== verification/CW_Service_Refines.thy ===== *)
theory CW_Service_Refines
  imports CW_Service
begin

text \<open>
  The service of \<open>apps/cofferwired/src/lib.rs\<close> against the mailbox specification: what a served frame does
  to the queues, and that a run of the service over any frames and faults answers the requests it executes
  as the specification does.
\<close>

section \<open>Requests as commands of the specification\<close>

fun request_event :: "Request \<Rightarrow> RelayEvent" where
  "request_event (ReqCreateQueue create) = EvCreate (cq_queue_id create)
     \<lparr>qc_sender = cq_sender create, qc_recipient = cq_recipient create,
      qc_limits = \<lparr>rl_max_messages = ql_max_messages (cq_limits create), rl_max_message_bytes = ql_max_message_bytes (cq_limits create)\<rparr>\<rparr>"
| "request_event (ReqSend send) = EvSend (sr_queue_id send) (sr_sender send) (sr_message_id send) (Payload_bytes (sr_payload send))
     (RelayTtl (Ttl_as_secs (sr_ttl send)))"
| "request_event (ReqFetch fetch) = EvFetch (fr_queue_id fetch) (fr_recipient fetch)"
| "request_event (ReqAck ack) = EvAck (ar_queue_id ack) (ar_recipient ack) (ar_message_id ack)"
| "request_event (ReqDeleteQueue delete) = EvDelete (dq_queue_id delete) (dq_recipient delete)"

fun outcome_body :: "RelayOutcome \<Rightarrow> (RelayError, ResponseBody) result" where
  "outcome_body (OutErr e) = Inl e"
| "outcome_body (OutCreate outcome) = Inr (RespCreateQueue outcome)"
| "outcome_body (OutSend outcome) = Inr (RespSend outcome)"
| "outcome_body (OutFetch None) = Inr (RespFetch None)"
| "outcome_body (OutFetch (Some d)) = Inr (RespFetch (Some \<lparr>dl_message_id = rd_id d, dl_payload = Payload (rd_payload d),
     dl_expires_at = rd_expires_at d\<rparr>))"
| "outcome_body OutAck = Inr RespAck"
| "outcome_body OutDelete = Inr RespDeleteQueue"

text \<open>Every queue was created through the wire, so its messages fit a payload.\<close>

definition limits_small :: "Relay \<Rightarrow> bool" where
  "limits_small r \<longleftrightarrow> (\<forall>qid q. queues r qid = Some q \<longrightarrow> unat (rl_max_message_bytes (qc_limits (q_config q))) \<le> MAX_MESSAGE_BYTES)"

fun small_event :: "RelayEvent \<Rightarrow> bool" where
  "small_event (EvCreate q c) \<longleftrightarrow> unat (rl_max_message_bytes (qc_limits c)) \<le> MAX_MESSAGE_BYTES"
| "small_event _ \<longleftrightarrow> True"

lemma relay_step_limits:
  assumes "limits_small r" and "small_event ev"
  shows "limits_small (snd (relay_step r (now, ev)))"
  using assms
  by (cases ev) (auto simp: limits_small_def outcome_of_def Relay_create_queue_def Relay_send_def Relay_fetch_def Relay_acknowledge_def
      Relay_delete_queue_def recipient_queue_def Let_def Queue_discard_expired_def split: option.splits sum.splits list.splits if_splits prod.splits)

lemma request_event_wf:
  assumes "wf_Request request"
  shows "wf_event (request_event request)" and "small_event (request_event request)"
  using assms by (cases request; simp add: wf_QueueLimits_def)+

section \<open>Executing a request\<close>

definition executes :: "Request \<Rightarrow> Timestamp \<Rightarrow> Db \<Rightarrow> (RelayError EffectError, ResponseBody) result \<times> Db \<Rightarrow> bool" where
  "executes request now db p \<longleftrightarrow>
     (case relay_step (db_relay db) (now, request_event request) of (out, r') \<Rightarrow>
        case outcome_body out of
          Inl e \<Rightarrow> fst p = Inl (EffProtocol e)
        | Inr body \<Rightarrow> fst p = Inr body \<and> rows_inv (snd p) \<and> db_relay (snd p) = r')"

lemma fetched_fits:
  assumes "relay_inv r" and "limits_small r" and "fst (Relay_fetch q p now r) = Inr (Some d)"
  shows "length (rd_payload d) \<le> MAX_MESSAGE_BYTES"
proof -
  obtain queue m rest where q: "queues r q = Some queue" and m: "filter (unexpired now) (q_messages queue) = m # rest"
      and d: "rd_payload d = qm_payload m"
    using assms(3) by (auto simp: Relay_fetch_def recipient_queue_def Let_def Queue_discard_expired_def split: option.splits sum.splits list.splits if_splits)
  from m have "m \<in> set (filter (unexpired now) (q_messages queue))" by simp
  then have "m \<in> set (q_messages queue)" by simp
  then have "length (qm_payload m) \<le> unat (rl_max_message_bytes (qc_limits (q_config queue)))"
    using assms(1) q by (auto simp: relay_inv_def queue_inv_def)
  with assms(2) q d show ?thesis by (auto simp: limits_small_def dest: le_trans)
qed

lemma execute_simulates:
  assumes inv: "db_inv db" and small: "limits_small (db_relay db)" and E: "fresh_rowids E"
    and wf: "wf_Request request" and valid: "validate_queue_request request = Inr ()"
  shows "executes request now db (pure_tx (queue_effect (request, now)) E db)"
proof -
  let ?c = "\<lparr>cn_db = db, cn_calls = 0\<rparr>"
  have rows: "rows_inv (cn_db ?c)" and dbi: "db_inv (cn_db ?c)"
    using inv by (simp_all add: db_inv_def)
  show ?thesis
  proof (cases request)
    case (ReqCreateQueue create)
    have "simulates (Relay_create_queue (cq_queue_id create) \<lparr>qc_sender = cq_sender create, qc_recipient = cq_recipient create,
        qc_limits = \<lparr>rl_max_messages = ql_max_messages (cq_limits create), rl_max_message_bytes = ql_max_message_bytes (cq_limits create)\<rparr>\<rparr> (db_relay db))
      (create_queue_tx (faultless E) (cq_queue_id create) \<lparr>qc_sender = cq_sender create, qc_recipient = cq_recipient create,
        qc_limits = \<lparr>rl_max_messages = ql_max_messages (cq_limits create), rl_max_message_bytes = ql_max_message_bytes (cq_limits create)\<rparr>\<rparr> ?c)"
      using create_queue_tx_simulates [OF rows] wf by (simp add: ReqCreateQueue wf_QueueLimits_def)
    then show ?thesis
      using wf by (auto simp: executes_def ReqCreateQueue pure_tx_def seen_def tx_bind_def tx_map_err_def tx_res_def tx_return_def
          RelayQueueLimits_new_def wf_QueueLimits_def outcome_of_def simulates_def queue_effect_error_def split: sum.splits prod.splits)
  next
    case (ReqSend send)
    have "simulates (Relay_send (sr_queue_id send) (sr_sender send) (sr_message_id send) (Payload_bytes (sr_payload send)) now
        (RelayTtl (Ttl_as_secs (sr_ttl send))) (db_relay db))
      (send_tx (faultless E) (sr_queue_id send) (sr_sender send) (sr_message_id send) (Payload_bytes (sr_payload send)) now
        (RelayTtl (Ttl_as_secs (sr_ttl send))) ?c)"
      using send_tx_simulates [OF dbi E] wf by (simp add: ReqSend)
    moreover have "RelayTtl_from_secs (Ttl_as_secs (sr_ttl send)) = Some (RelayTtl (Ttl_as_secs (sr_ttl send)))"
      using valid by (auto simp: ReqSend RelayTtl_from_secs_def map_ok_def ok_or_def split: if_splits)
    ultimately show ?thesis
      by (auto simp: executes_def ReqSend pure_tx_def seen_def tx_bind_def tx_map_err_def tx_res_def tx_return_def
          outcome_of_def simulates_def queue_effect_error_def split: sum.splits prod.splits)
  next
    case (ReqFetch fetch)
    let ?f = "Relay_fetch (fr_queue_id fetch) (fr_recipient fetch) now (db_relay db)"
    have sim: "simulates ?f (fetch_tx (faultless E) (fr_queue_id fetch) (fr_recipient fetch) now ?c)"
      using fetch_tx_simulates [OF rows] by simp
    have "length (rd_payload d) \<le> MAX_MESSAGE_BYTES" if "fst ?f = Inr (Some d)" for d
      using fetched_fits [OF _ small that] inv by (simp add: db_inv_def)
    with sim show ?thesis
      by (auto simp: executes_def ReqFetch pure_tx_def seen_def tx_bind_def tx_map_err_def tx_res_def tx_return_def Payload_new_def
          outcome_of_def simulates_def queue_effect_error_def split: sum.splits prod.splits option.splits if_splits)
  next
    case (ReqAck ack)
    have "simulates (Relay_acknowledge (ar_queue_id ack) (ar_recipient ack) (ar_message_id ack) now (db_relay db))
      (acknowledge_tx (faultless E) (ar_queue_id ack) (ar_recipient ack) (ar_message_id ack) now ?c)"
      using acknowledge_tx_simulates [OF rows] by simp
    then show ?thesis
      by (auto simp: executes_def ReqAck pure_tx_def seen_def tx_bind_def tx_map_err_def tx_return_def
          outcome_of_def simulates_def queue_effect_error_def split: sum.splits prod.splits)
  next
    case (ReqDeleteQueue delete)
    have "simulates (Relay_delete_queue (dq_queue_id delete) (dq_recipient delete) (db_relay db))
      (delete_queue_tx (faultless E) (dq_queue_id delete) (dq_recipient delete) ?c)"
      using delete_queue_tx_simulates [OF rows] by simp
    then show ?thesis
      by (auto simp: executes_def ReqDeleteQueue pure_tx_def seen_def tx_bind_def tx_map_err_def tx_return_def
          outcome_of_def simulates_def queue_effect_error_def split: sum.splits prod.splits)
  qed
qed

definition relay_ok :: "Db \<Rightarrow> bool" where
  "relay_ok db \<longleftrightarrow> db_inv db \<and> limits_small (db_relay db)"

text \<open>A request that is executed does what the specification does, and its response tells the outcome.\<close>

lemma committed_spec:
  assumes ok: "relay_ok db" and E: "fresh_rowids E" and wf: "wf_Request request" and valid: "validate_queue_request request = Inr ()"
    and eff: "committed_effect (pure_tx (queue_effect (request, now)) E db) encode db = Some (resp, db')"
    and spec: "spec_step (relay_view now (db_relay db)) (now, request_event request) = (out, M')"
  shows "resp = encode (outcome_body out) \<and> relay_ok db' \<and> relay_view now (db_relay db') = M'"
proof -
  let ?r = "db_relay db"
  have relay: "relay_inv ?r" "limits_small ?r" "db_inv db"
    using ok by (simp_all add: relay_ok_def db_inv_def)
  obtain r' where step: "relay_step ?r (now, request_event request) = (out, r')" and view: "relay_view now r' = M'"
    using relay_step_refines [OF relay(1), of now "request_event request"] spec
    by (cases "relay_step ?r (now, request_event request)") auto
  have r': "relay_inv r'" "limits_small r'"
    using relay_store.inv_step [OF relay(1) TrueI, of now "request_event request"]
      relay_step_limits [OF relay(2) request_event_wf(2) [OF wf], of now] by (simp_all add: step)
  note ex = execute_simulates [OF relay(3,2) E wf valid, of now, unfolded executes_def step prod.case]
  show ?thesis
  proof (cases "outcome_body out")
    case (Inl e)
    then have "out = OutErr e"
      by (cases out rule: outcome_body.cases) auto
    then have "relay_view now r' = relay_view now ?r"
      using relay_store.error_keeps_view [OF relay(1) TrueI, of now "request_event request" e] by (simp add: step)
    with ex Inl eff ok view show ?thesis
      by (cases "pure_tx (queue_effect (request, now)) E db") (auto simp: committed_effect_def)
  next
    case (Inr body)
    with ex eff r' view show ?thesis
      by (cases "pure_tx (queue_effect (request, now)) E db") (auto simp: committed_effect_def relay_ok_def db_inv_def)
  qed
qed

section \<open>What else a frame does\<close>

definition queue_tables :: "Db \<Rightarrow> QueueRow list \<times> MessageRow list" where
  "queue_tables db = (db_queues db, db_messages db)"

lemma queue_tables_relay:
  assumes "queue_tables db = queue_tables db'"
  shows "db_relay db = db_relay db'" and "relay_ok db \<longleftrightarrow> relay_ok db'"
proof -
  have eq: "db_queues db = db_queues db'" "db_messages db = db_messages db'"
    using assms by (simp_all add: queue_tables_def)
  show r: "db_relay db = db_relay db'"
    unfolding db_relay_def queue_rows_def message_rows_def eq by (rule refl)
  with eq show "relay_ok db \<longleftrightarrow> relay_ok db'"
    by (simp add: relay_ok_def db_inv_def rows_inv_def)
qed

lemma queue_tables_add [simp]: "queue_tables (add_replay ns row db) = queue_tables db"
  by (cases ns) (simp_all add: queue_tables_def)

lemma execute_blob_preserves_queues: "preserves queue_tables (\<lambda>E. execute_blob_request sha E request now)"
  by (cases request; simp only: execute_blob_request.simps tx_map_ok_def blob_tx_defs Let_def;
      intro preserves_intros; auto simp: queue_tables_def blob_statement_defs Let_def dest: query_optional_same query_row_same
        split: if_splits)

lemma blob_effect_keeps_queues:
  assumes "committed_effect (pure_tx (blob_effect sha256 r) E db) encode db = Some (resp, db')"
  shows "queue_tables db' = queue_tables db"
proof -
  have "preserves queue_tables (blob_effect sha256 r)"
    by (rule preserves_map_err [OF execute_blob_preserves_queues])
  then have "queue_tables (snd (pure_tx (blob_effect sha256 r) E db)) = queue_tables db"
    by (simp add: preserves_def pure_tx_def seen_def)
  with assms show ?thesis
    by (auto simp: committed_effect_def split: prod.splits sum.splits EffectError.splits)
qed

section \<open>Serving a frame\<close>

text \<open>The request a served frame executed: the frame was answered and its key had no record.\<close>

fun executed_frame :: "Ed25519 \<Rightarrow> Connection \<Rightarrow> frame_call \<Rightarrow> (ExchangeError, bytes) result \<Rightarrow> RequestFrame option" where
  "executed_frame ed c (NsBlob, bs, now) r = None"
| "executed_frame ed c (NsQueue, bs, now) r =
     (case (queue_fixed_answer ed bs, decode_request bs, r) of
        (None, Inr d, Inr _) \<Rightarrow>
          if Namespace_select NsQueue (Principal_bytes (request_principal (rf_request (dr_frame d)))) (rf_request_id (dr_frame d))
               (cn_db c) = []
          then Some (dr_frame d) else None
      | _ \<Rightarrow> None)"

definition frame_outcome :: "RequestFrame \<Rightarrow> RelayOutcome \<Rightarrow> bytes" where
  "frame_outcome f out = encode_queue_outcome (rf_request_id f) (Request_command (rf_request f)) (outcome_body out)"

abbreviation service_ok :: "RelayService \<Rightarrow> bool" where
  "service_ok sv \<equiv> relay_ok (cn_db (sv_relay sv))"

abbreviation service_view :: "Timestamp \<Rightarrow> RelayService \<Rightarrow> Mailboxes" where
  "service_view now sv \<equiv> durable_view now (sv_relay sv)"

lemma serve_unexecuted:
  assumes "serve ed sha256 E sv call = (r, sv')" and "executed_frame ed (sv_relay sv) call r = None"
  shows "queue_tables (cn_db (sv_relay sv')) = queue_tables (cn_db (sv_relay sv))"
proof -
  obtain ns bs now where call: "call = (ns, bs, now)" by (cases call)
  show ?thesis
  proof (cases "fixed_answer ed ns bs")
    case (Some resp)
    then show ?thesis
      using serve_fixed [OF Some, of sha256 E sv now] assms(1) call by simp
  next
    case None
    show ?thesis
    proof (cases ns)
      case NsQueue
      then have fixed: "queue_fixed_answer ed bs = None" using None by simp
      then show ?thesis
      proof (rule exchange_at_live [OF _ refl, of ed bs E sv now], goal_cases)
        case (1 d)
        from 1(3) show ?case
        proof
          assume "(fst (exchange_at ed E sv bs now), sv_relay (snd (exchange_at ed E sv bs now))) = queue_tail E bs now (dr_frame d) (sv_relay sv)"
          then have tail: "queue_tail E bs now (dr_frame d) (sv_relay sv) = (r, sv_relay sv')"
            using assms(1) call NsQueue by simp
          show ?thesis
            by (rule queue_records.frame_cases [OF tail [unfolded queue_tail_def, symmetric]])
              (use assms(2) call NsQueue fixed 1(1) in auto)
        qed (use assms(1) call NsQueue in auto)
      qed
    next
      case NsBlob
      then have "blob_fixed_answer ed bs = None" using None by simp
      then show ?thesis
      proof (rule exchange_blob_at_live [OF _ refl, of ed bs sha256 E sv now], goal_cases)
        case (1 d)
        from 1(3) show ?case
        proof
          assume "(fst (exchange_blob_at ed sha256 E sv bs now), sv_relay (snd (exchange_blob_at ed sha256 E sv bs now)))
            = blob_tail sha256 E bs now (dbr_frame d) (sv_relay sv)"
          then have tail: "blob_tail sha256 E bs now (dbr_frame d) (sv_relay sv) = (r, sv_relay sv')"
            using assms(1) call NsBlob by simp
          show ?thesis
          proof (rule blob_records.frame_cases [OF tail [unfolded blob_tail_def, symmetric]], goal_cases)
            case (3 resp db)
            from 3(6) have "queue_tables db = queue_tables (cn_db (sv_relay sv))"
              using blob_effect_keeps_queues by blast
            with 3(3) show ?case by (simp add: queue_tables_def)
          qed auto
        qed (use assms(1) call NsBlob in auto)
      qed
    qed
  qed
qed

lemma serve_executed:
  assumes ok: "service_ok sv" and E: "fresh_rowids E" and serve: "serve ed sha256 E sv (ns, bs, now) = (r, sv')"
    and exec: "executed_frame ed (sv_relay sv) (ns, bs, now) r = Some f"
    and spec: "spec_step (service_view now sv) (now, request_event (rf_request f)) = (out, M')"
  shows "r = Inr (frame_outcome f out) \<and> service_ok sv' \<and> service_view now sv' = M'"
proof -
  have ns: "ns = NsQueue" using exec by (cases ns) auto
  have fixed: "queue_fixed_answer ed bs = None" "\<exists>resp. r = Inr resp"
    using exec by (auto simp: ns split: option.splits sum.splits)
  show ?thesis
    using fixed(1)
  proof (rule exchange_at_live [OF _ refl, of ed bs E sv now], goal_cases)
    case (1 d)
    have f: "f = dr_frame d" "Namespace_select NsQueue (Principal_bytes (request_principal (rf_request f))) (rf_request_id f)
        (cn_db (sv_relay sv)) = []"
      using exec 1(1) by (auto simp: ns fixed(1) split: sum.splits if_splits)
    have tail: "queue_tail E bs now f (sv_relay sv) = (r, sv_relay sv')"
      using 1(3) fixed(2) serve by (auto simp: ns f(1))
    have wf: "wf_Request (rf_request f)"
      using 1(1) by (simp add: f(1) decode_request_exact wf_RequestFrame_def)
    have valid: "validate_queue_request (rf_request f) = Inr ()"
      using fixed(1) by (simp add: f(1) queue_fixed_answer_def 1(1,2) Let_def split: sum.splits)
    show ?case
      using tail [unfolded queue_tail_def, symmetric]
    proof (rule queue_records.frame_cases, goal_cases)
      case (3 resp db)
      then have eff: "committed_effect (pure_tx (queue_effect (rf_request f, now)) E (cn_db (sv_relay sv)))
          (encode_queue_outcome (rf_request_id f) (Request_command (rf_request f))) (cn_db (sv_relay sv)) = Some (resp, db)"
        by simp
      from committed_spec [OF ok E wf valid eff spec [unfolded durable_view_def]] 3(2,3)
      show ?case
        using queue_tables_relay [OF queue_tables_add, of NsQueue _ db] by (simp add: frame_outcome_def durable_view_def)
    qed (use f(2) fixed(2) in auto)
  qed
qed

section \<open>Runs of the service\<close>

text \<open>The requests a run of the service executed, each with its clock reading and its response.\<close>

type_synonym execution = "Timestamp \<times> RequestFrame \<times> bytes"

primrec executed_steps ::
    "Ed25519 \<Rightarrow> ('s \<Rightarrow> frame_call \<Rightarrow> (ExchangeError, bytes) result \<times> 's) \<Rightarrow> ('s \<Rightarrow> Connection) \<Rightarrow> 's \<Rightarrow> frame_call list \<Rightarrow> execution list" where
  "executed_steps ed step conn s [] = []"
| "executed_steps ed step conn s (call # calls) =
     (case step s call of (r, s') \<Rightarrow>
        (case executed_frame ed (conn s) call r of
           None \<Rightarrow> executed_steps ed step conn s' calls
         | Some f \<Rightarrow> (snd (snd call), f, projr r) # executed_steps ed step conn s' calls))"

abbreviation executed_run :: "Ed25519 \<Rightarrow> (bytes \<Rightarrow> bytes) \<Rightarrow> Engine \<Rightarrow> RelayService \<Rightarrow> frame_call list \<Rightarrow> execution list" where
  "executed_run ed sha256 E \<equiv> executed_steps ed (serve ed sha256 E) sv_relay"

definition execution_events :: "execution list \<Rightarrow> (Timestamp \<times> RelayEvent) list" where
  "execution_events xs = map (\<lambda>(now, f, resp). (now, request_event (rf_request f))) xs"

definition execution_responses :: "execution list \<Rightarrow> bytes list" where
  "execution_responses xs = map (\<lambda>(now, f, resp). resp) xs"

definition expected_responses :: "execution list \<Rightarrow> RelayOutcome list \<Rightarrow> bytes list" where
  "expected_responses xs outs = map2 (\<lambda>(now, f, resp) out. frame_outcome f out) xs outs"

definition call_clock :: "frame_call list \<Rightarrow> (Timestamp \<times> bytes) list" where
  "call_clock calls = map (\<lambda>(ns, bs, now). (now, bs)) calls"

lemmas execution_defs = execution_events_def execution_responses_def expected_responses_def

lemma durable_view_ages: "relay_ok (cn_db c) \<Longrightarrow> t \<le> now \<Longrightarrow> age now (durable_view t c) = durable_view now c"
  by (simp add: durable_view_def relay_ok_def db_inv_def relay_view_ages)

context frame_server
begin

lemma run_refines:
  assumes E: "fresh_rowids E" and "relay_ok (cn_db (conn s))" and "clock_ordered t (call_clock calls)"
    and "\<And>now. t \<le> now \<Longrightarrow> age now M = durable_view now (conn s)"
  defines "xs \<equiv> executed_steps ed step conn s calls" and "s' \<equiv> snd (run_steps step s calls)"
  shows "execution_responses xs = expected_responses xs (fst (run_steps spec_step M (execution_events xs))) \<and> relay_ok (cn_db (conn s'))
    \<and> (\<forall>now \<ge> last_time t (call_clock calls). age now (snd (run_steps spec_step M (execution_events xs))) = durable_view now (conn s'))"
  using assms(2-4) unfolding xs_def s'_def
proof (induction calls arbitrary: s t M)
  case Nil
  then show ?case by (simp add: execution_defs call_clock_def)
next
  case (Cons call calls)
  obtain ns bs now where call: "call = (ns, bs, now)" by (cases call)
  obtain r s1 where st: "step s call = (r, s1)" by fastforce
  obtain sv sv1 where serve: "serve ed sha256 E sv call = (r, sv1)" "sv_relay sv = conn s" "sv_relay sv1 = conn s1"
    by (rule step_served [OF st])
  have clk: "t \<le> now" "clock_ordered now (call_clock calls)"
    using Cons.prems(2) by (simp_all add: call call_clock_def)
  show ?case
  proof (cases "executed_frame ed (conn s) call r")
    case None
    note same = queue_tables_relay [OF serve_unexecuted [OF serve(1), unfolded serve(2,3), OF None]]
    have "age x M = durable_view x (conn s1)" if "now \<le> x" for x
      using Cons.prems(3) [of x] clk(1) that same(1) by (simp add: durable_view_def)
    with Cons.IH [of s1 now M] Cons.prems(1) clk(2) same(2) show ?thesis
      by (simp add: run_steps_Cons st [unfolded call] None [unfolded call] call call_clock_def del: run_steps.simps(2) executed_frame.simps)
  next
    case (Some f)
    obtain out M' where spec: "spec_step (durable_view now (conn s)) (now, request_event (rf_request f)) = (out, M')" by fastforce
    note ex = serve_executed [of sv E ed sha256 ns bs now r sv1 f out M', unfolded serve(2,3), OF Cons.prems(1) E serve(1) [unfolded call] Some [unfolded call] spec]
    have "age now M = durable_view now (conn s)" "age now (durable_view now (conn s)) = durable_view now (conn s)"
      using Cons.prems(3) [OF clk(1)] durable_view_ages [OF Cons.prems(1)] by simp_all
    then have abs: "spec_step M (now, request_event (rf_request f)) = (out, M')"
      using spec by (simp add: spec_step_eq)
    have "age x M' = durable_view x (conn s1)" if "now \<le> x" for x
      using ex durable_view_ages [of "conn s1" now x] that by simp
    with Cons.IH [of s1 now M'] clk(2) ex abs show ?thesis
      by (simp add: run_steps_Cons st [unfolded call] Some [unfolded call conjunct1 [OF ex]] call call_clock_def execution_defs del: run_steps.simps(2) executed_frame.simps)
  qed
qed

end

lemma relay_ok_empty: "relay_ok empty_db"
  by (simp add: relay_ok_def db_inv_empty db_relay_empty limits_small_def Relay_new_def)

text \<open>
  C3: the service is the mailbox specification behind frames. Take any sequence of frames of both
  protocols, valid or not, any storage faults and a clock that does not go backwards, from a new database.
  The requests it executes are those whose frame was authentic, valid and answered, and whose key had no
  record; their responses are exactly the encoded outcomes of the mailbox specification on these requests
  in order, and the queues in the database are the specification's. Everything else the service does
  (refusals, replays, overload, faults, blobs) leaves the queues as they are.
\<close>

theorem service_refines_mailboxes:
  assumes "fresh_rowids E" and "clock_ordered t (call_clock calls)"
  shows "let sv = RelayService_new fresh_connection; xs = executed_run ed sha256 E sv calls;
      (outs, M) = run_steps spec_step Map.empty (execution_events xs) in
    execution_responses xs = expected_responses xs outs
    \<and> (\<forall>now \<ge> last_time t (call_clock calls). age now M = service_view now (snd (run_steps (serve ed sha256 E) sv calls)))"
proof -
  have "service_ok (RelayService_new fresh_connection)"
    using relay_ok_empty by (simp add: RelayService_new_def fresh_connection_def)
  moreover have "age now Map.empty = service_view now (RelayService_new fresh_connection)" for now
    using fresh_connection_ages by (simp add: RelayService_new_def)
  ultimately show ?thesis
    using service.run_refines [OF assms(1) _ assms(2), of "RelayService_new fresh_connection" Map.empty ed sha256]
    by (simp only: Let_def split_beta) blast
qed

end
