(* ===== verification/CW_Delivery.thy ===== *)
theory CW_Delivery
  imports CW_Service_Refines CW_Client
begin

text \<open>
  Client and service together: the sender and the recipient of \<open>crates/cofferwire-client/src/lib.rs\<close> talk
  to the service of \<open>apps/cofferwired/src/lib.rs\<close> over a transport that hands their frames to it.
\<close>

section \<open>Without storage faults every fresh request is answered\<close>

lemma lookup_fresh: "Namespace_select ns s rid (cn_db c) = [] \<Longrightarrow> lookup (faultless E) ns s rid c = (Inr None, bump c)"
  by (simp add: lookup_def sql_exec_faultless query_optional_def moved_same)

lemma faultless_ends: "begin_tx (faultless E) c = (Inr (), bump c)" "commit_tx (faultless E) c = (Inr (), bump c)"
  by (simp_all add: begin_tx_def commit_tx_def sql_exec_faultless moved_same)

context recorded_effect
begin

lemma frame_executes:
  assumes "Namespace_select ns s rid (cn_db c) = []" and "length s = 32" and "wf_RequestId rid" and "pure_tx (eff r) E (cn_db c) = (Inr v, db)"
  shows "\<exists>c'. answer_frame (faultless E) ns s rid bs (exchange (faultless E) ns s rid bs (eff r (faultless E)) encode) conflict c = (Inr (encode (Inr v)), c')
    \<and> cn_db c' = add_replay ns (replay_row s rid bs (encode (Inr v))) db"
proof -
  let ?p = "eff r (faultless E) (bump (bump c))"
  have p: "fst ?p = Inr v" "cn_db (snd ?p) = db"
    using lawfulD(2) [OF law [of r], of E "bump (bump c)"] assms(4) by (simp_all add: seen_def)
  then have "Namespace_select ns s rid (cn_db (snd ?p)) = []"
    using pure_keeps [OF assms(4)] assms(1) by (simp add: Namespace_select_def)
  then have "\<exists>c'. record_response (faultless E) ns s rid bs (encode (Inr v)) (bump c) (snd ?p) = (Inr (Respond (encode (Inr v))), c')
      \<and> cn_db c' = add_replay ns (replay_row s rid bs (encode (Inr v))) db"
    using assms(2,3) p(2)
    by (simp add: record_response_def insert_replay_def sql_call_def Namespace_insert_def constrained_def wf_RequestId_def faultless_ends replay_row_def)
  then show ?thesis
    using p(1) by (cases ?p) (auto simp: answer_frame_def lookup_fresh [OF assms(1)] exchange_def faultless_ends)
qed

lemma frame_faultless:
  assumes "Namespace_select ns s rid (cn_db c) = []" and "length s = 32" and "wf_RequestId rid"
    and "committed_effect (pure_tx (eff r) E (cn_db c)) encode (cn_db c) = Some (resp, db)"
  shows "\<exists>c'. answer_frame (faultless E) ns s rid bs (exchange (faultless E) ns s rid bs (eff r (faultless E)) encode) conflict c = (Inr resp, c')"
proof -
  let ?p = "eff r (faultless E) (bump (bump c))"
  note look = lookup_fresh [OF assms(1), of E] and tx = faultless_ends
  have rec: "\<exists>c'. record_response (faultless E) ns s rid bs resp before x = (Inr (Respond resp), c')"
    if "Namespace_select ns s rid (cn_db x) = []" for before x
    using that assms(2,3)
    by (simp add: record_response_def insert_replay_def sql_call_def Namespace_insert_def constrained_def wf_RequestId_def tx)
  have pure: "pure_tx (eff r) E (cn_db c) = (fst ?p, cn_db (snd ?p))"
    using law [of r] by (simp add: lawful_def flip: seen_def)
  show ?thesis
  proof (cases "fst ?p")
    case (Inr v)
    then have resp: "resp = encode (Inr v)" and "pure_tx (eff r) E (cn_db c) = (Inr v, cn_db (snd ?p))"
      using assms(4) by (simp_all add: committed_effect_def pure)
    then have "Namespace_select ns s rid (cn_db (snd ?p)) = []"
      using pure_keeps [of r E "cn_db c"] assms(1) by (auto simp: Namespace_select_def)
    from rec [OF this, of "bump c"] Inr resp show ?thesis
      by (cases ?p) (auto simp: answer_frame_def look exchange_def tx)
  next
    case (Inl e)
    then obtain q where e: "e = EffProtocol q" and resp: "resp = encode (Inl q)"
      using assms(4) by (cases e) (auto simp: committed_effect_def pure)
    have "Namespace_select ns s rid (cn_db (bump (rollback_to (bump c) (snd ?p)))) = []"
      using assms(1) by simp
    from rec [OF this, of "bump c"] Inl e resp show ?thesis
      by (cases ?p) (auto simp: answer_frame_def look exchange_def tx)
  qed
qed

end

section \<open>Signed requests of a client at the service\<close>

definition fresh_key :: "RelayService \<Rightarrow> Principal \<Rightarrow> RequestId \<Rightarrow> bool" where
  "fresh_key sv p rid \<longleftrightarrow> Namespace_select NsQueue (Principal_bytes p) rid (cn_db (sv_relay sv)) = []"

text \<open>The rate limiter lets \<open>n\<close> more requests of a principal through at a time.\<close>

primrec admits :: "nat \<Rightarrow> Principal RateLimiter \<Rightarrow> Principal \<Rightarrow> u64 \<Rightarrow> bool" where
  "admits 0 l p now = True"
| "admits (Suc n) l p now = (case RateLimiter_admit l p now of (ok, l') \<Rightarrow> ok \<and> admits n l' p now)"

definition ready :: "RelayService \<Rightarrow> bool" where
  "ready sv \<longleftrightarrow> service_ok sv \<and> \<not> sv_poisoned sv"

lemma execute_commits:
  assumes "relay_ok db" and "fresh_rowids E" and "wf_Request request" and "validate_queue_request request = Inr ()"
  shows "\<exists>resp db'. committed_effect (pure_tx (queue_effect (request, now)) E db) encode db = Some (resp, db')"
proof -
  have "executes request now db (pure_tx (queue_effect (request, now)) E db)"
    using assms by (intro execute_simulates) (simp_all add: relay_ok_def)
  then show ?thesis
    by (cases "pure_tx (queue_effect (request, now)) E db")
      (auto simp: executes_def committed_effect_def split: prod.splits sum.splits)
qed

lemma exchange_at_admitted:
  assumes "decode_request bs = Inr d" and "verify_request ed (request_principal (rf_request (dr_frame d))) (dr_authenticated_bytes d) (rf_auth (dr_frame d)) = Inr ()"
    and "validate_queue_request (rf_request (dr_frame d)) = Inr ()" and "\<not> sv_poisoned sv"
    and "RateLimiter_admit (sv_queue_rate_limiter sv) (request_principal (rf_request (dr_frame d))) (Timestamp_as_secs now) = (True, l)"
  shows "exchange_at ed E sv bs now = (case queue_tail E bs now (dr_frame d) (sv_relay sv) of
    (r, c) \<Rightarrow> (r, sv\<lparr>sv_queue_rate_limiter := l, sv_relay := c\<rparr>))"
  using assms
  by (simp add: exchange_at_def Let_def queue_tail_def answer_frame_def queue_replay_def queue_request_exchange_eq
      split: prod.splits sum.splits option.splits ReplayExchange.splits)

lemma queue_tail_records:
  assumes "queue_tail E bs now f c = (Inr resp, c')" and "Namespace_select NsQueue (Principal_bytes (request_principal (rf_request f))) (rf_request_id f) (cn_db c) = []"
  shows "replay_table NsQueue (cn_db c') = replay_table NsQueue (cn_db c)
    @ [replay_row (Principal_bytes (request_principal (rf_request f))) (rf_request_id f) bs resp]"
  using assms(1) [unfolded queue_tail_def, symmetric]
proof (rule queue_records.frame_cases, goal_cases)
  case (3 resp' db)
  have "replay_table NsQueue db = replay_table NsQueue (cn_db c)"
    using 3(6) queue_records.effect_keeps by blast
  with 3 show ?case by simp
qed (use assms(2) in auto)

lemma serve_signed:
  assumes laws: "ed25519_laws ed" and E: "fresh_rowids E" and ready: "ready sv"
    and wf: "wf_RequestId rid" "wf_Request request" "validate_queue_request request = Inr ()"
    and key: "request_principal request = RelaySigningKey_principal ed key"
    and fresh: "fresh_key sv (request_principal request) rid"
    and admit: "RateLimiter_admit (sv_queue_rate_limiter sv) (request_principal request) (Timestamp_as_secs now) = (True, l)"
    and spec: "spec_step (service_view now sv) (now, request_event request) = (out, M')"
  obtains sv' where "exchange_at ed (faultless E) sv (signed_frame ed key rid request) now
      = (Inr (encode_queue_outcome rid (Request_command request) (outcome_body out)), sv')"
    "ready sv'" "service_view now sv' = M'" "sv_queue_rate_limiter sv' = l"
    "\<And>p rid'. p \<noteq> request_principal request \<or> rid' \<noteq> rid \<Longrightarrow> fresh_key sv' p rid' \<longleftrightarrow> fresh_key sv p rid'"
proof -
  obtain auth where d: "decode_request (signed_frame ed key rid request)
      = Inr \<lparr>dr_frame = \<lparr>rf_request_id = rid, rf_request = request, rf_auth = auth\<rparr>,
          dr_authenticated_bytes = encode_authenticated_request rid request\<rparr>"
      and v: "verify_request ed (request_principal request) (encode_authenticated_request rid request) auth = Inr ()"
    using signed_frame_decodes [OF laws wf(1,2)] key by metis
  let ?f = "\<lparr>rf_request_id = rid, rf_request = request, rf_auth = auth\<rparr>" and ?bs = "signed_frame ed key rid request"
  have ok: "service_ok sv" "\<not> sv_poisoned sv"
    using ready by (simp_all add: ready_def)
  have sel: "Namespace_select NsQueue (Principal_bytes (request_principal request)) rid (cn_db (sv_relay sv)) = []"
    using fresh by (simp add: fresh_key_def)
  have len: "length (Principal_bytes (request_principal request)) = 32"
    using wf(2) by (cases request) (simp_all add: wf_Principal_def)
  obtain resp db where eff: "committed_effect (pure_tx (queue_effect (request, now)) E (cn_db (sv_relay sv)))
      (encode_queue_outcome rid (Request_command request)) (cn_db (sv_relay sv)) = Some (resp, db)"
    using execute_commits [OF ok(1) E wf(2,3)] by blast
  obtain c' where tail: "queue_tail (faultless E) ?bs now ?f (sv_relay sv) = (Inr resp, c')"
    using queue_records.frame_faultless [OF sel len wf(1) eff] by (auto simp: queue_tail_def)
  let ?sv' = "sv\<lparr>sv_queue_rate_limiter := l, sv_relay := c'\<rparr>"
  have ex: "exchange_at ed (faultless E) sv ?bs now = (Inr resp, ?sv')"
    using exchange_at_admitted [OF d _ _ ok(2), of ed now l "faultless E"] v wf(3) admit tail by simp
  have fixed: "queue_fixed_answer ed ?bs = None"
    using d v wf(3) by (simp add: queue_fixed_answer_def Let_def)
  have frame: "executed_frame ed (sv_relay sv) (NsQueue, ?bs, now) (Inr resp) = Some ?f"
    using d fixed sel by simp
  have E': "fresh_rowids (faultless E)"
    using E by (simp add: fresh_rowids_def faultless_def)
  have served: "serve ed (\<lambda>x. x) (faultless E) sv (NsQueue, ?bs, now) = (Inr resp, ?sv')"
    using ex by simp
  from serve_executed [OF ok(1) E' served frame, of out M'] spec
  have post: "resp = encode_queue_outcome rid (Request_command request) (outcome_body out)" "service_ok ?sv'" "service_view now ?sv' = M'"
    by (simp_all add: frame_outcome_def)
  have keys: "fresh_key ?sv' p rid' \<longleftrightarrow> fresh_key sv p rid'" if "p \<noteq> request_principal request \<or> rid' \<noteq> rid" for p rid'
    using queue_tail_records [OF tail] sel that
    by (cases p; cases "request_principal request"; cases rid; cases rid') (auto simp: fresh_key_def Namespace_select_def replay_row_def)
  show thesis
    using ex post ok(2) by (intro that [of ?sv'] keys) (simp_all add: ready_def)
qed

section \<open>From sender to recipient\<close>

text \<open>The transport of a client whose frames reach the service at a clock reading.\<close>

definition service_transport :: "Ed25519 \<Rightarrow> Engine \<Rightarrow> Timestamp \<Rightarrow> RelayService transport" where
  "service_transport ed E now sv frame =
     (case exchange_at ed E sv frame now of (r, sv') \<Rightarrow> (map_err (\<lambda>_. TransportError) r, sv'))"

lemma outcome_checked:
  assumes "wf_RequestId rid" and "outcome_body out = Inr body" and "wf_Response (RespSuccess body)" and "Response_command (RespSuccess body) = Some command"
  shows "checked_response (encode_queue_outcome rid command (outcome_body out)) rid command = Inr (RespSuccess body)"
  using checked_response_encoded [OF assms(1,3,4)] assms(2) by (simp add: encode_queue_outcome_def)

lemma spec_send_empty:
  assumes "age now M = M" and "M q = Some mb" and "mb_items mb = []" and "qc_sender (mb_config mb) = s"
    and "length payload \<le> unat (rl_max_message_bytes (qc_limits (mb_config mb)))" and "rl_max_messages (qc_limits (mb_config mb)) \<noteq> 0"
    and "unat (Timestamp_as_secs now) + unat (RelayTtl_as_secs ttl) \<le> u64_max" and "RelayTtl_as_secs ttl \<noteq> 0"
  shows "\<exists>M'. spec_step M (now, EvSend q s m payload ttl) = (OutSend Accepted, M')
    \<and> M' q = Some (mb\<lparr>mb_items := [accepted_item m payload now ttl], mb_taken := False\<rparr>)"
proof -
  have taken: "\<not> mb_taken mb"
    using assms(1,2,3) by (metis age_Some age_mailbox_simps(3) option.inject)
  have verdict: "send_verdict mb s m payload now ttl = Inr Accepted"
    using assms(3-7) by (simp add: send_verdict_def word_neq_0_conv unat_gt_0 not_less Suc_le_eq)
  have "due now (accepted_item m payload now ttl)"
    using accepted_item_expiry [OF verdict] assms(8)
    by (simp add: due_def less_Timestamp_def word_less_nat_alt unat_gt_0)
  moreover have "age now M q = Some mb" using assms(1,2) by simp
  ultimately show ?thesis
    using taken verdict assms(3) by (simp add: spec_step_eq age_def [of now "_(_ \<mapsto> _)"] age_mailbox_def)
qed

lemma spec_fetch_single:
  assumes "M q = Some mb" and "mb_items mb = [d]" and "due now d" and "qc_recipient (mb_config mb) = p"
  shows "\<exists>M'. spec_step M (now, EvFetch q p) = (OutFetch (Some d), M') \<and> M' q = Some (mb\<lparr>mb_taken := True\<rparr>)"
  using assms by (simp add: spec_step_eq age_def age_mailbox_def)

lemma spec_ack_single:
  assumes "M q = Some mb" and "mb_items mb = [d]" and "due now d" and "qc_recipient (mb_config mb) = p" and "mb_taken mb"
  shows "\<exists>M'. spec_step M (now, EvAck q p (rd_id d)) = (OutAck, M') \<and> M' q = Some (mb\<lparr>mb_items := [], mb_taken := False\<rparr>)"
  using assms by (simp add: spec_step_eq age_def age_mailbox_def)

lemma admits_Suc: "admits (Suc n) l p now \<Longrightarrow> \<exists>l'. RateLimiter_admit l p now = (True, l') \<and> admits n l' p now"
  by (cases "RateLimiter_admit l p now") auto

lemma admits_two: "admits 2 l p now = admits (Suc (Suc 0)) l p now"
  by (simp only: numeral_2_eq_2)

lemma poll_through_service:
  assumes laws: "ed25519_laws ed" and E: "fresh_rowids E" and ready: "ready sv"
    and key: "RelaySigningKey_principal ed (rc_signing_key rc) = rc_recipient rc"
    and wf: "wf_QueueId (rc_queue_id rc)" "wf_Principal (rc_recipient rc)" "wf_MessageId (rd_id d)" "wf_RequestId r1" "wf_RequestId r2"
    and box: "service_view now sv (rc_queue_id rc) = Some mb" "mb_items mb = [d]" "due now d" "qc_recipient (mb_config mb) = rc_recipient rc"
    and small: "length (rd_payload d) \<le> MAX_MESSAGE_BYTES"
    and opens: "open_message hp (rc_encryption_key rc) (rc_sender_encryption_key rc)
      \<lparr>mc_queue_id = rc_queue_id rc, mc_sender = rc_sender rc, mc_recipient = rc_recipient rc, mc_message_id = rd_id d\<rparr>
      (Payload (rd_payload d)) = Inr plaintext"
    and commit: "commit s (rd_id d) plaintext = (Inr CoApplied, s')"
    and ids: "next_id i = (r1, i1)" "next_id i1 = (r2, i2)" "r1 \<noteq> r2"
    and fresh: "fresh_key sv (rc_recipient rc) r1" "fresh_key sv (rc_recipient rc) r2"
    and admits: "admits 2 (sv_queue_rate_limiter sv) (rc_recipient rc) (Timestamp_as_secs now)"
  shows "\<exists>sv'. Recipient_poll ed hp (service_transport ed (faultless E) now) commit next_id rc (sv, s, i) = (Inr (PoApplied (rd_id d)), sv', s', i2)
    \<and> ready sv' \<and> service_view now sv' (rc_queue_id rc) = Some (mb\<lparr>mb_items := [], mb_taken := False\<rparr>)"
proof -
  let ?fetch = "ReqFetch \<lparr>fr_queue_id = rc_queue_id rc, fr_recipient = rc_recipient rc\<rparr>"
  let ?ack = "ReqAck \<lparr>ar_queue_id = rc_queue_id rc, ar_recipient = rc_recipient rc, ar_message_id = rd_id d\<rparr>"
  obtain l1 l2 where l: "RateLimiter_admit (sv_queue_rate_limiter sv) (rc_recipient rc) (Timestamp_as_secs now) = (True, l1)"
      "RateLimiter_admit l1 (rc_recipient rc) (Timestamp_as_secs now) = (True, l2)"
    using admits unfolding admits_two by (blast dest: admits_Suc)
  obtain M1 where fetch: "spec_step (service_view now sv) (now, request_event ?fetch) = (OutFetch (Some d), M1)"
      "M1 (rc_queue_id rc) = Some (mb\<lparr>mb_taken := True\<rparr>)"
    using spec_fetch_single [of "service_view now sv" "rc_queue_id rc" mb d now "rc_recipient rc"] box by auto
  obtain sv1 where 1: "exchange_at ed (faultless E) sv (signed_frame ed (rc_signing_key rc) r1 ?fetch) now
        = (Inr (encode_queue_outcome r1 CmdFetch (outcome_body (OutFetch (Some d)))), sv1)"
      "ready sv1" "service_view now sv1 = M1" "sv_queue_rate_limiter sv1 = l1"
      "\<And>p rid'. p \<noteq> rc_recipient rc \<or> rid' \<noteq> r1 \<Longrightarrow> fresh_key sv1 p rid' \<longleftrightarrow> fresh_key sv p rid'"
    by (rule serve_signed [OF laws E ready wf(4) _ _ _ _ _ fetch(1), of "rc_signing_key rc" l1])
      (use wf key fresh l in auto)
  obtain M2 where ack: "spec_step (service_view now sv1) (now, request_event ?ack) = (OutAck, M2)"
      "M2 (rc_queue_id rc) = Some (mb\<lparr>mb_items := [], mb_taken := False\<rparr>)"
    using spec_ack_single [of M1 "rc_queue_id rc" "mb\<lparr>mb_taken := True\<rparr>" d now "rc_recipient rc"] fetch(2) box(2-4) 1(3) by auto
  obtain sv2 where 2: "exchange_at ed (faultless E) sv1 (signed_frame ed (rc_signing_key rc) r2 ?ack) now
        = (Inr (encode_queue_outcome r2 CmdAck (outcome_body OutAck)), sv2)"
      "ready sv2" "service_view now sv2 = M2"
    by (rule serve_signed [OF laws E 1(2) wf(5) _ _ _ _ _ ack(1), of "rc_signing_key rc" l2])
      (use wf key fresh l ids(3) 1(4,5) in auto)
  have c1: "checked_response (encode_queue_outcome r1 CmdFetch (outcome_body (OutFetch (Some d)))) r1 CmdFetch
      = Inr (RespSuccess (RespFetch (Some \<lparr>dl_message_id = rd_id d, dl_payload = Payload (rd_payload d), dl_expires_at = rd_expires_at d\<rparr>)))"
    by (rule outcome_checked [OF wf(4)]) (use wf(3) small in \<open>simp_all add: wf_Payload_def\<close>)
  have c2: "checked_response (encode_queue_outcome r2 CmdAck (outcome_body OutAck)) r2 CmdAck = Inr (RespSuccess RespAck)"
    by (rule outcome_checked [OF wf(5)]) simp_all
  have "Recipient_poll ed hp (service_transport ed (faultless E) now) commit next_id rc (sv, s, i) = (Inr (PoApplied (rd_id d)), sv2, s', i2)"
    by (simp add: Recipient_poll_def ids service_transport_def 1(1) c1 opens commit 2(1) c2 del: outcome_body.simps)
  with 2 ack(2) show ?thesis by blast
qed

lemma send_through_service:
  assumes laws: "ed25519_laws ed" and E: "fresh_rowids E" and ready: "ready sv"
    and new: "Sender_new ed queue sender recipient key skS pkR = Inr sd"
    and prep: "Sender_prepare ed hp sd rid m plaintext ttl rng = (Inr prepared, rng')"
    and wf: "wf_QueueId queue" "wf_Principal sender" "wf_MessageId m" "wf_RequestId rid" "Ttl_as_secs ttl \<noteq> 0"
    and box: "service_view now sv queue = Some mb" "mb_items mb = []" "qc_sender (mb_config mb) = sender"
      "MAX_MESSAGE_BYTES \<le> unat (rl_max_message_bytes (qc_limits (mb_config mb)))" "rl_max_messages (qc_limits (mb_config mb)) \<noteq> 0"
    and time: "unat (Timestamp_as_secs now) + unat (Ttl_as_secs ttl) \<le> u64_max"
    and fresh: "fresh_key sv sender rid"
    and admit: "RateLimiter_admit (sv_queue_rate_limiter sv) sender (Timestamp_as_secs now) = (True, l)"
  shows "\<exists>payload sv'. seal_message hp skS pkR \<lparr>mc_queue_id = queue, mc_sender = sender, mc_recipient = recipient, mc_message_id = m\<rparr> plaintext rng
        = (Inr payload, rng')
    \<and> Sender_send (service_transport ed (faultless E) now) sd prepared sv = (Inr ScAccepted, sv') \<and> ready sv'
    \<and> service_view now sv' queue = Some (mb\<lparr>mb_items := [accepted_item m (Payload_bytes payload) now (RelayTtl (Ttl_as_secs ttl))], mb_taken := False\<rparr>)
    \<and> sv_queue_rate_limiter sv' = l \<and> (\<forall>p rid'. p \<noteq> sender \<or> rid' \<noteq> rid \<longrightarrow> fresh_key sv' p rid' = fresh_key sv p rid')"
proof -
  have sd: "sender = RelaySigningKey_principal ed key" "sd = \<lparr>sd_queue_id = queue, sd_sender = sender, sd_recipient = recipient,
      sd_signing_key = key, sd_encryption_key = skS, sd_recipient_encryption_key = pkR\<rparr>"
    using new by (auto simp: Sender_new_def split: if_splits)
  obtain payload where payload: "seal_message hp skS pkR \<lparr>mc_queue_id = queue, mc_sender = sender, mc_recipient = recipient, mc_message_id = m\<rparr>
        plaintext rng = (Inr payload, rng')"
      and prepared: "prepared = \<lparr>ps_request_id = rid, ps_message_id = m, ps_frame = signed_frame ed key rid (ReqSend \<lparr>sr_queue_id = queue,
        sr_sender = sender, sr_message_id = m, sr_payload = payload, sr_ttl = ttl\<rparr>)\<rparr>"
    using prep by (auto simp: Sender_prepare_def sd(2) Let_def split: prod.splits sum.splits)
  let ?send = "ReqSend \<lparr>sr_queue_id = queue, sr_sender = sender, sr_message_id = m, sr_payload = payload, sr_ttl = ttl\<rparr>"
  have wfp: "wf_Payload payload"
    by (rule seal_message_wf [OF payload])
  have aged: "age now (service_view now sv) = service_view now sv"
    using durable_view_ages [of "sv_relay sv" now now] ready by (simp add: ready_def)
  obtain M' where spec: "spec_step (service_view now sv) (now, request_event ?send) = (OutSend Accepted, M')"
      "M' queue = Some (mb\<lparr>mb_items := [accepted_item m (Payload_bytes payload) now (RelayTtl (Ttl_as_secs ttl))], mb_taken := False\<rparr>)"
    using spec_send_empty [OF aged box(1-3), of "Payload_bytes payload" "RelayTtl (Ttl_as_secs ttl)" m] wfp box(4,5) time wf(5)
    by (auto simp: wf_Payload_def)
  obtain sv' where 1: "exchange_at ed (faultless E) sv (signed_frame ed key rid ?send) now
        = (Inr (encode_queue_outcome rid CmdSend (outcome_body (OutSend Accepted))), sv')"
      "ready sv'" "service_view now sv' = M'" "sv_queue_rate_limiter sv' = l"
      "\<And>p rid'. p \<noteq> sender \<or> rid' \<noteq> rid \<Longrightarrow> fresh_key sv' p rid' \<longleftrightarrow> fresh_key sv p rid'"
    by (rule serve_signed [OF laws E ready wf(4) _ _ _ _ _ spec(1), of key l])
      (use wf wfp sd(1) fresh admit in \<open>auto simp: RelayTtl_from_secs_def map_ok_def ok_or_def\<close>)
  have "checked_response (encode_queue_outcome rid CmdSend (outcome_body (OutSend Accepted))) rid CmdSend = Inr (RespSuccess (RespSend Accepted))"
    by (rule outcome_checked [OF wf(4)]) simp_all
  then have "Sender_send (service_transport ed (faultless E) now) sd prepared sv = (Inr ScAccepted, sv')"
    by (simp add: Sender_send_def prepared service_transport_def 1(1) del: outcome_body.simps)
  with payload 1 spec(2) show ?thesis by blast
qed

text \<open>A queue of the service with nothing due, for messages of every size the protocol allows.\<close>

definition idle_queue :: "Timestamp \<Rightarrow> RelayService \<Rightarrow> QueueId \<Rightarrow> Principal \<Rightarrow> Principal \<Rightarrow> bool" where
  "idle_queue now sv queue sender recipient \<longleftrightarrow>
     (case service_view now sv queue of
        None \<Rightarrow> False
      | Some mb \<Rightarrow> mb_items mb = [] \<and> qc_sender (mb_config mb) = sender \<and> qc_recipient (mb_config mb) = recipient
          \<and> MAX_MESSAGE_BYTES \<le> unat (rl_max_message_bytes (qc_limits (mb_config mb))) \<and> rl_max_messages (qc_limits (mb_config mb)) \<noteq> 0)"

text \<open>
  C1: a message goes from sender to recipient through the whole system. A sender seals, prepares and sends a
  message for an empty queue of the service; the service accepts it; and any time before it expires one
  poll of the recipient fetches it from the service, opens it to exactly the sender's plaintext, hands
  that to the application's store, acknowledges it, and leaves the queue empty. This holds when the queue was
  created for messages of the largest size the protocol allows, the storage engine does not fail, the request
  identifiers are new and the rate limiter admits the three requests.
\<close>

theorem message_end_to_end:
  assumes "ed25519_laws ed" and "hpke_laws hp" and "fresh_rowids E" and "ready sv"
    and "Sender_new ed queue sender recipient skey skS (EncryptionSecretKey_public_key hp skR) = Inr sd"
    and "Recipient_new ed queue sender recipient rkey skR (EncryptionSecretKey_public_key hp skS) = Inr rc"
    and "Sender_prepare ed hp sd rid m plaintext ttl rng = (Inr prepared, rng')"
    and "wf_QueueId queue" and "wf_Principal sender" and "wf_Principal recipient" and "wf_MessageId m"
    and "wf_RequestId rid" and "wf_RequestId r1" and "wf_RequestId r2" and "Ttl_as_secs ttl \<noteq> 0"
    and "idle_queue now sv queue sender recipient" and "now \<le> now'" and "unat (Timestamp_as_secs now') < unat (Timestamp_as_secs now) + unat (Ttl_as_secs ttl)"
    and "unat (Timestamp_as_secs now) + unat (Ttl_as_secs ttl) \<le> u64_max"
    and "fresh_key sv sender rid" and "fresh_key sv recipient r1" and "fresh_key sv recipient r2"
    and "distinct [rid, r1, r2]" and "next_id i = (r1, i1)" and "next_id i1 = (r2, i2)"
    and "RateLimiter_admit (sv_queue_rate_limiter sv) sender (Timestamp_as_secs now) = (True, l)"
    and "admits 2 l recipient (Timestamp_as_secs now')"
    and "commit s m plaintext = (Inr CoApplied, s')"
  shows "\<exists>sv1 sv2. Sender_send (service_transport ed (faultless E) now) sd prepared sv = (Inr ScAccepted, sv1)
    \<and> Recipient_poll ed hp (service_transport ed (faultless E) now') commit next_id rc (sv1, s, i) = (Inr (PoApplied m), sv2, s', i2)
    \<and> map_option mb_items (service_view now' sv2 queue) = Some []"
proof -
  obtain mb where mb: "service_view now sv queue = Some mb" "mb_items mb = []" "qc_sender (mb_config mb) = sender" "qc_recipient (mb_config mb) = recipient"
      "MAX_MESSAGE_BYTES \<le> unat (rl_max_message_bytes (qc_limits (mb_config mb)))" "rl_max_messages (qc_limits (mb_config mb)) \<noteq> 0"
    using assms(16) by (auto simp: idle_queue_def split: option.splits)
  have rc: "recipient = RelaySigningKey_principal ed rkey" "rc = \<lparr>rc_queue_id = queue, rc_sender = sender, rc_recipient = recipient,
      rc_signing_key = rkey, rc_encryption_key = skR, rc_sender_encryption_key = EncryptionSecretKey_public_key hp skS\<rparr>"
    using assms(6) by (auto simp: Recipient_new_def split: if_splits)
  let ?ctx = "\<lparr>mc_queue_id = queue, mc_sender = sender, mc_recipient = recipient, mc_message_id = m\<rparr>"
  from send_through_service [OF assms(1,3,4,5,7,8,9,11,12,15) mb(1-3,5,6) assms(19,20,26)]
  obtain payload sv1 where payload: "seal_message hp skS (EncryptionSecretKey_public_key hp skR) ?ctx plaintext rng = (Inr payload, rng')"
      and send: "Sender_send (service_transport ed (faultless E) now) sd prepared sv = (Inr ScAccepted, sv1)" "ready sv1"
      and box: "service_view now sv1 queue = Some (mb\<lparr>mb_items := [accepted_item m (Payload_bytes payload) now (RelayTtl (Ttl_as_secs ttl))], mb_taken := False\<rparr>)"
      and rest: "sv_queue_rate_limiter sv1 = l" "\<forall>p rid'. p \<noteq> sender \<or> rid' \<noteq> rid \<longrightarrow> fresh_key sv1 p rid' = fresh_key sv p rid'"
    by blast
  let ?d = "accepted_item m (Payload_bytes payload) now (RelayTtl (Ttl_as_secs ttl))"
  have small: "length (Payload_bytes payload) \<le> MAX_MESSAGE_BYTES"
    using seal_message_wf [OF payload] by (simp add: wf_Payload_def)
  have exp: "unat (Timestamp_as_secs now + Ttl_as_secs ttl) = unat (Timestamp_as_secs now) + unat (Ttl_as_secs ttl)"
    using assms(19) by (simp add: unat_plus_if_size u64_max_def word_size)
  have due: "due now' ?d"
    using assms(18) exp by (simp add: due_def accepted_item_def less_Timestamp_def word_less_nat_alt)
  have box': "service_view now' sv1 queue = Some (mb\<lparr>mb_items := [?d], mb_taken := False\<rparr>)"
  proof -
    have "service_view now' sv1 queue = age now' (service_view now sv1) queue"
      using durable_view_ages [OF _ assms(17), of "sv_relay sv1"] send(2) by (simp add: ready_def)
    with box due show ?thesis by (simp add: age_def age_mailbox_def)
  qed
  have opens: "open_message hp skR (EncryptionSecretKey_public_key hp skS) ?ctx (Payload (Payload_bytes payload)) = Inr plaintext"
    using seal_message_opens [OF assms(2) payload] by simp
  have f: "rc_queue_id rc = queue" "rc_sender rc = sender" "rc_recipient rc = recipient" "rc_signing_key rc = rkey" "rc_encryption_key rc = skR"
      "rc_sender_encryption_key rc = EncryptionSecretKey_public_key hp skS" "rd_id ?d = m" "rd_payload ?d = Payload_bytes payload"
    by (simp_all add: rc(2) accepted_item_def)
  have keys: "fresh_key sv1 recipient r1" "fresh_key sv1 recipient r2"
    using rest(2) assms(21-23) by auto
  note poll = poll_through_service [OF assms(1,3) send(2), of rc ?d r1 r2 now' "mb\<lparr>mb_items := [?d], mb_taken := False\<rparr>" hp plaintext
      commit s s' next_id i i1 i2, unfolded f]
  have "\<exists>sv2. Recipient_poll ed hp (service_transport ed (faultless E) now') commit next_id rc (sv1, s, i) = (Inr (PoApplied m), sv2, s', i2)
    \<and> ready sv2 \<and> service_view now' sv2 queue = Some ((mb\<lparr>mb_items := [?d], mb_taken := False\<rparr>)\<lparr>mb_items := [], mb_taken := False\<rparr>)"
    by (rule poll [OF rc(1) [symmetric] assms(8,10,11,13,14) box' _ due _ small opens assms(28,24,25) _ keys])
      (use assms(23,27) mb(4) rest(1) in simp_all)
  with send(1) show ?thesis by fastforce
qed

section \<open>Concrete instances\<close>

definition ex_open_queue :: Request where
  "ex_open_queue = ReqCreateQueue \<lparr>cq_queue_id = QueueId (replicate 32 1), cq_sender = Principal (replicate 32 2),
     cq_recipient = Principal (replicate 32 3), cq_limits = \<lparr>ql_max_messages = 2, ql_max_message_bytes = of_nat MAX_MESSAGE_BYTES\<rparr>\<rparr>"

definition ex_open_frame :: bytes where
  "ex_open_frame = signed_frame ex_ed (RelaySigningKey (replicate 32 2)) (RequestId (replicate 16 9)) ex_open_queue"

lemma ex_open_wf: "wf_Request ex_open_queue" "validate_queue_request ex_open_queue = Inr ()"
    "request_principal ex_open_queue = Principal (replicate 32 2)"
    "RelaySigningKey_principal ex_ed (RelaySigningKey (replicate 32 k)) = Principal (replicate 32 k)"
  by (simp_all add: ex_open_queue_def wf_id_defs wf_QueueLimits_def MAX_MESSAGE_BYTES_def RelaySigningKey_principal_def ex_ed_def)

lemma ex_new_service:
  "ready (RelayService_new fresh_connection)" "fresh_key (RelayService_new fresh_connection) p rid"
  "service_view now (RelayService_new fresh_connection) = Map.empty"
  using relay_ok_empty fresh_connection_ages [of now]
  by (auto simp: ready_def RelayService_new_def fresh_connection_def fresh_key_def Namespace_select_def empty_db_def)

lemma ex_admit:
  "RateLimiter_admit (sv_queue_rate_limiter (RelayService_new c)) p now = (True, (sv_queue_rate_limiter (RelayService_new c))\<lparr>rt_windows := [(p, [now])]\<rparr>)"
  by (simp add: RateLimiter_admit_def RelayService_new_def RateLimiter_new_def RATE_LIMIT_MAX_TRACKED_KEYS_def)

lemma ex_opened:
  obtains sv where "exchange_at ex_ed (faultless max_rowid_engine) (RelayService_new fresh_connection) ex_open_frame (Timestamp 1)
      = (Inr (encode_queue_outcome (RequestId (replicate 16 9)) CmdCreateQueue (Inr (RespCreateQueue Created))), sv)"
    "ready sv" "idle_queue (Timestamp 1) sv (QueueId (replicate 32 1)) (Principal (replicate 32 2)) (Principal (replicate 32 3))"
    "\<forall>p rid. rid \<noteq> RequestId (replicate 16 9) \<longrightarrow> fresh_key sv p rid"
    "sv_queue_rate_limiter sv = (sv_queue_rate_limiter (RelayService_new fresh_connection))\<lparr>rt_windows := [(Principal (replicate 32 2), [1])]\<rparr>"
proof -
  obtain M where spec: "spec_step Map.empty (Timestamp 1, request_event ex_open_queue) = (OutCreate Created, M)"
      "M (QueueId (replicate 32 1)) = Some \<lparr>mb_config = \<lparr>qc_sender = Principal (replicate 32 2), qc_recipient = Principal (replicate 32 3),
         qc_limits = \<lparr>rl_max_messages = 2, rl_max_message_bytes = of_nat MAX_MESSAGE_BYTES\<rparr>\<rparr>, mb_items = [], mb_taken = False\<rparr>"
    by (simp add: ex_open_queue_def spec_step_eq age_def age_mailbox_def)
  have spec': "spec_step (service_view (Timestamp 1) (RelayService_new fresh_connection)) (Timestamp 1, request_event ex_open_queue) = (OutCreate Created, M)"
    using spec(1) by (simp only: ex_new_service(3))
  have rid: "wf_RequestId (RequestId (replicate 16 9))" by (simp add: wf_RequestId_def)
  obtain sv where sv: "exchange_at ex_ed (faultless max_rowid_engine) (RelayService_new fresh_connection)
        (signed_frame ex_ed (RelaySigningKey (replicate 32 2)) (RequestId (replicate 16 9)) ex_open_queue) (Timestamp 1)
      = (Inr (encode_queue_outcome (RequestId (replicate 16 9)) (Request_command ex_open_queue) (outcome_body (OutCreate Created))), sv)"
      "ready sv" "service_view (Timestamp 1) sv = M"
      "sv_queue_rate_limiter sv = (sv_queue_rate_limiter (RelayService_new fresh_connection))\<lparr>rt_windows := [(Principal (replicate 32 2), [1])]\<rparr>"
      "\<And>p rid'. p \<noteq> request_principal ex_open_queue \<or> rid' \<noteq> RequestId (replicate 16 9) \<Longrightarrow>
        fresh_key sv p rid' \<longleftrightarrow> fresh_key (RelayService_new fresh_connection) p rid'"
    by (rule serve_signed [OF ex_ed_laws max_rowid_engine_fresh ex_new_service(1) rid ex_open_wf(1,2) _ ex_new_service(2) _
          spec']) (auto simp: ex_open_wf ex_admit)
  moreover have "idle_queue (Timestamp 1) sv (QueueId (replicate 32 1)) (Principal (replicate 32 2)) (Principal (replicate 32 3))"
    by (simp add: idle_queue_def sv(3) spec(2) MAX_MESSAGE_BYTES_def)
  ultimately show thesis
    using ex_new_service(2) by (intro that [of sv]) (simp_all add: ex_open_frame_def ex_open_queue_def)
qed

theorem service_refines_mailboxes_witness:
  "\<exists>f resp. executed_run ex_ed ex_sha (faultless max_rowid_engine) (RelayService_new fresh_connection) [(NsQueue, ex_open_frame, Timestamp 1)]
      = [(Timestamp 1, f, resp)]
    \<and> rf_request f = ex_open_queue \<and> resp = frame_outcome f (OutCreate Created)"
proof -
  let ?sv = "RelayService_new fresh_connection"
  obtain sv where sv: "exchange_at ex_ed (faultless max_rowid_engine) ?sv ex_open_frame (Timestamp 1)
      = (Inr (encode_queue_outcome (RequestId (replicate 16 9)) CmdCreateQueue (Inr (RespCreateQueue Created))), sv)"
    by (rule ex_opened)
  obtain auth where d: "decode_request ex_open_frame
      = Inr \<lparr>dr_frame = \<lparr>rf_request_id = RequestId (replicate 16 9), rf_request = ex_open_queue, rf_auth = auth\<rparr>,
          dr_authenticated_bytes = encode_authenticated_request (RequestId (replicate 16 9)) ex_open_queue\<rparr>"
      "verify_request ex_ed (Principal (replicate 32 2)) (encode_authenticated_request (RequestId (replicate 16 9)) ex_open_queue) auth = Inr ()"
    using signed_frame_decodes [OF ex_ed_laws _ ex_open_wf(1), of "RequestId (replicate 16 9)" "RelaySigningKey (replicate 32 2)"]
    by (auto simp: ex_open_frame_def wf_RequestId_def ex_open_wf)
  let ?f = "\<lparr>rf_request_id = RequestId (replicate 16 9), rf_request = ex_open_queue, rf_auth = auth\<rparr>"
  obtain resp where x: "executed_run ex_ed ex_sha (faultless max_rowid_engine) ?sv [(NsQueue, ex_open_frame, Timestamp 1)] = [(Timestamp 1, ?f, resp)]"
    using sv d ex_new_service(2) [of "Principal (replicate 32 2)" "RequestId (replicate 16 9)"]
    by (simp add: queue_fixed_answer_def Let_def ex_open_wf fresh_key_def)
  have "fresh_rowids (faultless max_rowid_engine)"
    using max_rowid_engine_fresh by (simp add: fresh_rowids_def faultless_def)
  from service_refines_mailboxes [OF this, of "Timestamp 0" "[(NsQueue, ex_open_frame, Timestamp 1)]" ex_ed ex_sha]
  have "resp = frame_outcome ?f (OutCreate Created)"
    by (simp add: x call_clock_def execution_defs Let_def spec_step_eq ex_open_queue_def age_def del: executed_steps.simps)
  with x show ?thesis by auto
qed

theorem message_end_to_end_witness:
  "\<exists>sv sd rc prepared rng sv1 sv2.
     Sender_new ex_ed (QueueId (replicate 32 1)) (Principal (replicate 32 2)) (Principal (replicate 32 3)) (RelaySigningKey (replicate 32 2))
        (EncryptionSecretKey [1]) (EncryptionPublicKey [2]) = Inr sd
     \<and> Sender_prepare ex_ed ex_hpke sd (RequestId (replicate 16 8)) (MessageId (replicate 32 4)) [7, 8] (Ttl 60) 0 = (Inr prepared, rng)
     \<and> Sender_send (service_transport ex_ed (faultless max_rowid_engine) (Timestamp 1)) sd prepared sv = (Inr ScAccepted, sv1)
     \<and> Recipient_poll ex_ed ex_hpke (service_transport ex_ed (faultless max_rowid_engine) (Timestamp 50)) ex_inbox ex_ids rc (sv1, [], 0)
        = (Inr (PoApplied (MessageId (replicate 32 4))), sv2, [(MessageId (replicate 32 4), [7, 8])], 2)"
proof -
  let ?q = "QueueId (replicate 32 1)" and ?S = "Principal (replicate 32 2)" and ?R = "Principal (replicate 32 3)" and ?m = "MessageId (replicate 32 4)"
  obtain sv where opened: "exchange_at ex_ed (faultless max_rowid_engine) (RelayService_new fresh_connection) ex_open_frame (Timestamp 1)
      = (Inr (encode_queue_outcome (RequestId (replicate 16 9)) CmdCreateQueue (Inr (RespCreateQueue Created))), sv)"
      and sv: "ready sv" "idle_queue (Timestamp 1) sv ?q ?S ?R" "\<forall>p rid. rid \<noteq> RequestId (replicate 16 9) \<longrightarrow> fresh_key sv p rid"
      "sv_queue_rate_limiter sv = (sv_queue_rate_limiter (RelayService_new fresh_connection))\<lparr>rt_windows := [(?S, [1])]\<rparr>"
    by (rule ex_opened)
  let ?l = "(sv_queue_rate_limiter (RelayService_new fresh_connection))\<lparr>rt_windows := [(?S, [1, 1])]\<rparr>"
  have admit: "RateLimiter_admit (sv_queue_rate_limiter sv) ?S (Timestamp_as_secs (Timestamp 1)) = (True, ?l)" "admits 2 ?l ?R (Timestamp_as_secs (Timestamp 50))"
    by (simp_all add: sv(4) RateLimiter_admit_def RelayService_new_def RateLimiter_new_def RATE_LIMIT_MAX_TRACKED_KEYS_def admits_two
        QUEUE_RATE_LIMIT_MAX_REQUESTS_def QUEUE_RATE_LIMIT_WINDOW_SECS_def word_le_nat_alt)
  have keys: "EncryptionSecretKey_public_key ex_hpke (EncryptionSecretKey k) = EncryptionPublicKey k" for k
    by (simp add: EncryptionSecretKey_public_key_def ex_hpke_def)
  obtain sd where sd: "Sender_new ex_ed ?q ?S ?R (RelaySigningKey (replicate 32 2)) (EncryptionSecretKey [1]) (EncryptionSecretKey_public_key ex_hpke (EncryptionSecretKey [2])) = Inr sd"
    by (simp add: Sender_new_def ex_open_wf)
  obtain rc where rc: "Recipient_new ex_ed ?q ?S ?R (RelaySigningKey (replicate 32 3)) (EncryptionSecretKey [2]) (EncryptionSecretKey_public_key ex_hpke (EncryptionSecretKey [1])) = Inr rc"
    by (simp add: Recipient_new_def ex_open_wf)
  obtain prepared rng where prep: "Sender_prepare ex_ed ex_hpke sd (RequestId (replicate 16 8)) ?m [7, 8] (Ttl 60) 0 = (Inr prepared, rng)"
    using sd by (auto simp: Sender_new_def ex_open_wf keys Sender_prepare_def seal_message_def ex_hpke_def EncryptionPublicKey_parse_def
        MAX_PLAINTEXT_BYTES_def crypto_constants MAX_MESSAGE_BYTES_def Payload_new_def Let_def)
  have ids: "ex_ids 0 = (RequestId (replicate 16 0), 1)" "ex_ids 1 = (RequestId (replicate 16 1), 2)"
    by (simp_all add: ex_ids_def)
  have wf: "wf_QueueId ?q" "wf_Principal ?S" "wf_Principal ?R" "wf_MessageId ?m" "wf_RequestId (RequestId (replicate 16 k))" for k
    by (simp_all add: wf_id_defs)
  have "\<exists>sv1 sv2. Sender_send (service_transport ex_ed (faultless max_rowid_engine) (Timestamp 1)) sd prepared sv = (Inr ScAccepted, sv1)
     \<and> Recipient_poll ex_ed ex_hpke (service_transport ex_ed (faultless max_rowid_engine) (Timestamp 50)) ex_inbox ex_ids rc (sv1, [], 0)
        = (Inr (PoApplied ?m), sv2, [(?m, [7, 8])], 2)
     \<and> map_option mb_items (service_view (Timestamp 50) sv2 ?q) = Some []"
    by (rule message_end_to_end [OF ex_ed_laws ex_hpke_laws max_rowid_engine_fresh sv(1) sd rc prep wf(1-4) wf(5) wf(5) wf(5) _ sv(2) _ _ _ _ _ _
          _ ids admit])
      (use sv(3) in \<open>simp_all add: ex_inbox_def u64_max_def less_eq_Timestamp_def\<close>)
  with sd prep keys show ?thesis by metis
qed

end
