(* ===== verification/CW_Blob_Delivery.thy ===== *)
theory CW_Blob_Delivery
  imports CW_Delivery CW_Blob_Download
begin

text \<open>
  Blob client and service together: the uploader and the download of \<open>crates/cofferwire-client/src/blob.rs\<close> talk
  to the service of \<open>apps/cofferwired/src/lib.rs\<close>, which keeps the object in its database.
\<close>

section \<open>An object on its way into the store\<close>

definition upload_record :: "Ed25519 \<Rightarrow> PreparedBlob \<Rightarrow> u64 \<Rightarrow> UploadRow" where
  "upload_record ed blob expiry = \<lparr>ur_upload_id = UploadId_bytes (pb_upload_id blob),
     ur_upload_cap = CapabilityId_bytes (BlobSigningKey_capability ed (pb_upload_key blob)),
     ur_download_cap = CapabilityId_bytes (BlobSigningKey_capability ed (pb_download_key blob)),
     ur_renew_cap = CapabilityId_bytes (BlobSigningKey_capability ed (pb_renew_key blob)),
     ur_delete_cap = CapabilityId_bytes (BlobSigningKey_capability ed (pb_delete_key blob)),
     ur_manifest = bm_bytes (eb_manifest (pb_encrypted blob)), ur_expires_at = u64_to_be_bytes expiry, ur_committed_blob = None\<rparr>"

definition chunk_record :: "PreparedBlob \<Rightarrow> nat \<Rightarrow> UploadChunkRow" where
  "chunk_record blob k = \<lparr>uc_upload_id = UploadId_bytes (pb_upload_id blob), uc_chunk_index = of_nat k,
     uc_ciphertext = eb_chunks (pb_encrypted blob) ! k\<rparr>"

definition unpublished :: "PreparedBlob \<Rightarrow> Db \<Rightarrow> bool" where
  "unpublished blob db \<longleftrightarrow>
     (\<forall>r \<in> set (db_grants db). gr_grant_id r \<noteq> UploadId_bytes (pb_upload_id blob) \<and> gr_blob_id r \<noteq> BlobId_bytes (eb_blob_id (pb_encrypted blob)))
     \<and> (\<forall>r \<in> set (db_objects db). or_blob_id r \<noteq> BlobId_bytes (eb_blob_id (pb_encrypted blob)))
     \<and> (\<forall>r \<in> set (db_chunks db). cr_blob_id r \<noteq> BlobId_bytes (eb_blob_id (pb_encrypted blob)))"

text \<open>Nothing in the tables mentions the upload or the object; the upload with its first chunks; the published object.\<close>

definition unknown_object :: "PreparedBlob \<Rightarrow> Db \<Rightarrow> bool" where
  "unknown_object blob db \<longleftrightarrow>
     upload_rows (pb_upload_id blob) db = [] \<and> upload_chunk_rows (pb_upload_id blob) db = [] \<and> unpublished blob db"

definition uploading :: "Ed25519 \<Rightarrow> PreparedBlob \<Rightarrow> u64 \<Rightarrow> nat \<Rightarrow> Db \<Rightarrow> bool" where
  "uploading ed blob expiry k db \<longleftrightarrow>
     upload_rows (pb_upload_id blob) db = [upload_record ed blob expiry]
     \<and> upload_chunk_rows (pb_upload_id blob) db = map (chunk_record blob) [0..<k] \<and> unpublished blob db"

definition published :: "Ed25519 \<Rightarrow> PreparedBlob \<Rightarrow> u64 \<Rightarrow> Db \<Rightarrow> bool" where
  "published ed blob expiry db \<longleftrightarrow>
     object_rows (eb_blob_id (pb_encrypted blob)) db
       = [\<lparr>or_blob_id = BlobId_bytes (eb_blob_id (pb_encrypted blob)), or_manifest = bm_bytes (eb_manifest (pb_encrypted blob))\<rparr>]
     \<and> (\<forall>k < chunk_total blob. map cr_ciphertext (chunk_at (eb_blob_id (pb_encrypted blob)) (of_nat k) db) = [eb_chunks (pb_encrypted blob) ! k])
     \<and> map (\<lambda>g. (gr_expires_at g, gr_deleted g)) (grant_rows (eb_blob_id (pb_encrypted blob)) gr_download_cap
         (BlobSigningKey_capability ed (pb_download_key blob)) db) = [(u64_to_be_bytes expiry, 0)]"

text \<open>What sealing gives beyond \<open>wf_blob\<close>: full chunks with the digests of the manifest.\<close>

definition sealed_object :: "'g Primitives \<Rightarrow> PreparedBlob \<Rightarrow> bool" where
  "sealed_object pr blob \<longleftrightarrow> wf_blob pr blob
     \<and> bm_digests (eb_manifest (pb_encrypted blob)) = map (pr_sha256 pr) (eb_chunks (pb_encrypted blob))
     \<and> list_all (\<lambda>c. length c = unat (bm_chunk_size (eb_manifest (pb_encrypted blob))) + 16) (eb_chunks (pb_encrypted blob))"

lemmas store_step_simps = tx_bind_def tx_res_def tx_fail_def tx_return_def tx_map_err_def tx_map_ok_def blob_exec_def sql_exec_def sql_call_def
  query_optional_def query_row_def constrained_def

lemma be_u64_round [simp]: "be_u64 (u64_to_be_bytes x) = Inr x"
  by (simp add: be_u64_def)

lemma begin_step:
  assumes "ed25519_laws ed" and "wf_blob pr blob" and "unknown_object blob (cn_db c)"
    and "checked_add (Timestamp_as_secs now) ttl = Some expiry" and "ttl \<noteq> 0"
  shows "\<exists>c'. begin_blob_upload_tx (faultless E) (pb_upload_id blob) (blob_capabilities ed blob) (eb_manifest (pb_encrypted blob)) now ttl c
      = (Inr BwStored, c') \<and> uploading ed blob expiry 0 (cn_db c')"
proof -
  have "upload_row_checks (upload_record ed blob expiry)"
    using assms(2) wf_capability [OF assms(1)] by (simp add: upload_row_checks_def upload_record_def wf_blob_def wf_UploadId_def wf_CapabilityId_def)
  moreover have "UploadId_bytes (pb_upload_id blob) \<notin> ur_upload_id ` set (db_uploads (cn_db c))"
    using assms(3) by (auto simp: unknown_object_def upload_rows_def filter_empty_conv)
  ultimately show ?thesis
    using assms(3-5)
    by (simp add: begin_blob_upload_tx_def requested_expiry_def store_step_simps insert_upload_def unknown_object_def uploading_def
        upload_record_def [symmetric] blob_capabilities_def word_gt_0)
       (simp add: upload_rows_def upload_chunk_rows_def unpublished_def upload_record_def)
qed

lemma chunk_index:
  assumes "wf_blob pr blob" and "k < chunk_total blob"
  shows "unat (of_nat k :: u32) = k" and "k < 2 ^ 32"
proof -
  show "k < 2 ^ 32"
    using assms wf_manifest_bounds(2) [of "eb_manifest (pb_encrypted blob)"] by (simp add: wf_blob_def MAX_CHUNKS_def)
  then show "unat (of_nat k :: u32) = k" by (simp add: unat_of_nat)
qed

lemma chunk_digest:
  assumes "sealed_object pr blob" and "k < chunk_total blob"
  shows "BlobManifest_digest (eb_manifest (pb_encrypted blob)) k = Some (pr_sha256 pr (eb_chunks (pb_encrypted blob) ! k))"
  using assms by (simp add: sealed_object_def BlobManifest_digest_def get_at_def)

lemma parse_stored_wf: "wf_BlobManifest m \<Longrightarrow> parse_stored (bm_bytes m) = Inr m"
  by (simp add: parse_stored_def wf_BlobManifest_def)

lemma put_step:
  assumes sealed: "sealed_object pr blob" and up: "uploading ed blob expiry k (cn_db c)" and k: "k < chunk_total blob"
    and now: "Timestamp_as_secs now < expiry"
  shows "\<exists>c'. put_blob_chunk_tx (pr_sha256 pr) (faultless E) (pb_upload_id blob) (BlobSigningKey_capability ed (pb_upload_key blob)) (of_nat k)
      (eb_chunks (pb_encrypted blob) ! k) now c = (Inr BwStored, c') \<and> uploading ed blob expiry (Suc k) (cn_db c')"
proof -
  have wf: "wf_blob pr blob" and size: "length (eb_chunks (pb_encrypted blob) ! k) = unat (bm_chunk_size (eb_manifest (pb_encrypted blob))) + 16"
    using sealed k by (simp_all add: sealed_object_def list_all_length)
  note m = parse_stored_wf [of "eb_manifest (pb_encrypted blob)"]
  have idx: "unat (of_nat j :: u32) = j" if "j \<le> k" for j
    using chunk_index(1) [OF wf, of j] that k by simp
  have "upload_chunk_at (pb_upload_id blob) (of_nat k) (cn_db c) = []"
  proof -
    have "(of_nat j :: u32) \<noteq> of_nat k" if "j < k" for j
      using idx [of j] idx [of k] that by (metis less_imp_le_nat nat_neq_iff order_refl)
    then show ?thesis
      using up by (auto simp: upload_chunk_at_def uploading_def filter_empty_conv chunk_record_def)
  qed
  moreover have "UploadId_bytes (pb_upload_id blob) \<in> ur_upload_id ` set (db_uploads (cn_db c))"
  proof -
    have "upload_record ed blob expiry \<in> set (upload_rows (pb_upload_id blob) (cn_db c))"
      using up by (simp add: uploading_def)
    then show ?thesis by (force simp: upload_rows_def)
  qed
  ultimately show ?thesis
    using up now size wf chunk_digest [OF sealed k] m idx [of k]
    by (simp add: put_blob_chunk_tx_def upload_def store_step_simps insert_upload_chunk_def uploading_def upload_record_def wf_blob_def
        linorder_not_le [symmetric] ok_or_def)
      (simp add: upload_rows_def upload_chunk_rows_def unpublished_def chunk_record_def)
qed

lemma filter_single_upt: "k < n \<Longrightarrow> filter (\<lambda>j. j = k) [0..<n] = [k]"
  by (induction n) (auto simp: less_Suc_eq)

lemma upload_chunk_row:
  assumes "wf_blob pr blob" and "uploading ed blob expiry (chunk_total blob) db" and "k < chunk_total blob"
  shows "upload_chunk_at (pb_upload_id blob) (of_nat k) db = [chunk_record blob k]"
proof -
  have "uc_chunk_index (chunk_record blob j) = of_nat k \<longleftrightarrow> j = k" if "j < chunk_total blob" for j
    using chunk_index(1) [OF assms(1)] that assms(3) by (metis UploadChunkRow.select_convs(2) chunk_record_def)
  then have "filter (\<lambda>j. uc_chunk_index (chunk_record blob j) = of_nat k) [0..<chunk_total blob] = filter (\<lambda>j. j = k) [0..<chunk_total blob]"
    by (intro filter_cong) auto
  also have "\<dots> = [k]"
    using assms(3) by (rule filter_single_upt)
  finally show ?thesis
    using assms(2) by (simp add: upload_chunk_at_def uploading_def filter_map o_def)
qed

lemma check_step:
  assumes "sealed_object pr blob" and "uploading ed blob expiry (chunk_total blob) (cn_db c)" and "set is \<subseteq> {..<chunk_total blob}"
  shows "\<exists>c'. check_chunks (pr_sha256 pr) (faultless E) (pb_upload_id blob) (eb_manifest (pb_encrypted blob)) is c = (Inr (), c') \<and> cn_db c' = cn_db c"
  using assms(2,3)
proof (induction "is" arbitrary: c)
  case (Cons k "is")
  have k: "k < chunk_total blob" using Cons.prems by simp
  have wf: "wf_blob pr blob" using assms(1) by (simp add: sealed_object_def)
  have "u32_try_from (of_nat k) = Some (of_nat k)"
    using chunk_index(2) [OF wf k] by (simp add: u32_try_from_iff unsigned_of_nat take_bit_nat_eq_self)
  with Cons.IH [of "\<lparr>cn_db = cn_db c, cn_calls = Suc (cn_calls c)\<rparr>"] Cons.prems upload_chunk_row [OF wf Cons.prems(1) k] chunk_digest [OF assms(1) k] show ?case
    by (simp add: store_step_simps ok_or_def chunk_record_def)
qed (simp add: tx_return_def)

lemma fold_fresh_chunks:
  assumes "distinct (map (\<lambda>r. (cr_blob_id r, cr_chunk_index r)) new)"
    and "\<forall>r \<in> set new. \<forall>r' \<in> set rows. cr_blob_id r' \<noteq> cr_blob_id r \<or> cr_chunk_index r' \<noteq> cr_chunk_index r"
  shows "fold add_chunk new rows = rows @ new"
  using assms
proof (induction new arbitrary: rows)
  case (Cons r new)
  then have "add_chunk r rows = rows @ [r]" by (auto simp: add_chunk_def)
  moreover have "fold add_chunk new (rows @ [r]) = (rows @ [r]) @ new"
    using Cons.prems by (intro Cons.IH) force+
  ultimately show ?case by simp
qed simp

lemma published_chunks:
  assumes "wf_blob pr blob" and "uploading ed blob expiry (chunk_total blob) db" and "b = eb_blob_id (pb_encrypted blob)"
  shows "fold add_chunk (map (published_chunk b) (upload_chunk_rows (pb_upload_id blob) db)) (db_chunks db)
    = db_chunks db @ map (\<lambda>k. published_chunk b (chunk_record blob k)) [0..<chunk_total blob]"
proof -
  have "inj_on (\<lambda>k. of_nat k :: u32) {0..<chunk_total blob}"
    using chunk_index(1) [OF assms(1)] by (intro inj_onI) (metis atLeastLessThan_iff)
  then have "distinct (map (\<lambda>r. (cr_blob_id r, cr_chunk_index r)) (map (published_chunk b) (map (chunk_record blob) [0..<chunk_total blob])))"
    by (simp add: o_def published_chunk_def chunk_record_def distinct_map inj_on_def)
  moreover have "\<forall>r' \<in> set (db_chunks db). cr_blob_id r' \<noteq> BlobId_bytes b"
    using assms(2,3) by (simp add: uploading_def unpublished_def)
  moreover have "upload_chunk_rows (pb_upload_id blob) db = map (chunk_record blob) [0..<chunk_total blob]"
    using assms(2) by (simp add: uploading_def)
  ultimately show ?thesis
    using fold_fresh_chunks [of "map (published_chunk b) (map (chunk_record blob) [0..<chunk_total blob])" "db_chunks db"]
    by (simp add: o_def published_chunk_def)
qed

lemma commit_step:
  assumes laws: "ed25519_laws ed" "\<And>x. length (pr_sha256 pr x) = 32" and sealed: "sealed_object pr blob"
    and up: "uploading ed blob expiry (chunk_total blob) (cn_db c)" and now: "Timestamp_as_secs now < expiry"
  shows "\<exists>c'. commit_blob_tx (pr_sha256 pr) (faultless E) (pb_upload_id blob) (BlobSigningKey_capability ed (pb_upload_key blob))
      (eb_blob_id (pb_encrypted blob)) now c = (Inr expiry, c') \<and> published ed blob expiry (cn_db c')"
proof -
  let ?b = "eb_blob_id (pb_encrypted blob)" and ?m = "eb_manifest (pb_encrypted blob)" and ?u = "pb_upload_id blob"
  have wf: "wf_blob pr blob" using sealed by (simp add: sealed_object_def)
  have m: "parse_stored (bm_bytes ?m) = Inr ?m" "identify (pr_sha256 pr) ?m = ?b" "chunk_total blob = BlobManifest_chunk_count ?m"
    using wf parse_stored_wf [of ?m] by (simp_all add: wf_blob_def identify_def blob_identify_def IDENTITY_DOMAIN_def BLOB_IDENTITY_DOMAIN_def)
  have rows: "upload_rows ?u (cn_db c) = [upload_record ed blob expiry]" "length (upload_chunk_rows ?u (cn_db c)) = chunk_total blob"
      "object_rows ?b (cn_db c) = []"
    using up by (auto simp: uploading_def unpublished_def object_rows_def filter_empty_conv)
  have b32: "length (BlobId_bytes ?b) = 32" and u32: "length (UploadId_bytes ?u) = 32"
    using wf laws(2) by (auto simp: wf_blob_def blob_identify_def wf_UploadId_def)
  let ?c2 = "\<lparr>cn_db = cn_db c, cn_calls = Suc (Suc (cn_calls c))\<rparr>"
  obtain c3 where check: "check_chunks (pr_sha256 pr) (faultless E) ?u ?m [0..<chunk_total blob] ?c2 = (Inr (), c3)" "cn_db c3 = cn_db c"
    using check_step [OF sealed, of ed expiry ?c2 "[0..<chunk_total blob]" E] up by (auto simp: lessThan_atLeast0)
  let ?G = "\<lparr>gr_grant_id = UploadId_bytes ?u, gr_blob_id = BlobId_bytes ?b,
      gr_download_cap = CapabilityId_bytes (BlobSigningKey_capability ed (pb_download_key blob)),
      gr_renew_cap = CapabilityId_bytes (BlobSigningKey_capability ed (pb_renew_key blob)),
      gr_delete_cap = CapabilityId_bytes (BlobSigningKey_capability ed (pb_delete_key blob)), gr_expires_at = u64_to_be_bytes expiry, gr_deleted = 0\<rparr>"
  let ?db1 = "(cn_db c)\<lparr>db_objects := db_objects (cn_db c) @ [\<lparr>or_blob_id = BlobId_bytes ?b, or_manifest = bm_bytes ?m\<rparr>]\<rparr>"
  let ?db2 = "?db1\<lparr>db_chunks := db_chunks (cn_db c) @ map (\<lambda>k. published_chunk ?b (chunk_record blob k)) [0..<chunk_total blob]\<rparr>"
  let ?db3 = "?db2\<lparr>db_grants := db_grants (cn_db c) @ [?G]\<rparr>"
  have object: "insert_object ?b (bm_bytes ?m) (cn_db c) = Inr ((), ?db1)"
    using b32 rows(3) by (simp add: insert_object_def)
  have chunks: "insert_chunks ?b ?u ?db1 = Inr ((), ?db2)"
    using published_chunks [OF wf up refl] by (simp add: insert_chunks_def constrained_def upload_chunk_rows_def Let_def)
  have grant: "insert_grant ?G ?db2 = Inr ((), ?db3)"
    using up u32 wf_capability [OF laws(1)]
    by (auto simp: insert_grant_def constrained_def grant_row_checks_def wf_CapabilityId_def uploading_def unpublished_def)
  obtain db4 where committed: "set_committed ?u ?b ?db3 = Inr ((), db4)" "db_objects db4 = db_objects ?db3" "db_chunks db4 = db_chunks ?db3"
      "db_grants db4 = db_grants ?db3"
    using b32 by (simp add: set_committed_def constrained_def)
  have "chunk_at ?b (of_nat k) db4 = [published_chunk ?b (chunk_record blob k)]" if "k < chunk_total blob" for k
  proof -
    have "filter (\<lambda>j. (of_nat j :: u32) = of_nat k) [0..<chunk_total blob] = filter (\<lambda>j. j = k) [0..<chunk_total blob]"
      using chunk_index(1) [OF wf] that by (intro filter_cong) (auto, metis)
    then show ?thesis
      using up filter_single_upt [OF that]
      by (simp add: chunk_at_def committed(3) uploading_def unpublished_def filter_map o_def published_chunk_def chunk_record_def)
  qed
  then have "published ed blob expiry db4"
    using up by (simp add: published_def object_rows_def grant_rows_def committed(2,4) uploading_def unpublished_def published_chunk_def chunk_record_def)
  then show ?thesis
    using rows m now check object chunks grant committed(1)
    by (simp add: commit_blob_tx_def store_step_simps ok_or_def upload_record_def linorder_not_le [symmetric])
qed

lemma authorize_step:
  assumes "scans_rows E" and "published ed blob expiry (cn_db c)" and "Timestamp_as_secs now < expiry"
  shows "authorize_grant (faultless E) (eb_blob_id (pb_encrypted blob)) gr_download_cap (BlobSigningKey_capability ed (pb_download_key blob)) now c
    = (Inr expiry, \<lparr>cn_db = cn_db c, cn_calls = Suc (cn_calls c)\<rparr>)"
proof -
  obtain g where g: "grant_rows (eb_blob_id (pb_encrypted blob)) gr_download_cap (BlobSigningKey_capability ed (pb_download_key blob)) (cn_db c) = [g]"
      "gr_expires_at g = u64_to_be_bytes expiry" "gr_deleted g = 0"
    using assms(2) by (auto simp: published_def)
  have "en_scan E [g] = [g]"
    using assms(1) unfolding scans_rows_def by (metis mset_single_iff mset_single_iff_right)
  with g assms(3) show ?thesis
    by (simp add: authorize_grant_def store_step_simps linorder_not_le [symmetric])
qed

lemma download_steps:
  assumes wf: "wf_blob pr blob" and sealed: "sealed_object pr blob" and E: "scans_rows E" and pub: "published ed blob expiry (cn_db c)" and now: "Timestamp_as_secs now < expiry"
  shows "\<exists>c'. get_blob_manifest_tx (pr_sha256 pr) (faultless E) (eb_blob_id (pb_encrypted blob)) (BlobSigningKey_capability ed (pb_download_key blob)) now c
      = (Inr (eb_manifest (pb_encrypted blob), expiry), c') \<and> cn_db c' = cn_db c"
    and "k < chunk_total blob \<Longrightarrow>
      \<exists>c'. get_blob_chunk_tx (pr_sha256 pr) (faultless E) (eb_blob_id (pb_encrypted blob)) (BlobSigningKey_capability ed (pb_download_key blob)) (of_nat k) now c
      = (Inr (eb_chunks (pb_encrypted blob) ! k, expiry), c') \<and> cn_db c' = cn_db c"
proof -
  let ?m = "eb_manifest (pb_encrypted blob)"
  have m: "parse_stored (bm_bytes ?m) = Inr ?m" "identify (pr_sha256 pr) ?m = eb_blob_id (pb_encrypted blob)"
    using wf parse_stored_wf [of ?m] by (simp_all add: wf_blob_def identify_def blob_identify_def IDENTITY_DOMAIN_def BLOB_IDENTITY_DOMAIN_def)
  note auth = authorize_step [OF E pub now]
  show "\<exists>c'. get_blob_manifest_tx (pr_sha256 pr) (faultless E) (eb_blob_id (pb_encrypted blob)) (BlobSigningKey_capability ed (pb_download_key blob)) now c
      = (Inr (?m, expiry), c') \<and> cn_db c' = cn_db c"
    using pub m by (simp add: get_blob_manifest_tx_def store_step_simps auth published_def)
  show "\<exists>c'. get_blob_chunk_tx (pr_sha256 pr) (faultless E) (eb_blob_id (pb_encrypted blob)) (BlobSigningKey_capability ed (pb_download_key blob)) (of_nat k) now c
      = (Inr (eb_chunks (pb_encrypted blob) ! k, expiry), c') \<and> cn_db c' = cn_db c" if k: "k < chunk_total blob"
  proof -
    obtain r where "chunk_at (eb_blob_id (pb_encrypted blob)) (of_nat k) (cn_db c) = [r]" "cr_ciphertext r = eb_chunks (pb_encrypted blob) ! k"
      using pub k by (force simp: published_def)
    then show ?thesis
      using pub m chunk_digest [OF sealed k] chunk_index(1) [OF wf k]
      by (simp add: get_blob_chunk_tx_def store_step_simps auth published_def ok_or_def)
  qed
qed

section \<open>Through the service\<close>

lemma stage_of_replay [simp]:
  "unknown_object blob (add_replay ns row db) = unknown_object blob db"
  "uploading ed blob expiry k (add_replay ns row db) = uploading ed blob expiry k db"
  "published ed blob expiry (add_replay ns row db) = published ed blob expiry db"
  by (cases ns; simp add: unknown_object_def uploading_def published_def unpublished_def upload_rows_def upload_chunk_rows_def object_rows_def
      chunk_at_def grant_rows_def)+

text \<open>What the service needs of the requests to come: new identifiers, and the rate limiter's consent.\<close>

type_synonym planned_call = "CapabilityId \<times> RequestId \<times> Timestamp"

primrec admits_all :: "'k RateLimiter \<Rightarrow> ('k \<times> u64) list \<Rightarrow> bool" where
  "admits_all l [] = True"
| "admits_all l (call # calls) = (case RateLimiter_admit l (fst call) (snd call) of (ok, l') \<Rightarrow> ok \<and> admits_all l' calls)"

definition fresh_blob_key :: "Db \<Rightarrow> CapabilityId \<Rightarrow> RequestId \<Rightarrow> bool" where
  "fresh_blob_key db cap rid \<longleftrightarrow> Namespace_select NsBlob (CapabilityId_bytes cap) rid db = []"

definition accepts :: "RelayService \<Rightarrow> planned_call list \<Rightarrow> bool" where
  "accepts sv calls \<longleftrightarrow> \<not> sv_poisoned sv \<and> distinct (map (\<lambda>(cap, rid, now). (cap, rid)) calls)
     \<and> (\<forall>(cap, rid, now) \<in> set calls. wf_RequestId rid \<and> fresh_blob_key (cn_db (sv_relay sv)) cap rid)
     \<and> admits_all (sv_blob_rate_limiter sv) (map (\<lambda>(cap, rid, now). (cap, Timestamp_as_secs now)) calls)"

lemma exchange_blob_at_admitted:
  assumes "decode_blob_request bs = Inr d"
    and "verify_blob_request ed (BlobRequest_capability (brf_request (dbr_frame d))) (dbr_authenticated_bytes d) (brf_auth (dbr_frame d)) = Inr ()"
    and "\<not> sv_poisoned sv"
    and "RateLimiter_admit (sv_blob_rate_limiter sv) (BlobRequest_capability (brf_request (dbr_frame d))) (Timestamp_as_secs now) = (True, l)"
  shows "exchange_blob_at ed sha256 E sv bs now = (case blob_tail sha256 E bs now (dbr_frame d) (sv_relay sv) of
    (r, c) \<Rightarrow> (r, sv\<lparr>sv_blob_rate_limiter := l, sv_relay := c\<rparr>))"
  using assms
  by (simp add: exchange_blob_at_def Let_def blob_tail_def answer_frame_def blob_replay_def blob_request_exchange_eq
      split: prod.splits sum.splits option.splits ReplayExchange.splits)

lemma blob_served:
  assumes laws: "ed25519_laws ed" and acc: "accepts sv ((BlobSigningKey_capability ed key, rid, now) # calls)"
    and wf: "wf_BlobRequest request" and cap: "BlobRequest_capability request = BlobSigningKey_capability ed key"
    and exec: "execute_blob_request sha256 (faultless E) request now \<lparr>cn_db = cn_db (sv_relay sv), cn_calls = 0\<rparr> = (Inr body, c')"
  obtains sv' row where "exchange_blob_at ed sha256 (faultless E) sv (signed_blob ed key rid request) now
      = (Inr (encode_blob_outcome rid (BlobRequest_command request) (Inr body)), sv')"
    "accepts sv' calls" "cn_db (sv_relay sv') = add_replay NsBlob row (cn_db c')"
proof -
  let ?cap = "BlobSigningKey_capability ed key" and ?bs = "signed_blob ed key rid request"
  have rid: "wf_RequestId rid" and live: "\<not> sv_poisoned sv" and sel: "Namespace_select NsBlob (CapabilityId_bytes ?cap) rid (cn_db (sv_relay sv)) = []"
    using acc by (simp_all add: accepts_def fresh_blob_key_def)
  obtain l where l: "RateLimiter_admit (sv_blob_rate_limiter sv) ?cap (Timestamp_as_secs now) = (True, l)"
      "admits_all l (map (\<lambda>(cap, rid, now). (cap, Timestamp_as_secs now)) calls)"
    using acc by (auto simp: accepts_def split: prod.splits)
  obtain auth where d: "decode_blob_request ?bs = Inr \<lparr>dbr_frame = \<lparr>brf_request_id = rid, brf_request = request, brf_auth = auth\<rparr>,
          dbr_authenticated_bytes = encode_blob_authenticated_request rid request\<rparr>"
      and v: "verify_blob_request ed ?cap (encode_blob_authenticated_request rid request) auth = Inr ()"
    using signed_blob_decodes [OF laws rid wf] by blast
  let ?f = "\<lparr>brf_request_id = rid, brf_request = request, brf_auth = auth\<rparr>"
  have pure: "pure_tx (blob_effect sha256 (request, now)) E (cn_db (sv_relay sv)) = (Inr body, cn_db c')"
    using exec by (simp add: pure_tx_def seen_def tx_map_err_def)
  let ?row = "replay_row (CapabilityId_bytes ?cap) rid ?bs (encode_blob_outcome rid (BlobRequest_command request) (Inr body))"
  obtain c2 where tail: "blob_tail sha256 (faultless E) ?bs now ?f (sv_relay sv)
        = (Inr (encode_blob_outcome rid (BlobRequest_command request) (Inr body)), c2)" "cn_db c2 = add_replay NsBlob ?row (cn_db c')"
    using blob_records.frame_executes [OF sel _ rid pure, where bs = ?bs and encode = "encode_blob_outcome rid (BlobRequest_command request)"
        and conflict = "blob_error_response rid (Some (BlobRequest_command request)) BsAuthReplay"] wf_capability [OF laws, of key] cap
    by (auto simp: blob_tail_def wf_CapabilityId_def)
  let ?sv' = "sv\<lparr>sv_blob_rate_limiter := l, sv_relay := c2\<rparr>"
  have ex: "exchange_blob_at ed sha256 (faultless E) sv ?bs now = (Inr (encode_blob_outcome rid (BlobRequest_command request) (Inr body)), ?sv')"
    using exchange_blob_at_admitted [OF d _ live, of ed now l sha256 "faultless E"] v cap l(1) tail(1) by simp
  have keeps: "replay_table NsBlob (cn_db c') = replay_table NsBlob (cn_db (sv_relay sv))"
    by (rule blob_records.pure_keeps [OF pure])
  have "fresh_blob_key (cn_db c2) cap' rid'" if "fresh_blob_key (cn_db (sv_relay sv)) cap' rid'" "(cap', rid') \<noteq> (?cap, rid)" for cap' rid'
  proof -
    have "CapabilityId_bytes ?cap \<noteq> CapabilityId_bytes cap' \<or> RequestId_bytes rid \<noteq> RequestId_bytes rid'"
      using that(2) CapabilityId.expand RequestId.expand by blast
    with that(1) keeps show ?thesis
      by (auto simp: fresh_blob_key_def Namespace_select_def tail(2) replay_row_def)
  qed
  moreover have "(cap', rid') \<noteq> (?cap, rid)" if "(cap', rid', now') \<in> set calls" for cap' rid' now'
    using acc that by (force simp: accepts_def)
  ultimately have "\<forall>(cap', rid', now') \<in> set calls. wf_RequestId rid' \<and> fresh_blob_key (cn_db c2) cap' rid'"
    using acc unfolding accepts_def by (simp del: not_None_eq split_paired_Ex) blast
  then have "accepts ?sv' calls"
    using acc l(2) by (simp add: accepts_def)
  with ex tail(2) show thesis by (intro that [of ?sv' ?row]) simp_all
qed

section \<open>The uploader through the service\<close>

text \<open>The transport of a client whose frames reach the service one after the other, each at its clock reading.\<close>

definition blob_service_transport ::
    "Ed25519 \<Rightarrow> (bytes \<Rightarrow> bytes) \<Rightarrow> Engine \<Rightarrow> (nat \<Rightarrow> Timestamp) \<Rightarrow> (RelayService \<times> nat) transport" where
  "blob_service_transport ed sha256 E clock t frame =
     (case exchange_blob_at ed sha256 E (fst t) frame (clock (snd t)) of (r, sv) \<Rightarrow> (map_err (\<lambda>_. TransportError) r, sv, Suc (snd t)))"

fun stage_db :: "Ed25519 \<Rightarrow> PreparedBlob \<Rightarrow> u64 \<Rightarrow> UploadStage \<Rightarrow> Db \<Rightarrow> bool" where
  "stage_db ed blob expiry UsBegin db \<longleftrightarrow> unknown_object blob db"
| "stage_db ed blob expiry (UsChunk k) db \<longleftrightarrow> uploading ed blob expiry k db"
| "stage_db ed blob expiry UsCommit db \<longleftrightarrow> uploading ed blob expiry (chunk_total blob) db"
| "stage_db ed blob expiry UsComplete db \<longleftrightarrow> published ed blob expiry db"

lemma stage_db_replay: "stage_db ed blob expiry stage (add_replay ns row db) = stage_db ed blob expiry stage db"
  by (cases stage) (simp_all only: stage_db.simps stage_of_replay)

text \<open>Requests reach the service before the upload expires.\<close>

definition in_time :: "Timestamp \<Rightarrow> u64 \<Rightarrow> u64 \<Rightarrow> UploadStage \<Rightarrow> bool" where
  "in_time now ttl expiry stage \<longleftrightarrow>
     (if stage = UsBegin then checked_add (Timestamp_as_secs now) ttl = Some expiry else Timestamp_as_secs now < expiry)"

lemma stage_effect:
  assumes laws: "ed25519_laws ed" "\<And>x. length (pr_sha256 pr x) = 32" and sealed: "sealed_object pr (bu_blob u)"
    and u: "wf_uploader ed pr u" and request: "stage_request ed u = Inr request"
    and db: "stage_db ed (bu_blob u) expiry (bu_stage u) (cn_db c)" and time: "in_time now (bu_ttl u) expiry (bu_stage u)"
  shows "\<exists>body c' stage progress. execute_blob_request (pr_sha256 pr) (faultless E) request now c = (Inr body, c')
    \<and> BlobResponseBody_command body = BlobRequest_command request \<and> wf_BlobResponseBody body
    \<and> stage_after u (bu_stage u) (Some body) = Inr (stage, progress) \<and> stage_db ed (bu_blob u) expiry stage (cn_db c')"
proof (cases "bu_stage u")
  case UsBegin
  obtain c' where "begin_blob_upload_tx (faultless E) (pb_upload_id (bu_blob u)) (blob_capabilities ed (bu_blob u))
        (eb_manifest (pb_encrypted (bu_blob u))) now (bu_ttl u) c = (Inr BwStored, c')" "uploading ed (bu_blob u) expiry 0 (cn_db c')"
    using begin_step [OF laws(1), of pr "bu_blob u" c now "bu_ttl u" expiry E] UsBegin u db time by (auto simp: in_time_def wf_uploader_def)
  with UsBegin request show ?thesis by (auto simp: stage_request_def Let_def tx_map_ok_def tx_bind_def tx_return_def)
next
  case (UsChunk k)
  then have k: "k < chunk_total (bu_blob u)" using u by (simp add: wf_uploader_def)
  obtain c' where "put_blob_chunk_tx (pr_sha256 pr) (faultless E) (pb_upload_id (bu_blob u)) (BlobSigningKey_capability ed (pb_upload_key (bu_blob u)))
        (of_nat k) (eb_chunks (pb_encrypted (bu_blob u)) ! k) now c = (Inr BwStored, c')" "uploading ed (bu_blob u) expiry (Suc k) (cn_db c')"
    using put_step [OF sealed _ k, of ed expiry c now E] UsChunk db time by (auto simp: in_time_def)
  with UsChunk request show ?thesis
    by (auto simp: stage_request_def Let_def tx_map_ok_def tx_bind_def tx_return_def usize_to_u32_def split: if_splits)
next
  case UsCommit
  obtain c' where "commit_blob_tx (pr_sha256 pr) (faultless E) (pb_upload_id (bu_blob u)) (BlobSigningKey_capability ed (pb_upload_key (bu_blob u)))
        (eb_blob_id (pb_encrypted (bu_blob u))) now c = (Inr expiry, c')" "published ed (bu_blob u) expiry (cn_db c')"
    using commit_step [OF laws sealed, of expiry c now E] UsCommit db time by (auto simp: in_time_def)
  with UsCommit request show ?thesis by (auto simp: stage_request_def Let_def tx_map_ok_def tx_bind_def tx_return_def)
qed (use request in \<open>simp add: stage_request_def Let_def\<close>)

lemma encode_outcome_body:
  "BlobResponseBody_command body = command \<Longrightarrow> encode_blob_outcome rid command (Inr body)
     = encode_blob_response \<lparr>brsf_request_id = rid, brsf_response = \<lparr>br_command = Some (BlobResponseBody_command body), br_status = BsOk, br_body = Some body\<rparr>\<rparr>"
  by (simp add: encode_blob_outcome_def)

lemma advance_through_service:
  assumes laws: "ed25519_laws ed" "\<And>x. length (pr_sha256 pr x) = 32" and sealed: "sealed_object pr (bu_blob u)"
    and u: "wf_uploader ed pr u" "bu_pending u = None" "bu_stage u \<noteq> UsComplete" and saves: "\<And>s bs. fst (commit s bs) = Inr ()"
    and id: "next_id i = (rid, i')"
    and acc: "accepts sv ((BlobSigningKey_capability ed (pb_upload_key (bu_blob u)), rid, clock k) # calls)"
    and db: "stage_db ed (bu_blob u) expiry (bu_stage u) (cn_db (sv_relay sv))" and time: "in_time (clock k) (bu_ttl u) expiry (bu_stage u)"
  shows "\<exists>progress u' sv' s'. BlobUploader_advance ed (blob_service_transport ed (pr_sha256 pr) (faultless E) clock) next_id commit u ((sv, k), i, s)
        = (Inr progress, u', (sv', Suc k), i', s')
    \<and> wf_uploader ed pr u' \<and> bu_pending u' = None \<and> bu_blob u' = bu_blob u \<and> bu_ttl u' = bu_ttl u \<and> upload_rank u' = Suc (upload_rank u)
    \<and> stage_db ed (bu_blob u) expiry (bu_stage u') (cn_db (sv_relay sv')) \<and> accepts sv' calls"
proof -
  have rid: "wf_RequestId rid" using acc by (simp add: accepts_def)
  obtain request where request: "stage_request ed u = Inr request"
    using stage_request_total [OF u(1,3)] by blast
  note q = stage_request_ok [OF laws u(1) request]
  let ?c = "\<lparr>cn_db = cn_db (sv_relay sv), cn_calls = 0\<rparr>"
  obtain body c' stage progress where eff: "execute_blob_request (pr_sha256 pr) (faultless E) request (clock k) ?c = (Inr body, c')"
      and body: "BlobResponseBody_command body = BlobRequest_command request" "wf_BlobResponseBody body"
      and after: "stage_after u (bu_stage u) (Some body) = Inr (stage, progress)" "stage_db ed (bu_blob u) expiry stage (cn_db c')"
    using stage_effect [OF laws sealed u(1) request, of expiry ?c "clock k" E] db time by auto
  obtain sv' row where ex: "exchange_blob_at ed (pr_sha256 pr) (faultless E) sv (signed_blob ed (pb_upload_key (bu_blob u)) rid request) (clock k)
      = (Inr (encode_blob_outcome rid (BlobRequest_command request) (Inr body)), sv')"
      and post: "accepts sv' calls" "cn_db (sv_relay sv') = add_replay NsBlob row (cn_db c')"
    by (rule blob_served [OF laws(1) acc q(1,2) eff])
  let ?p = "\<lparr>pe_request_id = rid, pe_command = BlobRequest_command request, pe_bytes = signed_blob ed (pb_upload_key (bu_blob u)) rid request\<rparr>"
  let ?u1 = "u\<lparr>bu_pending := Some ?p\<rparr>" and ?u' = "u\<lparr>bu_stage := stage, bu_pending := None\<rparr>"
  have wp: "with_pending ed next_id u i = (Inr ?u1, i')"
    by (simp add: with_pending_def u(2) request id)
  obtain s1 where s1: "commit s (encode_upload_state ?u1) = (Inr (), s1)"
    using saves [of s "encode_upload_state ?u1"] by (cases "commit s (encode_upload_state ?u1)") simp
  obtain s2 where s2: "commit s1 (encode_upload_state ?u') = (Inr (), s2)"
    using saves [of s1 "encode_upload_state ?u'"] by (cases "commit s1 (encode_upload_state ?u')") simp
  have checked: "checked_body (encode_blob_outcome rid (BlobRequest_command request) (Inr body)) rid (BlobRequest_command request) = Inr (Some body)"
    using checked_body_encoded [OF rid body(2)] body(1) by (simp add: encode_blob_outcome_def)
  have "stage_after ?u1 (bu_stage u) (Some body) = Inr (stage, progress)"
    using after(1) by (cases "(u, bu_stage u, Some body)" rule: stage_after.cases) auto
  then have adv: "BlobUploader_advance ed (blob_service_transport ed (pr_sha256 pr) (faultless E) clock) next_id commit u ((sv, k), i, s)
      = (Inr progress, ?u', (sv', Suc k), i', s2)"
    by (simp add: BlobUploader_advance_def u(3) wp s1 blob_service_transport_def ex checked s2)
  have "ahead_of ed pr (bu_blob u) (bu_ttl u) [] u"
    using u(1) by (simp add: ahead_of_def)
  note step = ahead_next [OF this after(1)]
  have "stage_db ed (bu_blob u) expiry stage (cn_db (sv_relay sv'))"
    using after(2) by (simp only: post(2) stage_db_replay)
  with adv step post(1) show ?thesis
    by (intro exI [of _ progress] exI [of _ ?u'] exI [of _ sv'] exI [of _ s2]) (simp add: ahead_of_def)
qed

text \<open>The requests a client is going to make, with the identifiers its source will issue and the clock readings they meet.\<close>

primrec upcoming :: "'i id_source \<Rightarrow> (nat \<Rightarrow> Timestamp) \<Rightarrow> CapabilityId list \<Rightarrow> nat \<Rightarrow> 'i \<Rightarrow> planned_call list" where
  "upcoming next_id clock [] k i = []"
| "upcoming next_id clock (cap # caps) k i = (cap, fst (next_id i), clock k) # upcoming next_id clock caps (Suc k) (snd (next_id i))"

primrec run_upload ::
    "Ed25519 \<Rightarrow> 't transport \<Rightarrow> 'i id_source \<Rightarrow> 's upload_store \<Rightarrow> nat \<Rightarrow> BlobUploader \<Rightarrow> 't \<times> 'i \<times> 's \<Rightarrow> BlobUploader \<times> 't \<times> 'i \<times> 's" where
  "run_upload ed exch next_id commit 0 u w = (u, w)"
| "run_upload ed exch next_id commit (Suc n) u w =
     (case BlobUploader_advance ed exch next_id commit u w of (r, u', w') \<Rightarrow> run_upload ed exch next_id commit n u' w')"

lemma upload_through_service:
  assumes laws: "ed25519_laws ed" "\<And>x. length (pr_sha256 pr x) = 32" and sealed: "sealed_object pr blob" and saves: "\<And>s bs. fst (commit s bs) = Inr ()"
    and time: "checked_add (Timestamp_as_secs (clock 0)) ttl = Some expiry" "\<And>j. 0 < j \<Longrightarrow> j < chunk_total blob + 2 \<Longrightarrow> Timestamp_as_secs (clock j) < expiry"
    and u: "wf_uploader ed pr u" "bu_pending u = None" "bu_blob u = blob" "bu_ttl u = ttl" "n = chunk_total blob + 2 - upload_rank u"
    and acc: "accepts sv (upcoming next_id clock (replicate n (BlobSigningKey_capability ed (pb_upload_key blob)) @ caps) (upload_rank u) i)"
    and db: "stage_db ed blob expiry (bu_stage u) (cn_db (sv_relay sv))"
  shows "\<exists>u' sv' i' s'. run_upload ed (blob_service_transport ed (pr_sha256 pr) (faultless E) clock) next_id commit n u ((sv, upload_rank u), i, s)
        = (u', (sv', chunk_total blob + 2), i', s')
    \<and> bu_stage u' = UsComplete \<and> published ed blob expiry (cn_db (sv_relay sv')) \<and> accepts sv' (upcoming next_id clock caps (chunk_total blob + 2) i')"
  using u acc db
proof (induction n arbitrary: u sv i s)
  case 0
  then have "upload_rank u = chunk_total blob + 2" "bu_stage u = UsComplete"
    using upload_rank_bound [OF 0(1)] by auto
  with 0 show ?case by auto
next
  case (Suc n)
  let ?cap = "BlobSigningKey_capability ed (pb_upload_key blob)" and ?T = "blob_service_transport ed (pr_sha256 pr) (faultless E) clock"
  have rank: "upload_rank u < chunk_total blob + 2" using Suc.prems(5) by simp
  then have open_stage: "bu_stage u \<noteq> UsComplete" using Suc.prems(3) by auto
  have timely: "in_time (clock (upload_rank u)) (bu_ttl u) expiry (bu_stage u)"
    using time rank Suc.prems(3,4) by (cases "bu_stage u") (auto simp: in_time_def)
  have acc': "accepts sv ((?cap, fst (next_id i), clock (upload_rank u)) # upcoming next_id clock (replicate n ?cap @ caps) (Suc (upload_rank u)) (snd (next_id i)))"
    using Suc.prems(6) by simp
  obtain progress u' sv' s' where step: "BlobUploader_advance ed ?T next_id commit u ((sv, upload_rank u), i, s)
        = (Inr progress, u', (sv', Suc (upload_rank u)), snd (next_id i), s')"
      and u': "wf_uploader ed pr u'" "bu_pending u' = None" "bu_blob u' = blob" "bu_ttl u' = ttl" "upload_rank u' = Suc (upload_rank u)"
      and post: "stage_db ed blob expiry (bu_stage u') (cn_db (sv_relay sv'))" "accepts sv' (upcoming next_id clock (replicate n ?cap @ caps) (Suc (upload_rank u)) (snd (next_id i)))"
    using advance_through_service [OF laws, of u commit next_id i "fst (next_id i)" "snd (next_id i)" sv clock "upload_rank u"
        "upcoming next_id clock (replicate n ?cap @ caps) (Suc (upload_rank u)) (snd (next_id i))" expiry E s]
      sealed Suc.prems(1-4,7) open_stage saves acc' timely by auto
  have "n = chunk_total blob + 2 - upload_rank u'" using Suc.prems(5) u'(5) by simp
  from Suc.IH [OF u'(1-4) this _ post(1), of "snd (next_id i)" s'] post(2) u'(5) step show ?case by simp
qed

section \<open>The download through the service\<close>

lemma get_through_service:
  assumes laws: "ed25519_laws ed" and acc: "accepts sv (upcoming next_id clock (BlobSigningKey_capability ed key # caps) k i)"
    and wf: "wf_BlobRequest request" "BlobRequest_capability request = BlobSigningKey_capability ed key"
    and exec: "execute_blob_request sha256 (faultless E) request (clock k) \<lparr>cn_db = cn_db (sv_relay sv), cn_calls = 0\<rparr> = (Inr body, c')"
    and body: "BlobResponseBody_command body = BlobRequest_command request" "wf_BlobResponseBody body"
    and keeps: "\<And>row. P (add_replay NsBlob row (cn_db c'))"
  shows "\<exists>sv'. blob_client_exchange ed (blob_service_transport ed sha256 (faultless E) clock) next_id key request ((sv, k), i)
        = (Inr body, (sv', Suc k), snd (next_id i))
    \<and> P (cn_db (sv_relay sv')) \<and> accepts sv' (upcoming next_id clock caps (Suc k) (snd (next_id i)))"
proof -
  obtain rid i' where id: "next_id i = (rid, i')" by fastforce
  have rid: "wf_RequestId rid" using acc id by (simp add: accepts_def)
  have acc': "accepts sv ((BlobSigningKey_capability ed key, rid, clock k) # upcoming next_id clock caps (Suc k) i')"
    using acc id by simp
  obtain sv' row where ex: "exchange_blob_at ed sha256 (faultless E) sv (signed_blob ed key rid request) (clock k)
      = (Inr (encode_blob_outcome rid (BlobRequest_command request) (Inr body)), sv')"
      and post: "accepts sv' (upcoming next_id clock caps (Suc k) i')" "cn_db (sv_relay sv') = add_replay NsBlob row (cn_db c')"
    by (rule blob_served [OF laws acc' wf exec])
  have "checked_body (encode_blob_outcome rid (BlobRequest_command request) (Inr body)) rid (BlobRequest_command request) = Inr (Some body)"
    using checked_body_encoded [OF rid body(2)] body(1) by (simp add: encode_blob_outcome_def)
  then have "blob_client_exchange ed (blob_service_transport ed sha256 (faultless E) clock) next_id key request ((sv, k), i) = (Inr body, (sv', Suc k), i')"
    by (simp add: blob_client_exchange_def id blob_service_transport_def ex ok_or_def)
  moreover have "P (cn_db (sv_relay sv'))"
    unfolding post(2) by (rule keeps)
  ultimately show ?thesis
    using post(1) by (simp add: id)
qed

lemma chunks_through_service:
  assumes laws: "ed25519_laws ed" "\<And>x. length (pr_sha256 pr x) = 32" and sealed: "sealed_object pr blob" and E: "scans_rows E"
    and time: "\<And>j. k \<le> j \<Longrightarrow> j < k + length is \<Longrightarrow> Timestamp_as_secs (clock j) < expiry" and "is": "set is \<subseteq> {..<chunk_total blob}"
    and acc: "accepts sv (upcoming next_id clock (replicate (length is) (BlobSigningKey_capability ed (pb_download_key blob)) @ caps) k i)"
    and db: "published ed blob expiry (cn_db (sv_relay sv))"
  shows "\<exists>w'. download_chunks ed (blob_service_transport ed (pr_sha256 pr) (faultless E) clock) next_id blob is ((sv, k), i)
    = (Inr (map (nth (eb_chunks (pb_encrypted blob))) is), w')"
  using time "is" acc db
proof (induction "is" arbitrary: sv k i)
  case (Cons j "is")
  have j: "j < chunk_total blob" using Cons.prems(2) by simp
  have wf: "wf_blob pr blob" using sealed by (simp add: sealed_object_def)
  have sizes: "wf_BlobId (eb_blob_id (pb_encrypted blob))" "length (eb_chunks (pb_encrypted blob) ! j) \<le> MAX_CHUNK_BYTES + 16"
    using wf laws(2) wf_manifest_bounds(3) [of "eb_manifest (pb_encrypted blob)"] j
    by (auto simp: wf_blob_def blob_identify_def wf_BlobId_def dest!: bspec [OF _ nth_mem [OF j]])
  let ?c = "\<lparr>cn_db = cn_db (sv_relay sv), cn_calls = 0\<rparr>"
  let ?q = "BrGetChunk (eb_blob_id (pb_encrypted blob)) (BlobSigningKey_capability ed (pb_download_key blob)) (of_nat j)"
  have now: "Timestamp_as_secs (clock k) < expiry" using Cons.prems(1) by simp
  obtain c' where "get_blob_chunk_tx (pr_sha256 pr) (faultless E) (eb_blob_id (pb_encrypted blob)) (BlobSigningKey_capability ed (pb_download_key blob))
        (of_nat j) (clock k) ?c = (Inr (eb_chunks (pb_encrypted blob) ! j, expiry), c')" "cn_db c' = cn_db (sv_relay sv)"
    using download_steps(2) [OF wf sealed E _ now j, of ed ?c] Cons.prems(4) by auto
  then have exec: "execute_blob_request (pr_sha256 pr) (faultless E) ?q (clock k) ?c = (Inr (BrbGetChunk (eb_chunks (pb_encrypted blob) ! j) expiry), c')"
      and keeps: "published ed blob expiry (add_replay NsBlob row (cn_db c'))" for row
    using Cons.prems(4) by (simp_all only: stage_of_replay) (simp_all add: tx_map_ok_def tx_bind_def tx_return_def)
  obtain sv' where ex: "blob_client_exchange ed (blob_service_transport ed (pr_sha256 pr) (faultless E) clock) next_id (pb_download_key blob) ?q ((sv, k), i)
        = (Inr (BrbGetChunk (eb_chunks (pb_encrypted blob) ! j) expiry), (sv', Suc k), snd (next_id i))"
      and post: "published ed blob expiry (cn_db (sv_relay sv'))"
        "accepts sv' (upcoming next_id clock (replicate (length is) (BlobSigningKey_capability ed (pb_download_key blob)) @ caps) (Suc k) (snd (next_id i)))"
    using get_through_service [OF laws(1) Cons.prems(3) [simplified length_Cons replicate_Suc append_Cons] _ _ exec, where P = "published ed blob expiry", OF _ _ _ _ keeps]
      sizes wf_capability [OF laws(1)] by auto
  have "\<exists>w'. download_chunks ed (blob_service_transport ed (pr_sha256 pr) (faultless E) clock) next_id blob is ((sv', Suc k), snd (next_id i))
      = (Inr (map (nth (eb_chunks (pb_encrypted blob))) is), w')"
    using Cons.prems(1,2) post by (intro Cons.IH) auto
  then show ?case
    using ex chunk_index(2) [OF wf j] by (auto simp: usize_to_u32_def)
qed simp

section \<open>From upload to download\<close>

lemma prepared_sealed:
  assumes pr: "blob_primitives pr" and keys: "\<And>g. length (fst (generate g)) = 32"
    and new: "PreparedBlob_new pr generate plaintext chunk_size rng = (Some (Inr blob), rng')"
  shows "sealed_object pr blob" and "open_blob pr (eb_key (pb_encrypted blob)) (eb_blob_id (pb_encrypted blob)) (eb_manifest (pb_encrypted blob))
      (eb_chunks (pb_encrypted blob)) = Some (Inr plaintext)"
    and "bm_chunk_size (eb_manifest (pb_encrypted blob)) = chunk_size" and "padded_size_of (length plaintext) chunk_size = Inr (unat (bm_padded_size (eb_manifest (pb_encrypted blob))))"
proof -
  let ?e = "pb_encrypted blob"
  have sealed: "fst (seal_blob pr plaintext chunk_size rng) = Some (Inr ?e)"
    using new by (auto simp: PreparedBlob_new_def Let_def split: prod.splits option.splits sum.splits)
  have fill: "length (fst (pr_fill pr n g)) = n" for n g
    using blob_primitivesD(4) [OF pr] by simp
  have lens: "length (UploadId_bytes (pb_upload_id blob)) = 32" "length (BlobSigningKey_seed (pb_upload_key blob)) = 32"
      "length (BlobSigningKey_seed (pb_download_key blob)) = 32" "length (BlobSigningKey_seed (pb_renew_key blob)) = 32"
      "length (BlobSigningKey_seed (pb_delete_key blob)) = 32"
    using new keys fill by (auto simp: PreparedBlob_new_def Let_def split: prod.splits option.splits sum.splits) (metis fst_conv)+
  obtain padded where padded: "padded_size_of (length plaintext) chunk_size = Inr padded"
    using seal_blob_size [OF sealed] by blast
  note e = seal_blob_opens [OF pr padded, of rng, unfolded sealed option.inject sum.inject]
  have key: "length (ObjectKey_bytes (eb_key ?e)) = 32"
    unfolding seal_blob_key [OF sealed] using fill [of 32 rng] by (auto simp: ObjectKey_generate_def split: prod.split)
  show "sealed_object pr blob" "bm_chunk_size (eb_manifest ?e) = chunk_size" "padded_size_of (length plaintext) chunk_size = Inr (unat (bm_padded_size (eb_manifest ?e)))"
    using e lens key padded by (auto simp: sealed_object_def wf_blob_def wf_UploadId_def BlobManifest_chunk_count_def list_all_iff)
  show "open_blob pr (eb_key ?e) (eb_blob_id ?e) (eb_manifest ?e) (eb_chunks ?e) = Some (Inr plaintext)"
    using e by blast
qed

text \<open>
  C2: an object goes through the whole system. A client seals a plaintext and uploads it to the service, which
  stores it; from then on, until the object expires, a download through the service returns exactly that
  plaintext. This holds when the storage engine does not fail, the object and its upload are new to the
  database, the request identifiers are new, the rate limiter admits the requests and the client's own store
  commits; the requests may meet any clock readings before the expiry.
\<close>

theorem blob_end_to_end:
  assumes "ed25519_laws ed" and "blob_primitives pr" and "scans_rows E" and "\<And>g. length (fst (generate g)) = 32" and "\<And>s bs. fst (commit s bs) = Inr ()"
    and "PreparedBlob_new pr generate plaintext chunk_size rng = (Some (Inr blob), rng')" and "n = length (eb_chunks (pb_encrypted blob))"
    and "ttl \<noteq> 0" and "checked_add (Timestamp_as_secs (clock 0)) ttl = Some expiry"
    and "\<And>j. 0 < j \<Longrightarrow> j < 2 * n + 3 \<Longrightarrow> Timestamp_as_secs (clock j) < expiry"
    and "unknown_object blob (cn_db (sv_relay sv))"
    and "accepts sv (upcoming next_id clock (replicate (n + 2) (BlobSigningKey_capability ed (pb_upload_key blob))
        @ replicate (n + 1) (BlobSigningKey_capability ed (pb_download_key blob))) 0 i)"
  shows "\<exists>u sv' i' s' w. run_upload ed (blob_service_transport ed (pr_sha256 pr) (faultless E) clock) next_id commit (n + 2) (PreparedBlob_uploader blob ttl) ((sv, 0), i, s)
        = (u, (sv', n + 2), i', s') \<and> bu_stage u = UsComplete
    \<and> download_blob ed pr (blob_service_transport ed (pr_sha256 pr) (faultless E) clock) next_id blob ((sv', n + 2), i') = (Inr plaintext, w)"
proof -
  let ?T = "blob_service_transport ed (pr_sha256 pr) (faultless E) clock" and ?down = "BlobSigningKey_capability ed (pb_download_key blob)"
  let ?e = "pb_encrypted blob"
  have sha: "length (pr_sha256 pr x) = 32" for x by (rule blob_primitivesD(1) [OF assms(2)])
  note p = prepared_sealed [OF assms(2,4,6)]
  have wf: "wf_blob pr blob" using p(1) by (simp add: sealed_object_def)
  let ?u = "PreparedBlob_uploader blob ttl"
  have u: "wf_uploader ed pr ?u" "bu_pending ?u = None" "bu_blob ?u = blob" "bu_ttl ?u = ttl" "n + 2 = chunk_total blob + 2 - upload_rank ?u"
      "bu_stage ?u = UsBegin"
    using wf assms(7,8) by (simp_all add: PreparedBlob_uploader_def wf_uploader_def)
  obtain u' sv' i' s' where up: "run_upload ed ?T next_id commit (n + 2) ?u ((sv, 0), i, s) = (u', (sv', n + 2), i', s')" "bu_stage u' = UsComplete"
      and pub: "published ed blob expiry (cn_db (sv_relay sv'))" and acc: "accepts sv' (upcoming next_id clock (?down # replicate n ?down) (n + 2) i')"
    using upload_through_service [where clock = clock and commit = commit and next_id = next_id and caps = "replicate (n + 1) ?down" and sv = sv
        and i = i and E = E and s = s, OF assms(1) sha p(1) assms(5,9) _ u(1-5)] assms(7,10-12) u(6) by auto
  let ?q = "BrGetManifest (eb_blob_id ?e) ?down" and ?c = "\<lparr>cn_db = cn_db (sv_relay sv'), cn_calls = 0\<rparr>"
  have now: "Timestamp_as_secs (clock (n + 2)) < expiry" using assms(10) by simp
  obtain c' where "get_blob_manifest_tx (pr_sha256 pr) (faultless E) (eb_blob_id ?e) ?down (clock (n + 2)) ?c = (Inr (eb_manifest ?e, expiry), c')"
      "cn_db c' = cn_db (sv_relay sv')"
    using download_steps(1) [OF wf p(1) assms(3) _ now, of ed ?c] pub by auto
  then have exec: "execute_blob_request (pr_sha256 pr) (faultless E) ?q (clock (n + 2)) ?c = (Inr (BrbGetManifest (eb_manifest ?e) expiry), c')"
      and keeps: "published ed blob expiry (add_replay NsBlob row (cn_db c'))" for row
    using pub by (simp_all only: stage_of_replay) (simp_all add: tx_map_ok_def tx_bind_def tx_return_def)
  have e: "wf_BlobManifest (eb_manifest ?e)" "BlobManifest_chunk_count (eb_manifest ?e) = n" "wf_BlobId (eb_blob_id ?e)"
    using wf sha assms(7) by (auto simp: wf_blob_def blob_identify_def wf_BlobId_def)
  obtain sv2 where ex: "blob_client_exchange ed ?T next_id (pb_download_key blob) ?q ((sv', n + 2), i') = (Inr (BrbGetManifest (eb_manifest ?e) expiry), (sv2, Suc (n + 2)), snd (next_id i'))"
      and post: "published ed blob expiry (cn_db (sv_relay sv2))" "accepts sv2 (upcoming next_id clock (replicate n ?down) (Suc (n + 2)) (snd (next_id i')))"
    using get_through_service [OF assms(1) acc _ _ exec, where P = "published ed blob expiry", OF _ _ _ _ keeps] e wf_capability [OF assms(1)] by auto
  have "\<exists>w'. download_chunks ed ?T next_id blob [0..<n] ((sv2, Suc (n + 2)), snd (next_id i')) = (Inr (map (nth (eb_chunks ?e)) [0..<n]), w')"
    by (rule chunks_through_service [OF assms(1) sha p(1) assms(3) _ _ _ post(1), where caps = "[]"]) (use post(2) assms(7,10) in auto)
  then obtain w' where "download_chunks ed ?T next_id blob [0..<n] ((sv2, Suc (n + 2)), snd (next_id i')) = (Inr (eb_chunks ?e), w')"
    using assms(7) by (auto simp: map_nth)
  then have "download_blob ed pr ?T next_id blob ((sv', n + 2), i') = (Inr plaintext, w')"
    unfolding download_blob_def ex by (simp add: e(2) p(2))
  with up show ?thesis by blast
qed

section \<open>A concrete run\<close>

definition ex_keygen :: "u8 \<Rightarrow> bytes \<times> u8" where
  "ex_keygen g = (replicate 32 g, g + 1)"

definition ex_clock :: "nat \<Rightarrow> Timestamp" where
  "ex_clock k = Timestamp (1 + of_nat k)"

lemma ex_prepared:
  obtains blob rng where "PreparedBlob_new ex_primitives ex_keygen [1, 2, 3] 64 7 = (Some (Inr blob), rng)" "length (eb_chunks (pb_encrypted blob)) = 1"
    "BlobSigningKey_capability ex_ed (pb_upload_key blob) \<noteq> BlobSigningKey_capability ex_ed (pb_download_key blob)"
proof -
  obtain rng where seal: "seal_blob ex_primitives [1, 2, 3] 64 7 = (Some (Inr (ex_object ex_primitives)), rng)"
    using ex_object_sealed(1) [OF ex_primitives_laws] by (metis prod.collapse)
  let ?blob = "\<lparr>pb_upload_id = UploadId (replicate 32 rng), pb_encrypted = ex_object ex_primitives, pb_upload_key = BlobSigningKey (replicate 32 (rng + 1)),
      pb_download_key = BlobSigningKey (replicate 32 (rng + 2)), pb_renew_key = BlobSigningKey (replicate 32 (rng + 3)),
      pb_delete_key = BlobSigningKey (replicate 32 (rng + 4))\<rparr>"
  have "PreparedBlob_new ex_primitives ex_keygen [1, 2, 3] 64 7 = (Some (Inr ?blob), rng + 5)"
    by (simp add: PreparedBlob_new_def seal ex_keygen_def) (simp add: ex_primitives_def)
  moreover note e = ex_object_sealed [OF ex_primitives_laws]
  have "length (eb_chunks (ex_object ex_primitives)) = 1"
    using wf_manifest_product [OF e(2)] e(4,5,7) by (simp add: BlobManifest_chunk_count_def)
  moreover have "BlobSigningKey_capability ex_ed (pb_upload_key ?blob) \<noteq> BlobSigningKey_capability ex_ed (pb_download_key ?blob)"
    by (simp add: BlobSigningKey_capability_def ex_ed_def)
  ultimately show thesis by (intro that [of ?blob]) simp_all
qed

theorem blob_end_to_end_witness:
  "\<exists>blob rng u sv i s w. PreparedBlob_new ex_primitives ex_keygen [1, 2, 3] 64 7 = (Some (Inr blob), rng)
    \<and> run_upload ex_ed (blob_service_transport ex_ed (pr_sha256 ex_primitives) (faultless max_rowid_engine) ex_clock) ex_ids ex_store 3
        (PreparedBlob_uploader blob 60) ((RelayService_new fresh_connection, 0), 0, None) = (u, (sv, 3), i, s) \<and> bu_stage u = UsComplete
    \<and> download_blob ex_ed ex_primitives (blob_service_transport ex_ed (pr_sha256 ex_primitives) (faultless max_rowid_engine) ex_clock) ex_ids blob ((sv, 3), i)
        = (Inr [1, 2, 3], w)"
proof -
  obtain blob rng where blob: "PreparedBlob_new ex_primitives ex_keygen [1, 2, 3] 64 7 = (Some (Inr blob), rng)"
      "length (eb_chunks (pb_encrypted blob)) = 1"
      and caps: "BlobSigningKey_capability ex_ed (pb_upload_key blob) \<noteq> BlobSigningKey_capability ex_ed (pb_download_key blob)"
    by (rule ex_prepared)
  let ?sv = "RelayService_new fresh_connection"
  have key: "length (fst (ex_keygen g)) = 32" for g by (simp add: ex_keygen_def)
  have store: "fst (ex_store s bs) = Inr ()" for s bs by (simp add: ex_store_def)
  have E: "scans_rows max_rowid_engine" by (simp add: scans_rows_def max_rowid_engine_def)
  have "unknown_object blob (cn_db (sv_relay ?sv))"
    by (simp add: unknown_object_def unpublished_def upload_rows_def upload_chunk_rows_def fresh_connection_def empty_db_def RelayService_new_def)
  moreover have "Timestamp_as_secs (ex_clock j) < 61" if "0 < j" "j < 2 * 1 + 3" for j
  proof -
    have "j = 1 \<or> j = 2 \<or> j = 3 \<or> j = 4" using that by arith
    then show ?thesis by (elim disjE) (simp_all add: ex_clock_def)
  qed
  moreover have "accepts ?sv (upcoming ex_ids ex_clock (replicate (1 + 2) (BlobSigningKey_capability ex_ed (pb_upload_key blob))
      @ replicate (1 + 1) (BlobSigningKey_capability ex_ed (pb_download_key blob))) 0 0)"
    using caps by (simp add: accepts_def numeral_3_eq_3 fresh_blob_key_def RelayService_new_def fresh_connection_def empty_db_def Namespace_select_def
        ex_ids_def wf_RequestId_def ex_clock_def RateLimiter_admit_def RateLimiter_new_def RATE_LIMIT_MAX_TRACKED_KEYS_def BLOB_RATE_LIMIT_WINDOW_SECS_def
        BLOB_RATE_LIMIT_MAX_REQUESTS_def word_le_nat_alt)
  ultimately have "\<exists>u sv i s w. run_upload ex_ed (blob_service_transport ex_ed (pr_sha256 ex_primitives) (faultless max_rowid_engine) ex_clock) ex_ids ex_store (1 + 2)
        (PreparedBlob_uploader blob 60) ((?sv, 0), 0, None) = (u, (sv, 1 + 2), i, s) \<and> bu_stage u = UsComplete
      \<and> download_blob ex_ed ex_primitives (blob_service_transport ex_ed (pr_sha256 ex_primitives) (faultless max_rowid_engine) ex_clock) ex_ids blob ((sv, 1 + 2), i)
        = (Inr [1, 2, 3], w)"
    by (intro blob_end_to_end [OF ex_ed_laws ex_primitives_laws E key store blob(1) blob(2) [symmetric], where expiry = 61])
      (auto simp: ex_clock_def checked_add_def u64_max_def)
  with blob(1) show ?thesis by (simp add: numeral_3_eq_3)
qed

end
