(* ===== verification/CW_Transport.thy ===== *)
theory CW_Transport
  imports CW_Service_Refines "HOL-Library.Multiset"
begin

text \<open>
  The transports of \<open>apps/cofferwired/src/transport.rs\<close> and the limits of \<open>connection_limit.rs\<close>: HTTP
  requests and WebSocket sessions hand frames to the service, under bounds on connections, sessions and
  concurrent commands. The HTTP and TLS machinery is third-party code; the semaphore of the runtime is a
  parameter with its documented behaviour.
\<close>

section \<open>Permits\<close>

record 'p Semaphore =
  sm_new :: "nat \<Rightarrow> 'p"
  sm_try_acquire :: "'p \<Rightarrow> 'p option"
  sm_release :: "'p \<Rightarrow> 'p"
  sm_available :: "'p \<Rightarrow> nat"

text \<open>
  Documented behaviour: a new semaphore has its number of permits; a permit is handed out exactly when one is
  available, and comes back when it is dropped. The program never closes a semaphore.
\<close>

definition semaphore_laws :: "'p Semaphore \<Rightarrow> bool" where
  "semaphore_laws sm \<longleftrightarrow>
     (\<forall>n. sm_available sm (sm_new sm n) = n)
     \<and> (\<forall>p. sm_try_acquire sm p = None \<longleftrightarrow> sm_available sm p = 0)
     \<and> (\<forall>p p'. sm_try_acquire sm p = Some p' \<longrightarrow> sm_available sm p = Suc (sm_available sm p'))
     \<and> (\<forall>p. sm_available sm (sm_release sm p) = Suc (sm_available sm p))"

definition MAX_CONCURRENT_COMMANDS :: nat where "MAX_CONCURRENT_COMMANDS = 64"

definition MAX_CONNECTIONS :: nat where "MAX_CONNECTIONS = 256"

definition MAX_WEBSOCKET_CONNECTIONS :: nat where "MAX_WEBSOCKET_CONNECTIONS = 128"

datatype io_error = ConnectionRefused

definition ConnectionLimit_new :: "'p Semaphore \<Rightarrow> 'p" where
  "ConnectionLimit_new sm = sm_new sm MAX_CONNECTIONS"

text \<open>The remaining permits after a connection was accepted.\<close>

definition ConnectionLimit_accept :: "'p Semaphore \<Rightarrow> 'p \<Rightarrow> (io_error, 'p) result" where
  "ConnectionLimit_accept sm permits = ok_or (sm_try_acquire sm permits) ConnectionRefused"

section \<open>HTTP requests\<close>

definition FRAME_MEDIA_TYPE :: string where "FRAME_MEDIA_TYPE = ''application/cofferwire''"

definition BLOB_FRAME_MEDIA_TYPE :: string where "BLOB_FRAME_MEDIA_TYPE = ''application/cofferwire-blob''"

datatype HttpResponse = HttpUnsupportedMediaType | HttpServiceUnavailable | HttpOk string bytes

text \<open>An exchange of the service over a state; the content type is missing when it is not text.\<close>

type_synonym 's exchanger = "'s \<Rightarrow> bytes \<Rightarrow> (ExchangeError, bytes) result \<times> 's"

definition post_frame :: "'s exchanger \<Rightarrow> string option \<Rightarrow> bytes \<Rightarrow> 's \<Rightarrow> HttpResponse \<times> 's" where
  "post_frame exch content_type body s =
     (if content_type \<noteq> Some FRAME_MEDIA_TYPE then (HttpUnsupportedMediaType, s)
      else case exch s body of
        (Inr response, s) \<Rightarrow> (HttpOk FRAME_MEDIA_TYPE response, s)
      | (Inl _, s) \<Rightarrow> (HttpServiceUnavailable, s))"

definition post_blob_frame :: "'s exchanger \<Rightarrow> string option \<Rightarrow> bytes \<Rightarrow> 's \<Rightarrow> HttpResponse \<times> 's" where
  "post_blob_frame exch content_type body s =
     (if content_type \<noteq> Some BLOB_FRAME_MEDIA_TYPE then (HttpUnsupportedMediaType, s)
      else case exch s body of
        (Inr response, s) \<Rightarrow> (HttpOk BLOB_FRAME_MEDIA_TYPE response, s)
      | (Inl _, s) \<Rightarrow> (HttpServiceUnavailable, s))"

section \<open>WebSocket sessions\<close>

definition WEBSOCKET_PROTOCOL :: string where "WEBSOCKET_PROTOCOL = ''cofferwire.v1''"

definition BLOB_WEBSOCKET_PROTOCOL :: string where "BLOB_WEBSOCKET_PROTOCOL = ''cofferwire.blob.v1''"

text \<open>An upgrade announces its subprotocol and bounds messages and frames; it comes with the remaining permits.\<close>

record Upgrade =
  up_protocol :: string
  up_max_message_size :: nat
  up_max_frame_size :: nat

definition upgrade_websocket :: "'p Semaphore \<Rightarrow> 'p \<Rightarrow> (HttpResponse, Upgrade \<times> 'p) result" where
  "upgrade_websocket sm websocket_connections =
     map_ok (\<lambda>p. (\<lparr>up_protocol = WEBSOCKET_PROTOCOL, up_max_message_size = MAX_FRAME_BYTES, up_max_frame_size = MAX_FRAME_BYTES\<rparr>, p))
       (ok_or (sm_try_acquire sm websocket_connections) HttpServiceUnavailable)"

definition upgrade_blob_websocket :: "'p Semaphore \<Rightarrow> 'p \<Rightarrow> (HttpResponse, Upgrade \<times> 'p) result" where
  "upgrade_blob_websocket sm websocket_connections =
     map_ok (\<lambda>p. (\<lparr>up_protocol = BLOB_WEBSOCKET_PROTOCOL, up_max_message_size = MAX_BLOB_FRAME_BYTES,
         up_max_frame_size = MAX_BLOB_FRAME_BYTES\<rparr>, p))
       (ok_or (sm_try_acquire sm websocket_connections) HttpServiceUnavailable)"

datatype WsMessage = WsBinary bytes | WsText | WsClose | WsPing | WsPong

text \<open>
  What waiting for the next message gives: a message, or nothing more (idle timeout, error or end of the
  stream). With each binary message comes whether its answer can be sent.
\<close>

datatype WsInput = WsStopped | WsReceived WsMessage bool

text \<open>The answers a session sends over a sequence of inputs.\<close>

primrec websocket_session :: "'s exchanger \<Rightarrow> 's exchanger \<Rightarrow> bool \<Rightarrow> WsInput list \<Rightarrow> 's \<Rightarrow> bytes list \<times> 's" where
  "websocket_session exch exch_blob blob [] s = ([], s)"
| "websocket_session exch exch_blob blob (input # inputs) s =
     (case input of
        WsStopped \<Rightarrow> ([], s)
      | WsReceived (WsBinary bs) send_ok \<Rightarrow>
          (case (if blob then exch_blob s bs else exch s bs) of
             (Inl _, s) \<Rightarrow> ([], s)
           | (Inr response, s) \<Rightarrow>
               if \<not> send_ok then ([], s)
               else let (sent, s) = websocket_session exch exch_blob blob inputs s in (response # sent, s))
      | WsReceived WsClose _ \<Rightarrow> ([], s)
      | WsReceived WsText _ \<Rightarrow> ([], s)
      | WsReceived WsPing _ \<Rightarrow> websocket_session exch exch_blob blob inputs s
      | WsReceived WsPong _ \<Rightarrow> websocket_session exch exch_blob blob inputs s)"

text \<open>
  Without the loop: the binary messages up to the first input that stops the session, and the answers sent for
  them are those of a prefix, in their order, that holds no error.
\<close>

fun stops :: "WsInput \<Rightarrow> bool" where
  "stops (WsReceived WsPing _) \<longleftrightarrow> False"
| "stops (WsReceived WsPong _) \<longleftrightarrow> False"
| "stops (WsReceived (WsBinary _) _) \<longleftrightarrow> False"
| "stops _ \<longleftrightarrow> True"

definition requests_of :: "WsInput list \<Rightarrow> bytes list" where
  "requests_of inputs =
     concat (map (\<lambda>input. case input of WsReceived (WsBinary bs) _ \<Rightarrow> [bs] | _ \<Rightarrow> []) (takeWhile (\<lambda>i. \<not> stops i) inputs))"

lemma requests_of_Cons:
  "requests_of (WsReceived (WsBinary bs) sent # inputs) = bs # requests_of inputs"
  "requests_of (WsReceived WsPing sent # inputs) = requests_of inputs"
  "requests_of (WsReceived WsPong sent # inputs) = requests_of inputs"
  by (simp_all add: requests_of_def)

lemma session_answers:
  assumes "rs = fst (run_steps (if blob then exch_blob else exch) s (requests_of inputs))"
  shows "\<exists>n. fst (websocket_session exch exch_blob blob inputs s) = map projr (take n rs) \<and> list_all (\<lambda>r. \<not> isl r) (take n rs)"
  using assms
proof (induction inputs arbitrary: s rs)
  case (Cons input inputs)
  let ?exch = "if blob then exch_blob else exch"
  have stopped: ?case if "fst (websocket_session exch exch_blob blob (input # inputs) s) = []"
    by (intro exI [of _ 0]) (simp add: that del: websocket_session.simps)
  consider (answered) bs response s1 where "input = WsReceived (WsBinary bs) True" "?exch s bs = (Inr response, s1)"
    | (control) sent where "input \<in> {WsReceived WsPing sent, WsReceived WsPong sent}"
    | (stop) "fst (websocket_session exch exch_blob blob (input # inputs) s) = []"
  proof (cases "stops input \<or> (\<exists>sent. input \<in> {WsReceived WsPing sent, WsReceived WsPong sent})")
    case True
    then show thesis
      using control stop by (cases input rule: stops.cases) auto
  next
    case False
    then obtain bs sent where "input = WsReceived (WsBinary bs) sent"
      by (cases input rule: stops.cases) auto
    then show thesis
      using answered stop by (cases "?exch s bs"; cases "fst (?exch s bs)"; cases sent) (auto split: if_splits)
  qed
  then show ?case
  proof cases
    case answered
    obtain n where n: "fst (websocket_session exch exch_blob blob inputs s1) = map projr (take n (fst (run_steps ?exch s1 (requests_of inputs))))"
        "list_all (\<lambda>r. \<not> isl r) (take n (fst (run_steps ?exch s1 (requests_of inputs))))"
      using Cons.IH by blast
    then show ?thesis
      using answered Cons.prems by (intro exI [of _ "Suc n"]) (auto simp: requests_of_Cons split_beta Let_def split: if_splits)
  next
    case control
    then show ?thesis
      using Cons.IH [OF refl, of s] Cons.prems by (auto simp: requests_of_Cons)
  qed (rule stopped)
qed (simp add: requests_of_def)

section \<open>Concurrent commands\<close>

text \<open>
  A command runs on a thread of its own and takes two locks one after the other: that of the rate limiter
  inside \<open>admit\<close>, and that of the durable relay. Up to the second lock it only reads the frame and the clock
  and updates the limiter; a request that passes keeps its decoded frame.
\<close>

datatype PassedFrame = QueueFrame RequestFrame | BlobFrame BlobRequestFrame

definition queue_front ::
    "Ed25519 \<Rightarrow> RelayService \<Rightarrow> bytes \<Rightarrow> Timestamp \<Rightarrow> ((ExchangeError, bytes) result, PassedFrame) result \<times> RelayService" where
  "queue_front ed sv bs now =
     (case decode_request bs of
        Inl error \<Rightarrow> (Inl (Inr (decode_error_response bs error)), sv)
      | Inr decoded \<Rightarrow>
          let request_id = rf_request_id (dr_frame decoded); request = rf_request (dr_frame decoded);
              command = Request_command request; actor = request_principal request in
          case verify_request ed actor (dr_authenticated_bytes decoded) (rf_auth (dr_frame decoded)) of
            Inl _ \<Rightarrow> (Inl (Inr (error_response request_id (Some command) StAuthInvalid)), sv)
          | Inr _ \<Rightarrow>
              let (admitted, limiter) = RateLimiter_admit (sv_queue_rate_limiter sv) actor (Timestamp_as_secs now);
                  sv = sv\<lparr>sv_queue_rate_limiter := limiter\<rparr> in
              if \<not> admitted then (Inl (Inl ExOverloaded), sv)
              else case validate_queue_request request of
                Inl status \<Rightarrow> (Inl (Inr (error_response request_id (Some command) status)), sv)
              | Inr _ \<Rightarrow> (Inr (QueueFrame (dr_frame decoded)), sv))"

definition blob_front ::
    "Ed25519 \<Rightarrow> RelayService \<Rightarrow> bytes \<Rightarrow> Timestamp \<Rightarrow> ((ExchangeError, bytes) result, PassedFrame) result \<times> RelayService" where
  "blob_front ed sv bs now =
     (case decode_blob_request bs of
        Inl error \<Rightarrow> (Inl (Inr (blob_decode_error_response bs error)), sv)
      | Inr decoded \<Rightarrow>
          let request_id = brf_request_id (dbr_frame decoded); request = brf_request (dbr_frame decoded);
              command = BlobRequest_command request; capability = BlobRequest_capability request in
          case verify_blob_request ed capability (dbr_authenticated_bytes decoded) (brf_auth (dbr_frame decoded)) of
            Inl _ \<Rightarrow> (Inl (Inr (blob_error_response request_id (Some command) BsAuthInvalid)), sv)
          | Inr _ \<Rightarrow>
              let (admitted, limiter) = RateLimiter_admit (sv_blob_rate_limiter sv) capability (Timestamp_as_secs now);
                  sv = sv\<lparr>sv_blob_rate_limiter := limiter\<rparr> in
              if \<not> admitted then (Inl (Inl ExOverloaded), sv)
              else (Inr (BlobFrame (dbr_frame decoded)), sv))"

fun front_section ::
    "Ed25519 \<Rightarrow> RelayService \<Rightarrow> frame_call \<Rightarrow> ((ExchangeError, bytes) result, PassedFrame) result \<times> RelayService" where
  "front_section ed sv (NsQueue, bs, now) = queue_front ed sv bs now"
| "front_section ed sv (NsBlob, bs, now) = blob_front ed sv bs now"

text \<open>The section under the lock of the durable relay.\<close>

fun passed_tail ::
    "(bytes \<Rightarrow> bytes) \<Rightarrow> Engine \<Rightarrow> bytes \<Rightarrow> Timestamp \<Rightarrow> PassedFrame \<Rightarrow> Connection \<Rightarrow> (ExchangeError, bytes) result \<times> Connection" where
  "passed_tail sha256 E bs now (QueueFrame f) = queue_tail E bs now f"
| "passed_tail sha256 E bs now (BlobFrame f) = blob_tail sha256 E bs now f"

definition relay_section ::
    "(bytes \<Rightarrow> bytes) \<Rightarrow> Engine \<Rightarrow> RelayService \<Rightarrow> frame_call \<Rightarrow> PassedFrame \<Rightarrow> (ExchangeError, bytes) result \<times> RelayService" where
  "relay_section sha256 E sv call f =
     (if sv_poisoned sv then (Inl ExStorage, sv)
      else let (r, c) = passed_tail sha256 E (fst (snd call)) (snd (snd call)) f (sv_relay sv) in (r, sv\<lparr>sv_relay := c\<rparr>))"

lemma exchange_at_sections:
  "exchange_at ed E sv bs now =
     (case queue_front ed sv bs now of
        (Inl r, sv) \<Rightarrow> (r, sv)
      | (Inr f, sv) \<Rightarrow> relay_section sha256 E sv (NsQueue, bs, now) f)"
  by (simp add: exchange_at_def queue_front_def relay_section_def queue_tail_def answer_frame_def queue_replay_def Let_def
      queue_request_exchange_eq split: prod.split sum.split option.split ReplayExchange.split)

lemma exchange_blob_at_sections:
  "exchange_blob_at ed sha256 E sv bs now =
     (case blob_front ed sv bs now of
        (Inl r, sv) \<Rightarrow> (r, sv)
      | (Inr f, sv) \<Rightarrow> relay_section sha256 E sv (NsBlob, bs, now) f)"
  by (simp add: exchange_blob_at_def blob_front_def relay_section_def blob_tail_def answer_frame_def blob_replay_def Let_def
      blob_request_exchange_eq split: prod.split sum.split option.split ReplayExchange.split)

lemma frame_call_cases:
  obtains (queue) bs now where "call = (NsQueue, bs, now)" | (blob) bs now where "call = (NsBlob, bs, now)"
  by (metis Namespace.exhaust prod.collapse)

lemma serve_sections:
  "serve ed sha256 E sv call =
     (case front_section ed sv call of
        (Inl r, sv) \<Rightarrow> (r, sv)
      | (Inr f, sv) \<Rightarrow> relay_section sha256 E sv call f)"
  by (cases call rule: frame_call_cases; hypsubst)
    (simp_all add: exchange_at_sections [of _ _ _ _ _ sha256] exchange_blob_at_sections)

text \<open>What the front section leaves alone, and that its verdict does not depend on the state but for the limiter.\<close>

lemma front_keeps:
  assumes "front_section ed sv call = (v, sv')"
  shows "sv_relay sv' = sv_relay sv" and "sv_poisoned sv' = sv_poisoned sv"
  using assms by (cases call rule: frame_call_cases;
      auto simp: queue_front_def blob_front_def Let_def split: sum.splits prod.splits if_splits)+

lemma fresh_limiter_admits:
  "RateLimiter_admit (sv_queue_rate_limiter (RelayService_new c)) p now
     = (True, (sv_queue_rate_limiter (RelayService_new c))\<lparr>rt_windows := [(p, [now])]\<rparr>)"
  "RateLimiter_admit (sv_blob_rate_limiter (RelayService_new c)) cap now
     = (True, (sv_blob_rate_limiter (RelayService_new c))\<lparr>rt_windows := [(cap, [now])]\<rparr>)"
  by (simp_all add: RateLimiter_admit_def RelayService_new_def RateLimiter_new_def RATE_LIMIT_MAX_TRACKED_KEYS_def)

lemma front_fresh:
  assumes "front_section ed sv call = (v, sv')" and "v \<noteq> Inl (Inl ExOverloaded)"
  shows "fst (front_section ed (RelayService_new c) call) = v"
  using assms by (cases call rule: frame_call_cases;
      auto simp: queue_front_def blob_front_def fresh_limiter_admits Let_def split: sum.splits prod.splits if_splits)

text \<open>The service started anew on a connection answers one request.\<close>

definition serve_fresh ::
    "Ed25519 \<Rightarrow> (bytes \<Rightarrow> bytes) \<Rightarrow> Engine \<Rightarrow> Connection \<Rightarrow> frame_call \<Rightarrow> (ExchangeError, bytes) result \<times> Connection" where
  "serve_fresh ed sha256 E c call = map_prod (\<lambda>r. r) sv_relay (serve ed sha256 E (RelayService_new c) call)"

lemma RelayService_new_simps [simp]: "sv_relay (RelayService_new c) = c" "\<not> sv_poisoned (RelayService_new c)"
  by (simp_all add: RelayService_new_def)

lemma serve_fresh_front:
  assumes "front_section ed sv call = (Inl r, sv')" and "r \<noteq> Inl ExOverloaded"
  shows "serve_fresh ed sha256 E c call = (r, c)"
proof (cases "front_section ed (RelayService_new c) call")
  case (Pair v sv'')
  then have "v = Inl r" using front_fresh [OF assms(1), of c] assms(2) by simp
  with Pair front_keeps(1) [OF Pair] show ?thesis
    by (simp add: serve_fresh_def serve_sections)
qed

lemma serve_fresh_relay:
  assumes "front_section ed sv call = (Inr f, sv')"
  shows "serve_fresh ed sha256 E c call = passed_tail sha256 E (fst (snd call)) (snd (snd call)) f c"
proof (cases "front_section ed (RelayService_new c) call")
  case (Pair v sv'')
  then have "v = Inr f" using front_fresh [OF assms, of c] by simp
  with Pair front_keeps [OF Pair] show ?thesis
    by (simp add: serve_fresh_def serve_sections relay_section_def split: prod.split)
qed

section \<open>The transports over time\<close>

text \<open>
  A command holds its permit from \<open>exchange\<close> until its closure returns, also when the caller has gone. A
  connection's permit is shared by reference counting: the connection's service, every request in flight and
  the session it became hold it. A session holds its own permit too.
\<close>

datatype Task = Spawned Namespace bytes | Passed frame_call PassedFrame

type_synonym answer_log = "(frame_call \<times> (ExchangeError, bytes) result) list"

record 'p Transport =
  tp_service :: RelayService
  tp_commands :: 'p
  tp_websocket_connections :: 'p
  tp_permits :: 'p
  tp_tasks :: "Task multiset"
  tp_sessions :: "nat option multiset"
  tp_holders :: "nat multiset"
  tp_log :: answer_log

definition Transport_start :: "'p Semaphore \<Rightarrow> Connection \<Rightarrow> 'p Transport" where
  "Transport_start sm relay = \<lparr>tp_service = RelayService_new relay, tp_commands = sm_new sm MAX_CONCURRENT_COMMANDS,
     tp_websocket_connections = sm_new sm MAX_WEBSOCKET_CONNECTIONS, tp_permits = ConnectionLimit_new sm,
     tp_tasks = {#}, tp_sessions = {#}, tp_holders = {#}, tp_log = []\<rparr>"

text \<open>The steps of a command: \<open>exchange\<close> spawns it or refuses it, and its thread runs the two sections.\<close>

definition spawn_command :: "'p Semaphore \<Rightarrow> 'p Transport \<Rightarrow> Namespace \<Rightarrow> bytes \<Rightarrow> (ExchangeError, 'p Transport) result" where
  "spawn_command sm t ns bs =
     map_ok (\<lambda>p. t\<lparr>tp_commands := p, tp_tasks := add_mset (Spawned ns bs) (tp_tasks t)\<rparr>)
       (ok_or (sm_try_acquire sm (tp_commands t)) ExOverloaded)"

definition return_command :: "'p Semaphore \<Rightarrow> 'p Transport \<Rightarrow> Task \<Rightarrow> frame_call \<Rightarrow> (ExchangeError, bytes) result \<Rightarrow> RelayService \<Rightarrow> 'p Transport" where
  "return_command sm t task call r sv =
     t\<lparr>tp_service := sv, tp_commands := sm_release sm (tp_commands t), tp_tasks := tp_tasks t - {#task#},
       tp_log := tp_log t @ [(call, r)]\<rparr>"

definition run_front :: "Ed25519 \<Rightarrow> 'p Semaphore \<Rightarrow> 'p Transport \<Rightarrow> Namespace \<Rightarrow> bytes \<Rightarrow> Timestamp \<Rightarrow> 'p Transport" where
  "run_front ed sm t ns bs now =
     (case front_section ed (tp_service t) (ns, bs, now) of
        (Inl r, sv) \<Rightarrow> return_command sm t (Spawned ns bs) (ns, bs, now) r sv
      | (Inr f, sv) \<Rightarrow> t\<lparr>tp_service := sv, tp_tasks := add_mset (Passed (ns, bs, now) f) (tp_tasks t - {#Spawned ns bs#})\<rparr>)"

definition run_relay :: "(bytes \<Rightarrow> bytes) \<Rightarrow> Engine \<Rightarrow> 'p Semaphore \<Rightarrow> 'p Transport \<Rightarrow> frame_call \<Rightarrow> PassedFrame \<Rightarrow> 'p Transport" where
  "run_relay sha256 E sm t call f =
     (let (r, sv) = relay_section sha256 E (tp_service t) call f in return_command sm t (Passed call f) call r sv)"

text \<open>
  The steps of a connection \<open>c\<close>: accepting it, sharing its permit with a request, dropping a share, and the
  life of a session over it. A router that is served without the acceptor has no permit to share.
\<close>

definition accept_connection :: "'p Semaphore \<Rightarrow> 'p Transport \<Rightarrow> nat \<Rightarrow> (io_error, 'p Transport) result" where
  "accept_connection sm t c =
     map_ok (\<lambda>p. t\<lparr>tp_permits := p, tp_holders := add_mset c (tp_holders t)\<rparr>) (ConnectionLimit_accept sm (tp_permits t))"

definition share_permit :: "'p Transport \<Rightarrow> nat \<Rightarrow> 'p Transport" where
  "share_permit t c = t\<lparr>tp_holders := add_mset c (tp_holders t)\<rparr>"

definition drop_permit :: "'p Semaphore \<Rightarrow> 'p Transport \<Rightarrow> nat \<Rightarrow> 'p Transport" where
  "drop_permit sm t c =
     (let holders = tp_holders t - {#c#} in
      t\<lparr>tp_holders := holders, tp_permits := (if c \<in># holders then tp_permits t else sm_release sm (tp_permits t))\<rparr>)"

definition open_session :: "'p Semaphore \<Rightarrow> 'p Transport \<Rightarrow> bool \<Rightarrow> nat option \<Rightarrow> (HttpResponse, 'p Transport) result" where
  "open_session sm t blob connection_permit =
     map_ok (\<lambda>(_, p). (case connection_permit of None \<Rightarrow> t | Some c \<Rightarrow> share_permit t c)
         \<lparr>tp_websocket_connections := p, tp_sessions := add_mset connection_permit (tp_sessions t)\<rparr>)
       (if blob then upgrade_blob_websocket sm (tp_websocket_connections t) else upgrade_websocket sm (tp_websocket_connections t))"

definition close_session :: "'p Semaphore \<Rightarrow> 'p Transport \<Rightarrow> nat option \<Rightarrow> 'p Transport" where
  "close_session sm t connection_permit =
     (case connection_permit of None \<Rightarrow> t | Some c \<Rightarrow> drop_permit sm t c)
       \<lparr>tp_websocket_connections := sm_release sm (tp_websocket_connections t), tp_sessions := tp_sessions t - {#connection_permit#}\<rparr>"

definition session_shares :: "'p Transport \<Rightarrow> nat multiset" where
  "session_shares t = image_mset the (filter_mset (\<lambda>s. s \<noteq> None) (tp_sessions t))"

inductive transport_step :: "Ed25519 \<Rightarrow> (bytes \<Rightarrow> bytes) \<Rightarrow> Engine \<Rightarrow> 'p Semaphore \<Rightarrow> 'p Transport \<Rightarrow> 'p Transport \<Rightarrow> bool"
  for ed sha256 E sm where
  spawn: "spawn_command sm t ns bs = Inr t' \<Longrightarrow> transport_step ed sha256 E sm t t'"
| front: "Spawned ns bs \<in># tp_tasks t \<Longrightarrow> transport_step ed sha256 E sm t (run_front ed sm t ns bs now)"
| relay: "Passed call f \<in># tp_tasks t \<Longrightarrow> transport_step ed sha256 E sm t (run_relay sha256 E sm t call f)"
| accept: "c \<notin># tp_holders t \<Longrightarrow> accept_connection sm t c = Inr t' \<Longrightarrow> transport_step ed sha256 E sm t t'"
| share: "c \<in># tp_holders t \<Longrightarrow> transport_step ed sha256 E sm t (share_permit t c)"
| drop: "c \<in># tp_holders t - session_shares t \<Longrightarrow> transport_step ed sha256 E sm t (drop_permit sm t c)"
| upgrade: "(case s of None \<Rightarrow> True | Some c \<Rightarrow> c \<in># tp_holders t) \<Longrightarrow> open_session sm t blob s = Inr t' \<Longrightarrow> transport_step ed sha256 E sm t t'"
| close: "s \<in># tp_sessions t \<Longrightarrow> transport_step ed sha256 E sm t (close_session sm t s)"

section \<open>Bounds\<close>

definition permits_conserved :: "'p Semaphore \<Rightarrow> 'p Transport \<Rightarrow> bool" where
  "permits_conserved sm t \<longleftrightarrow>
     sm_available sm (tp_commands t) + size (tp_tasks t) = MAX_CONCURRENT_COMMANDS
     \<and> sm_available sm (tp_websocket_connections t) + size (tp_sessions t) = MAX_WEBSOCKET_CONNECTIONS
     \<and> sm_available sm (tp_permits t) + card (set_mset (tp_holders t)) = MAX_CONNECTIONS
     \<and> session_shares t \<subseteq># tp_holders t"


lemmas transport_defs = spawn_command_def run_front_def run_relay_def return_command_def accept_connection_def share_permit_def
  drop_permit_def open_session_def close_session_def upgrade_websocket_def upgrade_blob_websocket_def ConnectionLimit_accept_def Let_def

lemma start_conserves: "semaphore_laws sm \<Longrightarrow> permits_conserved sm (Transport_start sm relay)"
  by (simp add: permits_conserved_def Transport_start_def semaphore_laws_def ConnectionLimit_new_def session_shares_def)

lemma shares_simps [simp]:
  "session_shares (t\<lparr>tp_sessions := add_mset None ss\<rparr>) = session_shares (t\<lparr>tp_sessions := ss\<rparr>)"
  "session_shares (t\<lparr>tp_sessions := add_mset (Some c) ss\<rparr>) = add_mset c (session_shares (t\<lparr>tp_sessions := ss\<rparr>))"
  "session_shares (t\<lparr>tp_sessions := tp_sessions t\<rparr>) = session_shares t"
  by (simp_all add: session_shares_def)

lemma task_returns:
  assumes "semaphore_laws sm" and "permits_conserved sm t" and "task \<in># tp_tasks t"
  shows "permits_conserved sm (return_command sm t task call r sv)"
  using assms size_Suc_Diff1 [OF assms(3)]
  by (simp add: permits_conserved_def semaphore_laws_def return_command_def session_shares_def size_Diff_singleton)

lemma share_drops:
  assumes "semaphore_laws sm" and "sm_available sm (tp_permits t) + card (set_mset (tp_holders t)) = n" and "c \<in># tp_holders t"
    and "t' = drop_permit sm t c"
  shows "sm_available sm (tp_permits t') + card (set_mset (tp_holders t')) = n"
proof (cases "c \<in># tp_holders t - {#c#}")
  case True
  then have "set_mset (tp_holders t - {#c#}) = set_mset (tp_holders t)"
    using assms(3) by (metis insert_DiffM insert_absorb set_mset_add_mset_insert)
  with True assms(2) show ?thesis by (simp add: assms(4) drop_permit_def)
next
  case False
  then have "set_mset (tp_holders t) = insert c (set_mset (tp_holders t - {#c#}))"
    using assms(3) by (metis insert_DiffM set_mset_add_mset_insert)
  with False assms(1,2) show ?thesis
    by (simp add: assms(4) drop_permit_def semaphore_laws_def)
qed

lemma spare_share: "c \<in># H - S \<Longrightarrow> S \<subseteq># H \<Longrightarrow> S \<subseteq># H - {#c#}"
  by (simp add: subseteq_mset_def in_diff_count)

lemma step_conserves:
  assumes sm: "semaphore_laws sm" and step: "transport_step ed sha256 E sm t t'" and inv: "permits_conserved sm t"
  shows "permits_conserved sm t'"
  using step inv
proof (cases rule: transport_step.cases)
  case (spawn ns bs)
  with sm inv show ?thesis
    by (auto simp: permits_conserved_def semaphore_laws_def spawn_command_def session_shares_def res_simps)
next
  case (front ns bs now)
  with task_returns [OF sm inv front(2)] inv size_Suc_Diff1 [OF front(2)] show ?thesis
    by (auto simp: run_front_def permits_conserved_def session_shares_def split: prod.split sum.split)
next
  case (relay call f)
  with task_returns [OF sm inv relay(2)] show ?thesis by (simp add: run_relay_def split_beta)
next
  case (accept c)
  with sm inv show ?thesis
    by (auto simp: permits_conserved_def semaphore_laws_def accept_connection_def ConnectionLimit_accept_def session_shares_def res_simps
        intro: subset_mset.order_trans)
next
  case (share c)
  with inv show ?thesis
    by (auto simp: permits_conserved_def share_permit_def session_shares_def insert_absorb intro: subset_mset.order_trans)
next
  case (drop c)
  then have c: "c \<in># tp_holders t" "session_shares t \<subseteq># tp_holders t - {#c#}"
    using inv spare_share [OF drop(2)] by (auto simp: permits_conserved_def dest: in_diffD)
  with share_drops [OF sm _ c(1) drop(1)] inv drop(1) show ?thesis
    by (simp add: permits_conserved_def drop_permit_def session_shares_def Let_def)
next
  case (upgrade s blob)
  with sm inv show ?thesis
    by (auto simp: permits_conserved_def semaphore_laws_def open_session_def upgrade_websocket_def upgrade_blob_websocket_def session_shares_def share_permit_def insert_absorb res_simps
        split: option.splits if_splits)
next
  case (close s)
  then have sessions: "size (tp_sessions t) = Suc (size (tp_sessions t - {#s#}))"
    by (simp add: size_Suc_Diff1)
  show ?thesis
  proof (cases s)
    case None
    with close sm inv sessions show ?thesis
      by (simp add: permits_conserved_def semaphore_laws_def close_session_def session_shares_def)
  next
    case (Some c)
    let ?t = "drop_permit sm t c"
    have shares: "session_shares t = add_mset c (session_shares (t\<lparr>tp_sessions := tp_sessions t - {#Some c#}\<rparr>))"
      using close(2) Some shares_simps(2) [where t = t and c = c and ss = "tp_sessions t - {#Some c#}"] by simp
    then have "c \<in># tp_holders t"
      using inv by (auto simp: permits_conserved_def dest: mset_subset_eq_insertD)
    moreover have "session_shares (t\<lparr>tp_sessions := tp_sessions t - {#Some c#}\<rparr>) \<subseteq># tp_holders t - {#c#}"
      using inv shares by (auto simp: permits_conserved_def insert_subset_eq_iff)
    ultimately show ?thesis
      using share_drops [OF sm _ _ refl, where t = t and c = c] close(1) sm inv sessions Some
      by (simp add: permits_conserved_def semaphore_laws_def close_session_def session_shares_def drop_permit_def Let_def)
  qed
qed

lemma reachable_conserves:
  assumes "semaphore_laws sm" and "(transport_step ed sha256 E sm)\<^sup>*\<^sup>* (Transport_start sm relay) t"
  shows "permits_conserved sm t"
  using assms(2) by (induction rule: rtranclp_induct) (use assms(1) start_conserves step_conserves in blast)+

lemma map_ok_eq_Inl [res_simps]: "map_ok h m = Inl e \<longleftrightarrow> m = Inl e"
  by (cases m) auto

lemma refusals:
  assumes "semaphore_laws sm"
  shows "spawn_command sm t ns bs = Inl ExOverloaded \<longleftrightarrow> sm_available sm (tp_commands t) = 0"
    and "open_session sm t blob s = Inl HttpServiceUnavailable \<longleftrightarrow> sm_available sm (tp_websocket_connections t) = 0"
    and "accept_connection sm t c = Inl ConnectionRefused \<longleftrightarrow> sm_available sm (tp_permits t) = 0"
  using assms by (simp_all add: transport_defs res_simps semaphore_laws_def)

text \<open>
  C18: load is bounded, and nothing is refused below the bounds. However requests, connections and sessions
  interleave, at most 64 commands run, 128 sessions live and 256 connections hold a permit; a session keeps the
  permit of its connection for as long as it lives; and a command, a session or a connection is refused exactly
  when its bound is reached, so no permit is ever lost.
\<close>

theorem transport_bounded:
  assumes "semaphore_laws sm" and "(transport_step ed sha256 E sm)\<^sup>*\<^sup>* (Transport_start sm relay) t"
  shows "size (tp_tasks t) \<le> 64 \<and> size (tp_sessions t) \<le> 128 \<and> card (set_mset (tp_holders t)) \<le> 256
    \<and> (\<forall>c. Some c \<in># tp_sessions t \<longrightarrow> c \<in># tp_holders t)
    \<and> (spawn_command sm t ns bs = Inl ExOverloaded \<longleftrightarrow> size (tp_tasks t) = 64)
    \<and> (open_session sm t blob s = Inl HttpServiceUnavailable \<longleftrightarrow> size (tp_sessions t) = 128)
    \<and> (accept_connection sm t c = Inl ConnectionRefused \<longleftrightarrow> card (set_mset (tp_holders t)) = 256)"
proof -
  have inv: "permits_conserved sm t"
    by (rule reachable_conserves [OF assms])
  moreover have "c \<in># tp_holders t" if "Some c \<in># tp_sessions t" for c
    using inv that by (force simp: permits_conserved_def session_shares_def dest: mset_subset_eqD)
  ultimately show ?thesis
    using refusals [OF assms(1), of t] by (auto simp: permits_conserved_def MAX_CONCURRENT_COMMANDS_def
        MAX_WEBSOCKET_CONNECTIONS_def MAX_CONNECTIONS_def)
qed

section \<open>Order\<close>

text \<open>The answered requests that load did not turn away, in the order of the log.\<close>

definition served_log :: "'p Transport \<Rightarrow> answer_log" where
  "served_log t = filter (\<lambda>(call, r). r \<noteq> Inl ExOverloaded) (tp_log t)"

definition serial_inv :: "Ed25519 \<Rightarrow> (bytes \<Rightarrow> bytes) \<Rightarrow> Engine \<Rightarrow> Connection \<Rightarrow> 'p Transport \<Rightarrow> bool" where
  "serial_inv ed sha256 E relay t \<longleftrightarrow>
     run_steps (serve_fresh ed sha256 E) relay (map fst (served_log t)) = (map snd (served_log t), sv_relay (tp_service t))
     \<and> \<not> sv_poisoned (tp_service t)
     \<and> (\<forall>call f. Passed call f \<in># tp_tasks t \<longrightarrow> (\<exists>sv sv'. front_section ed sv call = (Inr f, sv')))"

lemma passed_tail_error: "fst (passed_tail sha256 E bs now f c) = Inl e \<Longrightarrow> e = ExStorage"
  by (cases f) (auto simp: queue_tail_def blob_tail_def answer_frame_def split: prod.splits sum.splits option.splits ReplayExchange.splits)

lemma front_section_error: "front_section ed sv call = (Inl (Inl e), sv') \<Longrightarrow> e = ExOverloaded"
  by (cases call rule: frame_call_cases) (auto simp: queue_front_def blob_front_def Let_def split: sum.splits prod.splits if_splits)

lemma return_serial:
  assumes "serial_inv ed sha256 E relay t" and "\<not> sv_poisoned sv"
    and "if r = Inl ExOverloaded then sv_relay sv = sv_relay (tp_service t)
      else serve_fresh ed sha256 E (sv_relay (tp_service t)) call = (r, sv_relay sv)"
  shows "serial_inv ed sha256 E relay (return_command sm t task call r sv)"
  using assms by (auto simp: serial_inv_def return_command_def served_log_def run_steps_append split: if_splits dest: in_diffD)

lemma step_serial:
  assumes "transport_step ed sha256 E sm t t'" and inv: "serial_inv ed sha256 E relay t"
  shows "serial_inv ed sha256 E relay t'"
  using assms(1)
proof (cases rule: transport_step.cases)
  case (front ns bs now)
  obtain v sv where v: "front_section ed (tp_service t) (ns, bs, now) = (v, sv)" by fastforce
  note keeps = front_keeps [OF v]
  show ?thesis
  proof (cases v)
    case (Inl r)
    have "serial_inv ed sha256 E relay (return_command sm t (Spawned ns bs) (ns, bs, now) r sv)"
      using inv keeps serve_fresh_front [OF v [unfolded Inl]] by (intro return_serial) (auto simp: serial_inv_def)
    with front v Inl show ?thesis by (simp add: run_front_def)
  next
    case (Inr f)
    with inv keeps v front show ?thesis
      by (auto simp: run_front_def serial_inv_def served_log_def dest: in_diffD)
  qed
next
  case (relay call f)
  then obtain sv0 sv0' where "front_section ed sv0 call = (Inr f, sv0')"
    using inv unfolding serial_inv_def by blast
  note fresh = serve_fresh_relay [OF this]
  obtain r c where tail: "passed_tail sha256 E (fst (snd call)) (snd (snd call)) f (sv_relay (tp_service t)) = (r, c)"
    by fastforce
  have "serial_inv ed sha256 E relay (return_command sm t (Passed call f) call r ((tp_service t)\<lparr>sv_relay := c\<rparr>))"
    using inv fresh tail passed_tail_error [of sha256 E "fst (snd call)" "snd (snd call)" f "sv_relay (tp_service t)" ExOverloaded]
    by (intro return_serial) (auto simp: serial_inv_def)
  with relay tail inv show ?thesis by (simp add: run_relay_def relay_section_def serial_inv_def)
qed (use inv in \<open>auto simp: serial_inv_def served_log_def transport_defs res_simps split: option.splits if_splits\<close>)

lemma reachable_serial:
  assumes "(transport_step ed sha256 E sm)\<^sup>*\<^sup>* (Transport_start sm relay) t"
  shows "serial_inv ed sha256 E relay t"
  using assms
proof (induction rule: rtranclp_induct)
  case base
  show ?case by (simp add: serial_inv_def Transport_start_def served_log_def)
qed (rule step_serial)

text \<open>
  C17: commands that run at the same time are answered as if they ran one after the other. Take any interleaving
  of the threads' sections, from a service opened on a database. The requests that load did not turn away, in the
  order in which they were answered, get exactly the answers that the service gives when it serves them alone and
  in that order, and the database is left as that sequence leaves it.
\<close>

theorem concurrent_commands_serialize:
  assumes "(transport_step ed sha256 E sm)\<^sup>*\<^sup>* (Transport_start sm relay) t"
  shows "run_steps (serve_fresh ed sha256 E) relay (map fst (served_log t)) = (map snd (served_log t), sv_relay (tp_service t))"
  using reachable_serial [OF assms] by (simp add: serial_inv_def)

section \<open>One command at a time\<close>

text \<open>A command that runs alone is answered as the service answers it, so every sequence of requests is a run of the transports.\<close>

lemma served_alone:
  assumes sm: "semaphore_laws sm" and t: "tp_tasks t = {#}" "0 < sm_available sm (tp_commands t)"
    and served: "serve ed sha256 E (tp_service t) call = (r, sv)"
  obtains t' where "(transport_step ed sha256 E sm)\<^sup>*\<^sup>* t t'" "tp_tasks t' = {#}" "sm_available sm (tp_commands t') = sm_available sm (tp_commands t)"
    "tp_service t' = sv" "tp_log t' = tp_log t @ [(call, r)]"
proof -
  let ?step = "transport_step ed sha256 E sm"
  obtain ns bs now where call: "call = (ns, bs, now)" by (cases call)
  obtain p where p: "sm_try_acquire sm (tp_commands t) = Some p" "sm_available sm (tp_commands t) = Suc (sm_available sm p)"
    using sm t(2) unfolding semaphore_laws_def by (metis not_less_zero option.exhaust)
  have released: "sm_available sm (sm_release sm p) = sm_available sm (tp_commands t)"
    using sm p(2) by (simp add: semaphore_laws_def)
  let ?t1 = "t\<lparr>tp_commands := p, tp_tasks := {#Spawned ns bs#}\<rparr>" and ?t2 = "\<lambda>t. run_front ed sm t ns bs now"
  have 1: "?step t ?t1"
    by (rule transport_step.spawn [of _ _ ns bs]) (simp add: spawn_command_def p(1) t(1))
  have 2: "?step ?t1 (?t2 ?t1)"
    by (rule transport_step.front) simp
  obtain v sv1 where front: "front_section ed (tp_service t) call = (v, sv1)" by fastforce
  show thesis
  proof (cases v)
    case (Inl r')
    with served front have "r' = r" "sv1 = sv" by (simp_all add: serve_sections)
    with front Inl have t2: "?t2 ?t1 = return_command sm ?t1 (Spawned ns bs) call r sv"
      by (simp add: run_front_def call)
    show thesis
      by (rule that [of "?t2 ?t1"]) (use 1 2 released in \<open>auto simp: t2 return_command_def\<close>)
  next
    case (Inr f)
    with front have t2: "?t2 ?t1 = ?t1\<lparr>tp_service := sv1, tp_tasks := {#Passed call f#}\<rparr>"
      by (simp add: run_front_def call)
    have relay: "relay_section sha256 E sv1 call f = (r, sv)"
      using served front Inr by (simp add: serve_sections)
    have t3: "run_relay sha256 E sm (?t2 ?t1) call f = return_command sm (?t2 ?t1) (Passed call f) call r sv"
      by (simp add: run_relay_def relay t2)
    have "Passed call f \<in># tp_tasks (?t2 ?t1)" by (simp add: t2)
    note 3 = transport_step.relay [OF this, of ed sha256 E sm, unfolded t3]
    have "?step\<^sup>*\<^sup>* t (return_command sm (?t2 ?t1) (Passed call f) call r sv)"
      using 1 2 3 by (meson converse_rtranclp_into_rtranclp r_into_rtranclp)
    then show thesis
      by (rule that) (use released in \<open>simp_all add: t2 return_command_def\<close>)
  qed
qed

lemma run_alone:
  assumes sm: "semaphore_laws sm"
  shows "\<exists>t. (transport_step ed sha256 E sm)\<^sup>*\<^sup>* (Transport_start sm relay) t \<and> tp_tasks t = {#}
    \<and> sm_available sm (tp_commands t) = MAX_CONCURRENT_COMMANDS
    \<and> tp_service t = snd (run_steps (serve ed sha256 E) (RelayService_new relay) calls)
    \<and> tp_log t = zip calls (fst (run_steps (serve ed sha256 E) (RelayService_new relay) calls))"
proof (induction calls rule: rev_induct)
  case Nil
  show ?case
    by (intro exI [of _ "Transport_start sm relay"]) (use sm in \<open>simp add: Transport_start_def semaphore_laws_def\<close>)
next
  case (snoc call calls)
  then obtain t where t: "(transport_step ed sha256 E sm)\<^sup>*\<^sup>* (Transport_start sm relay) t" "tp_tasks t = {#}"
      "sm_available sm (tp_commands t) = MAX_CONCURRENT_COMMANDS"
      "tp_service t = snd (run_steps (serve ed sha256 E) (RelayService_new relay) calls)"
      "tp_log t = zip calls (fst (run_steps (serve ed sha256 E) (RelayService_new relay) calls))"
    by blast
  obtain r sv where served: "serve ed sha256 E (tp_service t) call = (r, sv)" by fastforce
  have "0 < sm_available sm (tp_commands t)"
    by (simp add: t(3) MAX_CONCURRENT_COMMANDS_def)
  from served_alone [OF sm t(2) this served] obtain t' where t': "(transport_step ed sha256 E sm)\<^sup>*\<^sup>* t t'" "tp_tasks t' = {#}"
      "sm_available sm (tp_commands t') = sm_available sm (tp_commands t)" "tp_service t' = sv" "tp_log t' = tp_log t @ [(call, r)]" .
  have run: "run_steps (serve ed sha256 E) (RelayService_new relay) (calls @ [call])
      = (fst (run_steps (serve ed sha256 E) (RelayService_new relay) calls) @ [r], sv)"
    using served by (simp add: run_steps_append t(4) split_beta)
  show ?case
    by (intro exI [of _ t'] conjI rtranclp_trans [OF t(1) t'(1)]) (simp_all add: t' t(3,5) run)
qed

section \<open>A run of the transports\<close>

definition ex_semaphore :: "nat Semaphore" where
  "ex_semaphore = \<lparr>sm_new = (\<lambda>n. n), sm_try_acquire = (\<lambda>p. if p = 0 then None else Some (p - 1)), sm_release = Suc,
     sm_available = (\<lambda>p. p)\<rparr>"

lemma ex_semaphore_laws: "semaphore_laws ex_semaphore"
  by (simp add: semaphore_laws_def ex_semaphore_def)

definition ex_start :: "nat Transport" where
  "ex_start = Transport_start ex_semaphore fresh_connection"

definition ex_session :: "nat Transport" where
  "ex_session = drop_permit ex_semaphore (projr (open_session ex_semaphore (projr (accept_connection ex_semaphore ex_start 7)) False (Some 7))) 7"

lemma ex_session_reached:
  "(transport_step ex_ed ex_sha max_rowid_engine ex_semaphore)\<^sup>*\<^sup>* (Transport_start ex_semaphore fresh_connection) ex_session"
proof -
  let ?t1 = "projr (accept_connection ex_semaphore ex_start 7)"
  let ?t2 = "projr (open_session ex_semaphore ?t1 False (Some 7))"
  note evals = transport_defs ex_start_def Transport_start_def ex_semaphore_def ConnectionLimit_new_def session_shares_def
    MAX_CONNECTIONS_def MAX_WEBSOCKET_CONNECTIONS_def MAX_CONCURRENT_COMMANDS_def
  have "transport_step ex_ed ex_sha max_rowid_engine ex_semaphore ex_start ?t1"
    by (rule transport_step.accept [where c = 7]) (simp_all add: evals)
  moreover have "transport_step ex_ed ex_sha max_rowid_engine ex_semaphore ?t1 ?t2"
    by (rule transport_step.upgrade [where s = "Some 7"]) (simp_all add: evals)
  moreover have "transport_step ex_ed ex_sha max_rowid_engine ex_semaphore ?t2 ex_session"
    unfolding ex_session_def by (rule transport_step.drop) (simp add: evals)
  ultimately show ?thesis
    by (simp add: ex_start_def)
qed

theorem transport_bounded_witness:
  "Some 7 \<in># tp_sessions ex_session \<and> 7 \<in># tp_holders ex_session \<and> tp_permits ex_session = 255
    \<and> accept_connection ex_semaphore ex_session 8 \<noteq> Inl ConnectionRefused"
proof -
  have "Some 7 \<in># tp_sessions ex_session" "tp_permits ex_session = 255" "set_mset (tp_holders ex_session) = {7}"
    by (simp_all add: ex_session_def transport_defs ex_start_def Transport_start_def ex_semaphore_def ConnectionLimit_new_def
        MAX_CONNECTIONS_def MAX_WEBSOCKET_CONNECTIONS_def)
  moreover have "accept_connection ex_semaphore ex_session 8 = Inl ConnectionRefused \<longleftrightarrow> card (set_mset (tp_holders ex_session)) = 256"
    using transport_bounded [OF ex_semaphore_laws ex_session_reached, of NsQueue "[]" False None 8] by blast
  ultimately show ?thesis by simp
qed

theorem concurrent_commands_serialize_witness:
  "\<exists>(t :: nat Transport) resp. tp_log t = [((NsQueue, ex_frame, Timestamp 1), Inr resp)] \<and> cn_db (sv_relay (tp_service t)) \<noteq> cn_db fresh_connection
    \<and> serve_fresh ex_ed ex_sha max_rowid_engine fresh_connection (NsQueue, ex_frame, Timestamp 1) = (Inr resp, sv_relay (tp_service t))"
proof -
  let ?call = "(NsQueue, ex_frame, Timestamp 1)"
  obtain resp sv1 where served: "serve ex_ed ex_sha max_rowid_engine (RelayService_new fresh_connection) ?call = (Inr resp, sv1)"
      "cn_db (sv_relay sv1) \<noteq> cn_db fresh_connection"
    using ex_served by blast
  from run_alone [OF ex_semaphore_laws, of ex_ed ex_sha max_rowid_engine fresh_connection "[?call]"] served(1)
  obtain t where reach: "(transport_step ex_ed ex_sha max_rowid_engine ex_semaphore)\<^sup>*\<^sup>* (Transport_start ex_semaphore fresh_connection) t"
      and t: "tp_service t = sv1" "tp_log t = [(?call, Inr resp)]"
    by (auto simp del: serve.simps)
  have "served_log t = [(?call, Inr resp)]"
    by (simp add: served_log_def t(2))
  with concurrent_commands_serialize [OF reach]
  have "serve_fresh ex_ed ex_sha max_rowid_engine fresh_connection ?call = (Inr resp, sv_relay (tp_service t))"
    by (simp add: split_beta prod_eq_iff)
  with t served(2) show ?thesis by metis
qed

end
