(* ===== verification/CW_Http.thy ===== *)
theory CW_Http
  imports CW_Transport
begin

text \<open>
  The router of \<open>apps/cofferwired/src/transport.rs\<close>: which handler a request reaches, under which body limit,
  and what it answers. Dispatch, body limits and the timeout are third-party code: the framework is a parameter
  that is given the table of routes.
\<close>

section \<open>The table of routes\<close>

datatype Method = GET | HEAD | POST | OtherMethod string

datatype Handler = Healthz | PostFrame | UpgradeWebsocket | PostBlobFrame | UpgradeBlobWebsocket

record Route =
  rt_path :: string
  rt_method :: Method
  rt_handler :: Handler
  rt_body_limit :: "nat option"

definition queue_routes :: "Route list" where
  "queue_routes =
     [\<lparr>rt_path = ''/v1/frame'', rt_method = POST, rt_handler = PostFrame, rt_body_limit = Some MAX_FRAME_BYTES\<rparr>,
      \<lparr>rt_path = ''/v1/ws'', rt_method = GET, rt_handler = UpgradeWebsocket, rt_body_limit = Some MAX_FRAME_BYTES\<rparr>]"

definition blob_routes :: "Route list" where
  "blob_routes =
     [\<lparr>rt_path = ''/blob/v1/frame'', rt_method = POST, rt_handler = PostBlobFrame, rt_body_limit = Some MAX_BLOB_FRAME_BYTES\<rparr>,
      \<lparr>rt_path = ''/blob/v1/ws'', rt_method = GET, rt_handler = UpgradeBlobWebsocket, rt_body_limit = Some MAX_BLOB_FRAME_BYTES\<rparr>]"

text \<open>The default body limit of the framework is switched off, so the health check has none.\<close>

definition router :: "Route list" where
  "router = \<lparr>rt_path = ''/healthz'', rt_method = GET, rt_handler = Healthz, rt_body_limit = None\<rparr> # queue_routes @ blob_routes"

section \<open>The framework\<close>

record HttpRequest =
  rq_method :: Method
  rq_path :: string
  rq_content_type :: "string option"
  rq_body :: bytes

text \<open>A request is answered by the framework with a status of its own, or handed to a handler.\<close>

datatype Dispatch = Rejected nat | Dispatched Handler

type_synonym Framework = "Route list \<Rightarrow> HttpRequest \<Rightarrow> Dispatch"

fun takes_body :: "Handler \<Rightarrow> bool" where
  "takes_body PostFrame = True"
| "takes_body PostBlobFrame = True"
| "takes_body _ = False"

definition within_limit :: "Route \<Rightarrow> HttpRequest \<Rightarrow> bool" where
  "within_limit r req \<longleftrightarrow> (case rt_body_limit r of None \<Rightarrow> True | Some limit \<Rightarrow> length (rq_body req) \<le> limit)"

text \<open>
  Documented behaviour: a handler is called only for the path and method of its route, where a route for GET also
  takes HEAD, and a handler that takes the body gets it only within the limit of the route. Where paths and
  methods are distinct, a POST within the limit reaches its handler, unless its body takes longer than the timeout
  to arrive (status 408).
\<close>

definition framework_laws :: "Framework \<Rightarrow> bool" where
  "framework_laws fw \<longleftrightarrow>
     (\<forall>routes req h. fw routes req = Dispatched h \<longrightarrow>
        (\<exists>r \<in> set routes. rt_handler r = h \<and> rt_path r = rq_path req
           \<and> (rq_method req = rt_method r \<or> rt_method r = GET \<and> rq_method req = HEAD) \<and> (takes_body h \<longrightarrow> within_limit r req)))
     \<and> (\<forall>routes req r. distinct (map (\<lambda>r. (rt_path r, rt_method r)) routes) \<and> r \<in> set routes \<and> rt_path r = rq_path req
          \<and> rt_method r = POST \<and> rq_method req = POST \<and> within_limit r req \<longrightarrow>
        fw routes req \<in> {Dispatched (rt_handler r), Rejected 408})"

section \<open>Requests\<close>

datatype HttpReply = ReplyStatus nat | ReplyResponse HttpResponse | ReplyUpgrade Upgrade

text \<open>
  A request over the state of the service and the permits for sessions. When the timeout expires while a handler
  waits for the service, the client gets status 408 and the command goes on.
\<close>

definition http_request ::
    "Framework \<Rightarrow> 'p Semaphore \<Rightarrow> 's exchanger \<Rightarrow> 's exchanger \<Rightarrow> bool \<Rightarrow> HttpRequest \<Rightarrow> 's \<Rightarrow> 'p \<Rightarrow> HttpReply \<times> 's \<times> 'p" where
  "http_request fw sm exch exch_blob expired req s websocket_connections =
     (let posted = (\<lambda>(r, s). (if expired then ReplyStatus 408 else ReplyResponse r, s, websocket_connections));
          upgraded = (\<lambda>u. case u of Inl r \<Rightarrow> (ReplyResponse r, s, websocket_connections) | Inr (u, p) \<Rightarrow> (ReplyUpgrade u, s, p)) in
      case fw router req of
        Rejected status \<Rightarrow> (ReplyStatus status, s, websocket_connections)
      | Dispatched Healthz \<Rightarrow> (ReplyStatus 204, s, websocket_connections)
      | Dispatched PostFrame \<Rightarrow> posted (post_frame exch (rq_content_type req) (rq_body req) s)
      | Dispatched PostBlobFrame \<Rightarrow> posted (post_blob_frame exch_blob (rq_content_type req) (rq_body req) s)
      | Dispatched UpgradeWebsocket \<Rightarrow> upgraded (upgrade_websocket sm websocket_connections)
      | Dispatched UpgradeBlobWebsocket \<Rightarrow> upgraded (upgrade_blob_websocket sm websocket_connections))"

lemma router_distinct: "distinct (map (\<lambda>r. (rt_path r, rt_method r)) router)"
  by (simp add: router_def queue_routes_def blob_routes_def)

lemma dispatched_post:
  assumes "framework_laws fw"
  shows "fw router req = Dispatched PostFrame \<Longrightarrow> rq_method req = POST \<and> rq_path req = ''/v1/frame'' \<and> length (rq_body req) \<le> MAX_FRAME_BYTES"
    and "fw router req = Dispatched PostBlobFrame \<Longrightarrow> rq_method req = POST \<and> rq_path req = ''/blob/v1/frame'' \<and> length (rq_body req) \<le> MAX_BLOB_FRAME_BYTES"
proof -
  have "\<exists>r \<in> set router. rt_handler r = h \<and> rt_path r = rq_path req
      \<and> (rq_method req = rt_method r \<or> rt_method r = GET \<and> rq_method req = HEAD) \<and> (takes_body h \<longrightarrow> within_limit r req)"
    if "fw router req = Dispatched h" for h
    using assms that unfolding framework_laws_def by blast
  then show "fw router req = Dispatched PostFrame \<Longrightarrow> rq_method req = POST \<and> rq_path req = ''/v1/frame'' \<and> length (rq_body req) \<le> MAX_FRAME_BYTES"
    and "fw router req = Dispatched PostBlobFrame \<Longrightarrow> rq_method req = POST \<and> rq_path req = ''/blob/v1/frame'' \<and> length (rq_body req) \<le> MAX_BLOB_FRAME_BYTES"
    by (fastforce simp: router_def queue_routes_def blob_routes_def within_limit_def)+
qed

lemma post_reaches:
  assumes "framework_laws fw" and "rq_method req = POST"
  shows "rq_path req = ''/v1/frame'' \<Longrightarrow> length (rq_body req) \<le> MAX_FRAME_BYTES \<Longrightarrow> fw router req \<in> {Dispatched PostFrame, Rejected 408}"
    and "rq_path req = ''/blob/v1/frame'' \<Longrightarrow> length (rq_body req) \<le> MAX_BLOB_FRAME_BYTES \<Longrightarrow> fw router req \<in> {Dispatched PostBlobFrame, Rejected 408}"
proof -
  have reach: "fw router req \<in> {Dispatched (rt_handler r), Rejected 408}"
    if "r \<in> set router" "rt_path r = rq_path req" "rt_method r = POST" "within_limit r req" for r
    using assms that router_distinct unfolding framework_laws_def by blast
  show "fw router req \<in> {Dispatched PostFrame, Rejected 408}" if "rq_path req = ''/v1/frame''" "length (rq_body req) \<le> MAX_FRAME_BYTES"
    using reach [of "queue_routes ! 0"] that by (simp add: router_def queue_routes_def within_limit_def)
  show "fw router req \<in> {Dispatched PostBlobFrame, Rejected 408}" if "rq_path req = ''/blob/v1/frame''" "length (rq_body req) \<le> MAX_BLOB_FRAME_BYTES"
    using reach [of "blob_routes ! 0"] that by (simp add: router_def blob_routes_def within_limit_def)
qed

lemma upgrade_refusals:
  "upgrade_websocket sm p = Inl r \<Longrightarrow> r = HttpServiceUnavailable" "upgrade_blob_websocket sm p = Inl r \<Longrightarrow> r = HttpServiceUnavailable"
  by (simp_all add: upgrade_websocket_def upgrade_blob_websocket_def res_simps)

section \<open>What reaches the service\<close>

text \<open>The service that a request is meant for: by method, path, media type and size.\<close>

definition frame_request :: "HttpRequest \<Rightarrow> Namespace option" where
  "frame_request req =
     (if rq_method req \<noteq> POST then None
      else if rq_path req = ''/v1/frame'' \<and> rq_content_type req = Some FRAME_MEDIA_TYPE \<and> length (rq_body req) \<le> MAX_FRAME_BYTES then Some NsQueue
      else if rq_path req = ''/blob/v1/frame'' \<and> rq_content_type req = Some BLOB_FRAME_MEDIA_TYPE \<and> length (rq_body req) \<le> MAX_BLOB_FRAME_BYTES
      then Some NsBlob else None)"

fun frame_media :: "Namespace \<Rightarrow> string" where
  "frame_media NsQueue = FRAME_MEDIA_TYPE"
| "frame_media NsBlob = BLOB_FRAME_MEDIA_TYPE"

definition exchange_reply :: "Namespace \<Rightarrow> (ExchangeError, bytes) result \<Rightarrow> HttpResponse" where
  "exchange_reply ns r = (case r of Inr resp \<Rightarrow> HttpOk (frame_media ns) resp | Inl _ \<Rightarrow> HttpServiceUnavailable)"

lemmas http_defs = http_request_def post_frame_def post_blob_frame_def exchange_reply_def frame_request_def

text \<open>
  C19: over HTTP the service sees exactly the frames meant for it. A request touches the service only when it is a
  POST to one of the two frame paths with that protocol's media type and a body within that protocol's frame bound,
  and then by one exchange of exactly its body. Such a request gets status 408, or the exchange's response under the
  protocol's media type, or service unavailable when the exchange failed; and a response of the service reaches no
  other request.
\<close>

theorem http_serves_frames:
  assumes laws: "framework_laws fw" and req: "http_request fw sm exch exch_blob expired req s p = (reply, s', p')"
  shows "(case frame_request req of
      None \<Rightarrow> s' = s \<and> (\<forall>media resp. reply \<noteq> ReplyResponse (HttpOk media resp))
    | Some ns \<Rightarrow>
        let (r, s1) = (case ns of NsQueue \<Rightarrow> exch s (rq_body req) | NsBlob \<Rightarrow> exch_blob s (rq_body req)) in
        (reply, s') \<in> {(ReplyStatus 408, s), (ReplyStatus 408, s1), (ReplyResponse (exchange_reply ns r), s1)} \<and> p' = p)"
proof (cases "frame_request req")
  case None
  then show ?thesis
    using req dispatched_post [OF laws, of req]
    by (auto simp: http_defs Let_def dest!: upgrade_refusals split: Dispatch.splits Handler.splits prod.splits sum.splits if_splits)
next
  case (Some ns)
  show ?thesis
  proof (cases ns)
    case NsQueue
    then have "fw router req \<in> {Dispatched PostFrame, Rejected 408}" "rq_content_type req = Some FRAME_MEDIA_TYPE"
      using Some post_reaches(1) [OF laws, of req] by (auto simp: frame_request_def split: if_splits)
    with req Some NsQueue show ?thesis
      by (auto simp: http_request_def post_frame_def exchange_reply_def split: prod.splits sum.splits if_splits)
  next
    case NsBlob
    then have "fw router req \<in> {Dispatched PostBlobFrame, Rejected 408}" "rq_content_type req = Some BLOB_FRAME_MEDIA_TYPE"
      using Some post_reaches(2) [OF laws, of req] by (auto simp: frame_request_def split: if_splits)
    with req Some NsBlob show ?thesis
      by (auto simp: http_request_def post_blob_frame_def exchange_reply_def split: prod.splits sum.splits if_splits)
  qed
qed

section \<open>A request\<close>

definition ex_framework :: Framework where
  "ex_framework routes req =
     (case filter (\<lambda>r. rt_path r = rq_path req \<and> rt_method r = rq_method req) routes of
        [] \<Rightarrow> Rejected 404
      | r # _ \<Rightarrow> if within_limit r req then Dispatched (rt_handler r) else Rejected 413)"

lemma ex_framework_laws: "framework_laws ex_framework"
proof -
  have "\<exists>r \<in> set routes. rt_handler r = h \<and> rt_path r = rq_path req \<and> rt_method r = rq_method req \<and> within_limit r req"
    if "ex_framework routes req = Dispatched h" for routes req h
    using that by (auto simp: ex_framework_def dest!: hd_filter_mem split: list.splits if_splits)
  moreover have "ex_framework routes req = Dispatched (rt_handler r)"
    if "distinct (map (\<lambda>r. (rt_path r, rt_method r)) routes)" "r \<in> set routes" "rt_path r = rq_path req" "rt_method r = POST" "rq_method req = POST"
      "within_limit r req" for routes req r
  proof -
    have "filter (\<lambda>r. rt_path r = rq_path req \<and> rt_method r = rq_method req) routes = [r]"
      using that(1-5) by (induction routes) (auto simp: filter_empty_conv rev_image_eqI)
    with that(6) show ?thesis by (simp add: ex_framework_def)
  qed
  ultimately show ?thesis
    unfolding framework_laws_def by fastforce
qed

theorem http_serves_frames_witness:
  "\<exists>resp sv. http_request ex_framework ex_semaphore (\<lambda>sv bs. exchange_at ex_ed max_rowid_engine sv bs (Timestamp 1))
       (\<lambda>sv bs. exchange_blob_at ex_ed ex_sha max_rowid_engine sv bs (Timestamp 1)) False
       \<lparr>rq_method = POST, rq_path = ''/v1/frame'', rq_content_type = Some FRAME_MEDIA_TYPE, rq_body = ex_frame\<rparr>
       (RelayService_new fresh_connection) 128
     = (ReplyResponse (HttpOk FRAME_MEDIA_TYPE resp), sv, 128)
     \<and> cn_db (sv_relay sv) \<noteq> cn_db fresh_connection"
proof -
  let ?req = "\<lparr>rq_method = POST, rq_path = ''/v1/frame'', rq_content_type = Some FRAME_MEDIA_TYPE, rq_body = ex_frame\<rparr>"
    and ?exch = "\<lambda>sv bs. exchange_at ex_ed max_rowid_engine sv bs (Timestamp 1)"
    and ?blob = "\<lambda>sv bs. exchange_blob_at ex_ed ex_sha max_rowid_engine sv bs (Timestamp 1)"
    and ?sv = "RelayService_new fresh_connection"
  have fits: "length ex_frame \<le> MAX_FRAME_BYTES"
    using ex_frame_decodes by (simp add: decode_request_exact)
  then have frame: "frame_request ?req = Some NsQueue"
    by (simp add: frame_request_def)
  obtain resp sv where served: "?exch ?sv ex_frame = (Inr resp, sv)" "cn_db (sv_relay sv) \<noteq> cn_db fresh_connection"
    using ex_served by auto
  obtain reply s' p' where http: "http_request ex_framework ex_semaphore ?exch ?blob False ?req ?sv 128 = (reply, s', p')"
    by (metis prod.collapse)
  moreover have "reply \<noteq> ReplyStatus 408"
    using http fits served(1) by (auto simp: http_request_def ex_framework_def router_def queue_routes_def within_limit_def post_frame_def)
  ultimately show ?thesis
    using http_serves_frames [OF ex_framework_laws http] frame served by (auto simp: exchange_reply_def)
qed

end
