(* ===== verification/CW_Concurrent.thy ===== *)
theory CW_Concurrent
  imports CW_Transport "HOL-Library.Sublist"
begin

text \<open>
  What the transports of \<open>apps/cofferwired/src/transport.rs\<close> promise when commands run at the same time. The
  answered requests, in the order of their answers, are a run of a server of frames, so the lemmas on such
  servers apply to every interleaving: a repeated or racing frame has one effect and no two answers, and the
  requests that are executed are those of the mailbox specification.
\<close>
section \<open>The served requests in their order\<close>

interpretation fresh: frame_server ed sha256 E "serve_fresh ed sha256 E" "\<lambda>c. c" for ed sha256 E
proof
  fix s call
  show "\<exists>sv sv'. sv_relay sv = s \<and> serve ed sha256 E sv call = (fst (serve_fresh ed sha256 E s call), sv') \<and> sv_relay sv' = snd (serve_fresh ed sha256 E s call)"
    by (intro exI [of _ "RelayService_new s"] exI [of _ "snd (serve ed sha256 E (RelayService_new s) call)"]) (simp add: serve_fresh_def)
qed

lemma serve_fresh_error:
  assumes "fst (serve_fresh ed sha256 E c call) = Inl e"
  shows "e \<in> {ExOverloaded, ExStorage}"
proof (cases "front_section ed (RelayService_new c) call")
  case (Pair v sv)
  show ?thesis
  proof (cases v)
    case (Inl r)
    with assms Pair have "front_section ed (RelayService_new c) call = (Inl (Inl e), sv)"
      by (simp add: serve_fresh_def serve_sections)
    then show ?thesis by (simp add: front_section_error)
  next
    case (Inr f)
    with assms serve_fresh_relay [OF Pair [unfolded Inr]] passed_tail_error show ?thesis by fastforce
  qed
qed

text \<open>The database after some entries of the log.\<close>

definition log_run :: "Ed25519 \<Rightarrow> (bytes \<Rightarrow> bytes) \<Rightarrow> Engine \<Rightarrow> Connection \<Rightarrow> answer_log \<Rightarrow> Connection" where
  "log_run ed sha256 E relay entries = snd (run_steps (serve_fresh ed sha256 E) relay (map fst entries))"

lemma served_split:
  assumes "run_steps (serve_fresh ed sha256 E) relay (map fst entries) = (map snd entries, c)" and "entries = xs @ (call, r) # ys"
  shows "serve_fresh ed sha256 E (log_run ed sha256 E relay xs) call = (r, log_run ed sha256 E relay (xs @ [(call, r)]))"
    and "run_steps (serve_fresh ed sha256 E) (log_run ed sha256 E relay (xs @ [(call, r)])) (map fst ys) = (map snd ys, c)"
    and "run_steps (serve_fresh ed sha256 E) relay (map fst xs) = (map snd xs, log_run ed sha256 E relay xs)"
  using assms by (auto simp: log_run_def run_steps_append run_steps_Cons split_beta Let_def prod_eq_iff append_eq_append_conv
      simp del: run_steps.simps(2))

lemma served_log_snoc:
  "tp_log t' = tp_log t @ [(call, r)] \<Longrightarrow> served_log t' = served_log t @ (if r = Inl ExOverloaded then [] else [(call, r)])"
  by (simp add: served_log_def)

lemma run_front_keeps: "sv_relay (tp_service (run_front ed sm t ns bs now)) = sv_relay (tp_service t)"
proof -
  obtain v sv where v: "front_section ed (tp_service t) (ns, bs, now) = (v, sv)" by fastforce
  show ?thesis
    using front_keeps [OF v] by (cases v) (simp_all add: run_front_def v return_command_def)
qed

text \<open>
  C7: a frame has one effect, however its copies race. Take any interleaving of commands, and a frame that was
  answered in it. Every copy of the frame that is answered later, retried or in flight at the same time, gets the
  same bytes, unless it is turned away with a storage error or, by the rate limiter, with \<open>Overloaded\<close>; and neither
  section of its thread changes the database.
\<close>

theorem concurrent_answers_final:
  assumes "(transport_step ed sha256 E sm)\<^sup>*\<^sup>* (Transport_start sm relay) t"
    and "((ns, bs, now), Inr resp) \<in> set (tp_log t)"
    and "transport_step ed sha256 E sm t t'" and "tp_log t' = tp_log t @ [((ns, bs, now'), r)]"
  shows "r \<in> {Inr resp, Inl ExStorage, Inl ExOverloaded}
    \<and> cn_db (sv_relay (tp_service t')) = cn_db (sv_relay (tp_service t))
    \<and> cn_db (sv_relay (tp_service (run_front ed sm t ns bs now''))) = cn_db (sv_relay (tp_service t))"
proof -
  have run: "run_steps (serve_fresh ed sha256 E) relay (map fst (served_log t)) = (map snd (served_log t), sv_relay (tp_service t))"
    using reachable_serial [OF assms(1)] by (simp add: serial_inv_def)
  have run': "run_steps (serve_fresh ed sha256 E) relay (map fst (served_log t')) = (map snd (served_log t'), sv_relay (tp_service t'))"
    using step_serial [OF assms(3) reachable_serial [OF assms(1)]] by (simp add: serial_inv_def)
  have "r \<in> {Inr resp, Inl ExStorage, Inl ExOverloaded} \<and> cn_db (sv_relay (tp_service t')) = cn_db (sv_relay (tp_service t))"
  proof (cases "r = Inl ExOverloaded")
    case True
    then have "served_log t' = served_log t"
      by (simp add: served_log_snoc [OF assms(4)])
    with run run' True show ?thesis by simp
  next
    case False
    then have log: "served_log t' = served_log t @ [((ns, bs, now'), r)]"
      by (simp add: served_log_snoc [OF assms(4)])
    have "((ns, bs, now), Inr resp) \<in> set (served_log t)"
      using assms(2) by (simp add: served_log_def)
    then obtain xs ys where before: "served_log t = xs @ ((ns, bs, now), Inr resp) # ys"
      by (auto dest: split_list)
    note again = served_split [OF run' log] and first = served_split [OF run before]
    have last: "log_run ed sha256 E relay (served_log t) = sv_relay (tp_service t)"
        "log_run ed sha256 E relay (served_log t @ [((ns, bs, now'), r)]) = sv_relay (tp_service t')"
      using run run' by (simp_all add: log_run_def log)
    have "r = Inl e \<Longrightarrow> e \<in> {ExOverloaded, ExStorage}" for e
      using serve_fresh_error [of ed sha256 E "sv_relay (tp_service t)" "(ns, bs, now')" e] again(1) last by simp
    then show ?thesis
      using fresh.answers_final [OF first(1,2) again(1) [unfolded last]] by auto
  qed
  then show ?thesis
    by (simp add: run_front_keeps)
qed

text \<open>Executed requests are answered ones, in their order and with their answers.\<close>

lemma executed_answers:
  "subseq (map (\<lambda>(now, f, resp). (now, Inr resp)) (executed_steps ed step conn s calls))
     (map2 (\<lambda>(ns, bs, now) r. (now, r)) calls (fst (run_steps step s calls)))"
proof (induction calls arbitrary: s)
  case (Cons call calls)
  obtain ns bs now where call: "call = (ns, bs, now)" by (cases call)
  obtain r s1 where st: "step s call = (r, s1)" by fastforce
  show ?case
  proof (cases "executed_frame ed (conn s) call r")
    case None
    with list_emb_Cons [OF Cons.IH [of s1], of "(now, r)"] show ?thesis
      by (simp add: call st [unfolded call] split_beta del: executed_frame.simps)
  next
    case (Some f)
    then obtain resp where "r = Inr resp"
      by (cases "(ed, conn s, call, r)" rule: executed_frame.cases; cases r) (auto split: option.splits sum.splits)
    with Some Cons.IH [of s1] show ?thesis
      by (simp add: call st [unfolded call] split_beta del: executed_frame.simps)
  qed
qed simp

text \<open>
  C4: the concurrent transports are the mailbox specification behind frames. Take any interleaving of commands from
  a new database, under any storage faults, in which the clock readings of the answered requests do not go backwards
  in the order of their answers. The executed requests are answered requests of the log, in its order; their
  responses are exactly the encoded outcomes of the mailbox specification, and the queues in the database are the
  specification's.
\<close>

theorem concurrent_refines_mailboxes:
  assumes "(transport_step ed sha256 E sm)\<^sup>*\<^sup>* (Transport_start sm fresh_connection) t"
    and "fresh_rowids E" and "clock_ordered t0 (call_clock (map fst (served_log t)))"
  shows "let xs = executed_steps ed (serve_fresh ed sha256 E) (\<lambda>c. c) fresh_connection (map fst (served_log t));
      (outs, M) = run_steps spec_step Map.empty (execution_events xs) in
    subseq (map (\<lambda>(now, f, resp). (now, Inr resp)) xs) (map (\<lambda>((ns, bs, now), r). (now, r)) (served_log t))
    \<and> execution_responses xs = expected_responses xs outs
    \<and> (\<forall>now \<ge> last_time t0 (call_clock (map fst (served_log t))). age now M = durable_view now (sv_relay (tp_service t)))"
proof -
  let ?xs = "executed_steps ed (serve_fresh ed sha256 E) (\<lambda>c. c) fresh_connection (map fst (served_log t))"
  have run: "run_steps (serve_fresh ed sha256 E) fresh_connection (map fst (served_log t)) = (map snd (served_log t), sv_relay (tp_service t))"
    using reachable_serial [OF assms(1)] by (simp add: serial_inv_def)
  have "relay_ok (cn_db fresh_connection)"
    using relay_ok_empty by (simp add: fresh_connection_def)
  note refines = fresh.run_refines [OF assms(2) this assms(3) fresh_connection_ages, of ed sha256]
  have "map2 (\<lambda>(ns, bs, now) r. (now, r)) (map fst (served_log t)) (map snd (served_log t)) = map (\<lambda>((ns, bs, now), r). (now, r)) (served_log t)"
    by (simp add: zip_map_fst_snd split_beta comp_def)
  with executed_answers [of ed "serve_fresh ed sha256 E" "\<lambda>c. c" fresh_connection "map fst (served_log t)"] refines show ?thesis
    by (simp only: run Let_def split_beta fst_conv snd_conv) blast
qed


section \<open>A run with a repeated request\<close>

lemma relay_section_error:
  assumes "relay_section sha256 E sv call f = (Inl e, sv')"
  shows "e = ExStorage"
  using assms passed_tail_error [of sha256 E "fst (snd call)" "snd (snd call)" f "sv_relay sv" e]
  by (auto simp: relay_section_def simp del: passed_tail.simps split: if_splits prod.splits)

lemma ex_front:
  "front_section ex_ed sv (NsQueue, ex_frame, now) =
     (let (ok, l) = RateLimiter_admit (sv_queue_rate_limiter sv) (Principal (replicate 32 2)) (Timestamp_as_secs now)
      in (if ok then Inr (QueueFrame \<lparr>rf_request_id = ex_id, rf_request = ex_create, rf_auth = ex_auth\<rparr>) else Inl (Inl ExOverloaded),
          sv\<lparr>sv_queue_rate_limiter := l\<rparr>))"
  using ex_frame_verifies by (simp add: queue_front_def ex_frame_decodes Let_def ex_create_def split: prod.split)

lemma ex_repeated:
  obtains t :: "nat Transport" and resp r where
    "(transport_step ex_ed ex_sha max_rowid_engine ex_semaphore)\<^sup>*\<^sup>* (Transport_start ex_semaphore fresh_connection) t"
    "tp_log t = [((NsQueue, ex_frame, Timestamp 1), Inr resp), ((NsQueue, ex_frame, Timestamp 7), r)]"
    "served_log t = [((NsQueue, ex_frame, Timestamp 1), Inr resp), ((NsQueue, ex_frame, Timestamp 7), r)]"
proof -
  let ?call = "\<lambda>n. (NsQueue, ex_frame, Timestamp n)" and ?p = "Principal (replicate 32 2)"
  let ?sv = "RelayService_new fresh_connection"
  obtain resp sv1 where 1: "serve ex_ed ex_sha max_rowid_engine ?sv (?call 1) = (Inr resp, sv1)"
    using ex_served by blast
  obtain r sv2 where 2: "serve ex_ed ex_sha max_rowid_engine sv1 (?call 7) = (r, sv2)"
    by fastforce
  have "sv_queue_rate_limiter sv1 = (sv_queue_rate_limiter ?sv)\<lparr>rt_windows := [(?p, [1])]\<rparr>"
    using 1 by (auto simp: serve_sections ex_front fresh_limiter_admits relay_section_def simp del: serve.simps front_section.simps split: if_splits prod.splits)
  then obtain l where "RateLimiter_admit (sv_queue_rate_limiter sv1) ?p 7 = (True, l)"
    by (simp add: RateLimiter_admit_def RelayService_new_def RateLimiter_new_def QUEUE_RATE_LIMIT_MAX_REQUESTS_def QUEUE_RATE_LIMIT_WINDOW_SECS_def)
  then have "r \<noteq> Inl ExOverloaded"
    using 2 by (auto simp: serve_sections ex_front dest!: relay_section_error simp del: serve.simps front_section.simps)
  moreover obtain t where "(transport_step ex_ed ex_sha max_rowid_engine ex_semaphore)\<^sup>*\<^sup>* (Transport_start ex_semaphore fresh_connection) t"
      "tp_log t = [(?call 1, Inr resp), (?call 7, r)]"
    using run_alone [OF ex_semaphore_laws, of ex_ed ex_sha max_rowid_engine fresh_connection "[?call 1, ?call 7]"] 1 2
    by (auto simp del: serve.simps)
  ultimately show thesis
    by (intro that [of t resp r]) (simp_all add: served_log_def)
qed

text \<open>The same frame again, after its first copy was answered.\<close>

lemma last_answer_step:
  assumes "(transport_step ed sha256 E sm)\<^sup>*\<^sup>* (Transport_start sm relay) t" and "tp_log t = l @ [x]"
  obtains t0 t1 where "(transport_step ed sha256 E sm)\<^sup>*\<^sup>* (Transport_start sm relay) t0"
    "transport_step ed sha256 E sm t0 t1" "tp_log t0 = l" "tp_log t1 = l @ [x]"
proof -
  have grows: "tp_log b = tp_log a \<or> (\<exists>y. tp_log b = tp_log a @ [y])" if "transport_step ed sha256 E sm a b" for a b
    using that by (cases rule: transport_step.cases)
      (auto simp: transport_defs res_simps split: option.splits if_splits prod.splits sum.splits)
  have "\<exists>t0 t1. (transport_step ed sha256 E sm)\<^sup>*\<^sup>* (Transport_start sm relay) t0
      \<and> transport_step ed sha256 E sm t0 t1 \<and> tp_log t0 = l \<and> tp_log t1 = l @ [x]"
    using assms
  proof (induction rule: rtranclp_induct)
    case base
    then show ?case by (simp add: Transport_start_def)
  next
    case (step a b)
    then show ?case
      using grows [OF step.hyps(2)] by auto
  qed
  then show thesis using that by blast
qed

theorem concurrent_answers_final_witness:
  "\<exists>(t :: nat Transport) (t' :: nat Transport) resp r.
     tp_log t = [((NsQueue, ex_frame, Timestamp 1), Inr resp)]
     \<and> tp_log t' = tp_log t @ [((NsQueue, ex_frame, Timestamp 7), r)]
     \<and> r \<in> {Inr resp, Inl ExStorage, Inl ExOverloaded}
     \<and> cn_db (sv_relay (tp_service t')) = cn_db (sv_relay (tp_service t))"
proof (rule ex_repeated)
  fix t :: "nat Transport" and resp r
  assume t: "(transport_step ex_ed ex_sha max_rowid_engine ex_semaphore)\<^sup>*\<^sup>* (Transport_start ex_semaphore fresh_connection) t"
    "tp_log t = [((NsQueue, ex_frame, Timestamp 1), Inr resp), ((NsQueue, ex_frame, Timestamp 7), r)]"
  have "tp_log t = [((NsQueue, ex_frame, Timestamp 1), Inr resp)] @ [((NsQueue, ex_frame, Timestamp 7), r)]"
    by (simp add: t(2))
  then obtain t0 t1 where s: "(transport_step ex_ed ex_sha max_rowid_engine ex_semaphore)\<^sup>*\<^sup>* (Transport_start ex_semaphore fresh_connection) t0"
      "transport_step ex_ed ex_sha max_rowid_engine ex_semaphore t0 t1"
      "tp_log t0 = [((NsQueue, ex_frame, Timestamp 1), Inr resp)]"
      "tp_log t1 = [((NsQueue, ex_frame, Timestamp 1), Inr resp)] @ [((NsQueue, ex_frame, Timestamp 7), r)]"
    by (rule last_answer_step [OF t(1)])
  from concurrent_answers_final [OF s(1) _ s(2), of NsQueue ex_frame "Timestamp 1" resp "Timestamp 7" r "Timestamp 9"] s(3,4)
  have "r \<in> {Inr resp, Inl ExStorage, Inl ExOverloaded} \<and> cn_db (sv_relay (tp_service t1)) = cn_db (sv_relay (tp_service t0))"
    by simp
  with s(3,4) show ?thesis by metis
qed

theorem concurrent_refines_mailboxes_witness:
  "\<exists>(t :: nat Transport) f resp r. map snd (served_log t) = [Inr resp, r]
     \<and> executed_steps ex_ed (serve_fresh ex_ed ex_sha max_rowid_engine) (\<lambda>c. c) fresh_connection (map fst (served_log t)) = [(Timestamp 1, f, resp)]
     \<and> rf_request f = ex_create \<and> resp = frame_outcome f (OutCreate Created)"
proof (rule ex_repeated)
  let ?call = "\<lambda>n. (NsQueue, ex_frame, Timestamp n)" and ?f = "\<lparr>rf_request_id = ex_id, rf_request = ex_create, rf_auth = ex_auth\<rparr>"
    and ?serve = "serve_fresh ex_ed ex_sha max_rowid_engine"
  fix t :: "nat Transport" and resp r
  assume reach: "(transport_step ex_ed ex_sha max_rowid_engine ex_semaphore)\<^sup>*\<^sup>* (Transport_start ex_semaphore fresh_connection) t"
    and log: "served_log t = [(?call 1, Inr resp), (?call 7, r)]"
  have run: "run_steps ?serve fresh_connection [?call 1, ?call 7] = ([Inr resp, r], sv_relay (tp_service t))"
    using reachable_serial [OF reach] by (simp add: serial_inv_def log)
  obtain c1 c2 where 1: "?serve fresh_connection (?call 1) = (Inr resp, c1)" and 2: "?serve c1 (?call 7) = (r, c2)"
    using run by (auto split: prod.splits)
  have fixed: "queue_fixed_answer ex_ed ex_frame = None"
    using ex_frame_verifies by (simp add: queue_fixed_answer_def ex_frame_decodes Let_def ex_create_def)
  obtain sv' where "serve ex_ed ex_sha max_rowid_engine (RelayService_new fresh_connection) (?call 1) = (Inr resp, sv')" "c1 = sv_relay sv'"
    using 1 by (cases "serve ex_ed ex_sha max_rowid_engine (RelayService_new fresh_connection) (?call 1)") (simp add: serve_fresh_def del: serve.simps)
  with serve_recorded [of ex_ed NsQueue ex_frame ex_sha max_rowid_engine] fixed
  have "Namespace_select NsQueue (Principal_bytes (request_principal ex_create)) ex_id (cn_db c1) \<noteq> []"
    by (fastforce simp: ex_frame_decodes simp del: serve.simps)
  moreover have "Namespace_select NsQueue s rid (cn_db fresh_connection) = []" for s rid
    by (simp add: Namespace_select_def fresh_connection_def empty_db_def)
  ultimately have xs: "executed_steps ex_ed ?serve (\<lambda>c. c) fresh_connection [?call 1, ?call 7] = [(Timestamp 1, ?f, resp)]"
    by (simp add: 1 2 fixed ex_frame_decodes split: sum.split)
  have "clock_ordered (Timestamp 0) (call_clock (map fst (served_log t)))"
    by (simp add: log call_clock_def)
  from concurrent_refines_mailboxes [OF reach max_rowid_engine_fresh this]
  have "resp = frame_outcome ?f (OutCreate Created)"
    by (simp add: log xs execution_defs Let_def spec_step_eq ex_create_def age_def del: executed_steps.simps)
  with log xs show ?thesis
    by (intro exI [of _ t] exI [of _ ?f] exI [of _ resp] exI [of _ r]) (simp del: executed_steps.simps)
qed

end
