(* ===== verification/CW_Recovery.thy ===== *)
theory CW_Recovery
  imports CW_Concurrent CW_Delivery
begin

text \<open>
  Storage errors come from the storage only. The tables of the durable relay are kept in such order that no
  statement of the code violates a constraint or misses a row; so after any faults, as soon as the engine works
  again, the service of \<open>apps/cofferwired/src/lib.rs\<close> answers every frame of both protocols.
\<close>

section \<open>Uploads and their grants\<close>

text \<open>
  Every grant was given by a committed upload, and rows keep the shape their constraints ask for. So the insertion
  of a grant by a commit never meets its own primary key.
\<close>

definition uploads_inv :: "Db \<Rightarrow> bool" where
  "uploads_inv db \<longleftrightarrow> (\<forall>r \<in> set (db_uploads db). upload_row_checks r)
     \<and> (\<forall>g \<in> set (db_grants db). \<exists>r \<in> set (db_uploads db). ur_upload_id r = gr_grant_id g \<and> ur_committed_blob r \<noteq> None)"

lemma uploads_inv_tables: "blob_tables db' = blob_tables db \<Longrightarrow> uploads_inv db' = uploads_inv db"
  by (simp add: blob_tables_def uploads_inv_def)

lemma grants_mapped:
  assumes "uploads_inv db" and "\<And>g. gr_grant_id (f g) = gr_grant_id g"
  shows "uploads_inv (db\<lparr>db_grants := map f (db_grants db)\<rparr>)"
  using assms by (simp add: uploads_inv_def)

lemma set_grants_uploads:
  assumes "uploads_inv db"
  shows "set_expiry b cap e db = Inr (x, db') \<Longrightarrow> uploads_inv db'" and "set_deleted b cap db = Inr (x, db') \<Longrightarrow> uploads_inv db'"
  unfolding set_expiry_def set_deleted_def by (clarsimp; rule grants_mapped [OF assms]; simp)+

lemma insert_upload_uploads: "uploads_inv db \<Longrightarrow> insert_upload row db = Inr (x, db') \<Longrightarrow> uploads_inv db'"
  by (fastforce simp: insert_upload_def constrained_def uploads_inv_def split: if_splits)

lemma insert_upload_chunk_uploads: "uploads_inv db \<Longrightarrow> insert_upload_chunk u i y db = Inr (x, db') \<Longrightarrow> uploads_inv db'"
  by (auto simp: insert_upload_chunk_def constrained_def uploads_inv_def split: if_splits)

lemma publish_uploads:
  assumes "uploads_inv db" and "upload_rows u db = r # rest" and "insert_object b mb db = Inr ((), db1)" and "insert_chunks b u db1 = Inr ((), db2)"
    and "insert_grant g db2 = Inr ((), db3)" and "gr_grant_id g = UploadId_bytes u" and "set_committed u b db3 = Inr ((), db4)"
  shows "uploads_inv db4"
proof -
  have r: "r \<in> set (db_uploads db)" "ur_upload_id r = UploadId_bytes u"
    using hd_filter_mem [OF assms(2) [unfolded upload_rows_def]] by simp_all
  have tables: "db_uploads db4 = map (\<lambda>r. if ur_upload_id r = UploadId_bytes u then r\<lparr>ur_committed_blob := Some (BlobId_bytes b)\<rparr> else r) (db_uploads db)"
      "db_grants db4 = db_grants db @ [g]"
    using assms(3-5,7) by (auto simp: blob_statement_defs Let_def split: if_splits)
  have "\<exists>r' \<in> set (db_uploads db4). ur_upload_id r' = gr_grant_id g' \<and> ur_committed_blob r' \<noteq> None" if "g' \<in> set (db_grants db4)" for g'
  proof (cases "gr_grant_id g' = UploadId_bytes u")
    case True
    with r show ?thesis
      by (intro bexI [of _ "r\<lparr>ur_committed_blob := Some (BlobId_bytes b)\<rparr>"]) (auto simp: tables)
  next
    case False
    with that assms(6) have "g' \<in> set (db_grants db)" by (auto simp: tables)
    with assms(1) False show ?thesis by (fastforce simp: uploads_inv_def tables)
  qed
  moreover have "\<forall>r \<in> set (db_uploads db4). upload_row_checks r"
    using assms(1) by (auto simp: uploads_inv_def tables upload_row_checks_def)
  ultimately show ?thesis by (simp add: uploads_inv_def)
qed

lemma execute_blob_request_uploads:
  assumes "uploads_inv (cn_db c)" and "scans_rows E" and "execute_blob_request sha E request now c = (Inr x, c')"
  shows "uploads_inv (cn_db c')"
proof (cases request)
  case (BrBeginUpload u caps m ttl)
  with assms show ?thesis
    by (auto simp: tx_map_ok_def res_simps dest!: begin_effect intro: insert_upload_uploads)
next
  case (BrPutChunk u cap i y)
  with assms show ?thesis
    by (auto simp: tx_map_ok_def res_simps dest!: put_effect intro: insert_upload_chunk_uploads)
next
  case (BrCommit u cap b)
  then obtain e where "commit_blob_tx sha E u cap b now c = (Inr e, c')"
    using assms(3) by (auto simp: tx_map_ok_def res_simps)
  from commit_effect [OF this] assms(1) show ?thesis
    by (auto dest: publish_uploads)
next
  case (BrRenew b cap ttl)
  with assms show ?thesis
    by (auto simp: tx_map_ok_def res_simps dest!: renew_effect(1) intro: set_grants_uploads)
next
  case (BrDelete b cap)
  with assms show ?thesis
    by (auto simp: tx_map_ok_def res_simps dest!: delete_effect intro: set_grants_uploads)
qed (use assms in \<open>auto simp: tx_map_ok_def res_simps dest!: get_manifest_effect get_chunk_effect\<close>)

section \<open>Without faults no request meets a storage error\<close>

named_theorems clean_intros \<open>computations that do not fail with a storage error\<close>

definition clean :: "(BlobDurableError, 'a) result \<times> Connection \<Rightarrow> bool" where
  "clean p \<longleftrightarrow> (\<forall>d. fst p \<noteq> Inl (BdStorage d))"

lemma clean_bind [clean_intros]:
  assumes "clean (m c)" and "\<And>x c'. m c = (Inr x, c') \<Longrightarrow> clean (f x c')"
  shows "clean (tx_bind m f c)"
  using assms by (auto simp: clean_def tx_bind_def split: prod.split sum.split)

lemma clean_exec: "\<exists>y. stmt (cn_db c) = Inr y \<Longrightarrow> clean (blob_exec (faultless E) stmt c)"
  by (auto simp: clean_def blob_exec_def sql_exec_def sql_call_def tx_map_err_def split: prod.split)

lemma clean_ends [clean_intros]:
  "clean (tx_return x c)" "clean (tx_fail (BdProtocol e) c)" "clean (tx_map_err (\<lambda>_. BdProtocol e) m c)"
  by (simp_all add: clean_def tx_return_def tx_fail_def tx_map_err_def map_err_def split: prod.split sum.split)

lemma clean_res [clean_intros]: "(\<And>d. r \<noteq> Inl (BdStorage d)) \<Longrightarrow> clean (tx_res r c)"
  by (simp add: clean_def tx_res_def)

lemma clean_branch [clean_intros]:
  "(b \<Longrightarrow> clean (m1 c)) \<Longrightarrow> (\<not> b \<Longrightarrow> clean (m2 c)) \<Longrightarrow> clean ((if b then m1 else m2) c)"
  "(a = None \<Longrightarrow> clean (m1 c)) \<Longrightarrow> (\<And>x. a = Some x \<Longrightarrow> clean (g x c)) \<Longrightarrow> clean ((case a of None \<Rightarrow> m1 | Some x \<Rightarrow> g x) c)"
  "(\<And>x y. p = (x, y) \<Longrightarrow> clean (h x y c)) \<Longrightarrow> clean ((case p of (x, y) \<Rightarrow> h x y) c)"
  by (auto split: option.split prod.split)

lemma results_clean:
  "be_u64 bs \<noteq> Inl (BdStorage d)" "requested_expiry now ttl \<noteq> Inl (BdStorage d)" "parse_stored bs \<noteq> Inl (BdStorage d)"
  "ok_or v (BdProtocol e) \<noteq> Inl (BdStorage d)"
  by (auto simp: be_u64_def requested_expiry_def parse_stored_def map_err_def ok_or_def split: option.split sum.split)

lemma clean_query [clean_intros]: "clean (blob_exec (faultless E) (query_optional q (\<lambda>r. Inr (f r))) c)"
  by (rule clean_exec) (simp add: query_optional_def split: list.split)

lemma clean_query_row [clean_intros]: "clean (blob_exec (faultless E) (query_optional q Inr) c)"
  using clean_query [of E q "\<lambda>r. r"] by simp

lemma clean_read [clean_intros]: "clean (blob_exec (faultless E) (\<lambda>db. Inr (f db, db)) c)"
  by (rule clean_exec) simp

lemma upload_clean [clean_intros]: "clean (upload (faultless E) u c)"
  unfolding upload_def by (intro clean_intros) (simp_all add: results_clean)

lemma authorize_clean [clean_intros]: "clean (authorize_grant (faultless E) b col cap now c)"
  unfolding authorize_grant_def by (intro clean_intros; simp add: results_clean)

lemma check_chunks_clean [clean_intros]: "clean (check_chunks sha (faultless E) u m is c)"
  by (induction "is" arbitrary: c) (simp_all only: check_chunks.simps, (intro clean_intros; simp add: results_clean)+)


lemma clean_object:
  assumes "object_rows b (cn_db c) \<noteq> []"
  shows "clean (blob_exec (faultless E) (query_row (object_rows b) (\<lambda>r. Inr (or_manifest r))) c)"
  using assms by (cases "object_rows b (cn_db c)") (auto intro!: clean_exec simp: query_row_def)

text \<open>The object of a grant is there, also for the computations that run after the grant was looked up.\<close>

lemma granted_object:
  assumes "blob_inv sha (cn_db c)" and "scans_rows E" and "authorize_grant E b col cap now c = (Inr expiry, c')"
  shows "object_rows b (cn_db c') \<noteq> []"
proof -
  obtain g where "g \<in> set (db_grants (cn_db c))" "gr_blob_id g = BlobId_bytes b"
    using authorize_grant_Inr(2) [OF assms(3,2)] by blast
  then have "BlobId_bytes b \<in> or_blob_id ` set (db_objects (cn_db c))"
    using assms(1) unfolding blob_inv_def by metis
  then show ?thesis
    using authorize_grant_Inr(1) [OF assms(3,2)] by (auto simp: object_rows_def filter_empty_conv)
qed

lemma grant_updates_clean [clean_intros]:
  "clean (blob_exec (faultless E) (set_expiry b cap e) c)" "clean (blob_exec (faultless E) (set_deleted b cap) c)"
  by (rule clean_exec, simp add: set_expiry_def set_deleted_def)+

lemma insert_upload_clean:
  assumes "upload_rows u (cn_db c) = []" and "wf_UploadId u" and "wf_BlobCapabilities caps"
  shows "clean (blob_exec (faultless E) (insert_upload (upload_row u caps m expiry)) c)"
  by (rule clean_exec) (use assms in \<open>auto simp: insert_upload_def constrained_def upload_row_def upload_row_checks_def upload_rows_def
      filter_empty_conv wf_BlobCapabilities_def wf_UploadId_def wf_CapabilityId_def\<close>)

lemma insert_upload_chunk_clean:
  assumes "upload_rows u (cn_db c) \<noteq> []" and "upload_chunk_at u i (cn_db c) = []"
  shows "clean (blob_exec (faultless E) (insert_upload_chunk u i x) c)"
  by (rule clean_exec) (use assms in \<open>force simp: insert_upload_chunk_def constrained_def upload_rows_def filter_empty_conv\<close>)

lemma begin_clean:
  assumes "wf_UploadId u" and "wf_BlobCapabilities caps"
  shows "clean (begin_blob_upload_tx (faultless E) u caps m now ttl c)"
  unfolding begin_blob_upload_tx_def upload_row_def [symmetric]
  by (intro clean_intros insert_upload_clean [OF _ assms]) (auto simp: results_clean res_simps)

lemma put_clean: "clean (put_blob_chunk_tx sha (faultless E) u cap i x now c)"
  unfolding put_blob_chunk_tx_def
  by (intro clean_intros insert_upload_chunk_clean) (auto simp: results_clean upload_def res_simps ok_or_eq_Inr)

lemma get_clean:
  assumes "blob_inv sha (cn_db c)" and "scans_rows E"
  shows "clean (get_blob_manifest_tx sha (faultless E) b cap now c)" and "clean (get_blob_chunk_tx sha (faultless E) b cap i now c)"
  unfolding get_blob_manifest_tx_def get_blob_chunk_tx_def
  by (intro clean_intros clean_object granted_object [OF assms(1), of "faultless E"]; simp add: assms(2) results_clean)+

lemma grant_changes_clean: "clean (renew_blob_tx (faultless E) b cap now ttl c)" "clean (delete_blob_tx (faultless E) b cap now c)"
  unfolding renew_blob_tx_def delete_blob_tx_def Let_def
  by (intro clean_intros; simp add: results_clean)+


lemma publish_clean:
  assumes uploads: "uploads_inv db" and u: "upload_rows u db = r # rest" "ur_committed_blob r = None" and "distinct (map ur_upload_id (db_uploads db))"
    and b: "wf_BlobId b" and obj: "insert_object b mb db = Inr ((), db1)" and chunks: "insert_chunks b u db1 = Inr ((), db2)"
  defines "g \<equiv> \<lparr>gr_grant_id = UploadId_bytes u, gr_blob_id = BlobId_bytes b, gr_download_cap = ur_download_cap r,
    gr_renew_cap = ur_renew_cap r, gr_delete_cap = ur_delete_cap r, gr_expires_at = ur_expires_at r, gr_deleted = 0\<rparr>"
  shows "\<exists>y. insert_grant g db2 = Inr y"
proof -
  have r: "r \<in> set (db_uploads db)" "ur_upload_id r = UploadId_bytes u"
    using hd_filter_mem [OF u(1) [unfolded upload_rows_def]] by simp_all
  have "grant_row_checks g"
    using uploads r by (auto simp: uploads_inv_def upload_row_checks_def grant_row_checks_def g_def)
  moreover have "gr_grant_id g \<notin> gr_grant_id ` set (db_grants db)"
  proof
    assume "gr_grant_id g \<in> gr_grant_id ` set (db_grants db)"
    then obtain r' where "r' \<in> set (db_uploads db)" "ur_upload_id r' = ur_upload_id r" "ur_committed_blob r' \<noteq> None"
      using uploads r by (fastforce simp: uploads_inv_def g_def)
    with assms(4) r u(2) show False
      by (metis distinct_map inj_on_def)
  qed
  moreover have "db_grants db2 = db_grants db" "db_objects db2 = db_objects db1"
    using obj chunks by (auto simp: blob_statement_defs Let_def split: if_splits)
  moreover have "BlobId_bytes b \<in> or_blob_id ` set (db_objects db1)"
    using obj b by (force simp: insert_object_def object_rows_def filter_empty_conv wf_BlobId_def split: if_splits)
  ultimately show ?thesis
    by (simp add: insert_grant_def constrained_def g_def)
qed

lemma publish_statements:
  assumes "wf_BlobId b"
  shows "\<exists>y. insert_object b mb db = Inr y" and "insert_object b mb db = Inr ((), db1) \<Longrightarrow> \<exists>y. insert_chunks b u db1 = Inr y"
    and "\<exists>y. set_committed u b db = Inr y"
  using assms by (force simp: blob_statement_defs object_rows_def filter_empty_conv wf_BlobId_def Let_def split: if_splits)+

lemma commit_clean:
  assumes inv: "blob_inv sha (cn_db c)" and uploads: "uploads_inv (cn_db c)" and b: "wf_BlobId b"
  shows "clean (commit_blob_tx sha (faultless E) u cap b now c)"
proof -
  have distinct: "distinct (map ur_upload_id (db_uploads (cn_db c)))"
    using inv by (simp add: blob_inv_def)
  note publish = publish_statements [OF b] publish_clean [OF uploads _ _ distinct b]
  show ?thesis
    unfolding commit_blob_tx_def
    by (intro clean_intros clean_exec) (simp_all add: results_clean res_simps del: split_paired_Ex, (elim exE conjE disjE; (drule check_chunks_Inr)?; elim conjE; (rule publish; simp; fail)?)+)
qed

lemma execute_clean:
  assumes "blob_inv sha (cn_db c)" and "uploads_inv (cn_db c)" and "scans_rows E" and "wf_BlobRequest request"
  shows "clean (execute_blob_request sha (faultless E) request now c)"
  by (cases request; simp only: execute_blob_request.simps tx_map_ok_def; intro clean_intros; (erule asm_rl)?)
    (use assms in \<open>simp_all add: begin_clean put_clean commit_clean get_clean grant_changes_clean\<close>)


section \<open>Without faults every frame is answered\<close>

context recorded_effect
begin

lemma frame_answers:
  assumes "length s = 32" and "wf_RequestId rid" and "\<exists>resp db. committed_effect (pure_tx (eff r) E (cn_db c)) encode (cn_db c) = Some (resp, db)"
  shows "\<exists>resp c'. answer_frame (faultless E) ns s rid bs (exchange (faultless E) ns s rid bs (eff r (faultless E)) encode) conflict c = (Inr resp, c')"
proof (cases "Namespace_select ns s rid (cn_db c)")
  case Nil
  with assms frame_faultless show ?thesis by blast
next
  case (Cons row rest)
  then show ?thesis
    by (simp add: answer_frame_def lookup_def sql_exec_faultless query_optional_def moved_same)
qed

end

text \<open>What every reachable database satisfies.\<close>

definition store_ok :: "(bytes \<Rightarrow> bytes) \<Rightarrow> Db \<Rightarrow> bool" where
  "store_ok sha256 db \<longleftrightarrow> relay_ok db \<and> blob_inv sha256 db \<and> uploads_inv db"

lemma store_ok_fresh: "store_ok sha256 (cn_db fresh_connection)"
  using relay_ok_empty fresh_blob_inv [of sha256] by (simp add: store_ok_def uploads_inv_def fresh_connection_def empty_db_def)

lemma blob_commits:
  assumes "store_ok sha256 db" and "scans_rows E" and "wf_BlobRequest request"
  shows "\<exists>resp db'. committed_effect (pure_tx (blob_effect sha256 (request, now)) E db) encode db = Some (resp, db')"
proof -
  let ?c = "\<lparr>cn_db = db, cn_calls = 0\<rparr>"
  have "clean (execute_blob_request sha256 (faultless E) request now ?c)"
    using execute_clean [of sha256 ?c] assms by (simp add: store_ok_def)
  then show ?thesis
    by (cases "execute_blob_request sha256 (faultless E) request now ?c"; cases "fst (execute_blob_request sha256 (faultless E) request now ?c)")
      (auto simp: committed_effect_def pure_tx_def seen_def clean_def tx_map_err_def blob_effect_error_def split: BlobDurableError.splits)
qed

text \<open>The frame that passed the front section is well-formed, so its section under the lock ends with an answer.\<close>

lemma tail_answers:
  assumes front: "front_section ed sv call = (Inr f, sv')" and ok: "store_ok sha256 (cn_db c)" and E: "fresh_rowids E" "scans_rows E"
  shows "\<exists>resp c'. passed_tail sha256 (faultless E) (fst (snd call)) (snd (snd call)) f c = (Inr resp, c')"
proof (cases call rule: frame_call_cases)
  case (queue bs now)
  then obtain d where d: "decode_request bs = Inr d" "f = QueueFrame (dr_frame d)" "validate_queue_request (rf_request (dr_frame d)) = Inr ()"
    using front by (auto simp: queue_front_def Let_def split: sum.splits prod.splits if_splits)
  have wf: "wf_RequestId (rf_request_id (dr_frame d))" "wf_Request (rf_request (dr_frame d))"
    using d(1) by (simp_all add: decode_request_exact wf_RequestFrame_def)
  then have len: "length (Principal_bytes (request_principal (rf_request (dr_frame d)))) = 32"
    by (cases "rf_request (dr_frame d)") (simp_all add: wf_Principal_def)
  have "\<exists>resp c'. queue_tail (faultless E) bs now (dr_frame d) c = (Inr resp, c')"
    using ok unfolding queue_tail_def store_ok_def
    by (intro queue_records.frame_answers [OF len wf(1)] execute_commits [OF _ E(1) wf(2) d(3)]) simp
  then show ?thesis by (simp add: queue d(2))
next
  case (blob bs now)
  then obtain d where d: "decode_blob_request bs = Inr d" "f = BlobFrame (dbr_frame d)"
    using front by (auto simp: blob_front_def Let_def split: sum.splits prod.splits if_splits)
  have wf: "wf_RequestId (brf_request_id (dbr_frame d))" "wf_BlobRequest (brf_request (dbr_frame d))"
    using d(1) by (simp_all add: decode_blob_request_exact wf_BlobRequestFrame_def)
  then have len: "length (CapabilityId_bytes (BlobRequest_capability (brf_request (dbr_frame d)))) = 32"
    by (cases "brf_request (dbr_frame d)") (simp_all add: wf_CapabilityId_def wf_BlobCapabilities_def)
  have "\<exists>resp c'. blob_tail sha256 (faultless E) bs now (dbr_frame d) c = (Inr resp, c')"
    unfolding blob_tail_def by (intro blob_records.frame_answers [OF len wf(1)] blob_commits [OF ok E(2) wf(2)])
  then show ?thesis by (simp add: blob d(2))
qed

section \<open>Every run keeps the store in order\<close>

lemma answer_frame_tables:
  assumes "answer_frame E ns s rid bs exch conflict c = (r, c')"
  shows "cn_db c' = cn_db c \<or> (\<exists>c1. cn_db c1 = cn_db c \<and> c' = snd (exch c1))"
  using assms lookup_cases(1) [of E ns s rid c]
  by (cases "lookup E ns s rid c") (auto simp: answer_frame_def split: sum.splits option.splits prod.splits ReplayExchange.splits)

lemma serve_blob_tables:
  assumes "serve ed sha256 E sv call = (r, sv')"
  shows "blob_tables (cn_db (sv_relay sv')) = blob_tables (cn_db (sv_relay sv))
    \<or> (\<exists>db. blob_applied sha256 E (cn_db (sv_relay sv)) db \<and> blob_tables (cn_db (sv_relay sv')) = blob_tables db)"
proof -
  have tail: "blob_tables (cn_db c') = blob_tables (cn_db c) \<or> (\<exists>db. blob_applied sha256 E (cn_db c) db \<and> blob_tables (cn_db c') = blob_tables db)"
    if tail: "passed_tail sha256 E bs now f c = (r, c')" for bs now f c r c'
  proof (cases f)
    case (QueueFrame q)
    with tail show ?thesis
      using queue_exchange_keeps_blobs [of E "request_principal (rf_request q)"] unfolding queue_request_exchange_eq
      by (auto simp: queue_tail_def dest!: answer_frame_tables)
  next
    case (BlobFrame b)
    with tail show ?thesis
      using blob_exchange_applied [OF refl, of sha256 E "BlobRequest_capability (brf_request b)"] unfolding blob_request_exchange_eq
      by (auto simp: blob_tail_def dest!: answer_frame_tables) metis
  qed
  show ?thesis
  proof (cases "front_section ed sv call")
    case (Pair v sv1)
    note keeps = front_keeps [OF Pair]
    show ?thesis
      using assms tail keeps by (cases v) (fastforce simp: serve_sections Pair relay_section_def split: if_splits prod.splits)+
  qed
qed

lemma serve_keeps:
  assumes "serve ed sha256 E sv call = (r, sv')" and E: "fresh_rowids E" "scans_rows E" and ok: "store_ok sha256 (cn_db (sv_relay sv))"
  shows "store_ok sha256 (cn_db (sv_relay sv'))"
proof -
  obtain ns bs now where call: "call = (ns, bs, now)" by (cases call)
  have "clock_ordered now (call_clock [call])"
    by (simp add: call call_clock_def)
  then have "relay_ok (cn_db (sv_relay sv'))"
    using service.run_refines [OF E(1), of sv now "[call]" "service_view now sv" ed sha256] ok durable_view_ages [of "sv_relay sv" now] assms(1)
    by (simp add: store_ok_def)
  moreover have "blob_inv sha256 db \<and> uploads_inv db" if applied: "blob_applied sha256 E (cn_db (sv_relay sv)) db" for db
  proof
    show "blob_inv sha256 db"
      using blob_applied_inv [OF applied E(2)] ok by (simp add: store_ok_def)
    obtain request t x where "fst (execute_blob_request sha256 (faultless E) request t \<lparr>cn_db = cn_db (sv_relay sv), cn_calls = 0\<rparr>) = Inr x"
        "db = cn_db (snd (execute_blob_request sha256 (faultless E) request t \<lparr>cn_db = cn_db (sv_relay sv), cn_calls = 0\<rparr>))"
      using applied by (auto simp: blob_applied_def pure_tx_def seen_def)
    then show "uploads_inv db"
      using execute_blob_request_uploads [of "\<lparr>cn_db = cn_db (sv_relay sv), cn_calls = 0\<rparr>" "faultless E"] ok E(2) by (simp add: store_ok_def prod_eq_iff)
  qed
  ultimately show ?thesis
    using serve_blob_tables [OF assms(1)] ok blob_inv_tables uploads_inv_tables unfolding store_ok_def by metis
qed

context frame_server
begin

lemma run_keeps:
  assumes "fresh_rowids E" and "scans_rows E"
  shows "store_ok sha256 (cn_db (conn s)) \<Longrightarrow> store_ok sha256 (cn_db (conn (snd (run_steps step s calls))))"
proof (induction calls arbitrary: s)
  case (Cons call calls)
  obtain r s1 where st: "step s call = (r, s1)" by fastforce
  obtain sv sv1 where "serve ed sha256 E sv call = (r, sv1)" "sv_relay sv = conn s" "sv_relay sv1 = conn s1"
    by (rule step_served [OF st])
  then have "store_ok sha256 (cn_db (conn s1))"
    using serve_keeps [OF _ assms, of ed sha256 sv call r sv1] Cons.prems by simp
  from Cons.IH [OF this] st show ?case by (simp add: run_steps_Cons del: run_steps.simps(2))
qed simp

end

section \<open>Recovery\<close>

lemma reachable_store:
  assumes "(transport_step ed sha256 E sm)\<^sup>*\<^sup>* (Transport_start sm fresh_connection) t" and "fresh_rowids E" and "scans_rows E"
  shows "store_ok sha256 (cn_db (sv_relay (tp_service t)))"
  using fresh.run_keeps [OF assms(2,3), of sha256 fresh_connection ed "map fst (served_log t)"] reachable_serial [OF assms(1)] store_ok_fresh [of sha256]
  by (simp add: serial_inv_def)

lemma section_answers:
  assumes "front_section ed sv0 call = (Inr f, sv0')" and "store_ok sha256 (cn_db (sv_relay sv))" and "fresh_rowids E" and "scans_rows E"
    and "\<not> sv_poisoned sv"
  shows "\<exists>resp sv'. relay_section sha256 (faultless E) sv call f = (Inr resp, sv')"
  using tail_answers [OF assms(1-4)] assms(5) by (auto simp: relay_section_def)

lemma frame_answered:
  assumes "store_ok sha256 (cn_db (sv_relay sv))" and "fresh_rowids E" and "scans_rows E" and "\<not> sv_poisoned sv"
  shows "fst (serve ed sha256 (faultless E) sv call) = Inl ExOverloaded \<or> (\<exists>resp. fst (serve ed sha256 (faultless E) sv call) = Inr resp)"
proof (cases "front_section ed sv call")
  case (Pair v sv1)
  show ?thesis
  proof (cases v)
    case (Inl r)
    with Pair front_section_error [of ed sv call _ sv1] show ?thesis
      by (cases r) (auto simp: serve_sections)
  next
    case (Inr f)
    then obtain resp sv' where "relay_section sha256 (faultless E) sv1 call f = (Inr resp, sv')"
      using section_answers [OF Pair [unfolded Inr], of sha256 sv1 E] front_keeps [OF Pair] assms by auto
    with Pair Inr show ?thesis by (simp add: serve_sections)
  qed
qed

lemma serve_fresh_admits: "fst (serve_fresh ed sha256 E c call) \<noteq> Inl ExOverloaded"
proof (cases "front_section ed (RelayService_new c) call")
  case (Pair v sv)
  have "v \<noteq> Inl (Inl ExOverloaded)"
    using Pair by (cases call rule: frame_call_cases)
      (auto simp: queue_front_def blob_front_def fresh_limiter_admits Let_def split: sum.splits)
  with Pair relay_section_error [of sha256 E sv call] show ?thesis
    by (cases v; cases "relay_section sha256 E sv call (projr v)") (auto simp: serve_fresh_def serve_sections)
qed

text \<open>
  C5: storage errors come from storage faults only. Whatever requests were served, however they interleaved and
  whatever faults the engine raised on the way, as soon as it raises none, every command that already passed its
  checks is answered, and so is every new frame of either protocol, valid or not, unless the rate limiter turns it
  away; with a new limiter every frame is answered. No state makes the store run into its own constraints.
\<close>

theorem service_recovers:
  assumes "(transport_step ed sha256 E sm)\<^sup>*\<^sup>* (Transport_start sm fresh_connection) t" and "fresh_rowids E" and "scans_rows E"
  shows "(\<forall>call f. Passed call f \<in># tp_tasks t \<longrightarrow> (\<exists>resp sv'. relay_section sha256 (faultless E) (tp_service t) call f = (Inr resp, sv')))
    \<and> (fst (serve ed sha256 (faultless E) (tp_service t) call) = Inl ExOverloaded
        \<or> (\<exists>resp. fst (serve ed sha256 (faultless E) (tp_service t) call) = Inr resp))
    \<and> (\<exists>resp. fst (serve_fresh ed sha256 (faultless E) (sv_relay (tp_service t)) call) = Inr resp)"
proof -
  have ok: "store_ok sha256 (cn_db (sv_relay (tp_service t)))"
    by (rule reachable_store [OF assms])
  have inv: "serial_inv ed sha256 E fresh_connection t"
    by (rule reachable_serial [OF assms(1)])
  have "\<exists>resp sv'. relay_section sha256 (faultless E) (tp_service t) call f = (Inr resp, sv')" if "Passed call f \<in># tp_tasks t" for call f
    using that inv section_answers [OF _ ok assms(2,3)] unfolding serial_inv_def by metis
  moreover have "fst (serve ed sha256 (faultless E) (tp_service t) call) = Inl ExOverloaded
      \<or> (\<exists>resp. fst (serve ed sha256 (faultless E) (tp_service t) call) = Inr resp)"
    using frame_answered [OF ok assms(2,3)] inv by (simp add: serial_inv_def)
  moreover have "\<exists>resp. fst (serve_fresh ed sha256 (faultless E) (sv_relay (tp_service t)) call) = Inr resp"
    using frame_answered [of sha256 "RelayService_new (sv_relay (tp_service t))" E ed call] ok assms(2,3) serve_fresh_admits
    by (simp add: serve_fresh_def)
  ultimately show ?thesis by blast
qed

section \<open>A run through a full disk\<close>

definition full_disk :: Engine where
  "full_disk = max_rowid_engine\<lparr>en_fault := (\<lambda>_. Some (SqliteFailure DiskFull))\<rparr>"

lemma full_disk_rules: "fresh_rowids full_disk" "scans_rows full_disk"
  using max_rowid_engine_fresh max_rowid_engine_scans by (simp_all add: full_disk_def fresh_rowids_def scans_rows_def)

theorem service_recovers_witness:
  "\<exists>t :: nat Transport. (transport_step ex_ed ex_sha full_disk ex_semaphore)\<^sup>*\<^sup>* (Transport_start ex_semaphore fresh_connection) t
     \<and> tp_log t = [((NsQueue, ex_frame, Timestamp 1), Inl ExStorage)]
     \<and> (\<exists>resp. fst (serve_fresh ex_ed ex_sha (faultless full_disk) (sv_relay (tp_service t)) (NsQueue, ex_frame, Timestamp 2)) = Inr resp)"
proof -
  let ?call = "(NsQueue, ex_frame, Timestamp 1)"
  have "fst (serve ex_ed ex_sha full_disk (RelayService_new fresh_connection) ?call) = Inl ExStorage"
    by (simp add: serve_sections ex_front fresh_limiter_admits relay_section_def queue_tail_def answer_frame_def lookup_def sql_exec_def
        sql_call_def full_disk_def tx_map_err_def split_beta del: serve.simps front_section.simps)
  then obtain sv1 where served: "serve ex_ed ex_sha full_disk (RelayService_new fresh_connection) ?call = (Inl ExStorage, sv1)"
    by (metis prod.collapse)
  obtain t where t: "(transport_step ex_ed ex_sha full_disk ex_semaphore)\<^sup>*\<^sup>* (Transport_start ex_semaphore fresh_connection) t"
      "tp_log t = [(?call, Inl ExStorage)]"
    using run_alone [OF ex_semaphore_laws, of ex_ed ex_sha full_disk fresh_connection "[?call]"] served by (auto simp del: serve.simps)
  with service_recovers [OF t(1) full_disk_rules, of "(NsQueue, ex_frame, Timestamp 2)"] show ?thesis by blast
qed

end
