(* ===== verification/CW_Answers.thy ===== *)
theory CW_Answers
  imports CW_Recovery
begin

text \<open>
  What the service of \<open>apps/cofferwired/src/lib.rs\<close> puts on the wire: every answer, also to bytes that are no
  request, is a response frame of \<open>crates/cofferwire-codec\<close> that belongs to the frame it answers.
\<close>

section \<open>Version errors come from the preamble\<close>

text \<open>A version error carries the identifier of the frame, so no decoder past the preamble may raise one.\<close>

named_theorems versionless_intros \<open>decoders that raise no version error\<close>

definition versionless :: "(DecodeError, 'a) result \<Rightarrow> bool" where
  "versionless r \<longleftrightarrow> (\<forall>v rid. r \<noteq> Inl (DeUnsupportedVersion v rid))"

lemma versionless_bind [versionless_intros]:
  assumes "versionless m" and "\<And>x. versionless (f x)"
  shows "versionless (res_bind m f)"
  using assms by (cases m) (auto simp: versionless_def)

lemma versionless_branch [versionless_intros]:
  "(\<And>x y. versionless (g x y)) \<Longrightarrow> versionless (case p of (x, y) \<Rightarrow> g x y)"
  "versionless r1 \<Longrightarrow> versionless r2 \<Longrightarrow> versionless (if b then r1 else r2)"
  by (auto split: prod.split)

lemma versionless_ends [versionless_intros, simp]:
  "versionless (Inr x)" "versionless (map_err DeInvalidProtocolValue m)" "versionless (map_err (\<lambda>_. DeInvalidValue field value) m')"
  by (auto simp: versionless_def map_err_def split: sum.split)

lemma versionless_error: "(\<And>v rid. e \<noteq> DeUnsupportedVersion v rid) \<Longrightarrow> versionless (Inl e)"
  "(\<And>v rid. e \<noteq> DeUnsupportedVersion v rid) \<Longrightarrow> versionless (ok_or x e)"
  by (auto simp: versionless_def ok_or_def split: option.split)

lemma Decoder_byte_versionless [versionless_intros]: "versionless (Decoder_byte d)"
  unfolding Decoder_byte_def by (intro versionless_intros versionless_error; simp)

lemma Decoder_byte_array_versionless [versionless_intros]: "versionless (Decoder_byte_array n d)"
  by (induction n arbitrary: d) (simp_all only: Decoder_byte_array.simps, (intro versionless_intros; assumption?)+)

lemma Decoder_argument_versionless [versionless_intros]: "versionless (Decoder_argument major field d)"
  unfolding Decoder_argument_def Decoder_argument_value_def Let_def by (intro versionless_intros versionless_error; simp)

lemma Decoder_items_versionless [versionless_intros]:
  "versionless (Decoder_unsigned field d)" "versionless (Decoder_array_length d)" "versionless (Decoder_array field n d)"
  "versionless (Decoder_bytes field k d)"
  unfolding Decoder_unsigned_def Decoder_array_length_def Decoder_array_def Decoder_bytes_def Let_def
  by (intro versionless_intros versionless_error; simp)+

lemma queue_items_versionless [versionless_intros]:
  "versionless (expect_value d field n)" "versionless (decode_command d)" "versionless (queue_id d)" "versionless (principal d)"
  "versionless (message_id d)" "versionless (finish d bs)"
  unfolding expect_value_def decode_command_def command_from_u64_def queue_id_def principal_def message_id_def fixed_bytes_def finish_def
  by (intro versionless_intros versionless_error; simp)+

lemma queue_body_versionless [versionless_intros]: "versionless (decode_request_body d c)"
  by (cases c; simp only: decode_request_body.simps; intro versionless_intros)

lemma registered_versionless [versionless_intros]: "versionless (registered try_from field value)"
  by (simp add: registered_def versionless_error split: option.split)

lemma blob_items_versionless [versionless_intros]:
  "versionless (blob_expect d field n)" "versionless (blob_fixed k d field)" "versionless (blob_chunk_index d)" "versionless (blob_manifest d)"
  "versionless (blob_ttl d)" "versionless (blob_finish d bs)"
  unfolding blob_expect_def blob_fixed_def blob_chunk_index_def blob_manifest_def blob_ttl_def blob_finish_def
  by (intro versionless_intros versionless_error; simp)+

lemma blob_body_versionless [versionless_intros]: "versionless (decode_blob_request_body d c)"
  by (cases c; simp only: decode_blob_request_body.simps; intro versionless_intros)

lemma versionless_bind_error:
  "res_bind m f = Inl (DeUnsupportedVersion v rid) \<Longrightarrow> (\<And>x. versionless (f x)) \<Longrightarrow> m = Inl (DeUnsupportedVersion v rid)"
  by (cases m) (auto simp: versionless_def)

lemma version_error_id:
  "decode_request bs = Inl (DeUnsupportedVersion v rid) \<Longrightarrow> rid = request_id_from_prefix bs"
  "decode_blob_request bs = Inl (DeUnsupportedVersion v rid) \<Longrightarrow> rid = request_id_from_prefix bs"
proof -
  show "rid = request_id_from_prefix bs" if "decode_request bs = Inl (DeUnsupportedVersion v rid)"
  proof -
    have "decode_preamble bs = Inl (DeUnsupportedVersion v rid)"
      using that unfolding decode_request_def Let_def by (rule versionless_bind_error) (intro versionless_intros)
    then show ?thesis
      by (auto simp: decode_preamble_def res_simps Let_def request_id_from_prefix_def get_range_def PREAMBLE_BYTES_def drop_take split: if_splits)
  qed
  show "rid = request_id_from_prefix bs" if "decode_blob_request bs = Inl (DeUnsupportedVersion v rid)"
  proof -
    have "blob_preamble bs = Inl (DeUnsupportedVersion v rid)"
      using that unfolding decode_blob_request_def Let_def by (rule versionless_bind_error) (intro versionless_intros versionless_error; simp)
    then show ?thesis
      by (auto simp: blob_preamble_def res_simps Let_def request_id_from_prefix_def get_range_def PREAMBLE_BYTES_def drop_take split: if_splits)
  qed
qed

section \<open>The replies to a frame\<close>

text \<open>
  A reply decodes, names the identifier of its frame, and the command of the frame. Bytes that are no request still
  carry an identifier when they hold a preamble, one byte for the version and sixteen for the identifier; the reply
  then copies these sixteen bytes and names no command. Shorter bytes have no identifier to reply to.
\<close>

definition preamble_id :: "bytes \<Rightarrow> RequestId option" where
  "preamble_id bs = (if length bs < 1 + 16 then None else Some (RequestId (take 16 (drop 1 bs))))"

text \<open>The service answers them all the same, under an identifier of zeros.\<close>

lemma short_frame_id: "length bs < 17 \<Longrightarrow> request_id_from_prefix bs = RequestId (replicate 16 0)"
  by (simp add: request_id_from_prefix_def get_range_def)

lemma preamble_id_prefix: "preamble_id bs = (if length bs < 17 then None else Some (request_id_from_prefix bs))"
  by (simp add: preamble_id_def request_id_from_prefix_def get_range_def)

fun replies :: "Namespace \<Rightarrow> bytes \<Rightarrow> bytes \<Rightarrow> bool" where
  "replies NsQueue bs resp \<longleftrightarrow>
     (case decode_response resp of
        Inl _ \<Rightarrow> False
      | Inr f \<Rightarrow>
          (case decode_request bs of
             Inl _ \<Rightarrow> preamble_id bs \<in> {None, Some (rsf_request_id f)} \<and> Response_command (rsf_response f) = None
           | Inr d \<Rightarrow> rsf_request_id f = rf_request_id (dr_frame d)
               \<and> Response_command (rsf_response f) = Some (Request_command (rf_request (dr_frame d)))))"
| "replies NsBlob bs resp \<longleftrightarrow>
     (case decode_blob_response resp of
        Inl _ \<Rightarrow> False
      | Inr f \<Rightarrow>
          (case decode_blob_request bs of
             Inl _ \<Rightarrow> preamble_id bs \<in> {None, Some (brsf_request_id f)} \<and> br_command (brsf_response f) = None
           | Inr d \<Rightarrow> brsf_request_id f = brf_request_id (dbr_frame d)
               \<and> br_command (brsf_response f) = Some (BlobRequest_command (brf_request (dbr_frame d)))))"

lemma encoded_response:
  "wf_ResponseFrame f \<Longrightarrow> decode_response (encode_response f) = Inr f"
  "wf_BlobResponseFrame g \<Longrightarrow> decode_blob_response (encode_blob_response g) = Inr g"
  using length_encode_response_le length_encode_blob_response_le by (simp_all add: decode_response_exact decode_blob_response_exact)

lemma refusals_decode:
  assumes "wf_RequestId rid"
  shows "status \<noteq> StOk \<Longrightarrow> \<exists>e. decode_response (error_response rid command status) = Inr \<lparr>rsf_request_id = rid, rsf_response = RespError e\<rparr>
      \<and> er_command e = command"
    and "bstatus \<noteq> BsOk \<Longrightarrow> decode_blob_response (blob_error_response rid bcommand bstatus)
      = Inr \<lparr>brsf_request_id = rid, brsf_response = \<lparr>br_command = bcommand, br_status = bstatus, br_body = None\<rparr>\<rparr>"
  using assms by (simp_all add: error_response_def blob_error_response_def encoded_response wf_ResponseFrame_def wf_BlobResponseFrame_def
      wf_BlobResponse_def ErrorResponse_new_def)

lemma refused_outcome:
  "encode_queue_outcome rid command (Inl error) = error_response rid (Some command) (relay_status error)"
  "encode_blob_outcome rid bcommand (Inl berror) = blob_error_response rid (Some bcommand) (blob_status berror)"
  by (simp_all add: encode_queue_outcome_def encode_blob_outcome_def error_response_def blob_error_response_def)

lemma prefix_id: "wf_RequestId (request_id_from_prefix bs)"
  by (auto simp: request_id_from_prefix_def wf_RequestId_def get_range_def)

lemma undecodable_replies:
  "decode_request bs = Inl error \<Longrightarrow> replies NsQueue bs (decode_error_response bs error)"
  "decode_blob_request bs = Inl error \<Longrightarrow> replies NsBlob bs (blob_decode_error_response bs error)"
proof -
  show "replies NsQueue bs (decode_error_response bs error)" if "decode_request bs = Inl error"
    using that version_error_id(1) refusals_decode(1) [OF prefix_id [of bs], of _ None]
    by (cases error) (fastforce simp: decode_error_response_def preamble_id_prefix)+
  show "replies NsBlob bs (blob_decode_error_response bs error)" if "decode_blob_request bs = Inl error"
    using that version_error_id(2) refusals_decode(2) [OF prefix_id [of bs], of _ None]
    by (cases error) (auto simp: blob_decode_error_response_def preamble_id_prefix)
qed

section \<open>Bodies of executed requests\<close>

lemma fetched_id:
  assumes "rows_inv db" and "fst (Relay_fetch q p now (db_relay db)) = Inr (Some d)"
  shows "wf_MessageId (rd_id d)"
proof -
  obtain queue m rest where q: "queues (db_relay db) q = Some queue" and m: "filter (unexpired now) (q_messages queue) = m # rest" and d: "rd_id d = qm_id m"
    using assms(2) by (auto simp: Relay_fetch_def recipient_queue_def Let_def Queue_discard_expired_def split: option.splits sum.splits list.splits if_splits)
  then have "m \<in> row_message ` set (db_messages db)"
    using hd_filter_mem [OF m] by (auto simp: db_relay_def message_rows_def split: list.splits)
  with assms(1) d show ?thesis
    by (auto simp: rows_inv_def message_row_checks_def row_message_def wf_MessageId_def)
qed

lemma queue_body:
  assumes ok: "relay_ok db" and E: "fresh_rowids E" and wf: "wf_Request request" "validate_queue_request request = Inr ()"
    and body: "pure_tx (queue_effect (request, now)) E db = (Inr body, db')"
  shows "ResponseBody_command body = Request_command request \<and> wf_Response (RespSuccess body)"
proof -
  have inv: "db_inv db" "limits_small (db_relay db)" "relay_inv (db_relay db)" "rows_inv db"
    using ok by (simp_all add: relay_ok_def db_inv_def)
  obtain out r' where step: "relay_step (db_relay db) (now, request_event request) = (out, r')" by fastforce
  have out: "outcome_body out = Inr body"
    using execute_simulates [OF inv(1,2) E wf, of now] body step by (auto simp: executes_def split: sum.splits)
  show ?thesis
  proof (cases request)
    case (ReqFetch fetch)
    have "wf_MessageId (rd_id d) \<and> length (rd_payload d) \<le> MAX_MESSAGE_BYTES" if "fst (Relay_fetch (fr_queue_id fetch) (fr_recipient fetch) now (db_relay db)) = Inr (Some d)" for d
      using fetched_id [OF inv(4) that] fetched_fits [OF inv(3,2) that] by simp
    with out step show ?thesis
      by (cases out rule: outcome_body.cases) (auto simp: ReqFetch outcome_of_def wf_Payload_def split: prod.splits sum.splits)
  qed (use out step in \<open>auto simp: outcome_of_def split: prod.splits sum.splits\<close>)
qed

lemma chunk_size_bound: "wf_BlobManifest m \<Longrightarrow> unat (bm_chunk_size m) \<le> MAX_CHUNK_BYTES"
  unfolding wf_BlobManifest_def BlobManifest_parse_Inr by (auto simp: limits_valid_def)

lemma blob_body:
  assumes inv: "blob_inv sha (cn_db c)" and E: "scans_rows E" and body: "execute_blob_request sha E request now c = (Inr body, c')"
  shows "BlobResponseBody_command body = BlobRequest_command request \<and> wf_BlobResponseBody body"
proof (cases request)
  case (BrGetManifest b cap)
  with body show ?thesis
    by (auto simp: tx_map_ok_def res_simps get_blob_manifest_tx_def BlobManifest_parse_wf)
next
  case (BrGetChunk b cap i)
  then obtain x expiry c1 where x: "body = BrbGetChunk x expiry" and get: "get_blob_chunk_tx sha E b cap i now c = (Inr (x, expiry), c1)"
    using body by (auto simp: tx_map_ok_def res_simps)
  obtain r rest where r: "chunk_at b i (cn_db c) = r # rest" "x = cr_ciphertext r"
    using get authorize_grant_Inr(1) [OF _ E] unfolding get_blob_chunk_tx_def by (auto simp: res_simps) 
  have mem: "r \<in> set (db_chunks (cn_db c))"
    using hd_filter_mem [OF r(1) [unfolded chunk_at_def]] by simp
  then obtain obj where "obj \<in> set (db_objects (cn_db c))" "or_blob_id obj = cr_blob_id r"
    using inv unfolding blob_inv_def by (metis imageE)
  then obtain m where "BlobManifest_parse (or_manifest obj) = Inr m" "chunk_ok sha m (cr_chunk_index r) x"
    using inv mem r(2) unfolding blob_inv_def object_ok_def by metis
  then show ?thesis
    using chunk_size_bound [of m] by (simp add: BrGetChunk x chunk_ok_def BlobManifest_parse_wf)
qed (use body in \<open>auto simp: tx_map_ok_def res_simps\<close>)

lemma blob_effect_body:
  assumes "blob_inv sha db" and "scans_rows E" and "pure_tx (blob_effect sha (request, now)) E db = (Inr body, db')"
  shows "BlobResponseBody_command body = BlobRequest_command request \<and> wf_BlobResponseBody body"
proof -
  let ?p = "execute_blob_request sha (faultless E) request now \<lparr>cn_db = db, cn_calls = 0\<rparr>"
  have "fst ?p = Inr body"
    using assms(3) by (simp add: pure_tx_def seen_def tx_map_err_def res_simps split: prod.splits)
  then show ?thesis
    using blob_body [of sha "\<lparr>cn_db = db, cn_calls = 0\<rparr>" "faultless E" request now body "snd ?p"] assms(1,2) by (simp add: prod_eq_iff)
qed

section \<open>Recorded replies\<close>

context recorded_effect
begin

lemma frame_keeps_replies:
  assumes x: "answer_frame E ns s rid bs (exchange E ns s rid bs (eff r E) encode) conflict c = (res, c')"
    and old: "\<And>row. row \<in> set (replay_table ns (cn_db c)) \<Longrightarrow> P (rp_request row) (rp_response row)"
    and new: "P bs conflict" "\<And>e. P bs (encode (Inl e))" "\<And>v db. pure_tx (eff r) E (cn_db c) = (Inr v, db) \<Longrightarrow> P bs (encode (Inr v))"
  shows "(\<forall>resp. res = Inr resp \<longrightarrow> P bs resp) \<and> (\<forall>row \<in> set (replay_table ns (cn_db c')). P (rp_request row) (rp_response row))
    \<and> (ns' \<noteq> ns \<longrightarrow> replay_table ns' (cn_db c') = replay_table ns' (cn_db c))"
proof (rule frame_cases [OF x [symmetric]], goal_cases)
  case (2 row rest)
  then have "row \<in> set (replay_table ns (cn_db c))"
    using hd_filter_mem [of _ "replay_table ns (cn_db c)" row rest] by (simp add: Namespace_select_def)
  with 2 old new(1) show ?case by (auto simp: recorded_reply_def)
next
  case (3 resp db)
  have tables: "replay_table n db = replay_table n (cn_db c)" for n
    using 3(6) effect_keeps by blast
  have "P bs resp"
    using 3(6) new(2,3) by (cases "pure_tx (eff r) E (cn_db c)") (auto simp: committed_effect_def split: sum.splits EffectError.splits)
  with 3 old tables show ?case
    by (auto simp: replay_table_add replay_row_def)
qed (use old in auto)

end

definition replays_ok :: "Db \<Rightarrow> bool" where
  "replays_ok db \<longleftrightarrow> (\<forall>ns. \<forall>row \<in> set (replay_table ns db). replies ns (rp_request row) (rp_response row))"


lemma other_namespace: "replays_ok db \<Longrightarrow> (\<And>ns'. ns' \<noteq> ns \<Longrightarrow> replay_table ns' db' = replay_table ns' db)
  \<Longrightarrow> (\<And>row. row \<in> set (replay_table ns db') \<Longrightarrow> replies ns (rp_request row) (rp_response row)) \<Longrightarrow> replays_ok db'"
  unfolding replays_ok_def by metis

lemma tail_replies:
  assumes front: "front_section ed sv (ns, bs, now) = (Inr f, sv')" and ok: "store_ok sha256 (cn_db c)" "replays_ok (cn_db c)"
    and E: "fresh_rowids E" "scans_rows E" and tail: "passed_tail sha256 E bs now f c = (r, c')"
  shows "(\<forall>resp. r = Inr resp \<longrightarrow> replies ns bs resp) \<and> replays_ok (cn_db c')"
proof -
  have "(\<forall>resp. r = Inr resp \<longrightarrow> replies ns bs resp) \<and> (\<forall>row \<in> set (replay_table ns (cn_db c')). replies ns (rp_request row) (rp_response row))
      \<and> (ns' \<noteq> ns \<longrightarrow> replay_table ns' (cn_db c') = replay_table ns' (cn_db c))" for ns'
  proof (cases ns)
    case NsQueue
    then obtain d where d: "decode_request bs = Inr d" "f = QueueFrame (dr_frame d)" "validate_queue_request (rf_request (dr_frame d)) = Inr ()"
      using front by (auto simp: queue_front_def Let_def split: sum.splits prod.splits if_splits)
    have wf: "wf_RequestId (rf_request_id (dr_frame d))" "wf_Request (rf_request (dr_frame d))"
      using d(1) by (simp_all add: decode_request_exact wf_RequestFrame_def)
    have "replies NsQueue bs (error_response (rf_request_id (dr_frame d)) (Some (Request_command (rf_request (dr_frame d)))) status)" if "status \<noteq> StOk" for status
      using refusals_decode(1) [OF wf(1) that, of "Some (Request_command (rf_request (dr_frame d)))"] d(1) by fastforce
    moreover have "replies NsQueue bs (encode_queue_outcome (rf_request_id (dr_frame d)) (Request_command (rf_request (dr_frame d))) (Inr body))"
      if "pure_tx (queue_effect (rf_request (dr_frame d), now)) E (cn_db c) = (Inr body, db)" for body db
      using queue_body [OF _ E(1) wf(2) d(3) that] ok(1) wf(1) d(1)
      by (simp add: encode_queue_outcome_def encoded_response wf_ResponseFrame_def store_ok_def)
    ultimately show ?thesis
      unfolding NsQueue using ok(2)
      by (intro queue_records.frame_keeps_replies [OF tail [unfolded d(2) passed_tail.simps queue_tail_def]])
        (simp_all only: replays_ok_def refused_outcome status_not_ok Status.distinct BlobStatus.distinct not_False_eq_True simp_thms)
  next
    case NsBlob
    then obtain d where d: "decode_blob_request bs = Inr d" "f = BlobFrame (dbr_frame d)"
      using front by (auto simp: blob_front_def Let_def split: sum.splits prod.splits if_splits)
    have wf: "wf_RequestId (brf_request_id (dbr_frame d))"
      using d(1) by (simp_all add: decode_blob_request_exact wf_BlobRequestFrame_def)
    have "replies NsBlob bs (blob_error_response (brf_request_id (dbr_frame d)) (Some (BlobRequest_command (brf_request (dbr_frame d)))) status)" if "status \<noteq> BsOk" for status
      using refusals_decode(2) [OF wf that] d(1) by simp
    moreover have "replies NsBlob bs (encode_blob_outcome (brf_request_id (dbr_frame d)) (BlobRequest_command (brf_request (dbr_frame d))) (Inr body))"
      if "pure_tx (blob_effect sha256 (brf_request (dbr_frame d), now)) E (cn_db c) = (Inr body, db)" for body db
      using blob_effect_body [OF _ E(2) that] ok(1) wf d(1)
      by (simp add: encode_blob_outcome_def encoded_response wf_BlobResponseFrame_def wf_BlobResponse_def store_ok_def)
    ultimately show ?thesis
      unfolding NsBlob using ok(2)
      by (intro blob_records.frame_keeps_replies [OF tail [unfolded d(2) passed_tail.simps blob_tail_def]])
        (simp_all only: replays_ok_def refused_outcome status_not_ok Status.distinct BlobStatus.distinct not_False_eq_True simp_thms)
  qed
  then show ?thesis
    using other_namespace [OF ok(2)] by blast
qed

section \<open>Every answer is a reply\<close>

lemma front_replies:
  assumes "front_section ed sv (ns, bs, now) = (Inl (Inr resp), sv')"
  shows "replies ns bs resp"
proof (cases ns)
  case NsQueue
  show ?thesis
  proof (cases "decode_request bs")
    case (Inl error)
    with assms undecodable_replies(1) [OF Inl] show ?thesis by (simp add: NsQueue queue_front_def del: replies.simps)
  next
    case (Inr d)
    then have wf: "wf_RequestId (rf_request_id (dr_frame d))"
      by (simp add: decode_request_exact wf_RequestFrame_def)
    obtain status where "resp = error_response (rf_request_id (dr_frame d)) (Some (Request_command (rf_request (dr_frame d)))) status" "status \<noteq> StOk"
      using assms Inr by (auto simp: NsQueue queue_front_def Let_def dest: validate_not_ok split: sum.splits prod.splits if_splits)
    with refusals_decode(1) [OF wf, of status "Some (Request_command (rf_request (dr_frame d)))"] Inr show ?thesis
      by (fastforce simp: NsQueue)
  qed
next
  case NsBlob
  show ?thesis
  proof (cases "decode_blob_request bs")
    case (Inl error)
    with assms undecodable_replies(2) [OF Inl] show ?thesis by (simp add: NsBlob blob_front_def del: replies.simps)
  next
    case (Inr d)
    then have wf: "wf_RequestId (brf_request_id (dbr_frame d))"
      by (simp add: decode_blob_request_exact wf_BlobRequestFrame_def)
    have "resp = blob_error_response (brf_request_id (dbr_frame d)) (Some (BlobRequest_command (brf_request (dbr_frame d)))) BsAuthInvalid"
      using assms Inr by (auto simp: NsBlob blob_front_def Let_def split: sum.splits prod.splits if_splits)
    with refusals_decode(2) [OF wf] Inr show ?thesis by (simp add: NsBlob)
  qed
qed

lemma serve_replies:
  assumes serve: "serve ed sha256 E sv (ns, bs, now) = (r, sv')" and ok: "store_ok sha256 (cn_db (sv_relay sv))" "replays_ok (cn_db (sv_relay sv))"
    and E: "fresh_rowids E" "scans_rows E"
  shows "(\<forall>resp. r = Inr resp \<longrightarrow> replies ns bs resp) \<and> replays_ok (cn_db (sv_relay sv'))"
proof (cases "front_section ed sv (ns, bs, now)")
  case (Pair v sv1)
  note keeps = front_keeps [OF Pair]
  show ?thesis
  proof (cases v)
    case (Inl r')
    then have "r' = r" "sv1 = sv'"
      using serve Pair by (simp_all add: serve_sections del: serve.simps front_section.simps)
    with Pair Inl front_replies [of ed sv ns bs now] keeps ok(2) show ?thesis by auto
  next
    case (Inr f)
    obtain r1 c1 where tail: "passed_tail sha256 E bs now f (sv_relay sv) = (r1, c1)" by fastforce
    have "relay_section sha256 E sv1 (ns, bs, now) f = (r, sv')"
      using serve Pair Inr by (simp add: serve_sections del: serve.simps front_section.simps)
    with tail keeps tail_replies [OF Pair [unfolded Inr] ok E tail] ok(2) show ?thesis
      by (auto simp: relay_section_def simp del: replies.simps passed_tail.simps split: if_splits)
  qed
qed

context frame_server
begin

lemma run_replies:
  assumes E: "fresh_rowids E" "scans_rows E"
  shows "store_ok sha256 (cn_db (conn s)) \<Longrightarrow> replays_ok (cn_db (conn s)) \<Longrightarrow>
    ((ns, bs, now), Inr resp) \<in> set (zip calls (fst (run_steps step s calls))) \<Longrightarrow> replies ns bs resp"
proof (induction calls arbitrary: s)
  case (Cons call calls)
  obtain ns' bs' now' where call: "call = (ns', bs', now')" by (cases call)
  obtain r s1 where st: "step s call = (r, s1)" by fastforce
  obtain sv sv1 where sv: "serve ed sha256 E sv call = (r, sv1)" "sv_relay sv = conn s" "sv_relay sv1 = conn s1"
    by (rule step_served [OF st])
  have ok: "store_ok sha256 (cn_db (conn s1))"
    using serve_keeps [OF sv(1) E] Cons.prems(1) sv by simp
  have head: "(\<forall>resp. r = Inr resp \<longrightarrow> replies ns' bs' resp) \<and> replays_ok (cn_db (conn s1))"
    using serve_replies [OF sv(1) [unfolded call] _ _ E] Cons.prems(1,2) sv(2,3) by simp
  have "((ns, bs, now), Inr resp) = (call, r) \<or> ((ns, bs, now), Inr resp) \<in> set (zip calls (fst (run_steps step s1 calls)))"
    using Cons.prems(3) by (simp add: st run_steps_Cons del: run_steps.simps(2))
  with head Cons.IH [OF ok] show ?case by (auto simp: call simp del: replies.simps)
qed simp

end




end
