(* ===== verification/CW_Line_Relay.thy ===== *)
theory CW_Line_Relay
  imports CW_Service
begin

text \<open>
  The line transport of \<open>apps/cofferwired/src/bin/cofferwire-line-relay.rs\<close> and the two deterministic entry points
  of the service that it and the conformance runners use: a line holds a clock reading and a frame in
  hexadecimal, and gets the answer in hexadecimal. Lines are the bytes of their text; standard input and output
  are lists of lines.
\<close>

section \<open>Deterministic entry points\<close>

datatype FrameExchangeError = FrameExchangeError

definition exchange_frame_at :: "Ed25519 \<Rightarrow> Engine \<Rightarrow> RelayService \<Rightarrow> bytes \<Rightarrow> u64 \<Rightarrow> (FrameExchangeError, bytes) result \<times> RelayService" where
  "exchange_frame_at ed E sv bs now_seconds =
     (let (r, sv) = exchange_at ed E sv bs (Timestamp now_seconds) in (map_err (\<lambda>_. FrameExchangeError) r, sv))"

definition exchange_blob_frame_at ::
    "Ed25519 \<Rightarrow> (bytes \<Rightarrow> bytes) \<Rightarrow> Engine \<Rightarrow> RelayService \<Rightarrow> bytes \<Rightarrow> u64 \<Rightarrow> (FrameExchangeError, bytes) result \<times> RelayService" where
  "exchange_blob_frame_at ed sha256 E sv bs now_seconds =
     (let (r, sv) = exchange_blob_at ed sha256 E sv bs (Timestamp now_seconds) in (map_err (\<lambda>_. FrameExchangeError) r, sv))"

section \<open>Numbers in text\<close>

text \<open>
  \<open>char::to_digit\<close>, and the standard parse of an unsigned number: an optional plus sign and at least one digit,
  each step checked against the largest value.
\<close>

definition to_digit :: "nat \<Rightarrow> u8 \<Rightarrow> nat option" where
  "to_digit radix b =
     (let n = unat b;
          d = (if 48 \<le> n \<and> n \<le> 57 then n - 48 else if 97 \<le> n \<and> n \<le> 122 then n - 87 else if 65 \<le> n \<and> n \<le> 90 then n - 55 else 36)
      in if d < radix then Some d else None)"

fun parse_digits :: "nat \<Rightarrow> nat \<Rightarrow> nat \<Rightarrow> bytes \<Rightarrow> nat option" where
  "parse_digits radix largest acc [] = Some acc"
| "parse_digits radix largest acc (b # bs) =
     (case to_digit radix b of
        None \<Rightarrow> None
      | Some d \<Rightarrow> if acc * radix + d > largest then None else parse_digits radix largest (acc * radix + d) bs)"

definition from_str_radix :: "nat \<Rightarrow> nat \<Rightarrow> bytes \<Rightarrow> nat option" where
  "from_str_radix radix largest bs =
     (case bs of
        [] \<Rightarrow> None
      | b # rest \<Rightarrow> if b = 43 then (if rest = [] then None else parse_digits radix largest 0 rest) else parse_digits radix largest 0 bs)"

section \<open>Lines\<close>

datatype line_error = MissingSeparator | OddLength | InvalidHex | InvalidTime | ExchangeFailed

text \<open>A pair that is not UTF-8 is no number either, so both failures of a pair are one.\<close>

fun decode_pairs :: "bytes \<Rightarrow> (line_error, bytes) result" where
  "decode_pairs (h # l # rest) =
     (case from_str_radix 16 255 [h, l] of
        None \<Rightarrow> Inl InvalidHex
      | Some n \<Rightarrow> map_ok (\<lambda>bs. word_of_nat n # bs) (decode_pairs rest))"
| "decode_pairs _ = Inr []"

definition decode_hex :: "bytes \<Rightarrow> (line_error, bytes) result" where
  "decode_hex value = (if length value mod 2 \<noteq> 0 then Inl OddLength else decode_pairs value)"

definition hex_digit :: "nat \<Rightarrow> u8" where
  "hex_digit d = (if d < 10 then word_of_nat (48 + d) else word_of_nat (87 + d))"

definition encode_hex :: "bytes \<Rightarrow> bytes" where
  "encode_hex bs = foldl (\<lambda>output byte. output @ [hex_digit (unat byte div 16), hex_digit (unat byte mod 16)]) [] bs"

fun split_once :: "u8 \<Rightarrow> bytes \<Rightarrow> (bytes \<times> bytes) option" where
  "split_once sep [] = None"
| "split_once sep (b # bs) = (if b = sep then Some ([], bs) else map_option (\<lambda>(l, r). (b # l, r)) (split_once sep bs))"

text \<open>The arguments of the call are evaluated in order: the frame first, then the clock reading.\<close>

definition relay_line :: "Ed25519 \<Rightarrow> Engine \<Rightarrow> RelayService \<Rightarrow> bytes \<Rightarrow> (line_error, bytes) result \<times> RelayService" where
  "relay_line ed E sv line =
     (case split_once 32 line of
        None \<Rightarrow> (Inl MissingSeparator, sv)
      | Some (now, frame) \<Rightarrow>
          case decode_hex frame of
            Inl e \<Rightarrow> (Inl e, sv)
          | Inr bs \<Rightarrow>
              case from_str_radix 10 u64_max now of
                None \<Rightarrow> (Inl InvalidTime, sv)
              | Some now \<Rightarrow>
                  let (r, sv) = exchange_frame_at ed E sv bs (word_of_nat now) in
                  (map_err (\<lambda>_. ExchangeFailed) (map_ok encode_hex r), sv))"

fun relay_lines :: "Ed25519 \<Rightarrow> Engine \<Rightarrow> RelayService \<Rightarrow> bytes list \<Rightarrow> (bytes list \<times> line_error option) \<times> RelayService" where
  "relay_lines ed E sv [] = (([], None), sv)"
| "relay_lines ed E sv (line # lines) =
     (case relay_line ed E sv line of
        (Inl e, sv) \<Rightarrow> (([], Some e), sv)
      | (Inr out, sv) \<Rightarrow> let ((outs, e), sv) = relay_lines ed E sv lines in ((out # outs, e), sv))"

section \<open>What a line carries\<close>

lemma to_digit_hex: "d < 16 \<Longrightarrow> to_digit 16 (hex_digit d) = Some d" "d < 16 \<Longrightarrow> hex_digit d \<noteq> 43 \<and> hex_digit d \<noteq> 32"
proof -
  assume "d < 16"
  then have "d = 0 \<or> d = 1 \<or> d = 2 \<or> d = 3 \<or> d = 4 \<or> d = 5 \<or> d = 6 \<or> d = 7
      \<or> d = 8 \<or> d = 9 \<or> d = 10 \<or> d = 11 \<or> d = 12 \<or> d = 13 \<or> d = 14 \<or> d = 15" by arith
  then show "to_digit 16 (hex_digit d) = Some d" "hex_digit d \<noteq> 43 \<and> hex_digit d \<noteq> 32"
    by (elim disjE; simp add: to_digit_def hex_digit_def)+
qed

lemma foldl_appends: "foldl (\<lambda>out x. out @ h x) acc xs = acc @ concat (map h xs)"
  by (induction xs arbitrary: acc) simp_all

lemma encode_hex_simps [simp]:
  "encode_hex [] = []"
  "encode_hex (b # bs) = hex_digit (unat b div 16) # hex_digit (unat b mod 16) # encode_hex bs"
  by (simp_all add: encode_hex_def foldl_appends [where h = "\<lambda>b. [hex_digit (unat b div 16), hex_digit (unat b mod 16)]"])

lemma byte_nibbles: "unat (b :: u8) div 16 < 16" "unat b div 16 * 16 + unat b mod 16 = unat b" "unat b \<le> 255"
proof -
  have "unat b < 256" using unsigned_less [of b] by simp
  then show "unat b div 16 < 16" "unat b div 16 * 16 + unat b mod 16 = unat b" "unat b \<le> 255" by presburger+
qed

lemma pair_of_byte: "from_str_radix 16 255 [hex_digit (unat (b :: u8) div 16), hex_digit (unat b mod 16)] = Some (unat b)"
  using byte_nibbles [of b] by (simp add: from_str_radix_def to_digit_hex)

lemma hex_roundtrip: "decode_hex (encode_hex bs) = Inr bs"
proof -
  have "length (encode_hex bs) mod 2 = 0" "decode_pairs (encode_hex bs) = Inr bs"
    by (induction bs) (simp_all add: pair_of_byte)
  then show ?thesis by (simp add: decode_hex_def)
qed

text \<open>The parse accepts no separator, so the first space of a line ends its clock reading.\<close>

lemma parse_digits_no_space: "radix \<le> 16 \<Longrightarrow> parse_digits radix largest acc bs = Some n \<Longrightarrow> 32 \<notin> set bs"
  by (induction radix largest acc bs rule: parse_digits.induct) (auto simp: to_digit_def Let_def split: option.splits if_splits)

lemma parsed_no_space: "from_str_radix 10 largest bs = Some n \<Longrightarrow> 32 \<notin> set bs"
  by (cases bs) (auto simp: from_str_radix_def simp del: parse_digits.simps dest: parse_digits_no_space [rotated] split: if_splits)

lemma split_once_exact: "sep \<notin> set l \<Longrightarrow> split_once sep (l @ sep # r) = Some (l, r)"
  by (induction l) auto

lemma line_carries_frame:
  assumes "from_str_radix 10 u64_max now = Some n"
  shows "relay_line ed E sv (now @ 32 # encode_hex bs) =
    map_prod (\<lambda>r. map_err (\<lambda>_. ExchangeFailed) (map_ok encode_hex r)) (\<lambda>sv. sv) (exchange_frame_at ed E sv bs (word_of_nat n))"
  using assms parsed_no_space [OF assms] by (simp add: relay_line_def split_once_exact hex_roundtrip split: prod.split)

text \<open>A plus sign is taken for a digit of a byte.\<close>

lemma sign_in_hex: "decode_hex [43, 102] = Inr [15]"
  by (simp add: decode_hex_def from_str_radix_def to_digit_def)

end
