(* ===== verification/Spec2Isabelle.thy ===== *)
theory Spec2Isabelle
  imports CW_Prelude CW_Types CW_Cbor CW_Codec CW_Relay CW_Blob_Codec CW_Blob_Runs CW_Rate_Limit CW_Crypto CW_Blob_Crypto CW_Service
    CW_Client CW_Offline CW_Blob_Client CW_Blob_Upload CW_Blob_Download
    CW_Service_Refines CW_Delivery CW_Blob_Delivery CW_Transport CW_Http CW_Concurrent CW_Recovery CW_Answers CW_Line_Relay
begin

text \<open>
  A verification development of Cofferwire, a relay that stores opaque messages and encrypted objects for
  recipients that are offline. Paths are those of the repository.

  \<^bold>\<open>The program.\<close> A client (\<open>crates/cofferwire-client\<close>) seals a message or an object
  (\<open>crates/cofferwire-crypto\<close>), encodes a signed request frame (\<open>crates/cofferwire-codec\<close> over the types of
  \<open>crates/cofferwire-types\<close>) and hands it to a transport of the daemon (\<open>apps/cofferwired\<close>). The daemon's
  service decodes the frame, checks its proof, limits the rate of its author and executes it against the
  durable relay (\<open>crates/cofferwire-relay\<close>), which keeps queues, objects and the answers already given in
  one SQLite database. There are two protocols: queues (messages in order, fetched and acknowledged) and blobs
  (objects in chunks, under capabilities).

  \<^bold>\<open>Theories and sources.\<close>
  \<^item> \<open>CW_Prelude\<close>: results, checked arithmetic, slices, byte orders; the collection \<open>res_simps\<close>.
  \<^item> \<open>CW_Types\<close>, \<open>CW_Blob_Types\<close>: \<open>cofferwire-types\<close> (identifiers, limits, bodies, statuses; \<open>blob.rs\<close>).
  \<^item> \<open>CW_Cbor\<close>, \<open>CW_Codec\<close>, \<open>CW_Blob_Codec\<close>: \<open>cofferwire-codec\<close> (\<open>cbor.rs\<close>, \<open>lib.rs\<close>, \<open>blob.rs\<close>).
  \<^item> \<open>CW_Relay_Data\<close>, \<open>CW_Relay\<close>: the in-memory relay of \<open>cofferwire-relay/src/lib.rs\<close>; \<open>CW_Mailbox\<close> is the
    abstract specification of a relay, with no counterpart in the code.
  \<^item> \<open>CW_Sqlite\<close>: tables, transactions, statements and error codes as \<open>durable.rs\<close> uses them; \<open>CW_Durable\<close>
    its queue operations, statement by statement; \<open>CW_Durable_Refines\<close> their refinement.
  \<^item> \<open>CW_Replay\<close>: \<open>replay.rs\<close> and the queue exchange; \<open>CW_Blob_Store\<close>: \<open>durable_blob.rs\<close>, with
    \<open>CW_Blob_Objects\<close> (the invariants of its tables) and \<open>CW_Blob_Runs\<close> (every reachable state).
  \<^item> \<open>CW_Crypto\<close>, \<open>CW_Blob_Crypto\<close>: \<open>cofferwire-crypto\<close> (\<open>lib.rs\<close>, \<open>receipt.rs\<close>, \<open>blob.rs\<close>).
  \<^item> \<open>CW_Rate_Limit\<close>, \<open>CW_Service\<close>, \<open>CW_Transport\<close> and \<open>CW_Http\<close>, \<open>CW_Line_Relay\<close>: \<open>cofferwired\<close> (\<open>rate_limit.rs\<close>,
    \<open>lib.rs\<close>, \<open>transport.rs\<close> with \<open>connection_limit.rs\<close>, \<open>bin/cofferwire-line-relay.rs\<close>);
    \<open>CW_Service_Refines\<close> relates the service to the mailboxes, \<open>CW_Concurrent\<close> the interleaved commands of
    the transports; \<open>CW_Recovery\<close> is about storage errors and \<open>CW_Answers\<close> about what goes back on the wire.
  \<^item> \<open>CW_Client\<close>, \<open>CW_Offline\<close>, \<open>CW_Blob_Client\<close>: \<open>cofferwire-client\<close> (\<open>lib.rs\<close> with \<open>receipt.rs\<close>,
    \<open>offline.rs\<close>, \<open>blob.rs\<close>); \<open>CW_Blob_Upload\<close> and \<open>CW_Blob_Download\<close> are about runs of the blob client,
    \<open>CW_Delivery\<close> (messages) and \<open>CW_Blob_Delivery\<close> (objects) about clients and service together.

  \<^bold>\<open>How code is modelled.\<close> A struct is a record, an enum a datatype, an array or vector of bytes a list of
  8-bit words, a \<open>u32\<close> or \<open>u64\<close> a word of its width. \<open>Result\<close> is a sum with the error on the left, and the
  question mark operator is \<open>res_bind\<close>. Methods that change state return it. Loops are structural or well-founded
  recursions, so no definition has fuel. An \<open>expect\<close> is a projection that a lemma shows is never applied to an
  error, or an option whose empty value stands for the panic. Additions of clock readings in the rate limiter wrap,
  as in a release build; \<open>usize\<close> has 64 bits. A constructor that validates leaves a predicate \<open>wf_\<dots>\<close>, which
  decoding establishes.

  \<^bold>\<open>Parameters.\<close> Third-party code is an argument, with its documented behaviour as a named predicate, and an
  example instance that satisfies it:
  \<^item> the database engine (\<open>Engine\<close>): which statements and commits fail, the rowids and scan orders it chooses.
    Safety is shown for every engine; \<open>fresh_rowids\<close> (a new rowid exceeds those in the table) and
    \<open>scans_rows\<close> (a scan returns the rows) are assumed where stated;
  \<^item> Ed25519, HPKE, and SHA-256, HKDF and ChaCha20-Poly1305 with the generator (\<open>Ed25519\<close>, \<open>Hpke\<close>,
    \<open>Primitives\<close>): correct round trips and lengths. Where collision freedom matters, \<open>unique_digests\<close> states it for
    the digests concerned. Nothing is claimed of secrecy or unforgeability;
  \<^item> what the application supplies to the client: a transport, an identifier source and stores. Safety holds for
    every transport; \<open>inbox_laws\<close> and \<open>upload_store_laws\<close> say that a store which reports a commit has made it;
  \<^item> the semaphore of the asynchronous runtime (\<open>semaphore_laws\<close>) and the HTTP framework that dispatches requests
    by the table of routes (\<open>framework_laws\<close>).

  \<^bold>\<open>Interfaces.\<close> \<open>item_codec\<close> (a decoder accepts exactly the encodings) is interpreted for every item and body
  of both protocols, so the frame theorems are compositions. \<open>mailbox_store\<close> and \<open>mailbox_service\<close> (a store that
  implements the mailboxes) are interpreted by the in-memory relay and, through \<open>fresh_engine\<close>, by the durable
  one; guarantees proved once over them hold of both. \<open>recorded_effect\<close> (an effect executed with its replay
  record) is interpreted for the queue and the blob namespace. \<open>frame_server\<close> (every step does what the service
  does on the same database) is interpreted by the service itself and by the order in which concurrent commands
  are answered; what is proved of a run of frames holds of both.

  \<^bold>\<open>What is shown.\<close>
  \<^item> \<^emph>\<open>End to end\<close>: a message sent through the service to an idle queue is received, applied and
    acknowledged (\<open>CW_Delivery\<close>); an object uploaded through it chunk by chunk is downloaded as it was
    (\<open>CW_Blob_Delivery\<close>).
  \<^item> \<^emph>\<open>The daemon\<close>: the service with all its layers answers as the mailboxes do (\<open>CW_Service_Refines\<close>);
    commands that run concurrently are answered as if they ran one by one, and load stays within its bounds
    (\<open>CW_Transport\<close>), so racing copies of a frame have one effect and no two answers and the mailboxes are implemented
    under every interleaving (\<open>CW_Concurrent\<close>); a storage error is only ever the fault of the storage, and ends
    with it (\<open>CW_Recovery\<close>); every answer is a well-formed response to its frame, if the frame has room for an identifier (\<open>CW_Answers\<close>); HTTP requests
    reach the service only as frames within their bounds (\<open>CW_Http\<close>).
  \<^item> \<^emph>\<open>Relay\<close>: an accepted message is held until it expires or its recipient, and nobody else, acknowledges it
    or deletes the queue; messages are delivered unchanged and in the order of acceptance, and are removed only
    after delivery; the durable relay refines the same specification under every fault and agrees with the
    in-memory relay without faults; commands are atomic; an effect and its replay record commit together. The
    refinements assume a clock that does not go backwards, and the order of deliveries that no earlier command
    carried a later time; that nothing is lost, where deliveries come from and what can be acknowledged is shown
    for any times.
  \<^item> \<^emph>\<open>Codec\<close>: bytes decode exactly when they are the encoding of a well-formed frame, for both protocols and
    for the persisted formats of the client; the frame bound is tight.
  \<^item> \<^emph>\<open>Blobs\<close>: objects that can be read are complete, match their identity and never change; live grants are
    served with all their chunks; a deletion takes exactly its grant, for good; sealed objects open; uploads with failures and restarts send one fixed
    frame per stage and end; a download returns the original or nothing.
  \<^item> \<^emph>\<open>Service and client\<close>: only a proven request changes the database; an answer, once given, is repeated
    byte for byte or refused; no author exceeds its budget in a window; a client acknowledges only what its store committed
    and applies no message twice; bundles, messages and receipts round trip.

  \<^bold>\<open>Concurrency.\<close> A command takes the lock of a rate limiter and then that of the relay. \<open>CW_Transport\<close> splits
  the exchange of \<open>CW_Service\<close> at the second lock, shows that the two sections compose to it, and lets the
  sections of up to 64 commands interleave in any order, with clock readings of their own. The poisoned state of
  a lock is a field of the model; no operation of the model sets it, since none panics.

  \<^bold>\<open>Not modelled.\<close> The third-party code above, TLS, process
  start-up (\<open>main.rs\<close>), reading the system clock, opening the database file and the settings of
  the connection, texts of errors and debug output, the crash points compiled in for tests, and the tests. What
  those would add is I/O or configuration; the rest of the implementation is covered.
\<close>

end
